(* ===== verification/Prelude.thy ===== *)
theory Prelude
  imports "HOL-Library.Word"
begin

text \<open>
  Shared vocabulary of the development: the C integer types as words, the C shift
  operators, single-bit tests, the error type of the code that can call
  \<open>fatal\<close>, the generic lemmas on words and lists that the component theories use,
  and the locale \<open>masked_view\<close> of a register that is a window on selected bits of
  another one (sstatus on mstatus, sie on mie, fflags and frm on fcsr).
\<close>

unbundle bit_operations_syntax

section \<open>C integer types and shifts\<close>

type_synonym u8 = "8 word"
type_synonym u16 = "16 word"
type_synonym u32 = "32 word"
type_synonym u64 = "64 word"

text \<open>
  \<open>fatal\<close> (src/logger.c) logs its message and calls \<open>exit(-1)\<close>: code that can
  reach it returns a sum, with the message on the left.
\<close>

type_synonym 'a res = "string + 'a"

abbreviation shl :: "'a::len word \<Rightarrow> nat \<Rightarrow> 'a word" where
  "shl x n \<equiv> push_bit n x"

abbreviation shr :: "'a::len word \<Rightarrow> nat \<Rightarrow> 'a word" where
  "shr x n \<equiv> drop_bit n x"

abbreviation sar :: "'a::len word \<Rightarrow> nat \<Rightarrow> 'a word" where
  "sar x n \<equiv> signed_drop_bit n x"

section \<open>Collections\<close>

named_theorems flag_simps \<open>tests of one bit written with a C mask\<close>
named_theorems frame \<open>fields an operation leaves alone\<close>
named_theorems inv_rules \<open>preservation of the machine invariant\<close>

section \<open>Words\<close>

lemma word32_eq_iff: "(x = (y :: u32)) \<longleftrightarrow> (\<forall>n<32. bit x n = bit y n)"
  by (auto intro: bit_word_eqI)

lemma word64_eq_iff: "(x = (y :: u64)) \<longleftrightarrow> (\<forall>n<64. bit x n = bit y n)"
  by (auto intro: bit_word_eqI)

lemma word8_eq_iff: "(x = (y :: u8)) \<longleftrightarrow> (\<forall>n<8. bit x n = bit y n)"
  by (auto intro: bit_word_eqI)

lemma all_less_numeral_simps:
  "(\<forall>n<numeral k. P n) \<longleftrightarrow> P (pred_numeral k) \<and> (\<forall>n<pred_numeral k. P n)" for P :: "nat \<Rightarrow> bool"
  by (simp add: numeral_eq_Suc All_less_Suc)

lemma all_less_8:
  "(\<forall>n<8. P n) \<longleftrightarrow> P 0 \<and> P 1 \<and> P 2 \<and> P 3 \<and> P 4 \<and> P 5 \<and> P 6 \<and> P 7" for P :: "nat \<Rightarrow> bool"
  by (auto simp: numeral_eq_Suc All_less_Suc)

lemma all_less_16:
  "(\<forall>n<16. P n) \<longleftrightarrow> (\<forall>n<8. P n) \<and> (\<forall>n<8. P (n + 8))" for P :: "nat \<Rightarrow> bool"
proof (intro iffI conjI allI impI)
  fix n :: nat
  assume "(\<forall>n<8. P n) \<and> (\<forall>n<8. P (n + 8))" and "n < 16"
  then show "P n" by (cases "n < 8") (auto dest: spec [of _ "n - 8"])
qed auto

lemma all_less_32:
  "(\<forall>n<32. P n) \<longleftrightarrow> (\<forall>n<16. P n) \<and> (\<forall>n<16. P (n + 16))" for P :: "nat \<Rightarrow> bool"
proof (intro iffI conjI allI impI)
  fix n :: nat
  assume "(\<forall>n<16. P n) \<and> (\<forall>n<16. P (n + 16))" and "n < 32"
  then show "P n" by (cases "n < 16") (auto dest: spec [of _ "n - 16"])
qed auto

lemma all_less_64:
  "(\<forall>n<64. P n) \<longleftrightarrow> (\<forall>n<32. P n) \<and> (\<forall>n<32. P (n + 32))" for P :: "nat \<Rightarrow> bool"
proof (intro iffI conjI allI impI)
  fix n :: nat
  assume "(\<forall>n<32. P n) \<and> (\<forall>n<32. P (n + 32))" and "n < 64"
  then show "P n" by (cases "n < 32") (auto dest: spec [of _ "n - 32"])
qed auto

text \<open>Bit by bit equality of 32-bit words whose bits the simplifier can compute.\<close>

lemmas word32_bits = word32_eq_iff all_less_32 all_less_16 all_less_8

lemmas word64_bits = word64_eq_iff all_less_64 all_less_32 all_less_16 all_less_8

lemmas word8_bits = word8_eq_iff all_less_8

lemma and_exp_test: "(x AND 2 ^ n = 0) \<longleftrightarrow> \<not> bit x n" for x :: "'a::len word"
  by (rule and_exp_eq_0_iff_not_bit)

lemma flag_0 [flag_simps]: "((x :: u32) AND 1 = 0) \<longleftrightarrow> \<not> bit x 0"
  using and_exp_test [of x 0] by simp

lemma flag_tests [flag_simps]:
  "((x :: u32) AND 2 = 0) \<longleftrightarrow> \<not> bit x 1"
  "(x AND 4 = 0) \<longleftrightarrow> \<not> bit x 2"
  "(x AND 8 = 0) \<longleftrightarrow> \<not> bit x 3"
  "(x AND 0x10 = 0) \<longleftrightarrow> \<not> bit x 4"
  "(x AND 0x20 = 0) \<longleftrightarrow> \<not> bit x 5"
  "(x AND 0x40 = 0) \<longleftrightarrow> \<not> bit x 6"
  "(x AND 0x80 = 0) \<longleftrightarrow> \<not> bit x 7"
  "(x AND 0x100 = 0) \<longleftrightarrow> \<not> bit x 8"
  "(x AND 0x200 = 0) \<longleftrightarrow> \<not> bit x 9"
  "(x AND 0x400 = 0) \<longleftrightarrow> \<not> bit x 10"
  "(x AND 0x800 = 0) \<longleftrightarrow> \<not> bit x 11"
  "(x AND 0x1000 = 0) \<longleftrightarrow> \<not> bit x 12"
  using and_exp_test [of x 1] and_exp_test [of x 2] and_exp_test [of x 3] and_exp_test [of x 4]
    and_exp_test [of x 5] and_exp_test [of x 6] and_exp_test [of x 7] and_exp_test [of x 8]
    and_exp_test [of x 9] and_exp_test [of x 10] and_exp_test [of x 11] and_exp_test [of x 12]
  by simp_all

lemma flag_tests_high [flag_simps]:
  "((x :: u32) AND 0x20000 = 0) \<longleftrightarrow> \<not> bit x 17"
  "(x AND 0x40000 = 0) \<longleftrightarrow> \<not> bit x 18"
  "(x AND 0x80000 = 0) \<longleftrightarrow> \<not> bit x 19"
  "(x AND 0x100000 = 0) \<longleftrightarrow> \<not> bit x 20"
  "(x AND 0x200000 = 0) \<longleftrightarrow> \<not> bit x 21"
  "(x AND 0x400000 = 0) \<longleftrightarrow> \<not> bit x 22"
  "(x AND 0x80000000 = 0) \<longleftrightarrow> \<not> bit x 31"
  using and_exp_test [of x 17] and_exp_test [of x 18] and_exp_test [of x 19] and_exp_test [of x 20]
    and_exp_test [of x 21] and_exp_test [of x 22] and_exp_test [of x 31]
  by simp_all

lemma and_1F: "x AND 0x1F = take_bit 5 x" for x :: "'a::len word"
proof -
  have "(0x1F :: 'a word) = mask 5" by (simp add: mask_eq_exp_minus_1)
  then show ?thesis by (simp only: take_bit_eq_mask)
qed

lemma and_mask_less: "x AND m \<le> m" for x m :: "'a::len word"
  by (rule word_and_le1)

lemma and_mask_bound: "m < b \<Longrightarrow> x AND m < b" for x m b :: "'a::len word"
  by (rule order_le_less_trans [OF word_and_le1])

lemma and_not_le: "x AND NOT m \<le> x" for x m :: "'a::len word"
  by (rule word_and_le2)

section \<open>Lists and association lists\<close>

lemma length_filter_update:
  assumes "i < length xs"
  shows "length (filter P (xs[i := x])) + (if P (xs ! i) then 1 else 0) =
         length (filter P xs) + (if P x then 1 else 0)"
  using assms
proof (induction xs arbitrary: i)
  case (Cons y ys)
  then show ?case by (cases i) auto
qed simp

lemma map_of_eq_Some_iff_unique:
  assumes "\<And>v w. (k, v) \<in> set xs \<Longrightarrow> (k, w) \<in> set xs \<Longrightarrow> v = w"
  shows "map_of xs k = Some v \<longleftrightarrow> (k, v) \<in> set xs"
proof
  assume "(k, v) \<in> set xs"
  then obtain w where "map_of xs k = Some w"
    by (metis map_of_eq_None_iff not_Some_eq fst_conv image_eqI)
  with assms \<open>(k, v) \<in> set xs\<close> show "map_of xs k = Some v"
    by (metis map_of_SomeD)
qed (rule map_of_SomeD)

section \<open>Registers that are views of other registers\<close>

text \<open>
  A view reads and writes the bits \<open>m\<close> of an underlying 32-bit register, found in a state by
  \<open>base\<close>, and leaves its other bits alone. The laws say what a read returns and what a write
  stores, in the states \<open>ok\<close>; the lemmas are the lens laws a client of the view uses.
\<close>

locale masked_view =
  fixes view_get :: "'s \<Rightarrow> u32"
    and view_put :: "u32 \<Rightarrow> 's \<Rightarrow> 's"
    and base :: "'s \<Rightarrow> u32"
    and m :: u32
    and ok :: "'s \<Rightarrow> bool"
  assumes get_mask: "ok s \<Longrightarrow> view_get s = base s AND m"
    and put_mask: "ok s \<Longrightarrow> base (view_put v s) = (base s AND NOT m) OR (v AND m)"
    and ok_put: "ok s \<Longrightarrow> ok (view_put v s)"
begin

lemma get_put: "ok s \<Longrightarrow> view_get (view_put v s) = v AND m"
  by (rule bit_word_eqI) (auto simp: get_mask put_mask ok_put bit_simps)

lemma put_get: "ok s \<Longrightarrow> base (view_put (view_get s) s) = base s"
  by (rule bit_word_eqI) (auto simp: get_mask put_mask bit_simps)

lemma put_put: "ok s \<Longrightarrow> base (view_put v (view_put w s)) = base (view_put v s)"
  by (rule bit_word_eqI) (auto simp: put_mask ok_put bit_simps)

lemma put_outside: "ok s \<Longrightarrow> base (view_put v s) AND NOT m = base s AND NOT m"
  by (rule bit_word_eqI) (auto simp: put_mask bit_simps)

end

section \<open>Stores of keyed values\<close>

text \<open>
  The contract of a mutable map from keys to values: what a lookup returns after each
  operation, and that every operation keeps the store well formed. \<open>store_op\<close> and
  \<open>run_store_op\<close> drive a store by a sequence of operations; \<open>run_map_op\<close> is the same
  sequence on the finite map it stands for.
\<close>

datatype ('k, 'v) store_op = Store_Put 'k 'v | Store_Remove 'k | Store_Clear

fun run_map_op :: "('k, 'v) store_op \<Rightarrow> ('k \<rightharpoonup> 'v) \<Rightarrow> ('k \<rightharpoonup> 'v)" where
  "run_map_op (Store_Put k v) f = f(k \<mapsto> v)"
| "run_map_op (Store_Remove k) f = f(k := None)"
| "run_map_op Store_Clear f = Map.empty"

fun run_store_op :: "('m \<Rightarrow> 'k \<Rightarrow> 'v \<Rightarrow> 'm) \<Rightarrow> ('m \<Rightarrow> 'k \<Rightarrow> 'm) \<Rightarrow> ('m \<Rightarrow> 'm) \<Rightarrow>
    ('k, 'v) store_op \<Rightarrow> 'm \<Rightarrow> 'm" where
  "run_store_op put del clr (Store_Put k v) m = put m k v"
| "run_store_op put del clr (Store_Remove k) m = del m k"
| "run_store_op put del clr Store_Clear m = clr m"

locale key_store =
  fixes new :: "'m"
    and look :: "'m \<Rightarrow> 'k \<Rightarrow> 'v option"
    and put :: "'m \<Rightarrow> 'k \<Rightarrow> 'v \<Rightarrow> 'm"
    and del :: "'m \<Rightarrow> 'k \<Rightarrow> 'm"
    and clr :: "'m \<Rightarrow> 'm"
    and invar :: "'m \<Rightarrow> bool"
  assumes invar_new: "invar new"
    and invar_put: "invar s \<Longrightarrow> invar (put s k v)"
    and invar_del: "invar s \<Longrightarrow> invar (del s k)"
    and invar_clr: "invar s \<Longrightarrow> invar (clr s)"
    and look_new: "look new = Map.empty"
    and look_put: "invar s \<Longrightarrow> look (put s k v) = (look s)(k \<mapsto> v)"
    and look_del: "invar s \<Longrightarrow> look (del s k) = (look s)(k := None)"
    and look_clr: "invar s \<Longrightarrow> look (clr s) = Map.empty"
begin

lemma invar_run: "invar s \<Longrightarrow> invar (fold (run_store_op put del clr) ops s)"
proof (induction ops arbitrary: s)
  case (Cons op ops)
  then show ?case by (cases op) (simp_all add: invar_put invar_del invar_clr)
qed simp

lemma run_refines:
  "invar s \<Longrightarrow> look (fold (run_store_op put del clr) ops s) = fold run_map_op ops (look s)"
proof (induction ops arbitrary: s)
  case (Cons op ops)
  then show ?case
    by (cases op) (simp_all add: invar_put invar_del invar_clr look_put look_del look_clr fun_upd_def)
qed simp

lemma run_new_refines: "look (fold (run_store_op put del clr) ops new) = fold run_map_op ops Map.empty"
  by (simp add: run_refines invar_new look_new)

end

section \<open>Bounded queues\<close>

text \<open>
  The contract of a queue that drops what does not fit. \<open>pop_n\<close> takes \<open>n\<close> elements off a
  queue and lists them in the order they came out.
\<close>

fun pop_n :: "('q \<Rightarrow> 'a) \<Rightarrow> ('q \<Rightarrow> 'q) \<Rightarrow> nat \<Rightarrow> 'q \<Rightarrow> 'a list" where
  "pop_n front pop 0 q = []"
| "pop_n front pop (Suc n) q = front q # pop_n front pop n (pop q)"

locale bounded_queue =
  fixes push :: "'a \<Rightarrow> 'q \<Rightarrow> 'q"
    and front :: "'q \<Rightarrow> 'a"
    and pop :: "'q \<Rightarrow> 'q"
    and contents :: "'q \<Rightarrow> 'a list"
    and room :: nat
    and qinv :: "'q \<Rightarrow> bool"
  assumes qinv_push: "qinv q \<Longrightarrow> qinv (push x q)"
    and qinv_pop: "qinv q \<Longrightarrow> contents q \<noteq> [] \<Longrightarrow> qinv (pop q)"
    and contents_push: "qinv q \<Longrightarrow>
      contents (push x q) = (if length (contents q) < room then contents q @ [x] else contents q)"
    and contents_pop: "qinv q \<Longrightarrow> contents q \<noteq> [] \<Longrightarrow> contents (pop q) = tl (contents q)"
    and front_hd: "qinv q \<Longrightarrow> contents q \<noteq> [] \<Longrightarrow> front q = hd (contents q)"
begin

lemma qinv_push_all: "qinv q \<Longrightarrow> qinv (fold push xs q)"
  by (induction xs arbitrary: q) (simp_all add: qinv_push)

lemma contents_push_all:
  "qinv q \<Longrightarrow> contents (fold push xs q) = contents q @ take (room - length (contents q)) xs"
proof (induction xs arbitrary: q)
  case (Cons x xs)
  then show ?case by (auto simp: contents_push qinv_push take_Cons' Suc_diff_le)
qed simp

lemma pop_n_contents: "qinv q \<Longrightarrow> n \<le> length (contents q) \<Longrightarrow> pop_n front pop n q = take n (contents q)"
proof (induction n arbitrary: q)
  case (Suc n)
  then have ne: "contents q \<noteq> []" by auto
  with Suc show ?case
    by (simp add: front_hd contents_pop qinv_pop take_Suc)
qed simp

end

end
