(* ===== verification/Hashmap.thy ===== *)
theory Hashmap
  imports Prelude
begin

text \<open>
  The open-addressing hash map of src/hashmap_u32.c (32-bit keys and values, linear
  probing, tombstones, growth at load factor 3/4), which keeps the LR/SC reservations.
  The entries are the C array as a list of length \<open>capacity\<close>; \<open>size_t\<close> quantities are
  naturals. The result of \<open>calloc\<close> in \<open>rehash\<close> is the Boolean argument \<open>alloc_ok\<close>, so
  that the branch in which the old table is kept is a branch of the model.
  The section on the abstraction shows that the table implements a finite map.
\<close>

section \<open>The code\<close>

record hashmap_entry =
  key :: u32
  hvalue :: u32
  occupied :: bool
  deleted :: bool

record hashmap =
  entries :: "hashmap_entry list"
  capacity :: nat
  hsize :: nat
  tombstone_count :: nat

abbreviation INITIAL_CAPACITY :: nat where "INITIAL_CAPACITY \<equiv> 128"

abbreviation GROWTH_FACTOR :: nat where "GROWTH_FACTOR \<equiv> 2"

text \<open>An entry of a block from \<open>calloc\<close> or \<open>memset(.., 0, ..)\<close>.\<close>

definition zero_entry :: hashmap_entry where
  "zero_entry = \<lparr>key = 0, hvalue = 0, occupied = False, deleted = False\<rparr>"

definition hash_uint32 :: "u32 \<Rightarrow> u32" where
  "hash_uint32 k =
     (let h = k;
          h = h XOR shr h 16;
          h = h * 0x85ebca6b;
          h = h XOR shr h 13;
          h = h * 0xc2b2ae35;
          h = h XOR shr h 16
      in h)"

text \<open>
  The loop of \<open>probe\<close>: \<open>i\<close> counts the probes; \<open>first_deleted\<close> is \<open>None\<close> for the
  sentinel \<open>(size_t)-1\<close>. The result is the index and \<open>*found\<close>.
\<close>

function probe_loop ::
  "hashmap_entry list \<Rightarrow> nat \<Rightarrow> u32 \<Rightarrow> nat \<Rightarrow> nat option \<Rightarrow> nat \<Rightarrow> nat \<times> bool" where
  "probe_loop es cap k index first_deleted i =
     (if i < cap then
        let idx = (index + i) mod cap; entry = es ! idx in
        if \<not> occupied entry then
          (case first_deleted of Some d \<Rightarrow> (d, False) | None \<Rightarrow> (idx, False))
        else if deleted entry then
          probe_loop es cap k index
            (case first_deleted of None \<Rightarrow> Some idx | Some d \<Rightarrow> Some d) (Suc i)
        else if key entry = k then (idx, True)
        else probe_loop es cap k index first_deleted (Suc i)
      else (0, False))"
  by pat_completeness auto
termination
  by (relation "measure (\<lambda>(es, cap, k, index, fd, i). cap - i)") auto

declare probe_loop.simps [simp del]

definition probe :: "hashmap \<Rightarrow> u32 \<Rightarrow> nat \<times> bool" where
  "probe m k = probe_loop (entries m) (capacity m) k (unat (hash_uint32 k) mod capacity m) None 0"

text \<open>One iteration of the copy loop of \<open>rehash\<close>, and the loop over the old entries.\<close>

definition rehash_entry :: "hashmap_entry \<Rightarrow> hashmap \<Rightarrow> hashmap" where
  "rehash_entry e m =
     (if occupied e \<and> \<not> deleted e then
        let idx = fst (probe m (key e)) in
        m\<lparr>entries := (entries m)[idx := e\<lparr>deleted := False, occupied := True\<rparr>],
          hsize := hsize m + 1\<rparr>
      else m)"

definition rehash :: "bool \<Rightarrow> hashmap \<Rightarrow> nat \<Rightarrow> hashmap" where
  "rehash alloc_ok m new_capacity =
     (let new_capacity = (if new_capacity < INITIAL_CAPACITY then INITIAL_CAPACITY else new_capacity)
      in if \<not> alloc_ok then m
         else fold rehash_entry (entries m)
                \<lparr>entries = replicate new_capacity zero_entry, capacity = new_capacity,
                 hsize = 0, tombstone_count = 0\<rparr>)"

definition hashmap_init :: hashmap where
  "hashmap_init = \<lparr>entries = replicate INITIAL_CAPACITY zero_entry, capacity = INITIAL_CAPACITY,
                   hsize = 0, tombstone_count = 0\<rparr>"

text \<open>
  The load test \<open>(float)(size + tombstone_count) / capacity >= 0.75f\<close>, in integers: the
  quotient is exact in single precision for every table below \<open>2 ^ 24\<close> entries.
\<close>

definition over_load :: "hashmap \<Rightarrow> bool" where
  "over_load m \<longleftrightarrow> 3 * capacity m \<le> 4 * (hsize m + tombstone_count m)"

definition hashmap_put :: "bool \<Rightarrow> hashmap \<Rightarrow> u32 \<Rightarrow> u32 \<Rightarrow> hashmap" where
  "hashmap_put alloc_ok m0 k v =
     (let m = (if over_load m0 then rehash alloc_ok m0 (capacity m0 * GROWTH_FACTOR) else m0);
          (idx, found) = probe m k;
          e = entries m ! idx
      in if found then m\<lparr>entries := (entries m)[idx := e\<lparr>hvalue := v\<rparr>]\<rparr>
         else m\<lparr>tombstone_count := (if deleted e then tombstone_count m - 1 else tombstone_count m),
                entries := (entries m)
                  [idx := e\<lparr>key := k, hvalue := v, occupied := True, deleted := False\<rparr>],
                hsize := hsize m + 1\<rparr>)"

definition hashmap_get :: "hashmap \<Rightarrow> u32 \<Rightarrow> u32 option" where
  "hashmap_get m k =
     (let (idx, found) = probe m k in if found then Some (hvalue (entries m ! idx)) else None)"

definition hashmap_remove :: "hashmap \<Rightarrow> u32 \<Rightarrow> bool \<times> hashmap" where
  "hashmap_remove m k =
     (let (idx, found) = probe m k
      in if found then
           (True, m\<lparr>entries := (entries m)[idx := (entries m ! idx)\<lparr>deleted := True\<rparr>],
                    hsize := hsize m - 1, tombstone_count := tombstone_count m + 1\<rparr>)
         else (False, m))"

definition hashmap_clear :: "hashmap \<Rightarrow> hashmap" where
  "hashmap_clear m = m\<lparr>entries := replicate (capacity m) zero_entry, hsize := 0, tombstone_count := 0\<rparr>"

definition hashmap_size :: "hashmap \<Rightarrow> nat" where
  "hashmap_size m = hsize m"

definition hashmap_capacity :: "hashmap \<Rightarrow> nat" where
  "hashmap_capacity m = capacity m"

section \<open>Abstraction and invariant\<close>

abbreviation live :: "hashmap_entry \<Rightarrow> bool" where
  "live e \<equiv> occupied e \<and> \<not> deleted e"

abbreviation tomb :: "hashmap_entry \<Rightarrow> bool" where
  "tomb e \<equiv> occupied e \<and> deleted e"

text \<open>The index probed at step \<open>i\<close> for key \<open>k\<close>.\<close>

definition slot :: "nat \<Rightarrow> u32 \<Rightarrow> nat \<Rightarrow> nat" where
  "slot cap k i = (unat (hash_uint32 k) mod cap + i) mod cap"

text \<open>
  A table is well formed when the array has the recorded capacity, the two counters count
  the live entries and the tombstones and leave a slot that was never used, an unused slot is
  not marked deleted, and every live entry sits at a step of its own probe sequence that no
  unused slot and no equal live key precedes.
\<close>

definition passes :: "hashmap_entry list \<Rightarrow> u32 \<Rightarrow> nat \<Rightarrow> bool" where
  "passes es k i \<longleftrightarrow>
     (\<forall>j<i. let e = es ! slot (length es) k j in occupied e \<and> \<not> (live e \<and> key e = k))"

definition placed :: "hashmap_entry list \<Rightarrow> nat \<Rightarrow> bool" where
  "placed es idx \<longleftrightarrow>
     (\<exists>i<length es. slot (length es) (key (es ! idx)) i = idx \<and> passes es (key (es ! idx)) i)"

definition hm_inv :: "hashmap \<Rightarrow> bool" where
  "hm_inv m \<longleftrightarrow>
     length (entries m) = capacity m \<and> INITIAL_CAPACITY \<le> capacity m \<and>
     hsize m = length (filter live (entries m)) \<and>
     tombstone_count m = length (filter tomb (entries m)) \<and>
     hsize m + tombstone_count m < capacity m \<and>
     (\<forall>e\<in>set (entries m). \<not> occupied e \<longrightarrow> \<not> deleted e) \<and>
     (\<forall>idx<length (entries m). live (entries m ! idx) \<longrightarrow> placed (entries m) idx)"

text \<open>The finite map a table stands for.\<close>

definition hm_alpha :: "hashmap \<Rightarrow> u32 \<rightharpoonup> u32" where
  "hm_alpha m = map_of (map (\<lambda>e. (key e, hvalue e)) (filter live (entries m)))"

section \<open>Probe sequences\<close>

lemma slot_less: "0 < cap \<Longrightarrow> slot cap k i < cap"
  by (simp add: slot_def)

lemma slot_eq:
  assumes "i < cap"
  shows "slot cap k i =
    (let h = unat (hash_uint32 k) mod cap in if h + i < cap then h + i else h + i - cap)"
proof -
  define h where "h = unat (hash_uint32 k) mod cap"
  have "h < cap" using assms by (simp add: h_def)
  with assms have "(h + i) mod cap = (if h + i < cap then h + i else h + i - cap)"
    by (simp add: le_mod_geq)
  then show ?thesis by (simp add: slot_def Let_def h_def)
qed

lemma slot_inj: "i < cap \<Longrightarrow> j < cap \<Longrightarrow> slot cap k i = slot cap k j \<Longrightarrow> i = j"
  by (auto simp: slot_eq Let_def split: if_splits)

lemma slot_surj:
  assumes "idx < cap"
  shows "\<exists>i<cap. slot cap k i = idx"
proof -
  define h where "h = unat (hash_uint32 k) mod cap"
  have h: "h < cap" using assms by (simp add: h_def)
  show ?thesis
  proof (cases "h \<le> idx")
    case True
    with assms h show ?thesis
      by (intro exI [of _ "idx - h"]) (simp add: slot_eq Let_def h_def [symmetric])
  next
    case False
    with assms h show ?thesis
      by (intro exI [of _ "idx + cap - h"]) (simp add: slot_eq Let_def h_def [symmetric])
  qed
qed

text \<open>
  What the probe loop returns, when a slot that was never used lies ahead: a hit is a live
  entry with the key; a miss is a free place for the key, and the whole sequence up to an
  unused slot does not hold it.
\<close>

definition probe_ok :: "hashmap_entry list \<Rightarrow> u32 \<Rightarrow> nat \<times> bool \<Rightarrow> bool" where
  "probe_ok es k r =
     (if snd r then fst r < length es \<and> live (es ! fst r) \<and> key (es ! fst r) = k
      else (\<exists>i<length es. slot (length es) k i = fst r \<and> \<not> live (es ! fst r) \<and> passes es k i) \<and>
           (\<exists>n<length es. \<not> occupied (es ! slot (length es) k n) \<and> passes es k n))"

lemma passes_Suc:
  "passes es k (Suc i) \<longleftrightarrow> passes es k i \<and>
     (let e = es ! slot (length es) k i in occupied e \<and> \<not> (live e \<and> key e = k))"
  by (auto simp: passes_def Let_def less_Suc_eq)

lemma passes_mono: "passes es k i \<Longrightarrow> j \<le> i \<Longrightarrow> passes es k j"
  by (auto simp: passes_def)

lemma probe_loop_ok:
  assumes "cap = length es" "index = unat (hash_uint32 k) mod cap"
    and "\<exists>n<cap. i \<le> n \<and> \<not> occupied (es ! slot cap k n)"
    and "passes es k i"
    and "\<And>d. fd = Some d \<Longrightarrow> \<exists>j<i. slot cap k j = d \<and> deleted (es ! d)"
  shows "probe_ok es k (probe_loop es cap k index fd i)"
  using assms
proof (induction es cap k index fd i rule: probe_loop.induct)
  case (1 es cap k index fd i)
  define idx where "idx = slot cap k i"
  have i: "i < cap" using "1.prems"(3) by auto
  have idx: "(index + i) mod cap = idx"
    using "1.prems"(2) by (simp add: idx_def slot_def)
  note unfold = probe_loop.simps [of es cap k index fd i]
  consider "\<not> occupied (es ! idx)" | "occupied (es ! idx)" "deleted (es ! idx)"
    | "live (es ! idx)" "key (es ! idx) = k" | "live (es ! idx)" "key (es ! idx) \<noteq> k"
    by blast
  then show ?case
  proof cases
    case 1
    then have res: "probe_loop es cap k index fd i = ((case fd of Some d \<Rightarrow> d | None \<Rightarrow> idx), False)"
      using i idx by (simp add: unfold Let_def split: option.splits)
    have "\<exists>i<cap. slot cap k i = (case fd of Some d \<Rightarrow> d | None \<Rightarrow> idx) \<and>
            \<not> live (es ! (case fd of Some d \<Rightarrow> d | None \<Rightarrow> idx)) \<and> passes es k i"
    proof (cases fd)
      case None
      with 1 i "1.prems"(4) show ?thesis by (auto simp: idx_def)
    next
      case (Some d)
      with "1.prems"(5) obtain j where "j < i" "slot cap k j = d" "deleted (es ! d)" by blast
      with Some i "1.prems"(4) show ?thesis
        by (intro exI [of _ j]) (auto intro: passes_mono)
    qed
    with res 1 i "1.prems"(1,4) show ?thesis by (auto simp: probe_ok_def idx_def)
  next
    case 2
    have "probe_ok es k (probe_loop es cap k index
            (case fd of None \<Rightarrow> Some idx | Some d \<Rightarrow> Some d) (Suc i))"
    proof (rule "1.IH"(1) [unfolded idx])
      show "\<exists>n<cap. Suc i \<le> n \<and> \<not> occupied (es ! slot cap k n)"
        using "1.prems"(3) 2 unfolding idx_def by (metis Suc_leI le_neq_implies_less)
      show "\<exists>j<Suc i. slot cap k j = d \<and> deleted (es ! d)"
        if "(case fd of None \<Rightarrow> Some idx | Some d \<Rightarrow> Some d) = Some d" for d
        using that 2 "1.prems"(5) by (cases fd) (auto simp: idx_def less_Suc_eq)
    qed (use "1.prems" 2 i in \<open>auto simp: passes_Suc idx_def Let_def\<close>)
    with 2 i idx show ?thesis by (simp add: unfold Let_def)
  next
    case 3
    with i idx have "probe_loop es cap k index fd i = (idx, True)"
      by (simp add: unfold Let_def)
    with 3 i "1.prems"(1) show ?thesis
      by (auto simp: probe_ok_def idx_def intro!: slot_less)
  next
    case 4
    have "probe_ok es k (probe_loop es cap k index fd (Suc i))"
    proof (rule "1.IH"(2) [unfolded idx])
      show "\<exists>n<cap. Suc i \<le> n \<and> \<not> occupied (es ! slot cap k n)"
        using "1.prems"(3) 4 unfolding idx_def by (metis Suc_leI le_neq_implies_less)
      show "\<exists>j<Suc i. slot cap k j = d \<and> deleted (es ! d)" if "fd = Some d" for d
        using that "1.prems"(5) by (auto simp: less_Suc_eq)
    qed (use "1.prems" 4 i in \<open>auto simp: passes_Suc idx_def Let_def\<close>)
    with 4 i idx show ?thesis by (simp add: unfold Let_def)
  qed
qed

section \<open>The table as a map\<close>

lemma length_filter_partition:
  "length (filter live es) + length (filter tomb es) + length (filter (\<lambda>e. \<not> occupied e) es) = length es"
  by (induction es) auto

lemma hm_inv_free_slot:
  assumes "hm_inv m"
  shows "\<exists>n<capacity m. \<not> occupied (entries m ! slot (capacity m) k n)"
proof -
  have "length (filter (\<lambda>e. \<not> occupied e) (entries m)) \<noteq> 0"
    using assms length_filter_partition [of "entries m"] by (auto simp: hm_inv_def)
  then obtain e where "e \<in> set (entries m)" "\<not> occupied e"
    by (auto simp: filter_empty_conv)
  then obtain idx where "idx < capacity m" "\<not> occupied (entries m ! idx)"
    using assms by (auto simp: hm_inv_def in_set_conv_nth)
  then show ?thesis using slot_surj by metis
qed

lemma probe_correct:
  assumes "hm_inv m"
  shows "probe_ok (entries m) k (probe m k)"
  unfolding probe_def
proof (rule probe_loop_ok)
  show "\<exists>n<capacity m. 0 \<le> n \<and> \<not> occupied (entries m ! slot (capacity m) k n)"
    using hm_inv_free_slot [OF assms] by auto
qed (use assms in \<open>auto simp: hm_inv_def passes_def\<close>)

lemma live_unique:
  assumes inv: "hm_inv m" and a: "a < capacity m" and b: "b < capacity m"
    and la: "live (entries m ! a)" and lb: "live (entries m ! b)"
    and eq: "key (entries m ! a) = key (entries m ! b)"
  shows "a = b"
proof -
  let ?es = "entries m" and ?k = "key (entries m ! b)"
  have len: "length ?es = capacity m" using inv by (simp add: hm_inv_def)
  obtain i where i: "i < capacity m" "slot (capacity m) ?k i = a" "passes ?es ?k i"
    using inv a la eq by (auto simp: hm_inv_def placed_def len)
  obtain j where j: "j < capacity m" "slot (capacity m) ?k j = b" "passes ?es ?k j"
    using inv b lb by (auto simp: hm_inv_def placed_def len)
  have "\<not> i < j" using i j la eq by (auto simp: passes_def Let_def len)
  moreover have "\<not> j < i" using i j lb by (auto simp: passes_def Let_def len)
  ultimately show ?thesis using i(2) j(2) by simp
qed

lemma hm_alpha_Some:
  assumes "hm_inv m"
  shows "hm_alpha m k = Some v \<longleftrightarrow>
     (\<exists>idx<capacity m. live (entries m ! idx) \<and> key (entries m ! idx) = k \<and> hvalue (entries m ! idx) = v)"
proof -
  let ?xs = "map (\<lambda>e. (key e, hvalue e)) (filter live (entries m))"
  have mem: "(k, v) \<in> set ?xs \<longleftrightarrow> (\<exists>idx<capacity m. live (entries m ! idx) \<and>
      key (entries m ! idx) = k \<and> hvalue (entries m ! idx) = v)" for v
    using assms by (auto simp: hm_inv_def in_set_conv_nth image_iff)
  have "map_of ?xs k = Some v \<longleftrightarrow> (k, v) \<in> set ?xs"
  proof (rule map_of_eq_Some_iff_unique)
    fix v w assume "(k, v) \<in> set ?xs" "(k, w) \<in> set ?xs"
    then obtain a b where "a < capacity m" "live (entries m ! a)" "key (entries m ! a) = k"
        "hvalue (entries m ! a) = v" "b < capacity m" "live (entries m ! b)"
        "key (entries m ! b) = k" "hvalue (entries m ! b) = w"
      unfolding mem by blast
    then show "v = w" using live_unique [OF assms, of a b] by simp
  qed
  then show ?thesis by (simp only: hm_alpha_def mem)
qed

lemma hm_alpha_None:
  assumes "hm_inv m"
  shows "hm_alpha m k = None \<longleftrightarrow>
     (\<forall>idx<capacity m. live (entries m ! idx) \<longrightarrow> key (entries m ! idx) \<noteq> k)"
  using hm_alpha_Some [OF assms, of k] by (metis not_Some_eq)

lemma probe_found:
  assumes "hm_inv m" "probe m k = (idx, True)"
  shows "idx < capacity m" "live (entries m ! idx)" "key (entries m ! idx) = k"
    "hm_alpha m k = Some (hvalue (entries m ! idx))"
proof -
  show *: "idx < capacity m" "live (entries m ! idx)" "key (entries m ! idx) = k"
    using probe_correct [OF assms(1), of k] assms by (auto simp: probe_ok_def hm_inv_def)
  then show "hm_alpha m k = Some (hvalue (entries m ! idx))"
    using hm_alpha_Some [OF assms(1)] by blast
qed

lemma probe_not_found:
  assumes "hm_inv m" "probe m k = (idx, False)"
  shows "\<exists>i<capacity m. slot (capacity m) k i = idx \<and> passes (entries m) k i"
    "idx < capacity m" "\<not> live (entries m ! idx)" "hm_alpha m k = None"
proof -
  have len: "length (entries m) = capacity m" using assms(1) by (simp add: hm_inv_def)
  have ok: "probe_ok (entries m) k (idx, False)" using probe_correct [OF assms(1), of k] assms(2) by simp
  then show place: "\<exists>i<capacity m. slot (capacity m) k i = idx \<and> passes (entries m) k i"
    and "\<not> live (entries m ! idx)"
    by (auto simp: probe_ok_def len)
  from place show "idx < capacity m" using slot_less by force
  obtain n where n: "n < capacity m" "\<not> occupied (entries m ! slot (capacity m) k n)" "passes (entries m) k n"
    using ok by (auto simp: probe_ok_def len)
  show "hm_alpha m k = None"
    unfolding hm_alpha_None [OF assms(1)]
  proof (intro allI impI notI)
    fix j assume j: "j < capacity m" "live (entries m ! j)" "key (entries m ! j) = k"
    then obtain i where i: "i < capacity m" "slot (capacity m) k i = j" "passes (entries m) k i"
      using assms(1) by (auto simp: hm_inv_def placed_def len)
    have "\<not> n < i" using n i by (auto simp: passes_def Let_def len)
    moreover have "\<not> i < n" using n i j by (auto simp: passes_def Let_def len)
    ultimately show False using n i j by (metis nat_neq_iff)
  qed
qed

lemma hashmap_get_correct: "hm_inv m \<Longrightarrow> hashmap_get m k = hm_alpha m k"
  by (cases "probe m k"; cases "snd (probe m k)")
    (auto simp: hashmap_get_def dest: probe_found(4) probe_not_found(4))

text \<open>
  The three ways the code changes one slot: overwriting the value of a live entry, marking a
  live entry deleted, and filling a free place with a new live entry.
\<close>

lemma nth_list_update': "xs[i := x] ! j = (if i = j \<and> i < length xs then x else xs ! j)"
  by (cases "i < length xs") (auto simp: nth_list_update list_update_beyond)

lemma passes_update_mono:
  assumes "passes es k i" "occupied e" "live e \<longrightarrow> key e \<noteq> k"
  shows "passes (es[idx := e]) k i"
  unfolding passes_def Let_def length_list_update
proof (intro allI impI)
  fix j assume "j < i"
  let ?s = "slot (length es) k j"
  have "occupied (es ! ?s) \<and> \<not> (live (es ! ?s) \<and> key (es ! ?s) = k)"
    using assms(1) \<open>j < i\<close> by (simp add: passes_def Let_def)
  then show "occupied (es[idx := e] ! ?s) \<and> \<not> (live (es[idx := e] ! ?s) \<and> key (es[idx := e] ! ?s) = k)"
    using assms(2,3) by (auto simp: nth_list_update' split: if_splits)
qed

lemma passes_update_other:
  assumes "passes es k i" "i < length es" "slot (length es) k i = idx"
  shows "passes (es[idx := e]) k i"
  using assms slot_inj unfolding passes_def Let_def length_list_update
  by (metis nth_list_update_neq order.strict_trans order_less_irrefl)

lemma placed_update_other:
  assumes "placed es j" "j \<noteq> idx" "occupied e" "live e \<longrightarrow> key e \<noteq> key (es ! j)"
  shows "placed (es[idx := e]) j"
  using assms passes_update_mono unfolding placed_def by fastforce

lemma hm_inv_update:
  assumes inv: "hm_inv m" and idx: "idx < capacity m" and e: "occupied e"
    and own: "live e \<Longrightarrow> placed ((entries m)[idx := e]) idx"
    and fresh: "\<And>j. live e \<Longrightarrow> j < capacity m \<Longrightarrow> j \<noteq> idx \<Longrightarrow> live (entries m ! j) \<Longrightarrow>
                  key e \<noteq> key (entries m ! j)"
    and h: "h + (if live (entries m ! idx) then 1 else 0) = hsize m + (if live e then 1 else 0)"
    and t: "t + (if tomb (entries m ! idx) then 1 else 0) = tombstone_count m + (if tomb e then 1 else 0)"
    and room: "h + t < capacity m"
  shows "hm_inv (m\<lparr>entries := (entries m)[idx := e], hsize := h, tombstone_count := t\<rparr>)"
proof -
  let ?es = "entries m"
  have len: "length ?es = capacity m" using inv by (simp add: hm_inv_def)
  have "h = length (filter live (?es[idx := e]))"
    using h inv length_filter_update [of idx ?es live e] idx by (simp add: hm_inv_def)
  moreover have "t = length (filter tomb (?es[idx := e]))"
    using t inv length_filter_update [of idx ?es tomb e] idx by (simp add: hm_inv_def)
  moreover have "\<forall>x\<in>set (?es[idx := e]). \<not> occupied x \<longrightarrow> \<not> deleted x"
    using inv e set_update_subset_insert [of ?es idx e] by (auto simp: hm_inv_def)
  moreover have "placed (?es[idx := e]) j" if "j < capacity m" "live (?es[idx := e] ! j)" for j
  proof (cases "j = idx")
    case True
    with that own idx show ?thesis by (simp add: len)
  next
    case False
    with that have "live (?es ! j)" by simp
    with that inv have "placed ?es j" by (simp add: hm_inv_def)
    then show ?thesis
      using placed_update_other False e fresh that \<open>live (?es ! j)\<close> by blast
  qed
  ultimately show ?thesis using inv room by (simp add: hm_inv_def)
qed

lemma hm_alpha_update:
  assumes inv: "hm_inv m" and idx: "idx < capacity m"
    and inv': "hm_inv m'" and es: "entries m' = (entries m)[idx := e]" and cap: "capacity m' = capacity m"
  shows "hm_alpha m' k = Some v \<longleftrightarrow> live e \<and> key e = k \<and> hvalue e = v \<or>
     (\<exists>j<capacity m. j \<noteq> idx \<and> live (entries m ! j) \<and> key (entries m ! j) = k \<and> hvalue (entries m ! j) = v)"
proof -
  have "length (entries m) = capacity m" using inv by (simp add: hm_inv_def)
  then show ?thesis
    unfolding hm_alpha_Some [OF inv'] es cap using idx by (auto simp: nth_list_update')
qed

lemma option_eq_by_Some: "(\<And>v. x = Some v \<longleftrightarrow> y = Some v) \<Longrightarrow> x = y"
  by (cases x; cases y) auto

lemma update_value:
  assumes inv: "hm_inv m" and p: "probe m k = (idx, True)"
    and m': "m' = m\<lparr>entries := (entries m)[idx := (entries m ! idx)\<lparr>hvalue := v\<rparr>]\<rparr>"
  shows "hm_inv m'" "hm_alpha m' = (hm_alpha m)(k \<mapsto> v)"
proof -
  note f = probe_found [OF inv p]
  let ?e = "(entries m ! idx)\<lparr>hvalue := v\<rparr>" and ?es = "entries m"
  have len: "length ?es = capacity m" using inv by (simp add: hm_inv_def)
  have "placed ?es idx" using inv f by (simp add: hm_inv_def)
  then have pl: "placed (?es[idx := ?e]) idx"
    using passes_update_other f(1) by (fastforce simp: placed_def len)
  have other: "key (?es ! j) \<noteq> k" if "j < capacity m" "j \<noteq> idx" "live (?es ! j)" for j
    using that live_unique [OF inv, of j idx] f by auto
  have "hm_inv (m\<lparr>entries := ?es[idx := ?e], hsize := hsize m, tombstone_count := tombstone_count m\<rparr>)"
    by (rule hm_inv_update [OF inv f(1)]) (use f inv pl in \<open>auto simp: hm_inv_def dest: other\<close>)
  then show inv': "hm_inv m'" by (simp add: m' hm_inv_def)
  show "hm_alpha m' = (hm_alpha m)(k \<mapsto> v)"
  proof (rule ext, rule option_eq_by_Some)
    fix k' w
    show "hm_alpha m' k' = Some w \<longleftrightarrow> ((hm_alpha m)(k \<mapsto> v)) k' = Some w"
      using hm_alpha_update [OF inv f(1) inv', of ?e k' w] hm_alpha_Some [OF inv, of k' w] f other
      by (auto simp: m')
  qed
qed

lemma remove_entry:
  assumes inv: "hm_inv m" and p: "probe m k = (idx, True)"
    and m': "m' = m\<lparr>entries := (entries m)[idx := (entries m ! idx)\<lparr>deleted := True\<rparr>],
                    hsize := hsize m - 1, tombstone_count := tombstone_count m + 1\<rparr>"
  shows "hm_inv m'" "hm_alpha m' = (hm_alpha m)(k := None)"
proof -
  note f = probe_found [OF inv p]
  let ?e = "(entries m ! idx)\<lparr>deleted := True\<rparr>" and ?es = "entries m"
  have pos: "0 < hsize m"
    using inv f by (auto simp: hm_inv_def filter_empty_conv)
  have "hm_inv (m\<lparr>entries := ?es[idx := ?e], hsize := hsize m - 1, tombstone_count := tombstone_count m + 1\<rparr>)"
    by (rule hm_inv_update [OF inv f(1)]) (use f pos in auto, use inv pos in \<open>simp add: hm_inv_def\<close>)
  then show inv': "hm_inv m'" by (simp add: m')
  show "hm_alpha m' = (hm_alpha m)(k := None)"
  proof (rule ext, rule option_eq_by_Some)
    fix k' w
    have "key (?es ! j) \<noteq> k" if "j < capacity m" "j \<noteq> idx" "live (?es ! j)" for j
      using that live_unique [OF inv, of j idx] f by auto
    then show "hm_alpha m' k' = Some w \<longleftrightarrow> ((hm_alpha m)(k := None)) k' = Some w"
      using hm_alpha_update [OF inv f(1) inv', of ?e k' w] hm_alpha_Some [OF inv, of k' w] f
      by (auto simp: m')
  qed
qed

lemma fill_place:
  assumes inv: "hm_inv m" and p: "probe m (key e) = (idx, False)" and e: "live e"
    and room: "hsize m + tombstone_count m + 1 < capacity m"
    and m': "m' = m\<lparr>entries := (entries m)[idx := e], hsize := hsize m + 1,
               tombstone_count := (if deleted (entries m ! idx) then tombstone_count m - 1
                                   else tombstone_count m)\<rparr>"
  shows "hm_inv m'" "hm_alpha m' = (hm_alpha m)(key e \<mapsto> hvalue e)"
proof -
  note f = probe_not_found [OF inv p]
  let ?es = "entries m"
  have len: "length ?es = capacity m" using inv by (simp add: hm_inv_def)
  have absent: "key (?es ! j) \<noteq> key e" if "j < capacity m" "live (?es ! j)" for j
    using f(4) that by (simp add: hm_alpha_None [OF inv])
  have del: "deleted (?es ! idx) \<longleftrightarrow> tomb (?es ! idx)"
    using inv f(2) by (auto simp: hm_inv_def)
  have tpos: "0 < tombstone_count m" if "tomb (?es ! idx)"
    using inv that f(2) by (auto simp: hm_inv_def filter_empty_conv)
  have pl: "placed (?es[idx := e]) idx"
    using f(1,2) passes_update_other by (fastforce simp: placed_def len)
  have "hm_inv (m\<lparr>entries := ?es[idx := e], hsize := hsize m + 1, tombstone_count :=
          (if deleted (?es ! idx) then tombstone_count m - 1 else tombstone_count m)\<rparr>)"
    by (rule hm_inv_update [OF inv f(2)])
      (use f(3) e pl tpos del room absent in \<open>auto split: if_splits dest: sym\<close>)
  then show inv': "hm_inv m'" by (simp add: m')
  show "hm_alpha m' = (hm_alpha m)(key e \<mapsto> hvalue e)"
  proof (rule ext, rule option_eq_by_Some)
    fix k' w
    show "hm_alpha m' k' = Some w \<longleftrightarrow> ((hm_alpha m)(key e \<mapsto> hvalue e)) k' = Some w"
      using hm_alpha_update [OF inv f(2) inv', of e k' w] hm_alpha_Some [OF inv, of k' w] f(3) e absent
      by (auto simp: m')
  qed
qed

section \<open>Growing the table\<close>

text \<open>A table fresh from \<open>calloc\<close>.\<close>

lemma empty_table:
  assumes "m = \<lparr>entries = replicate n zero_entry, capacity = n, hsize = 0, tombstone_count = 0\<rparr>"
    and "INITIAL_CAPACITY \<le> n"
  shows "hm_inv m" "hm_alpha m = Map.empty"
  using assms by (auto simp: hm_inv_def hm_alpha_def zero_entry_def)

definition live_map :: "hashmap_entry list \<Rightarrow> u32 \<rightharpoonup> u32" where
  "live_map es = map_of (map (\<lambda>e. (key e, hvalue e)) (filter live es))"

lemma hm_alpha_live_map: "hm_alpha m = live_map (entries m)"
  by (simp add: hm_alpha_def live_map_def)

lemma rehash_entry_live:
  assumes inv: "hm_inv m" and e: "live e" and new: "hm_alpha m (key e) = None"
    and t: "tombstone_count m = 0" and room: "hsize m + 1 < capacity m"
  shows "hm_inv (rehash_entry e m)" "hm_alpha (rehash_entry e m) = (hm_alpha m)(key e \<mapsto> hvalue e)"
    "hsize (rehash_entry e m) = hsize m + 1" "tombstone_count (rehash_entry e m) = 0"
    "capacity (rehash_entry e m) = capacity m"
proof -
  obtain idx where p: "probe m (key e) = (idx, False)"
    using probe_found(4) [OF inv, of "key e"] new by (cases "probe m (key e)"; cases "snd (probe m (key e))") auto
  have "entries m ! idx \<in> set (entries m)"
    using inv probe_not_found(2) [OF inv p] by (simp add: hm_inv_def)
  then have nd: "\<not> deleted (entries m ! idx)"
    using inv t by (auto simp: hm_inv_def filter_empty_conv)
  have same: "e\<lparr>deleted := False, occupied := True\<rparr> = e" using e by (cases e) simp
  have eq: "rehash_entry e m = m\<lparr>entries := (entries m)[idx := e], hsize := hsize m + 1,
      tombstone_count := (if deleted (entries m ! idx) then tombstone_count m - 1 else tombstone_count m)\<rparr>"
    using e nd by (simp add: rehash_entry_def p same)
  show "hm_inv (rehash_entry e m)" "hm_alpha (rehash_entry e m) = (hm_alpha m)(key e \<mapsto> hvalue e)"
    by (rule fill_place [OF inv p e _ eq]; use t room in simp)+
  show "hsize (rehash_entry e m) = hsize m + 1" "tombstone_count (rehash_entry e m) = 0"
    "capacity (rehash_entry e m) = capacity m"
    using t by (simp_all add: eq)
qed

lemma fold_rehash_entry:
  assumes "hm_inv m" "tombstone_count m = 0" "hsize m + length (filter live es) < capacity m"
    and "distinct (map key (filter live es))"
    and "\<forall>e\<in>set es. live e \<longrightarrow> hm_alpha m (key e) = None"
  shows "hm_inv (fold rehash_entry es m) \<and>
         hm_alpha (fold rehash_entry es m) = hm_alpha m ++ live_map es \<and>
         hsize (fold rehash_entry es m) = hsize m + length (filter live es) \<and>
         tombstone_count (fold rehash_entry es m) = 0 \<and>
         capacity (fold rehash_entry es m) = capacity m"
  using assms
proof (induction es arbitrary: m)
  case Nil
  then show ?case by (simp add: live_map_def)
next
  case (Cons e es)
  show ?case
  proof (cases "live e")
    case False
    then have "rehash_entry e m = m" by (auto simp: rehash_entry_def)
    with Cons False show ?thesis by (auto simp: live_map_def)
  next
    case True
    have new: "hm_alpha m (key e) = None" and "hsize m + 1 < capacity m"
      using Cons.prems(3,5) True by auto
    note step = rehash_entry_live [OF Cons.prems(1) True new Cons.prems(2) this(2)]
    have "\<forall>x\<in>set es. live x \<longrightarrow> hm_alpha (rehash_entry e m) (key x) = None"
      using Cons.prems(4,5) True by (auto simp: step(2)) (metis (mono_tags, lifting) image_eqI mem_Collect_eq)
    with Cons.IH [OF step(1,4)] Cons.prems(3,4) True
    have IH: "hm_inv (fold rehash_entry es (rehash_entry e m)) \<and>
         hm_alpha (fold rehash_entry es (rehash_entry e m)) =
           (hm_alpha m)(key e \<mapsto> hvalue e) ++ live_map es \<and>
         hsize (fold rehash_entry es (rehash_entry e m)) = hsize m + 1 + length (filter live es) \<and>
         tombstone_count (fold rehash_entry es (rehash_entry e m)) = 0 \<and>
         capacity (fold rehash_entry es (rehash_entry e m)) = capacity m"
      by (simp add: step fun_upd_def)
    have "(hm_alpha m)(key e \<mapsto> hvalue e) ++ live_map es = hm_alpha m ++ live_map (e # es)"
    proof -
      have "live_map es (key e) = None"
        using Cons.prems(4) True by (auto simp: live_map_def map_of_eq_None_iff)
      then show ?thesis
        using True by (auto simp: live_map_def map_add_def fun_eq_iff split: option.splits)
    qed
    with IH True show ?thesis by simp
  qed
qed

lemma distinct_map_filter_nth:
  assumes "\<And>a b. a < length xs \<Longrightarrow> b < length xs \<Longrightarrow> P (xs ! a) \<Longrightarrow> P (xs ! b) \<Longrightarrow>
    f (xs ! a) = f (xs ! b) \<Longrightarrow> a = b"
  shows "distinct (map f (filter P xs))"
  using assms
proof (induction xs)
  case (Cons x xs)
  have "distinct (map f (filter P xs))"
    using Cons.prems [of "Suc _" "Suc _"] by (intro Cons.IH) auto
  moreover have "f x \<notin> f ` {y \<in> set xs. P y}" if "P x"
    using that Cons.prems [of 0 "Suc _"] by (force simp: in_set_conv_nth)
  ultimately show ?case by simp
qed simp

lemma rehash_correct:
  assumes inv: "hm_inv m" and n: "capacity m < n" and ok: "alloc_ok"
  shows "hm_inv (rehash alloc_ok m n)" "hm_alpha (rehash alloc_ok m n) = hm_alpha m"
    "capacity (rehash alloc_ok m n) = n" "tombstone_count (rehash alloc_ok m n) = 0"
    "hsize (rehash alloc_ok m n) = hsize m"
proof -
  let ?m0 = "\<lparr>entries = replicate n zero_entry, capacity = n, hsize = 0, tombstone_count = 0\<rparr>"
  have big: "INITIAL_CAPACITY \<le> n" using inv n by (simp add: hm_inv_def)
  note empty = empty_table [OF refl big]
  have "distinct (map key (filter live (entries m)))"
    using live_unique [OF inv] inv by (intro distinct_map_filter_nth) (simp add: hm_inv_def)
  then have "hm_inv (fold rehash_entry (entries m) ?m0) \<and>
      hm_alpha (fold rehash_entry (entries m) ?m0) = hm_alpha ?m0 ++ live_map (entries m) \<and>
      hsize (fold rehash_entry (entries m) ?m0) = hsize ?m0 + length (filter live (entries m)) \<and>
      tombstone_count (fold rehash_entry (entries m) ?m0) = 0 \<and>
      capacity (fold rehash_entry (entries m) ?m0) = capacity ?m0"
    using inv n by (intro fold_rehash_entry empty(1)) (auto simp: empty(2) hm_inv_def)
  moreover have "rehash alloc_ok m n = fold rehash_entry (entries m) ?m0"
    using ok big by (simp add: rehash_def)
  moreover have "hsize m = length (filter live (entries m))" using inv by (simp add: hm_inv_def)
  ultimately show "hm_inv (rehash alloc_ok m n)" "hm_alpha (rehash alloc_ok m n) = hm_alpha m"
    "capacity (rehash alloc_ok m n) = n" "tombstone_count (rehash alloc_ok m n) = 0"
    "hsize (rehash alloc_ok m n) = hsize m"
    by (simp_all add: hm_alpha_live_map [of m] empty(2))
qed

lemma rehash_failed: "rehash False m n = m"
  by (simp add: rehash_def)

text \<open>The table \<open>hashmap_put\<close> inserts into: it has a free place whether or not it grew.\<close>

definition grown :: "bool \<Rightarrow> hashmap \<Rightarrow> hashmap" where
  "grown alloc_ok m = (if over_load m then rehash alloc_ok m (capacity m * GROWTH_FACTOR) else m)"

lemma grown_correct:
  assumes "hm_inv m" "alloc_ok \<or> hsize m + tombstone_count m + 1 < capacity m"
  shows "hm_inv (grown alloc_ok m)" "hm_alpha (grown alloc_ok m) = hm_alpha m"
    "hsize (grown alloc_ok m) + tombstone_count (grown alloc_ok m) + 1 < capacity (grown alloc_ok m)"
proof -
  have cap: "capacity m < capacity m * GROWTH_FACTOR" "INITIAL_CAPACITY \<le> capacity m"
    "hsize m + tombstone_count m < capacity m"
    using assms(1) by (auto simp: hm_inv_def)
  note r = rehash_correct [OF assms(1) cap(1)]
  show "hm_inv (grown alloc_ok m)" "hm_alpha (grown alloc_ok m) = hm_alpha m"
    "hsize (grown alloc_ok m) + tombstone_count (grown alloc_ok m) + 1 < capacity (grown alloc_ok m)"
    using assms r cap by (cases alloc_ok; cases "over_load m"; simp add: grown_def rehash_failed over_load_def)+
qed

lemma hashmap_put_correct:
  assumes "hm_inv m" "alloc_ok \<or> hsize m + tombstone_count m + 1 < capacity m"
  shows "hm_inv (hashmap_put alloc_ok m k v)" "hm_alpha (hashmap_put alloc_ok m k v) = (hm_alpha m)(k \<mapsto> v)"
proof -
  let ?g = "grown alloc_ok m"
  note g = grown_correct [OF assms]
  obtain idx found where p: "probe ?g k = (idx, found)" by fastforce
  have "hm_inv (hashmap_put alloc_ok m k v) \<and> hm_alpha (hashmap_put alloc_ok m k v) = (hm_alpha ?g)(k \<mapsto> v)"
  proof (cases found)
    case True
    then have "hashmap_put alloc_ok m k v = ?g\<lparr>entries := (entries ?g)[idx := (entries ?g ! idx)\<lparr>hvalue := v\<rparr>]\<rparr>"
      using p by (simp add: hashmap_put_def grown_def [symmetric] Let_def)
    from update_value [OF g(1) _ this] p True show ?thesis by simp
  next
    case False
    let ?e = "(entries ?g ! idx)\<lparr>key := k, hvalue := v, occupied := True, deleted := False\<rparr>"
    have "hashmap_put alloc_ok m k v = ?g\<lparr>entries := (entries ?g)[idx := ?e], hsize := hsize ?g + 1,
        tombstone_count := (if deleted (entries ?g ! idx) then tombstone_count ?g - 1 else tombstone_count ?g)\<rparr>"
      using p False by (simp add: hashmap_put_def grown_def [symmetric] Let_def)
    from fill_place [OF g(1) _ _ g(3) this] p False show ?thesis by simp
  qed
  then show "hm_inv (hashmap_put alloc_ok m k v)"
    "hm_alpha (hashmap_put alloc_ok m k v) = (hm_alpha m)(k \<mapsto> v)" by (simp_all add: g(2))
qed

lemma hashmap_remove_correct:
  assumes "hm_inv m"
  shows "hm_inv (snd (hashmap_remove m k))" "hm_alpha (snd (hashmap_remove m k)) = (hm_alpha m)(k := None)"
    "fst (hashmap_remove m k) \<longleftrightarrow> hm_alpha m k \<noteq> None"
proof -
  obtain idx found where p: "probe m k = (idx, found)" by fastforce
  have "hm_inv (snd (hashmap_remove m k)) \<and> hm_alpha (snd (hashmap_remove m k)) = (hm_alpha m)(k := None) \<and>
    (fst (hashmap_remove m k) \<longleftrightarrow> hm_alpha m k \<noteq> None)"
  proof (cases found)
    case True
    with p remove_entry [OF assms _ refl] probe_found(4) [OF assms] show ?thesis
      by (simp add: hashmap_remove_def)
  next
    case False
    with p assms probe_not_found(4) [OF assms] show ?thesis
      by (simp add: hashmap_remove_def fun_upd_idem)
  qed
  then show "hm_inv (snd (hashmap_remove m k))" "hm_alpha (snd (hashmap_remove m k)) = (hm_alpha m)(k := None)"
    "fst (hashmap_remove m k) \<longleftrightarrow> hm_alpha m k \<noteq> None" by blast+
qed

lemma hashmap_clear_correct:
  assumes "hm_inv m"
  shows "hm_inv (hashmap_clear m)" "hm_alpha (hashmap_clear m) = Map.empty" "hsize (hashmap_clear m) = 0"
proof -
  have "hashmap_clear m = \<lparr>entries = replicate (capacity m) zero_entry, capacity = capacity m,
      hsize = 0, tombstone_count = 0\<rparr>" by (simp add: hashmap_clear_def)
  from empty_table [OF this] assms show "hm_inv (hashmap_clear m)" "hm_alpha (hashmap_clear m) = Map.empty"
    by (simp_all add: hm_inv_def)
qed (simp add: hashmap_clear_def)

lemma hashmap_init_correct: "hm_inv hashmap_init" "hm_alpha hashmap_init = Map.empty"
  using empty_table [OF hashmap_init_def] by simp_all

lemma hm_alpha_card: "hm_inv m \<Longrightarrow> hsize m = 0 \<longleftrightarrow> hm_alpha m = Map.empty"
  by (auto simp: hm_inv_def hm_alpha_def filter_empty_conv)

section \<open>The table implements the store interface\<close>

abbreviation put_ok :: "hashmap \<Rightarrow> u32 \<Rightarrow> u32 \<Rightarrow> hashmap" where
  "put_ok \<equiv> hashmap_put True"

abbreviation remove_key :: "hashmap \<Rightarrow> u32 \<Rightarrow> hashmap" where
  "remove_key m k \<equiv> snd (hashmap_remove m k)"

interpretation hm: key_store hashmap_init hashmap_get put_ok remove_key hashmap_clear hm_inv
proof unfold_locales
  fix m k v assume inv: "hm_inv m"
  show "hm_inv (put_ok m k v)" "hm_inv (remove_key m k)" "hm_inv (hashmap_clear m)"
    by (simp_all add: inv hashmap_put_correct hashmap_remove_correct hashmap_clear_correct)
  show "hashmap_get (put_ok m k v) = (hashmap_get m)(k \<mapsto> v)"
    by (simp add: fun_eq_iff inv hashmap_get_correct hashmap_put_correct)
  show "hashmap_get (remove_key m k) = (hashmap_get m)(k := None)"
    by (simp add: fun_eq_iff inv hashmap_get_correct hashmap_remove_correct)
  show "hashmap_get (hashmap_clear m) = Map.empty"
    by (simp add: fun_eq_iff inv hashmap_get_correct hashmap_clear_correct)
qed (simp_all add: fun_eq_iff hashmap_init_correct hashmap_get_correct)

text \<open>
  C5. The hash table refines a finite map: after any sequence of \<open>hashmap_put\<close>,
  \<open>hashmap_remove\<close> and \<open>hashmap_clear\<close> calls on a table from \<open>hashmap_init\<close> (with any
  number of collisions, tombstones and growths in between), \<open>hashmap_get\<close> returns for every
  key what the same sequence leaves in the map.
\<close>

theorem hashmap_refines_map:
  "hashmap_get (fold (run_store_op (hashmap_put True) (\<lambda>m k. snd (hashmap_remove m k)) hashmap_clear) ops
     hashmap_init) k = fold run_map_op ops Map.empty k"
  by (simp add: hm.run_new_refines)

text \<open>
  An insertion keeps the table well formed (the counters count the live and the deleted
  entries, some slot was never used, every live entry is on its own probe sequence) and stores
  exactly the new binding, even when \<open>calloc\<close> fails in \<open>rehash\<close>, as long as the table then has
  two slots that were never used.
\<close>

theorem hashmap_put_preserves_inv:
  assumes "hm_inv m" and "alloc_ok \<or> hsize m + tombstone_count m + 1 < capacity m"
  shows "hm_inv (hashmap_put alloc_ok m k v) \<and>
         hashmap_get (hashmap_put alloc_ok m k v) = (hashmap_get m)(k \<mapsto> v)"
  using hashmap_put_correct [OF assms] by (simp add: fun_eq_iff hashmap_get_correct assms(1))

theorem hashmap_put_preserves_inv_witness:
  "hm_inv (hashmap_put False hashmap_init 5 7) \<and>
   hashmap_get (hashmap_put False hashmap_init 5 7) = (hashmap_get hashmap_init)(5 \<mapsto> 7)"
  by (rule hashmap_put_preserves_inv [OF hashmap_init_correct(1)]) (simp add: hashmap_init_def)

end
