(* ===== verification/Clint.thy ===== *)
theory Clint
  imports Prelude
begin

text \<open>
  The core-local interruptor of src/device/clint.c: the free-running counter \<open>mtime\<close>, the
  compare register \<open>mtimecmp\<close>, their byte-wise MMIO accessors, and the timer condition
  that drives MIP.MTIP. \<open>clint_read\<close> returns an \<open>int32_t\<close>, kept as a 32-bit word.
\<close>

record clint =
  clint_mtime :: u64
  clint_mtimecmp :: u64

abbreviation CLINT_BASE :: u32 where "CLINT_BASE \<equiv> 0x02000000"
abbreviation CLINT_SIZE :: u32 where "CLINT_SIZE \<equiv> 0x00010000"
abbreviation CLINT_MTIMECMP_HART0 :: u32 where "CLINT_MTIMECMP_HART0 \<equiv> 0x02004000"
abbreviation CLINT_MTIME_ADDR :: u32 where "CLINT_MTIME_ADDR \<equiv> 0x0200BFF8"

definition clint_init :: clint where
  "clint_init = \<lparr>clint_mtime = 0, clint_mtimecmp = 0\<rparr>"

definition clint_tick :: "clint \<Rightarrow> clint" where
  "clint_tick c = c\<lparr>clint_mtime := clint_mtime c + 1\<rparr>"

definition clint_get_mtime :: "clint \<Rightarrow> u64" where
  "clint_get_mtime c = clint_mtime c"

definition clint_mtip_pending :: "clint \<Rightarrow> bool" where
  "clint_mtip_pending c \<longleftrightarrow> clint_mtimecmp c \<noteq> 0 \<and> clint_mtime c \<ge> clint_mtimecmp c"

definition clint_store :: "u32 \<Rightarrow> u8 \<Rightarrow> clint \<Rightarrow> clint" where
  "clint_store addr val c =
     (if addr \<ge> CLINT_MTIMECMP_HART0 \<and> addr < CLINT_MTIMECMP_HART0 + 8 then
        let byte = (ucast (addr - CLINT_MTIMECMP_HART0) :: u8);
            cmp = clint_mtimecmp c AND NOT (shl 0xFF (unat byte * 8))
        in c\<lparr>clint_mtimecmp := cmp OR shl (ucast val) (unat byte * 8)\<rparr>
      else c)"

definition clint_read :: "u32 \<Rightarrow> clint \<Rightarrow> u32" where
  "clint_read addr c =
     (if addr \<ge> CLINT_MTIMECMP_HART0 \<and> addr < CLINT_MTIMECMP_HART0 + 8 then
        let byte = (ucast (addr - CLINT_MTIMECMP_HART0) :: u8)
        in ucast (shr (clint_mtimecmp c) (unat byte * 8) AND 0xFF)
      else if addr \<ge> CLINT_MTIME_ADDR \<and> addr < CLINT_MTIME_ADDR + 8 then
        let byte = (ucast (addr - CLINT_MTIME_ADDR) :: u8)
        in ucast (shr (clint_mtime c) (unat byte * 8) AND 0xFF)
      else if addr \<ge> CLINT_BASE \<and> addr < CLINT_BASE + CLINT_SIZE then 0
      else 0xFFFFFFFF)"

section \<open>Facts\<close>

text \<open>Byte \<open>i\<close> of a 64-bit register, and the register with that byte replaced.\<close>

definition lane :: "u64 \<Rightarrow> nat \<Rightarrow> u8" where
  "lane r i = ucast (shr r (8 * i))"

definition set_lane :: "u64 \<Rightarrow> nat \<Rightarrow> u8 \<Rightarrow> u64" where
  "set_lane r i v = (r AND NOT (shl 0xFF (8 * i))) OR shl (ucast v) (8 * i)"

lemma bit_lane: "bit (lane r i) n \<longleftrightarrow> n < 8 \<and> bit r (8 * i + n)"
  by (auto simp: lane_def bit_simps)

lemma bit_ff: "bit (0xFF :: 'a::len word) n \<longleftrightarrow> n < 8 \<and> n < LENGTH('a)"
proof -
  have "(0xFF :: 'a word) = mask 8" by (simp add: mask_eq_exp_minus_1)
  then show ?thesis by (auto simp only: bit_mask_iff possible_bit_word)
qed

lemma bit_ff_int: "bit (0xFF :: int) n \<longleftrightarrow> n < 8"
proof -
  have "(0xFF :: int) = mask 8" by (simp add: mask_eq_exp_minus_1)
  then show ?thesis by (simp only: bit_mask_iff possible_bit_int) simp
qed

lemma bit_set_lane:
  "n < 64 \<Longrightarrow> bit (set_lane r i v) n \<longleftrightarrow>
     (if 8 * i \<le> n \<and> n < 8 * i + 8 then bit v (n - 8 * i) else bit r n)"
  by (auto simp: set_lane_def bit_simps bit_ff_int dest: bit_imp_le_length)

lemma lane_set_lane: "i < 8 \<Longrightarrow> j < 8 \<Longrightarrow> lane (set_lane r i v) j = (if i = j then v else lane r j)"
  by (rule bit_word_eqI) (auto simp: bit_lane bit_set_lane)

lemma lanes_eqI: "(\<And>i. i < 8 \<Longrightarrow> lane r i = lane s i) \<Longrightarrow> r = s"
proof (rule bit_word_eqI)
  fix n assume eq: "\<And>i. i < 8 \<Longrightarrow> lane r i = lane s i" and "n < LENGTH(64)"
  then have "bit (lane r (n div 8)) (n mod 8) = bit (lane s (n div 8)) (n mod 8)" by simp
  then show "bit r n = bit s n" by (simp add: bit_lane)
qed

text \<open>The accessors, seen through the byte lanes they touch.\<close>

abbreviation in_mtimecmp :: "u32 \<Rightarrow> bool" where
  "in_mtimecmp a \<equiv> a \<ge> CLINT_MTIMECMP_HART0 \<and> a < CLINT_MTIMECMP_HART0 + 8"

abbreviation in_mtime :: "u32 \<Rightarrow> bool" where
  "in_mtime a \<equiv> a \<ge> CLINT_MTIME_ADDR \<and> a < CLINT_MTIME_ADDR + 8"

lemma unat_ucast8: "unat (x :: u32) < 256 \<Longrightarrow> unat (ucast x :: u8) = unat x"
  by (simp add: unsigned_ucast_eq take_bit_nat_eq_self unsigned_take_bit_eq)

lemma mtimecmp_offset: "in_mtimecmp a \<Longrightarrow> unat (a - CLINT_MTIMECMP_HART0) < 8"
  by (simp, unat_arith)

lemma mtime_offset: "in_mtime a \<Longrightarrow> unat (a - CLINT_MTIME_ADDR) < 8"
  by (simp, unat_arith)

lemma clint_store_lane:
  assumes "in_mtimecmp a"
  shows "clint_store a v c =
    c\<lparr>clint_mtimecmp := set_lane (clint_mtimecmp c) (unat (a - CLINT_MTIMECMP_HART0)) v\<rparr>"
proof -
  have "unat (ucast (a - CLINT_MTIMECMP_HART0) :: u8) = unat (a - CLINT_MTIMECMP_HART0)"
    using mtimecmp_offset [OF assms] by (intro unat_ucast8) simp
  then show ?thesis using assms by (simp add: clint_store_def set_lane_def Let_def mult.commute)
qed

lemma and_ff_ucast: "ucast (x AND 0xFF) = (ucast (ucast x :: u8) :: u32)" for x :: u64
  by (rule bit_word_eqI) (auto simp: bit_simps bit_ff_int)

lemma clint_read_mtimecmp:
  assumes "in_mtimecmp a"
  shows "clint_read a c = ucast (lane (clint_mtimecmp c) (unat (a - CLINT_MTIMECMP_HART0)))"
proof -
  have "unat (ucast (a - CLINT_MTIMECMP_HART0) :: u8) = unat (a - CLINT_MTIMECMP_HART0)"
    using mtimecmp_offset [OF assms] by (intro unat_ucast8) simp
  then show ?thesis using assms by (simp add: clint_read_def lane_def Let_def mult.commute and_ff_ucast)
qed

lemma clint_read_mtime:
  assumes "in_mtime a"
  shows "clint_read a c = ucast (lane (clint_mtime c) (unat (a - CLINT_MTIME_ADDR)))"
proof -
  have "unat (ucast (a - CLINT_MTIME_ADDR) :: u8) = unat (a - CLINT_MTIME_ADDR)"
    using mtime_offset [OF assms] by (intro unat_ucast8) simp
  moreover have "\<not> in_mtimecmp a" using assms by (simp, unat_arith)
  ultimately show ?thesis using assms
    by (auto simp: clint_read_def lane_def Let_def mult.commute and_ff_ucast)
qed

lemma clint_read_other:
  assumes "\<not> in_mtimecmp a" "\<not> in_mtime a"
  shows "clint_read a c = (if a \<ge> CLINT_BASE \<and> a < CLINT_BASE + CLINT_SIZE then 0 else 0xFFFFFFFF)"
  using assms by (auto simp: clint_read_def)

text \<open>
  Byte-wise MMIO on the CLINT: a byte stored in the \<open>mtimecmp\<close> window is the byte read back
  there and no other byte of the CLINT changes; a store anywhere else (the read-only \<open>mtime\<close>
  included) changes nothing.
\<close>

theorem clint_store_read:
  "clint_read b (clint_store a v c) =
     (if in_mtimecmp a \<and> a = b then ucast v else clint_read b c)"
proof (cases "in_mtimecmp a")
  case False
  then show ?thesis by (auto simp: clint_store_def)
next
  case a: True
  consider "in_mtimecmp b" | "\<not> in_mtimecmp b" "in_mtime b" | "\<not> in_mtimecmp b" "\<not> in_mtime b"
    by blast
  then show ?thesis
  proof cases
    case 1
    have "unat (a - CLINT_MTIMECMP_HART0) = unat (b - CLINT_MTIMECMP_HART0) \<longleftrightarrow> a = b"
      by (simp add: word_unat_eq_iff [symmetric])
    with a 1 mtimecmp_offset [OF a] mtimecmp_offset [OF 1] show ?thesis
      by (simp add: clint_store_lane clint_read_mtimecmp lane_set_lane)
  next
    case 2
    with a show ?thesis by (auto simp: clint_store_lane clint_read_mtime)
  next
    case 3
    with a show ?thesis by (auto simp: clint_store_lane clint_read_other)
  qed
qed

text \<open>
  C32. The timer: with the comparator armed and no wrap-around of the 64-bit counter, MTIP is
  pending after \<open>n\<close> ticks exactly when the deadline lies within these \<open>n\<close> ticks; with a zero
  comparator it is never pending.
\<close>

theorem clint_timer_fires:
  assumes "unat (clint_mtime c) + n < 2 ^ 64"
  shows "clint_mtip_pending ((clint_tick ^^ n) c) \<longleftrightarrow>
    clint_mtimecmp c \<noteq> 0 \<and> unat (clint_mtimecmp c) \<le> unat (clint_mtime c) + n"
proof -
  have tick: "(clint_tick ^^ n) c = c\<lparr>clint_mtime := clint_mtime c + of_nat n\<rparr>"
    by (induction n) (simp_all add: clint_tick_def add.commute add.left_commute)
  have "unat (clint_mtime c + of_nat n) = unat (clint_mtime c) + n"
    using assms by (simp add: unat_word_ariths unat_of_nat)
  then show ?thesis by (simp add: clint_mtip_pending_def tick word_le_nat_alt)
qed

theorem clint_timer_fires_witness:
  "clint_mtip_pending ((clint_tick ^^ 5) \<lparr>clint_mtime = 10, clint_mtimecmp = 15\<rparr>) \<and>
   \<not> clint_mtip_pending ((clint_tick ^^ 4) \<lparr>clint_mtime = 10, clint_mtimecmp = 15\<rparr>)"
  using clint_timer_fires [of "\<lparr>clint_mtime = 10, clint_mtimecmp = 15\<rparr>" 5]
    clint_timer_fires [of "\<lparr>clint_mtime = 10, clint_mtimecmp = 15\<rparr>" 4]
  by simp

end
