(* ===== verification/Plic.thy ===== *)
theory Plic
  imports Prelude
begin

text \<open>
  The platform-level interrupt controller of src/device/plic.c: ten level-sensitive sources,
  two contexts (0 machine, 1 supervisor), priorities, thresholds, enables and the
  claim/complete protocol. The C arrays are functions of the index; every index the code
  forms is within the array (source ids 1 to 10, contexts 0 and 1).
\<close>

section \<open>The code\<close>

abbreviation PLIC_NDEV :: nat where "PLIC_NDEV \<equiv> 10"
abbreviation PLIC_NCTX :: nat where "PLIC_NCTX \<equiv> 2"
abbreviation PLIC_BASE :: u32 where "PLIC_BASE \<equiv> 0x0C000000"
abbreviation PLIC_SIZE :: u32 where "PLIC_SIZE \<equiv> 0x04000000"
abbreviation PLIC_PRIORITY_END :: u32 where "PLIC_PRIORITY_END \<equiv> 0x2C"
abbreviation PLIC_PENDING_BASE :: u32 where "PLIC_PENDING_BASE \<equiv> 0x001000"
abbreviation PLIC_ENABLE_BASE :: u32 where "PLIC_ENABLE_BASE \<equiv> 0x002000"
abbreviation PLIC_ENABLE_STRIDE :: u32 where "PLIC_ENABLE_STRIDE \<equiv> 0x80"
abbreviation PLIC_CONTEXT_BASE :: u32 where "PLIC_CONTEXT_BASE \<equiv> 0x200000"
abbreviation PLIC_CONTEXT_STRIDE :: u32 where "PLIC_CONTEXT_STRIDE \<equiv> 0x1000"
abbreviation PLIC_CLAIM_OFF :: u32 where "PLIC_CLAIM_OFF \<equiv> 0x4"

record plic =
  prio :: "nat \<Rightarrow> u32"
  pending :: u32
  enable :: "nat \<Rightarrow> u32"
  threshold :: "nat \<Rightarrow> u32"
  claimed :: "nat \<Rightarrow> nat \<Rightarrow> bool"

definition plic_init :: plic where
  "plic_init = \<lparr>prio = (\<lambda>_. 0), pending = 0, enable = (\<lambda>_. 0), threshold = (\<lambda>_. 0),
                claimed = (\<lambda>_ _. False)\<rparr>"

text \<open>The four \<open>continue\<close> tests of the loop of \<open>plic_best_source\<close>, negated.\<close>

definition plic_candidate :: "plic \<Rightarrow> nat \<Rightarrow> nat \<Rightarrow> bool" where
  "plic_candidate p ctx src \<longleftrightarrow>
     pending p AND shl 1 src \<noteq> 0 \<and> \<not> claimed p ctx src \<and>
     enable p ctx AND shl 1 src \<noteq> 0 \<and> \<not> prio p src \<le> threshold p ctx"

text \<open>One iteration, on the pair (\<open>best\<close>, \<open>best_pri\<close>), and the loop over \<open>src = 1 .. PLIC_NDEV\<close>.\<close>

definition best_step :: "plic \<Rightarrow> nat \<Rightarrow> nat \<Rightarrow> nat \<times> u32 \<Rightarrow> nat \<times> u32" where
  "best_step p ctx src = (\<lambda>(best, best_pri).
     if plic_candidate p ctx src \<and> prio p src \<ge> best_pri then (src, prio p src) else (best, best_pri))"

definition plic_best_source :: "plic \<Rightarrow> nat \<Rightarrow> nat" where
  "plic_best_source p ctx = fst (fold (best_step p ctx) [1..<Suc PLIC_NDEV] (0, 0))"

definition plic_read32 :: "u32 \<Rightarrow> plic \<Rightarrow> u32 \<times> plic" where
  "plic_read32 off p =
     (if off \<ge> 0x4 \<and> off < PLIC_PRIORITY_END then
        let src = unat (off div 4)
        in (if src \<ge> 1 \<and> src \<le> PLIC_NDEV then prio p src else 0, p)
      else if off \<ge> PLIC_PENDING_BASE \<and> off < PLIC_PENDING_BASE + 4 then (pending p, p)
      else if off \<ge> PLIC_ENABLE_BASE \<and> off < PLIC_ENABLE_BASE + PLIC_ENABLE_STRIDE * 2 then
        let ctx = unat ((off - PLIC_ENABLE_BASE) div PLIC_ENABLE_STRIDE);
            word = ((off - PLIC_ENABLE_BASE) mod PLIC_ENABLE_STRIDE) div 4
        in (if word = 0 then enable p ctx else 0, p)
      else if off \<ge> PLIC_CONTEXT_BASE \<and> off < PLIC_CONTEXT_BASE + PLIC_CONTEXT_STRIDE * 2 then
        let ctx = unat ((off - PLIC_CONTEXT_BASE) div PLIC_CONTEXT_STRIDE);
            sub = (off - PLIC_CONTEXT_BASE) mod PLIC_CONTEXT_STRIDE
        in if sub = 0 then (threshold p ctx, p)
           else if sub = PLIC_CLAIM_OFF then
             let src = plic_best_source p ctx
             in if src \<ge> 1 \<and> src \<le> PLIC_NDEV then
                  (of_nat src, p\<lparr>claimed := (claimed p)(ctx := (claimed p ctx)(src := True))\<rparr>)
                else (0, p)
           else (0, p)
      else (0, p))"

definition plic_write32 :: "u32 \<Rightarrow> u32 \<Rightarrow> plic \<Rightarrow> plic" where
  "plic_write32 off val p =
     (if off \<ge> 0x4 \<and> off < PLIC_PRIORITY_END then
        let src = unat (off div 4)
        in if src \<ge> 1 \<and> src \<le> PLIC_NDEV then p\<lparr>prio := (prio p)(src := val AND 0x7)\<rparr> else p
      else if off \<ge> PLIC_ENABLE_BASE \<and> off < PLIC_ENABLE_BASE + PLIC_ENABLE_STRIDE * 2 then
        let ctx = unat ((off - PLIC_ENABLE_BASE) div PLIC_ENABLE_STRIDE);
            word = ((off - PLIC_ENABLE_BASE) mod PLIC_ENABLE_STRIDE) div 4
        in if word = 0 then p\<lparr>enable := (enable p)(ctx := val)\<rparr> else p
      else if off \<ge> PLIC_CONTEXT_BASE \<and> off < PLIC_CONTEXT_BASE + PLIC_CONTEXT_STRIDE * 2 then
        let ctx = unat ((off - PLIC_CONTEXT_BASE) div PLIC_CONTEXT_STRIDE);
            sub = (off - PLIC_CONTEXT_BASE) mod PLIC_CONTEXT_STRIDE
        in if sub = 0 then p\<lparr>threshold := (threshold p)(ctx := val AND 0x7)\<rparr>
           else if sub = PLIC_CLAIM_OFF then
             let src = unat (val AND 0x1F)
             in if src \<ge> 1 \<and> src \<le> PLIC_NDEV then
                  p\<lparr>claimed := (claimed p)(ctx := (claimed p ctx)(src := False))\<rparr>
                else p
           else p
      else p)"

definition plic_set_irq :: "nat \<Rightarrow> bool \<Rightarrow> plic \<Rightarrow> plic" where
  "plic_set_irq src level p =
     (if src < 1 \<or> src > PLIC_NDEV then p
      else if level then p\<lparr>pending := pending p OR shl 1 src\<rparr>
      else p\<lparr>pending := pending p AND NOT (shl 1 src)\<rparr>)"

definition plic_external_pending :: "plic \<Rightarrow> nat" where
  "plic_external_pending p = plic_best_source p 0"

definition plic_external_pending_s :: "plic \<Rightarrow> nat" where
  "plic_external_pending_s p = plic_best_source p 1"

definition plic_irq_count :: nat where
  "plic_irq_count = PLIC_NDEV"

section \<open>Source selection\<close>

lemma test_shl_1: "n < 32 \<Longrightarrow> (x AND shl 1 n \<noteq> 0) \<longleftrightarrow> bit x n" for x :: u32
  using and_exp_test [of x n] by (simp add: push_bit_eq_mult)

lemma candidate_iff:
  "src < 32 \<Longrightarrow> plic_candidate p ctx src \<longleftrightarrow>
     bit (pending p) src \<and> \<not> claimed p ctx src \<and> bit (enable p ctx) src \<and> threshold p ctx < prio p src"
  by (auto simp: plic_candidate_def and_exp_test not_le)

text \<open>
  The loop invariant: among the sources seen so far, \<open>best\<close> is the last one of greatest
  priority that may be forwarded, or 0.
\<close>

definition best_of :: "plic \<Rightarrow> nat \<Rightarrow> nat set \<Rightarrow> nat \<Rightarrow> bool" where
  "best_of p ctx ids b \<longleftrightarrow>
     (if b = 0 then \<forall>src\<in>ids. \<not> plic_candidate p ctx src
      else b \<in> ids \<and> plic_candidate p ctx b \<and>
           (\<forall>src\<in>ids. plic_candidate p ctx src \<longrightarrow> prio p src < prio p b \<or> prio p src = prio p b \<and> src \<le> b))"

lemma best_step_eq:
  "best_step p ctx src (best, best_pri) =
     (if plic_candidate p ctx src \<and> best_pri \<le> prio p src then (src, prio p src) else (best, best_pri))"
  by (simp add: best_step_def)

lemma fold_best_step:
  assumes "n \<le> PLIC_NDEV"
  shows "\<exists>b. fold (best_step p ctx) [1..<Suc n] (0, 0) = (b, if b = 0 then 0 else prio p b) \<and>
           best_of p ctx {1..n} b"
  using assms
proof (induction n)
  case 0
  show ?case by (simp add: best_of_def)
next
  case (Suc n)
  then obtain b where b: "fold (best_step p ctx) [1..<Suc n] (0, 0) = (b, if b = 0 then 0 else prio p b)"
    and best: "best_of p ctx {1..n} b" by auto
  have step: "fold (best_step p ctx) [1..<Suc (Suc n)] (0, 0) =
      best_step p ctx (Suc n) (b, if b = 0 then 0 else prio p b)"
    using b by (simp add: upt_Suc_append del: upt_Suc)
  have ids: "{1..Suc n} = insert (Suc n) {1..n}" by auto
  show ?case
  proof (cases "plic_candidate p ctx (Suc n) \<and> (if b = 0 then 0 else prio p b) \<le> prio p (Suc n)")
    case True
    then show ?thesis using best unfolding ids step
      by (intro exI [of _ "Suc n"])
        (auto simp: best_step_eq best_of_def split: if_splits)
  next
    case False
    then show ?thesis using best unfolding ids step
      by (intro exI [of _ b])
        (auto simp: best_step_eq best_of_def split: if_splits)
  qed
qed

lemma best_source_best_of: "best_of p ctx {1..PLIC_NDEV} (plic_best_source p ctx)"
  using fold_best_step [of PLIC_NDEV p ctx] unfolding plic_best_source_def by fastforce

text \<open>
  C28. The source a context sees is the best one: it is pending, enabled, not already claimed by
  this context and above the threshold, no other such source has a greater priority, and
  among equal priorities it is the one with the greatest id; it is 0 exactly when there is
  no such source.
\<close>

theorem plic_best_source_correct:
  fixes p :: plic
  defines "cand \<equiv> \<lambda>ctx src. bit (pending p) src \<and> \<not> claimed p ctx src \<and> bit (enable p ctx) src \<and>
                    threshold p ctx < prio p src"
  shows "plic_best_source p ctx = 0 \<and> (\<forall>src\<in>{1..10}. \<not> cand ctx src) \<or>
         plic_best_source p ctx \<in> {1..10} \<and> cand ctx (plic_best_source p ctx) \<and>
         (\<forall>src\<in>{1..10}. cand ctx src \<longrightarrow> prio p src < prio p (plic_best_source p ctx) \<or>
            prio p src = prio p (plic_best_source p ctx) \<and> src \<le> plic_best_source p ctx)"
  using best_source_best_of [of p ctx] unfolding best_of_def cand_def
  by (cases "plic_best_source p ctx = 0") (auto simp: candidate_iff)

theorem plic_best_source_correct_witness:
  "plic_best_source \<lparr>prio = (\<lambda>_. 1), pending = 0x418, enable = (\<lambda>_. 0xFFFFFFFF),
     threshold = (\<lambda>_. 0), claimed = (\<lambda>_ _. False)\<rparr> 1 = 10"
  using plic_best_source_correct [of "\<lparr>prio = (\<lambda>_. 1), pending = 0x418, enable = (\<lambda>_. 0xFFFFFFFF),
     threshold = (\<lambda>_. 0), claimed = (\<lambda>_ _. False)\<rparr>" 1]
  by (auto dest: bspec [of _ _ 10])

section \<open>Claim and complete\<close>

lemma best_source_le: "plic_best_source p ctx \<le> PLIC_NDEV"
  using best_source_best_of [of p ctx] by (auto simp: best_of_def split: if_splits)

lemma best_source_cong:
  assumes "\<And>src. plic_candidate p ctx src = plic_candidate q ctx' src" "prio p = prio q"
  shows "plic_best_source p ctx = plic_best_source q ctx'"
proof -
  have "best_step p ctx = best_step q ctx'" using assms by (simp add: best_step_def fun_eq_iff)
  then show ?thesis by (simp add: plic_best_source_def)
qed

abbreviation claim_reg :: "nat \<Rightarrow> u32" where
  "claim_reg ctx \<equiv> PLIC_CONTEXT_BASE + PLIC_CONTEXT_STRIDE * of_nat ctx + PLIC_CLAIM_OFF"

lemma read_claim:
  assumes "ctx < PLIC_NCTX"
  shows "plic_read32 (claim_reg ctx) p =
    (of_nat (plic_best_source p ctx),
     if plic_best_source p ctx = 0 then p
     else p\<lparr>claimed := (claimed p)(ctx := (claimed p ctx)(plic_best_source p ctx := True))\<rparr>)"
proof -
  from assms have "ctx = 0 \<or> ctx = 1" by auto
  then show ?thesis using best_source_le [of p ctx]
    by (elim disjE; simp add: plic_read32_def Let_def Suc_le_eq)
qed

lemma write_claim:
  assumes "ctx < PLIC_NCTX" "1 \<le> src" "src \<le> PLIC_NDEV"
  shows "plic_write32 (claim_reg ctx) (of_nat src) p =
    p\<lparr>claimed := (claimed p)(ctx := (claimed p ctx)(src := False))\<rparr>"
proof -
  have src: "unat (of_nat src AND (0x1F :: u32)) = src"
    using assms(3) by (simp add: and_1F take_bit_nat_eq_self unsigned_take_bit_eq unsigned_of_nat)
  from assms(1) have "ctx = 0 \<or> ctx = 1" by auto
  then show ?thesis using assms(2,3) by (elim disjE; simp add: plic_write32_def Let_def src)
qed

text \<open>
  The claim protocol: a claim returns the best source of the context and masks it in
  that context only, so a second claim before completion never returns it again while the other
  context still sees it; completing it restores the state before the claim.
\<close>

theorem plic_claim_complete:
  assumes "ctx < 2" and "plic_best_source p ctx \<noteq> 0"
  shows "fst (plic_read32 (claim_reg ctx) p) = of_nat (plic_best_source p ctx) \<and>
         plic_best_source (snd (plic_read32 (claim_reg ctx) p)) ctx \<noteq> plic_best_source p ctx \<and>
         plic_best_source (snd (plic_read32 (claim_reg ctx) p)) (1 - ctx) = plic_best_source p (1 - ctx) \<and>
         plic_write32 (claim_reg ctx) (fst (plic_read32 (claim_reg ctx) p))
           (snd (plic_read32 (claim_reg ctx) p)) = p"
proof -
  define b where "b = plic_best_source p ctx"
  define q where "q = p\<lparr>claimed := (claimed p)(ctx := (claimed p ctx)(b := True))\<rparr>"
  have b: "1 \<le> b" "b \<le> PLIC_NDEV" "plic_candidate p ctx b"
    using assms best_source_le best_source_best_of [of p ctx]
    by (auto simp: b_def best_of_def split: if_splits)
  have rd: "plic_read32 (claim_reg ctx) p = (of_nat b, q)"
    using assms read_claim [of ctx p] by (simp add: b_def q_def)
  have "\<not> plic_candidate q ctx b" by (simp add: plic_candidate_def q_def)
  then have "plic_best_source q ctx \<noteq> b"
    using best_source_best_of [of q ctx] b by (auto simp: best_of_def)
  moreover have "plic_best_source q (1 - ctx) = plic_best_source p (1 - ctx)"
  proof -
    have "1 - ctx \<noteq> ctx" using assms(1) by presburger
    then show ?thesis by (intro best_source_cong) (simp_all add: plic_candidate_def q_def)
  qed
  moreover have "plic_write32 (claim_reg ctx) (of_nat b) q = p"
  proof -
    have "\<not> claimed p ctx b" using b(3) by (simp add: plic_candidate_def)
    then have "(claimed q)(ctx := (claimed q ctx)(b := False)) = claimed p"
      by (auto simp: q_def fun_eq_iff)
    then have "q\<lparr>claimed := (claimed q)(ctx := (claimed q ctx)(b := False))\<rparr> = p"
      by (simp add: q_def)
    then show ?thesis unfolding write_claim [OF assms(1) b(1,2)] .
  qed
  ultimately show ?thesis unfolding rd fst_conv snd_conv b_def [symmetric] by simp
qed

theorem plic_claim_complete_witness:
  "fst (plic_read32 (claim_reg 1) (plic_init\<lparr>prio := (\<lambda>_. 1), pending := 0x400, enable := (\<lambda>_. 0x400)\<rparr>)) = 10"
proof -
  let ?p = "plic_init\<lparr>prio := (\<lambda>_. 1), pending := 0x400, enable := (\<lambda>_. 0x400)\<rparr>"
  have "plic_best_source ?p 1 = 10" by code_simp
  with plic_claim_complete [of 1 ?p] show ?thesis by simp
qed

section \<open>Invariant and frame\<close>

text \<open>Priorities and thresholds have three bits, and only the lines 1 to 10 exist.\<close>

definition plic_inv :: "plic \<Rightarrow> bool" where
  "plic_inv p \<longleftrightarrow> (\<forall>i. prio p i \<le> 7) \<and> (\<forall>c. threshold p c \<le> 7) \<and>
     (\<forall>n. bit (pending p) n \<longrightarrow> 1 \<le> n \<and> n \<le> PLIC_NDEV)"

lemma plic_inv_init: "plic_inv plic_init"
  by (simp add: plic_inv_def plic_init_def)

lemma plic_inv_read: "plic_inv p \<Longrightarrow> plic_inv (snd (plic_read32 off p))"
  by (simp add: plic_read32_def Let_def plic_inv_def)

lemma and_7_le: "(x :: u32) AND 7 \<le> 7"
  by (rule word_and_le1)

lemma plic_inv_write: "plic_inv p \<Longrightarrow> plic_inv (plic_write32 off v p)"
  by (auto simp: plic_write32_def Let_def plic_inv_def and_7_le)

lemma plic_inv_set_irq: "plic_inv p \<Longrightarrow> plic_inv (plic_set_irq src l p)"
  by (auto simp: plic_set_irq_def plic_inv_def bit_simps split: if_splits)

lemma pending_read [frame]: "pending (snd (plic_read32 off p)) = pending p"
  by (simp add: plic_read32_def Let_def)

lemma pending_write [frame]: "pending (plic_write32 off v p) = pending p"
  by (simp add: plic_write32_def Let_def)

lemma pending_set_irq:
  "1 \<le> src \<Longrightarrow> src \<le> PLIC_NDEV \<Longrightarrow>
     bit (pending (plic_set_irq src l p)) n = (if n = src then l else bit (pending p) n)"
  by (auto simp: plic_set_irq_def bit_simps dest: bit_imp_le_length)

end
