(* ===== verification/Uart.thy ===== *)
theory Uart
  imports Plic
begin

text \<open>
  The 16550 UART of src/device/uart.c: receive FIFO, interrupt-enable and line-control
  registers, the paced transmitter, the interrupt line it drives on the PLIC, and the host
  input poller with its Ctrl-] x escape. The bytes written to the host's stdout are collected
  in \<open>tx_out\<close>. The operating system is an argument: what \<open>epoll\<close> reports and what the
  successive \<open>read\<close> calls of one poll return.
\<close>

section \<open>The device\<close>

abbreviation UART_BASE :: u32 where "UART_BASE \<equiv> 0x10000000"
abbreviation UART_NREGS :: u32 where "UART_NREGS \<equiv> 8"
abbreviation UART_IRQ :: nat where "UART_IRQ \<equiv> 10"
abbreviation IER_ERBI :: u8 where "IER_ERBI \<equiv> 1"
abbreviation IER_ETBEI :: u8 where "IER_ETBEI \<equiv> 2"
abbreviation LSR_DR :: u32 where "LSR_DR \<equiv> 1"
abbreviation LSR_THRE :: u32 where "LSR_THRE \<equiv> 0x20"
abbreviation LSR_TEMT :: u32 where "LSR_TEMT \<equiv> 0x40"
abbreviation IIR_NOPEND :: u32 where "IIR_NOPEND \<equiv> 1"
abbreviation IIR_RXDATA :: u32 where "IIR_RXDATA \<equiv> 4"
abbreviation IIR_THRE :: u32 where "IIR_THRE \<equiv> 2"
abbreviation LCR_DLAB :: u8 where "LCR_DLAB \<equiv> 0x80"
abbreviation RX_FIFO_SIZE :: nat where "RX_FIFO_SIZE \<equiv> 256"
abbreviation TX_SHIFT_TICKS :: u32 where "TX_SHIFT_TICKS \<equiv> 64"

record uart =
  rx :: "u8 list"
  rx_head :: nat
  rx_count :: nat
  ier :: u8
  lcr :: u8
  mcr :: u8
  scr :: u8
  irq_level :: bool
  thr_busy :: bool
  thr_ticks :: u32
  tx_out :: "u8 list"

text \<open>The two conditions of \<open>uart_update_irq\<close>.\<close>

definition uart_want :: "uart \<Rightarrow> bool" where
  "uart_want u \<longleftrightarrow>
     (let rx_pend = rx_count u > 0 \<and> ier u AND IER_ERBI \<noteq> 0;
          tx_pend = \<not> thr_busy u \<and> ier u AND IER_ETBEI \<noteq> 0
      in rx_pend \<or> tx_pend)"

definition uart_update_irq :: "uart \<Rightarrow> plic \<Rightarrow> uart \<times> plic" where
  "uart_update_irq u p =
     (let want = uart_want u
      in if want \<noteq> irq_level u then (u\<lparr>irq_level := want\<rparr>, plic_set_irq UART_IRQ want p) else (u, p))"

definition uart_tick :: "uart \<Rightarrow> plic \<Rightarrow> uart \<times> plic" where
  "uart_tick u p =
     (if thr_busy u then
        let u = u\<lparr>thr_ticks := thr_ticks u - 1\<rparr>
        in if thr_ticks u = 0 then uart_update_irq (u\<lparr>thr_busy := False\<rparr>) p else (u, p)
      else (u, p))"

definition uart_init :: "plic \<Rightarrow> uart \<times> plic" where
  "uart_init p =
     uart_update_irq \<lparr>rx = replicate RX_FIFO_SIZE 0, rx_head = 0, rx_count = 0, ier = 0, lcr = 0x03,
       mcr = 0, scr = 0, irq_level = False, thr_busy = False, thr_ticks = 0, tx_out = []\<rparr> p"

definition uart_receive :: "u8 \<Rightarrow> uart \<Rightarrow> plic \<Rightarrow> uart \<times> plic" where
  "uart_receive c u p =
     (if rx_count u \<ge> RX_FIFO_SIZE then (u, p)
      else let pos = (rx_head u + rx_count u) mod RX_FIFO_SIZE
           in uart_update_irq (u\<lparr>rx := (rx u)[pos := c], rx_count := rx_count u + 1\<rparr>) p)"

definition uart_read :: "u32 \<Rightarrow> uart \<Rightarrow> plic \<Rightarrow> u32 \<times> uart \<times> plic" where
  "uart_read offset u p =
     (let reg = offset AND 0x7
      in if reg = 0 then
           if lcr u AND LCR_DLAB \<noteq> 0 then (0, u, p)
           else if rx_count u > 0 then
             (ucast (rx u ! rx_head u),
              uart_update_irq (u\<lparr>rx_head := (rx_head u + 1) mod RX_FIFO_SIZE, rx_count := rx_count u - 1\<rparr>) p)
           else (0, u, p)
         else if reg = 1 then (if lcr u AND LCR_DLAB \<noteq> 0 then 0 else ucast (ier u), u, p)
         else if reg = 2 then
           (if rx_count u > 0 \<and> ier u AND IER_ERBI \<noteq> 0 then IIR_RXDATA
            else if \<not> thr_busy u \<and> ier u AND IER_ETBEI \<noteq> 0 then IIR_THRE
            else IIR_NOPEND, u, p)
         else if reg = 3 then (ucast (lcr u), u, p)
         else if reg = 4 then (ucast (mcr u), u, p)
         else if reg = 5 then
           ((if thr_busy u then 0 else LSR_THRE OR LSR_TEMT) OR (if rx_count u > 0 then LSR_DR else 0), u, p)
         else if reg = 6 then (0, u, p)
         else (ucast (scr u), u, p))"

definition uart_write :: "u32 \<Rightarrow> u32 \<Rightarrow> uart \<Rightarrow> plic \<Rightarrow> uart \<times> plic" where
  "uart_write offset val u p =
     (let reg = offset AND 0x7
      in if reg = 0 then
           if lcr u AND LCR_DLAB \<noteq> 0 then (u, p)
           else uart_update_irq (u\<lparr>tx_out := tx_out u @ [ucast (val AND 0xFF)], thr_busy := True,
                                   thr_ticks := TX_SHIFT_TICKS\<rparr>) p
         else if reg = 1 then uart_update_irq (u\<lparr>ier := ucast (val AND 0x0F)\<rparr>) p
         else if reg = 2 then uart_update_irq u p
         else if reg = 3 then (u\<lparr>lcr := ucast val\<rparr>, p)
         else if reg = 4 then (u\<lparr>mcr := ucast val\<rparr>, p)
         else (u\<lparr>scr := ucast val\<rparr>, p))"

section \<open>Host input\<close>

abbreviation UART_ESC_CHAR :: u8 where "UART_ESC_CHAR \<equiv> 0x1D"

record uart_input =
  uart_input_active :: bool
  uart_esc_held :: bool
  uart_terminal_raw :: bool
  uart_quit_requested :: bool
  epfd_open :: bool

text \<open>\<open>'x'\<close> or \<open>'X'\<close> after Ctrl-].\<close>

definition is_quit_char :: "u8 \<Rightarrow> bool" where
  "is_quit_char c \<longleftrightarrow> c = 0x78 \<or> c = 0x58"

text \<open>What one \<open>read(STDIN_FILENO, ..)\<close> returns: some bytes, end of file, or an error.\<close>

datatype host_read = Read_Bytes "u8 list" | Read_Eof | Read_Again | Read_Error

text \<open>The loop over one batch \<open>buf[i..r)\<close>.\<close>

fun feed_bytes :: "u8 list \<Rightarrow> uart_input \<Rightarrow> uart \<Rightarrow> plic \<Rightarrow> uart_input \<times> uart \<times> plic" where
  "feed_bytes [] s u p = (s, u, p)"
| "feed_bytes (c # cs) s u p =
     (if uart_quit_requested s then (s, u, p)
      else if uart_terminal_raw s \<and> c = UART_ESC_CHAR then
        (case cs of
           d # _ \<Rightarrow>
             if is_quit_char d then (s\<lparr>uart_quit_requested := True\<rparr>, u, p)
             else (let (u, p) = uart_receive c u p in feed_bytes cs s u p)
         | [] \<Rightarrow> feed_bytes cs (s\<lparr>uart_esc_held := True\<rparr>) u p)
      else (let (u, p) = uart_receive c u p in feed_bytes cs s u p))"

text \<open>One batch, with a Ctrl-] held back from the batch before.\<close>

definition feed_batch :: "u8 list \<Rightarrow> uart_input \<Rightarrow> uart \<Rightarrow> plic \<Rightarrow> uart_input \<times> uart \<times> plic" where
  "feed_batch buf s u p =
     (if uart_esc_held s then
        let s = s\<lparr>uart_esc_held := False\<rparr>
        in if is_quit_char (hd buf) then (s\<lparr>uart_quit_requested := True\<rparr>, u, p)
           else (let (u, p) = uart_receive UART_ESC_CHAR u p in feed_bytes buf s u p)
      else feed_bytes buf s u p)"

text \<open>
  The drain loop over the results of the successive \<open>read\<close> calls; when the list ends, the
  next \<open>read\<close> reports \<open>EAGAIN\<close>.
\<close>

fun drain_input :: "host_read list \<Rightarrow> uart_input \<Rightarrow> uart \<Rightarrow> plic \<Rightarrow> uart_input \<times> uart \<times> plic" where
  "drain_input [] s u p = (s, u, p)"
| "drain_input (Read_Bytes buf # rs) s u p =
     (let (s, u, p) = feed_batch buf s u p
      in if uart_quit_requested s then (s, u, p) else drain_input rs s u p)"
| "drain_input (Read_Again # rs) s u p = (s, u, p)"
| "drain_input (Read_Eof # rs) s u p = (s\<lparr>uart_input_active := False\<rparr>, u, p)"
| "drain_input (Read_Error # rs) s u p = (s, u, p)"

text \<open>
  The results of the system calls of one poll: whether \<open>epoll_create1\<close> and \<open>epoll_ctl\<close>
  succeed (asked only while no descriptor is open), whether \<open>epoll_wait\<close> reports input, and
  the reads.
\<close>

record host_env =
  epoll_create_ok :: bool
  epoll_ctl_ok :: bool
  input_ready :: bool
  host_reads :: "host_read list"

definition uart_poll_input ::
  "host_env \<Rightarrow> uart_input \<Rightarrow> uart \<Rightarrow> plic \<Rightarrow> bool \<times> uart_input \<times> uart \<times> plic" where
  "uart_poll_input env s u p =
     (if \<not> uart_input_active s then (uart_quit_requested s, s, u, p)
      else if uart_quit_requested s then (True, s, u, p)
      else if \<not> epfd_open s \<and> \<not> epoll_create_ok env then
        (False, s\<lparr>uart_input_active := False\<rparr>, u, p)
      else if \<not> epfd_open s \<and> \<not> epoll_ctl_ok env then
        (False, s\<lparr>epfd_open := True, uart_input_active := False\<rparr>, u, p)
      else if \<not> input_ready env then (False, s\<lparr>epfd_open := True\<rparr>, u, p)
      else let (s, u, p) = drain_input (host_reads env) (s\<lparr>epfd_open := True\<rparr>) u p
           in (uart_quit_requested s, s, u, p))"

text \<open>
  \<open>uart_input_setup\<close> and \<open>uart_input_cleanup\<close>; the results of \<open>fcntl\<close>, \<open>isatty\<close>
  together with \<open>tcgetattr\<close>, and \<open>tcsetattr\<close> are arguments. The signal handler only sets the
  quit request.
\<close>

definition uart_input_setup :: "bool \<Rightarrow> bool \<Rightarrow> bool \<Rightarrow> bool \<Rightarrow> uart_input \<Rightarrow> uart_input" where
  "uart_input_setup fcntl_ok tty_ok tcset_ok raw_mode s =
     (if \<not> fcntl_ok then s
      else let s = s\<lparr>uart_input_active := True\<rparr>
           in if \<not> raw_mode then s
              else if \<not> tty_ok then s
              else if \<not> tcset_ok then s
              else s\<lparr>uart_terminal_raw := True\<rparr>)"

definition uart_input_cleanup :: "uart_input \<Rightarrow> uart_input" where
  "uart_input_cleanup s = s\<lparr>uart_terminal_raw := False, uart_input_active := False\<rparr>"

definition uart_input_signal :: "uart_input \<Rightarrow> uart_input" where
  "uart_input_signal s = s\<lparr>uart_quit_requested := True\<rparr>"

section \<open>Invariant\<close>

text \<open>
  The receive ring is within bounds, a busy transmitter has ticks left, and the interrupt
  line is level-accurate: it is asserted exactly while the UART has a reason to interrupt,
  and the PLIC's line 10 is that level.
\<close>

definition uart_shape :: "uart \<Rightarrow> bool" where
  "uart_shape u \<longleftrightarrow> length (rx u) = RX_FIFO_SIZE \<and> rx_head u < RX_FIFO_SIZE \<and> rx_count u \<le> RX_FIFO_SIZE \<and>
     (thr_busy u \<longrightarrow> 1 \<le> thr_ticks u \<and> thr_ticks u \<le> TX_SHIFT_TICKS)"

definition uart_inv :: "uart \<Rightarrow> plic \<Rightarrow> bool" where
  "uart_inv u p \<longleftrightarrow> uart_shape u \<and> irq_level u = uart_want u \<and> bit (pending p) UART_IRQ = irq_level u"

lemma uart_update_irq_inv:
  assumes "uart_shape u" "bit (pending p) UART_IRQ = irq_level u"
  shows "case_prod uart_inv (uart_update_irq u p)"
  using assms
  by (auto simp: uart_update_irq_def uart_inv_def uart_shape_def uart_want_def Let_def pending_set_irq)

lemma uart_update_irq_fields [simp]:
  "rx (fst (uart_update_irq u p)) = rx u" "rx_head (fst (uart_update_irq u p)) = rx_head u"
  "rx_count (fst (uart_update_irq u p)) = rx_count u" "lcr (fst (uart_update_irq u p)) = lcr u"
  "ier (fst (uart_update_irq u p)) = ier u" "thr_busy (fst (uart_update_irq u p)) = thr_busy u"
  "tx_out (fst (uart_update_irq u p)) = tx_out u" "thr_ticks (fst (uart_update_irq u p)) = thr_ticks u"
  by (simp_all add: uart_update_irq_def Let_def)

lemma uart_init_inv: "\<not> bit (pending p) UART_IRQ \<Longrightarrow> case_prod uart_inv (uart_init p)"
  unfolding uart_init_def by (rule uart_update_irq_inv) (simp_all add: uart_shape_def)

lemma uart_receive_inv:
  assumes "uart_inv u p"
  shows "case_prod uart_inv (uart_receive c u p)"
proof (cases "rx_count u \<ge> RX_FIFO_SIZE")
  case False
  then show ?thesis using assms unfolding uart_receive_def
    by (simp add: Let_def) (rule uart_update_irq_inv, auto simp: uart_inv_def uart_shape_def)
qed (use assms in \<open>simp add: uart_receive_def\<close>)

lemma uart_tick_inv:
  assumes "uart_inv u p"
  shows "case_prod uart_inv (uart_tick u p)"
proof (cases "thr_busy u \<and> thr_ticks u - 1 = 0")
  case True
  then show ?thesis using assms unfolding uart_tick_def
    by (simp add: Let_def) (rule uart_update_irq_inv, auto simp: uart_inv_def uart_shape_def)
next
  case False
  then have "thr_busy u \<longrightarrow> 1 \<le> thr_ticks u - 1 \<and> thr_ticks u - 1 \<le> TX_SHIFT_TICKS"
    using assms by (simp add: uart_inv_def uart_shape_def) unat_arith
  then show ?thesis using assms False
    by (auto simp: uart_tick_def Let_def uart_inv_def uart_shape_def uart_want_def)
qed

lemma uart_read_inv:
  assumes "uart_inv u p"
  shows "case_prod uart_inv (snd (uart_read off u p))"
proof (cases "off AND 7 = 0 \<and> \<not> (lcr u AND LCR_DLAB \<noteq> 0) \<and> rx_count u > 0")
  case True
  then show ?thesis using assms unfolding uart_read_def
    by (simp add: Let_def) (rule uart_update_irq_inv, auto simp: uart_inv_def uart_shape_def)
qed (use assms in \<open>auto simp: uart_read_def Let_def\<close>)

lemma uart_write_inv:
  assumes "uart_inv u p"
  shows "case_prod uart_inv (uart_write off v u p)"
proof -
  have "case_prod uart_inv (uart_update_irq u' p)"
    if "uart_shape u'" "irq_level u' = irq_level u" for u'
    using that assms by (intro uart_update_irq_inv) (auto simp: uart_inv_def)
  then show ?thesis using assms
    by (auto simp: uart_write_def Let_def uart_inv_def uart_shape_def uart_want_def split: prod.splits)
qed

section \<open>The interrupt line\<close>

text \<open>Everything that can happen to the device, as data.\<close>

datatype uart_op = Uart_Receive u8 | Uart_Read u32 | Uart_Write u32 u32 | Uart_Tick

fun run_uart_op :: "uart_op \<Rightarrow> uart \<times> plic \<Rightarrow> uart \<times> plic" where
  "run_uart_op (Uart_Receive c) (u, p) = uart_receive c u p"
| "run_uart_op (Uart_Read off) (u, p) = snd (uart_read off u p)"
| "run_uart_op (Uart_Write off v) (u, p) = uart_write off v u p"
| "run_uart_op Uart_Tick (u, p) = uart_tick u p"

lemma run_uart_op_inv: "case_prod uart_inv q \<Longrightarrow> case_prod uart_inv (run_uart_op op q)"
  by (cases q; cases op)
    (simp_all add: uart_receive_inv uart_read_inv uart_write_inv uart_tick_inv)

lemma run_uart_ops_inv: "case_prod uart_inv q \<Longrightarrow> case_prod uart_inv (fold run_uart_op ops q)"
  by (induction ops arbitrary: q) (simp_all add: run_uart_op_inv)

lemma iir_want: "(fst (uart_read 2 u p) = IIR_NOPEND) \<longleftrightarrow> \<not> uart_want u"
  by (auto simp: uart_read_def uart_want_def Let_def)

text \<open>
  C29. The interrupt is level-accurate: after any sequence of received bytes, register
  reads, register writes and ticks on a freshly initialised UART, the PLIC's line 10 is asserted
  exactly when the interrupt-identification register reports a pending interrupt.
\<close>

theorem uart_irq_level_accurate:
  fixes ops :: "uart_op list"
  defines "q \<equiv> fold run_uart_op ops (uart_init plic_init)"
  shows "bit (pending (snd q)) 10 \<longleftrightarrow> fst (uart_read 2 (fst q) (snd q)) \<noteq> IIR_NOPEND"
proof -
  have "case_prod uart_inv q" unfolding q_def
    by (intro run_uart_ops_inv uart_init_inv) (simp add: plic_init_def)
  then show ?thesis unfolding iir_want by (simp add: uart_inv_def case_prod_unfold)
qed

section \<open>The receive FIFO is a bounded queue\<close>

definition rx_contents :: "uart \<Rightarrow> u8 list" where
  "rx_contents u = map (\<lambda>i. rx u ! ((rx_head u + i) mod RX_FIFO_SIZE)) [0..<rx_count u]"

definition rbr_byte :: "uart \<times> plic \<Rightarrow> u8" where
  "rbr_byte = (\<lambda>(u, p). ucast (fst (uart_read 0 u p)))"

definition rbr_pop :: "uart \<times> plic \<Rightarrow> uart \<times> plic" where
  "rbr_pop = (\<lambda>(u, p). snd (uart_read 0 u p))"

definition rx_ready :: "uart \<times> plic \<Rightarrow> bool" where
  "rx_ready = (\<lambda>(u, p). uart_inv u p \<and> lcr u AND LCR_DLAB = 0)"

lemma rx_contents_update_irq [simp]: "rx_contents (fst (uart_update_irq u p)) = rx_contents u"
  by (simp add: rx_contents_def)

lemma length_rx_contents [simp]: "length (rx_contents u) = rx_count u"
  by (simp add: rx_contents_def)

lemma lcr_receive [simp]: "lcr (fst (uart_receive c u p)) = lcr u"
  by (simp add: uart_receive_def Let_def)

lemma ring_index_eq:
  assumes "(h + i) mod RX_FIFO_SIZE = (h + k) mod RX_FIFO_SIZE" "i < RX_FIFO_SIZE" "k < RX_FIFO_SIZE"
  shows "i = k"
proof -
  have "int i mod 256 = int k mod 256"
    using assms(1) by (metis (mono_tags, opaque_lifting) add_diff_cancel_left' mod_diff_left_eq
        of_nat_add of_nat_mod of_nat_numeral)
  then show ?thesis using assms by simp
qed

lemma ucast_byte_back [simp]: "(ucast (ucast (b :: u8) :: u32) :: u8) = b"
  by (rule bit_word_eqI) (auto simp: bit_simps)

lemma rx_contents_receive:
  assumes "uart_shape u"
  shows "rx_contents (fst (uart_receive c u p)) =
    (if rx_count u < RX_FIFO_SIZE then rx_contents u @ [c] else rx_contents u)"
proof (cases "rx_count u < RX_FIFO_SIZE")
  case True
  let ?pos = "(rx_head u + rx_count u) mod RX_FIFO_SIZE"
  have "?pos \<noteq> (rx_head u + i) mod RX_FIFO_SIZE" if "i < rx_count u" for i
    using ring_index_eq [of "rx_head u" i "rx_count u"] that True by auto
  then show ?thesis using True assms
    by (simp add: uart_receive_def Let_def rx_contents_def uart_shape_def)
qed (simp add: uart_receive_def)

lemma rx_contents_pop:
  assumes "lcr u AND LCR_DLAB = 0" "0 < rx_count u"
  shows "rx_contents (fst (snd (uart_read 0 u p))) = tl (rx_contents u)"
    and "uart_shape u \<Longrightarrow> fst (uart_read 0 u p) = ucast (hd (rx_contents u))"
    and "lcr (fst (snd (uart_read 0 u p))) = lcr u"
proof -
  obtain n where n: "rx_count u = Suc n" using assms(2) gr0_conv_Suc by blast
  have upt: "[0..<Suc n] = 0 # map Suc [0..<n]" by (simp add: upt_conv_Cons map_Suc_upt del: upt_Suc)
  show "rx_contents (fst (snd (uart_read 0 u p))) = tl (rx_contents u)"
    using assms by (simp add: uart_read_def rx_contents_def n upt mod_simps del: upt_Suc)
  show "fst (uart_read 0 u p) = ucast (hd (rx_contents u))" if "uart_shape u"
    using assms that by (simp add: uart_read_def rx_contents_def n upt uart_shape_def del: upt_Suc)
  show "lcr (fst (snd (uart_read 0 u p))) = lcr u"
    using assms by (simp add: uart_read_def)
qed

interpretation rxq: bounded_queue "\<lambda>c (u, p). uart_receive c u p" rbr_byte rbr_pop
  "\<lambda>(u, p). rx_contents u" RX_FIFO_SIZE rx_ready
proof
  fix q :: "uart \<times> plic" and c :: u8
  obtain u p where q: "q = (u, p)" by (cases q)
  assume inv: "rx_ready q"
  then have sh: "uart_inv u p" "uart_shape u" "lcr u AND LCR_DLAB = 0"
    by (simp_all add: rx_ready_def q uart_inv_def)
  show "rx_ready (case q of (u, p) \<Rightarrow> uart_receive c u p)"
    using uart_receive_inv [OF sh(1), of c] sh(3) by (simp add: rx_ready_def q case_prod_unfold)
  show "(case case q of (u, p) \<Rightarrow> uart_receive c u p of (u, p) \<Rightarrow> rx_contents u) =
    (if length (case q of (u, p) \<Rightarrow> rx_contents u) < RX_FIFO_SIZE
     then (case q of (u, p) \<Rightarrow> rx_contents u) @ [c] else (case q of (u, p) \<Rightarrow> rx_contents u))"
    using rx_contents_receive [OF sh(2), of c p] by (simp add: q case_prod_unfold)
  assume "(case q of (u, p) \<Rightarrow> rx_contents u) \<noteq> []"
  then have ne: "0 < rx_count u" by (simp add: q rx_contents_def)
  show "rx_ready (rbr_pop q)"
    using uart_read_inv [OF sh(1), of 0] rx_contents_pop(3) [OF sh(3) ne, of p] sh(3)
    by (simp add: rx_ready_def rbr_pop_def q case_prod_unfold)
  show "(case rbr_pop q of (u, p) \<Rightarrow> rx_contents u) = tl (case q of (u, p) \<Rightarrow> rx_contents u)"
    using rx_contents_pop(1) [OF sh(3) ne, of p] by (simp add: rbr_pop_def q case_prod_unfold)
  show "rbr_byte q = hd (case q of (u, p) \<Rightarrow> rx_contents u)"
    using rx_contents_pop(2) [OF sh(3) ne, of p] sh(2) by (simp add: rbr_byte_def q)
qed

text \<open>
  C30. Received bytes are delivered once, in order, and dropped only when 256 are
  waiting: after any bytes \<open>xs\<close> arrive on an empty receiver with the divisor latch closed, reading the
  receive buffer register \<open>n\<close> times, for any \<open>n\<close> up to the number of bytes kept, returns the
  first \<open>n\<close> of them, and the line-status register shows data while bytes are left.
\<close>

theorem uart_rx_fifo_order:
  assumes "uart_inv u p" and "lcr u AND LCR_DLAB = 0" and "rx_count u = 0"
    and "n \<le> length xs" and "n \<le> 256"
  shows "pop_n rbr_byte rbr_pop n (fold (\<lambda>c (u, p). uart_receive c u p) xs (u, p)) = take n xs"
proof -
  have rdy: "rx_ready (u, p)" and emp: "rx_contents u = []"
    using assms(1-3) by (simp_all add: rx_ready_def rx_contents_def)
  show ?thesis
    using rxq.pop_n_contents [OF rxq.qinv_push_all [OF rdy], of n xs]
      rxq.contents_push_all [OF rdy, of xs] emp assms(4,5)
    by (simp add: min_def)
qed

theorem uart_rx_fifo_order_witness:
  "pop_n rbr_byte rbr_pop 2
     (fold (\<lambda>c (u, p). uart_receive c u p) [65, 66, 67] (uart_init plic_init)) = [65, 66]"
proof -
  have "case_prod uart_inv (uart_init plic_init)"
    by (rule uart_init_inv) (simp add: plic_init_def)
  then show ?thesis
    using uart_rx_fifo_order [of "fst (uart_init plic_init)" "snd (uart_init plic_init)" 2 "[65, 66, 67]"]
    by (simp add: case_prod_unfold uart_init_def)
qed

section \<open>Host input and the escape sequence\<close>

text \<open>
  The escape sequence as a one-byte-at-a-time automaton: a Ctrl-] in raw mode is held; a
  following x or X requests the quit, any other byte releases it first.
\<close>

definition pass_byte :: "u8 \<Rightarrow> uart_input \<times> uart \<times> plic \<Rightarrow> uart_input \<times> uart \<times> plic" where
  "pass_byte c = (\<lambda>(s, u, p).
     if uart_terminal_raw s \<and> c = UART_ESC_CHAR then (s\<lparr>uart_esc_held := True\<rparr>, u, p)
     else (s, uart_receive c u p))"

definition esc_step :: "u8 \<Rightarrow> uart_input \<times> uart \<times> plic \<Rightarrow> uart_input \<times> uart \<times> plic" where
  "esc_step c = (\<lambda>(s, u, p).
     if uart_quit_requested s then (s, u, p)
     else if uart_esc_held s then
       if is_quit_char c then (s\<lparr>uart_esc_held := False, uart_quit_requested := True\<rparr>, u, p)
       else pass_byte c (s\<lparr>uart_esc_held := False\<rparr>, uart_receive UART_ESC_CHAR u p)
     else pass_byte c (s, u, p))"

lemma fold_esc_quit: "uart_quit_requested s \<Longrightarrow> fold esc_step cs (s, u, p) = (s, u, p)"
  by (induction cs) (simp_all add: esc_step_def)

lemma esc_step_held:
  assumes "\<not> uart_quit_requested s" "\<not> uart_esc_held s"
  shows "esc_step d (s\<lparr>uart_esc_held := True\<rparr>, u, p) =
    (if is_quit_char d then (s\<lparr>uart_quit_requested := True\<rparr>, u, p)
     else esc_step d (s, uart_receive UART_ESC_CHAR u p))"
proof -
  have eq: "s\<lparr>uart_esc_held := False\<rparr> = s" using assms(2) by (cases s) simp
  then show ?thesis using assms
    by (cases "uart_receive UART_ESC_CHAR u p") (simp add: esc_step_def eq)
qed

lemma feed_bytes_esc:
  "\<not> uart_esc_held s \<Longrightarrow> feed_bytes cs s u p = fold esc_step cs (s, u, p)"
proof (induction cs s u p rule: feed_bytes.induct)
  case (2 c cs s u p)
  consider "uart_quit_requested s" | "\<not> uart_quit_requested s" "uart_terminal_raw s" "c = UART_ESC_CHAR"
    | "\<not> uart_quit_requested s" "\<not> (uart_terminal_raw s \<and> c = UART_ESC_CHAR)" by blast
  then show ?case
  proof cases
    case 1
    then show ?thesis using fold_esc_quit [of s "c # cs"] by simp
  next
    case 2
    note raw = this
    have st: "esc_step c (s, u, p) = (s\<lparr>uart_esc_held := True\<rparr>, u, p)"
      using raw "2.prems" by (simp add: esc_step_def pass_byte_def)
    show ?thesis
    proof (cases cs)
      case Nil
      then show ?thesis using st raw by simp
    next
      case (Cons d ds)
      then show ?thesis
        using st raw "2.prems" "2.IH"(2) [OF raw(1) _ Cons] esc_step_held [of s d u p]
          fold_esc_quit [of "s\<lparr>uart_quit_requested := True\<rparr>" ds u p]
        by (auto simp: split: prod.splits)
    qed
  next
    case 3
    then show ?thesis using "2.prems" "2.IH"(3)
      by (auto simp: esc_step_def pass_byte_def split: prod.splits)
  qed
qed simp

lemma feed_batch_esc:
  assumes "buf \<noteq> []" "\<not> uart_quit_requested s"
  shows "feed_batch buf s u p = fold esc_step buf (s, u, p)"
proof (cases "uart_esc_held s")
  case False
  then show ?thesis by (simp add: feed_batch_def feed_bytes_esc)
next
  case True
  obtain c cs where buf: "buf = c # cs" using assms(1) by (cases buf) auto
  let ?s = "s\<lparr>uart_esc_held := False\<rparr>"
  have s: "s\<lparr>uart_esc_held := True\<rparr> = s" using True by (cases s) simp
  have "esc_step c (s, u, p) = (if is_quit_char c then (?s\<lparr>uart_quit_requested := True\<rparr>, u, p)
     else esc_step c (?s, uart_receive UART_ESC_CHAR u p))"
    using esc_step_held [of ?s c u p] assms(2) by (simp add: s)
  then show ?thesis
    using True fold_esc_quit [of "?s\<lparr>uart_quit_requested := True\<rparr>" cs u p]
    by (simp add: feed_batch_def buf feed_bytes_esc Let_def case_prod_unfold del: feed_bytes.simps)
qed

text \<open>
  C31. How the host splits its input into reads does not matter: draining any
  sequence of non-empty batches is the byte-at-a-time automaton on their concatenation, so
  Ctrl-] x ends the session, and every other byte reaches the receiver, even when the pair is
  split across two reads.
\<close>

theorem drain_split_independent:
  assumes "\<not> uart_quit_requested s" and "\<forall>b\<in>set bufs. b \<noteq> []"
  shows "drain_input (map Read_Bytes bufs) s u p = fold esc_step (concat bufs) (s, u, p)"
  using assms
proof (induction bufs arbitrary: s u p)
  case (Cons b bs)
  obtain s' u' p' where st: "fold esc_step b (s, u, p) = (s', u', p')" by (cases "fold esc_step b (s, u, p)") auto
  then have "feed_batch b s u p = (s', u', p')" using Cons.prems by (simp add: feed_batch_esc)
  then show ?case using Cons.IH [of s' u' p'] Cons.prems(2) st fold_esc_quit [of s' "concat bs" u' p']
    by simp
qed simp

theorem drain_split_independent_witness:
  "uart_quit_requested (fst (drain_input [Read_Bytes [65, 0x1D], Read_Bytes [0x78, 66]]
     \<lparr>uart_input_active = True, uart_esc_held = False, uart_terminal_raw = True,
      uart_quit_requested = False, epfd_open = True\<rparr> (fst (uart_init plic_init)) plic_init))"
  using drain_split_independent [of "\<lparr>uart_input_active = True, uart_esc_held = False,
      uart_terminal_raw = True, uart_quit_requested = False, epfd_open = True\<rparr>"
      "[[65, 0x1D], [0x78, 66]]" "fst (uart_init plic_init)" plic_init]
  by (simp add: esc_step_def pass_byte_def is_quit_char_def case_prod_unfold)

section \<open>Host input keeps the device invariant\<close>

lemma esc_step_inv: "case_prod uart_inv (snd q) \<Longrightarrow> case_prod uart_inv (snd (esc_step c q))"
proof -
  assume inv: "case_prod uart_inv (snd q)"
  obtain s u p where q: "q = (s, u, p)" by (cases q)
  have pass: "case_prod uart_inv (snd (pass_byte c (s, r)))" if "case_prod uart_inv r" for s r
    using that by (cases r) (simp add: pass_byte_def uart_receive_inv)
  show ?thesis using inv by (simp add: esc_step_def q pass uart_receive_inv)
qed

lemma feed_bytes_inv: "uart_inv u p \<Longrightarrow> case_prod uart_inv (snd (feed_bytes cs s u p))"
proof (induction cs arbitrary: s u p)
  case (Cons c cs)
  have "case_prod uart_inv (snd (case uart_receive c u p of (u, p) \<Rightarrow> feed_bytes cs s u p))"
    using uart_receive_inv [OF Cons.prems, of c] Cons.IH by (cases "uart_receive c u p") simp
  with Cons show ?case by (auto simp del: feed_bytes.simps(2) simp: feed_bytes.simps(2) [of c cs] split: list.split)
qed simp

lemma feed_batch_inv:
  assumes "uart_inv u p"
  shows "case_prod uart_inv (snd (feed_batch cs s u p))"
proof -
  have "case_prod uart_inv (snd (case uart_receive UART_ESC_CHAR u p of (u, p) \<Rightarrow> feed_bytes cs s' u p))" for s'
    using uart_receive_inv [OF assms, of UART_ESC_CHAR] 
    by (cases "uart_receive UART_ESC_CHAR u p") (simp add: feed_bytes_inv)
  with assms show ?thesis by (simp add: feed_batch_def Let_def feed_bytes_inv)
qed

lemma drain_input_inv: "uart_inv u p \<Longrightarrow> case_prod uart_inv (snd (drain_input rs s u p))"
proof (induction rs s u p rule: drain_input.induct)
  case (2 buf rs s u p)
  then show ?case using feed_batch_inv [of u p buf s] by (auto split: prod.splits)
qed simp_all

lemma uart_poll_input_inv: "uart_inv u p \<Longrightarrow> case_prod uart_inv (snd (snd (uart_poll_input env s u p)))"
  using drain_input_inv [of u p "host_reads env" "s\<lparr>epfd_open := True\<rparr>"]
  by (auto simp: uart_poll_input_def split: prod.splits)

end
