(* ===== verification/Machine.thy ===== *)
theory Machine
  imports Hashmap Clint Uart
begin

text \<open>
  The state the emulator's components share: \<open>struct machine_state\<close> of src/include/emu.h,
  extended to \<open>emu\<close> by the file-level variables of the other components (the CSR table,
  the devices, the debug triggers, the counters, the floating-point registers), and the
  instruction-field and register accessors of src/include/exec.h.
\<close>

section \<open>The hart\<close>

abbreviation PRV_USER :: u32 where "PRV_USER \<equiv> 0"
abbreviation PRV_SUPERVISOR :: u32 where "PRV_SUPERVISOR \<equiv> 1"
abbreviation PRV_HYPERVISOR :: u32 where "PRV_HYPERVISOR \<equiv> 2"
abbreviation PRV_MACHINE :: u32 where "PRV_MACHINE \<equiv> 3"

text \<open>Arrays are functions of the index. The debugger's fields are not part of the default build.\<close>

record machine_state =
  gpr :: "u32 \<Rightarrow> u32"
  pc :: u32
  main_memory :: "u32 \<Rightarrow> u8"
  terminated :: bool
  mmu_flags :: hashmap
  privilege :: u32
  just_trapped :: bool

section \<open>CSR descriptors\<close>

text \<open>
  \<open>struct csr_operation\<close>. The function pointers a descriptor can hold are the constructors
  of two enumerations, one per callback of the source; \<open>NULL\<close> is \<open>None\<close>.
\<close>

datatype read_callback =
    Get_mvendorid | Get_marchid | Get_mimpid | Get_mhartid | Get_misa | Get_meideleg | Get_mideleg
  | Get_mie | Get_mtvec | Get_mcounteren | Get_mscratch | Get_mepc | Get_mcause | Get_mtval | Get_mip
  | Get_mnstatus | Get_pmpcfg | Get_pmpaddr | Get_sie | Get_sip | Mstatus_read | Sstatus_read
  | Get_tselect | Get_tdata1 | Get_tdata2 | Get_tcontrol | Get_fcsr | Get_fflags | Get_frm
  | Get_zicntr_cycle_l | Get_zicntr_cycle_h | Get_zicntr_time_l | Get_zicntr_time_h
  | Get_zicntr_instret_l | Get_zicntr_instret_h

datatype write_callback =
    Set_pmpcfg | Set_pmpaddr | Set_meideleg | Set_mideleg | Set_mie | Set_mtvec | Set_mcounteren
  | Set_mscratch | Set_mepc | Set_mcause | Set_mtval | Set_mip | Set_sie | Set_sip
  | Mstatus_write | Sstatus_write | Set_tselect | Set_tdata1 | Set_tdata2 | Set_tcontrol
  | Set_fcsr | Set_fflags | Set_frm | Set_zicntr_minstret_l | Set_zicntr_minstret_h

record csr_operation =
  csr_valid :: bool
  csr_privilege :: u32
  csr_rw :: bool
  csr_value :: u32
  csr_read_callback :: "read_callback option"
  csr_write_callback :: "write_callback option"

section \<open>The whole emulator\<close>

record trigger_slot =
  tdata1 :: u32
  tdata2 :: u32

record emu = machine_state +
  csr_table :: "u32 \<Rightarrow> csr_operation"
  clint_dev :: clint
  plic_dev :: plic
  uart_dev :: uart
  s_slots :: "u32 \<Rightarrow> trigger_slot"
  s_tselect :: u32
  s_tcontrol :: u32
  cycle :: u64
  instret :: u64
  instret_suppress_next :: bool
  fpr :: "u32 \<Rightarrow> u64"
  fcsr :: u32
  g_prev_ins_pc :: u32

text \<open>\<open>csr_table[c].value\<close>, read and assigned.\<close>

definition csr_val :: "u32 \<Rightarrow> emu \<Rightarrow> u32" where
  "csr_val c s = csr_value (csr_table s c)"

definition set_csr_val :: "u32 \<Rightarrow> u32 \<Rightarrow> emu \<Rightarrow> emu" where
  "set_csr_val c v s = s\<lparr>csr_table := (csr_table s)(c := (csr_table s c)\<lparr>csr_value := v\<rparr>)\<rparr>"

section \<open>Instruction fields\<close>

definition get_opcode :: "u32 \<Rightarrow> u32" where "get_opcode ins = ins AND 0x7F"

definition get_rd :: "u32 \<Rightarrow> u32" where "get_rd ins = shr ins 7 AND 0x1F"

definition get_funct3 :: "u32 \<Rightarrow> u32" where "get_funct3 ins = shr ins 12 AND 0x7"

definition get_rs1 :: "u32 \<Rightarrow> u32" where "get_rs1 ins = shr ins 15 AND 0x1F"

definition get_rs2 :: "u32 \<Rightarrow> u32" where "get_rs2 ins = shr ins 20 AND 0x1F"

definition get_funct7 :: "u32 \<Rightarrow> u32" where "get_funct7 ins = shr ins 25 AND 0x7F"

section \<open>Integer registers\<close>

definition reg_read :: "u32 \<Rightarrow> emu \<Rightarrow> u32" where
  "reg_read i s = (if i = 0 then 0 else gpr s i)"

definition reg_write :: "u32 \<Rightarrow> u32 \<Rightarrow> emu \<Rightarrow> emu" where
  "reg_write i d s = (if i = 0 then s else s\<lparr>gpr := (gpr s)(i := d)\<rparr>)"

section \<open>Facts\<close>

lemma reg_read_0 [simp]: "reg_read 0 s = 0"
  by (simp add: reg_read_def)

lemma reg_read_write: "reg_read i (reg_write j d s) = (if i = j \<and> j \<noteq> 0 then d else reg_read i s)"
  by (simp add: reg_read_def reg_write_def)

lemma reg_read_csr [simp]: "reg_read i (set_csr_val c v s) = reg_read i s"
  by (simp add: reg_read_def set_csr_val_def)

lemma csr_val_set: "csr_val c (set_csr_val d v s) = (if c = d then v else csr_val c s)"
  by (simp add: csr_val_def set_csr_val_def)

lemma csr_val_frame [simp]:
  "csr_val c (reg_write i d s) = csr_val c s"
  "csr_val c (s\<lparr>pc := a\<rparr>) = csr_val c s"
  "csr_val c (s\<lparr>privilege := p\<rparr>) = csr_val c s"
  "csr_val c (s\<lparr>just_trapped := b\<rparr>) = csr_val c s"
  "csr_val c (s\<lparr>main_memory := f\<rparr>) = csr_val c s"
  "csr_val c (s\<lparr>mmu_flags := h\<rparr>) = csr_val c s"
  by (simp_all add: csr_val_def reg_write_def)

lemma set_csr_val_fields [simp]:
  "gpr (set_csr_val c v s) = gpr s" "pc (set_csr_val c v s) = pc s"
  "main_memory (set_csr_val c v s) = main_memory s" "terminated (set_csr_val c v s) = terminated s"
  "mmu_flags (set_csr_val c v s) = mmu_flags s" "privilege (set_csr_val c v s) = privilege s"
  "just_trapped (set_csr_val c v s) = just_trapped s" "clint_dev (set_csr_val c v s) = clint_dev s"
  "plic_dev (set_csr_val c v s) = plic_dev s" "uart_dev (set_csr_val c v s) = uart_dev s"
  "s_slots (set_csr_val c v s) = s_slots s" "s_tselect (set_csr_val c v s) = s_tselect s"
  "s_tcontrol (set_csr_val c v s) = s_tcontrol s" "cycle (set_csr_val c v s) = cycle s"
  "instret (set_csr_val c v s) = instret s"
  "instret_suppress_next (set_csr_val c v s) = instret_suppress_next s"
  "fpr (set_csr_val c v s) = fpr s" "fcsr (set_csr_val c v s) = fcsr s"
  "g_prev_ins_pc (set_csr_val c v s) = g_prev_ins_pc s"
  by (simp_all add: set_csr_val_def)

lemma reg_write_fields [simp]:
  "pc (reg_write i d s) = pc s" "main_memory (reg_write i d s) = main_memory s"
  "terminated (reg_write i d s) = terminated s" "mmu_flags (reg_write i d s) = mmu_flags s"
  "privilege (reg_write i d s) = privilege s" "just_trapped (reg_write i d s) = just_trapped s"
  "csr_table (reg_write i d s) = csr_table s" "clint_dev (reg_write i d s) = clint_dev s"
  "plic_dev (reg_write i d s) = plic_dev s" "uart_dev (reg_write i d s) = uart_dev s"
  "s_slots (reg_write i d s) = s_slots s" "s_tselect (reg_write i d s) = s_tselect s"
  "s_tcontrol (reg_write i d s) = s_tcontrol s" "cycle (reg_write i d s) = cycle s"
  "instret (reg_write i d s) = instret s" "instret_suppress_next (reg_write i d s) = instret_suppress_next s"
  "fpr (reg_write i d s) = fpr s" "fcsr (reg_write i d s) = fcsr s"
  "g_prev_ins_pc (reg_write i d s) = g_prev_ins_pc s"
  by (simp_all add: reg_write_def)

lemma field_bounds [simp]:
  "get_rd ins \<le> 31" "get_rs1 ins \<le> 31" "get_rs2 ins \<le> 31" "get_funct3 ins \<le> 7" "get_funct7 ins \<le> 127"
  by (simp_all add: get_rd_def get_rs1_def get_rs2_def get_funct3_def get_funct7_def word_and_le1)

end
