(* ===== verification/Csr.thy ===== *)
theory Csr
  imports Machine
begin

text \<open>
  The control and status registers: the callbacks of src/src/extension/zicsr_extension.c,
  zicntr_extension.c, sdtrig_extension.c, f_extension.c (fcsr, fflags, frm) and the
  mstatus/sstatus pair of system.c; \<open>csr_read\<close> and \<open>csr_write\<close> of zicsr_extension.h; and the
  table \<open>init_csr_table\<close> builds. In C the callbacks of sie and sip call \<open>csr_read\<close> and
  \<open>csr_write\<close> again; the model unrolls that recursion with two units of fuel, and the
  well-formedness of the table (\<open>csr_wf\<close>) makes them enough: the nested accesses go to mie and mip,
  whose callbacks are plain.
\<close>

section \<open>Addresses and masks\<close>

abbreviation CSR_FFLAGS :: u32 where "CSR_FFLAGS \<equiv> 0x001"
abbreviation CSR_FRM :: u32 where "CSR_FRM \<equiv> 0x002"
abbreviation CSR_FCSR :: u32 where "CSR_FCSR \<equiv> 0x003"
abbreviation CSR_SSTATUS :: u32 where "CSR_SSTATUS \<equiv> 0x100"
abbreviation CSR_SIE :: u32 where "CSR_SIE \<equiv> 0x104"
abbreviation CSR_STVEC :: u32 where "CSR_STVEC \<equiv> 0x105"
abbreviation CSR_SENVCFG :: u32 where "CSR_SENVCFG \<equiv> 0x10A"
abbreviation CSR_SENVCFGH :: u32 where "CSR_SENVCFGH \<equiv> 0x11A"
abbreviation CSR_SSCRATCH :: u32 where "CSR_SSCRATCH \<equiv> 0x140"
abbreviation CSR_SEPC :: u32 where "CSR_SEPC \<equiv> 0x141"
abbreviation CSR_SCAUSE :: u32 where "CSR_SCAUSE \<equiv> 0x142"
abbreviation CSR_STVAL :: u32 where "CSR_STVAL \<equiv> 0x143"
abbreviation CSR_SIP :: u32 where "CSR_SIP \<equiv> 0x144"
abbreviation CSR_SATP :: u32 where "CSR_SATP \<equiv> 0x180"
abbreviation CSR_MSTATUS :: u32 where "CSR_MSTATUS \<equiv> 0x300"
abbreviation CSR_MISA :: u32 where "CSR_MISA \<equiv> 0x301"
abbreviation CSR_MEDELEG :: u32 where "CSR_MEDELEG \<equiv> 0x302"
abbreviation CSR_MIDELEG :: u32 where "CSR_MIDELEG \<equiv> 0x303"
abbreviation CSR_MIE :: u32 where "CSR_MIE \<equiv> 0x304"
abbreviation CSR_MTVEC :: u32 where "CSR_MTVEC \<equiv> 0x305"
abbreviation CSR_MCOUNTEREN :: u32 where "CSR_MCOUNTEREN \<equiv> 0x306"
abbreviation CSR_MENVCFG :: u32 where "CSR_MENVCFG \<equiv> 0x30A"
abbreviation CSR_MSTATUSH :: u32 where "CSR_MSTATUSH \<equiv> 0x310"
abbreviation CSR_MENVCFGH :: u32 where "CSR_MENVCFGH \<equiv> 0x31A"
abbreviation CSR_MCOUNTINHIBIT :: u32 where "CSR_MCOUNTINHIBIT \<equiv> 0x320"
abbreviation CSR_MSCRATCH :: u32 where "CSR_MSCRATCH \<equiv> 0x340"
abbreviation CSR_MEPC :: u32 where "CSR_MEPC \<equiv> 0x341"
abbreviation CSR_MCAUSE :: u32 where "CSR_MCAUSE \<equiv> 0x342"
abbreviation CSR_MTVAL :: u32 where "CSR_MTVAL \<equiv> 0x343"
abbreviation CSR_MIP :: u32 where "CSR_MIP \<equiv> 0x344"
abbreviation CSR_PMPCFG0 :: u32 where "CSR_PMPCFG0 \<equiv> 0x3A0"
abbreviation CSR_PMPADDR0 :: u32 where "CSR_PMPADDR0 \<equiv> 0x3B0"
abbreviation CSR_MNSCRATCH :: u32 where "CSR_MNSCRATCH \<equiv> 0x740"
abbreviation CSR_MNSTATUS :: u32 where "CSR_MNSTATUS \<equiv> 0x744"
abbreviation CSR_MSECCFG :: u32 where "CSR_MSECCFG \<equiv> 0x747"
abbreviation CSR_MSECCFGH :: u32 where "CSR_MSECCFGH \<equiv> 0x757"
abbreviation CSR_TSELECT :: u32 where "CSR_TSELECT \<equiv> 0x7A0"
abbreviation CSR_TDATA1 :: u32 where "CSR_TDATA1 \<equiv> 0x7A1"
abbreviation CSR_TDATA2 :: u32 where "CSR_TDATA2 \<equiv> 0x7A2"
abbreviation CSR_TCONTROL :: u32 where "CSR_TCONTROL \<equiv> 0x7A5"
abbreviation CSR_MCYCLE :: u32 where "CSR_MCYCLE \<equiv> 0xB00"
abbreviation CSR_MINSTRET :: u32 where "CSR_MINSTRET \<equiv> 0xB02"
abbreviation CSR_MCYCLEH :: u32 where "CSR_MCYCLEH \<equiv> 0xB80"
abbreviation CSR_MINSTRETH :: u32 where "CSR_MINSTRETH \<equiv> 0xB82"
abbreviation CSR_CYCLE_LO :: u32 where "CSR_CYCLE_LO \<equiv> 0xC00"
abbreviation CSR_TIME_LO :: u32 where "CSR_TIME_LO \<equiv> 0xC01"
abbreviation CSR_INSTRET_LO :: u32 where "CSR_INSTRET_LO \<equiv> 0xC02"
abbreviation CSR_CYCLE_HI :: u32 where "CSR_CYCLE_HI \<equiv> 0xC80"
abbreviation CSR_TIME_HI :: u32 where "CSR_TIME_HI \<equiv> 0xC81"
abbreviation CSR_INSTRET_HI :: u32 where "CSR_INSTRET_HI \<equiv> 0xC82"
abbreviation CSR_MVENDORID :: u32 where "CSR_MVENDORID \<equiv> 0xF11"
abbreviation CSR_MARCHID :: u32 where "CSR_MARCHID \<equiv> 0xF12"
abbreviation CSR_MIMPID :: u32 where "CSR_MIMPID \<equiv> 0xF13"
abbreviation CSR_MHARTID :: u32 where "CSR_MHARTID \<equiv> 0xF14"
abbreviation CSR_MCONFIGPTR :: u32 where "CSR_MCONFIGPTR \<equiv> 0xF15"

abbreviation MSTATUS_UIE :: u32 where "MSTATUS_UIE \<equiv> 0x1"
abbreviation MSTATUS_SIE :: u32 where "MSTATUS_SIE \<equiv> 0x2"
abbreviation MSTATUS_MIE :: u32 where "MSTATUS_MIE \<equiv> 0x8"
abbreviation MSTATUS_UPIE :: u32 where "MSTATUS_UPIE \<equiv> 0x10"
abbreviation MSTATUS_SPIE :: u32 where "MSTATUS_SPIE \<equiv> 0x20"
abbreviation MSTATUS_MPIE :: u32 where "MSTATUS_MPIE \<equiv> 0x80"
abbreviation MSTATUS_SPP :: u32 where "MSTATUS_SPP \<equiv> 0x100"
abbreviation MSTATUS_MPP_SHIFT :: nat where "MSTATUS_MPP_SHIFT \<equiv> 11"
abbreviation MSTATUS_MPP_MASK :: u32 where "MSTATUS_MPP_MASK \<equiv> 0x1800"
abbreviation MSTATUS_FS_SHIFT :: nat where "MSTATUS_FS_SHIFT \<equiv> 13"
abbreviation MSTATUS_FS_MASK :: u32 where "MSTATUS_FS_MASK \<equiv> 0x6000"
abbreviation MSTATUS_XS_SHIFT :: nat where "MSTATUS_XS_SHIFT \<equiv> 15"
abbreviation MSTATUS_XS_MASK :: u32 where "MSTATUS_XS_MASK \<equiv> 0x18000"
abbreviation MSTATUS_MPRV :: u32 where "MSTATUS_MPRV \<equiv> 0x20000"
abbreviation MSTATUS_SUM :: u32 where "MSTATUS_SUM \<equiv> 0x40000"
abbreviation MSTATUS_MXR :: u32 where "MSTATUS_MXR \<equiv> 0x80000"
abbreviation MSTATUS_TVM :: u32 where "MSTATUS_TVM \<equiv> 0x100000"
abbreviation MSTATUS_TW :: u32 where "MSTATUS_TW \<equiv> 0x200000"
abbreviation MSTATUS_TSR :: u32 where "MSTATUS_TSR \<equiv> 0x400000"

abbreviation MIP_SSIP :: u32 where "MIP_SSIP \<equiv> 0x2"
abbreviation MIP_MSIP :: u32 where "MIP_MSIP \<equiv> 0x8"
abbreviation MIP_STIP :: u32 where "MIP_STIP \<equiv> 0x20"
abbreviation MIP_MTIP :: u32 where "MIP_MTIP \<equiv> 0x80"
abbreviation MIP_SEIP :: u32 where "MIP_SEIP \<equiv> 0x200"
abbreviation MIP_MEIP :: u32 where "MIP_MEIP \<equiv> 0x800"
abbreviation SIP_SIE_S_BITS :: u32 where "SIP_SIE_S_BITS \<equiv> MIP_SSIP OR MIP_STIP OR MIP_SEIP"

section \<open>Callbacks with a body of their own\<close>

subsection \<open>mstatus and sstatus (system.c)\<close>

definition mstatus_writable :: u32 where
  "mstatus_writable =
     MSTATUS_UIE OR MSTATUS_SIE OR MSTATUS_MIE OR MSTATUS_UPIE OR MSTATUS_SPIE OR MSTATUS_MPIE
     OR MSTATUS_SPP OR MSTATUS_MPP_MASK OR MSTATUS_FS_MASK OR MSTATUS_XS_MASK OR MSTATUS_MPRV
     OR MSTATUS_SUM OR MSTATUS_MXR OR MSTATUS_TVM OR MSTATUS_TW OR MSTATUS_TSR"

definition mstatus_write :: "u32 \<Rightarrow> emu \<Rightarrow> emu" where
  "mstatus_write val s = set_csr_val CSR_MSTATUS (val AND mstatus_writable) s"

text \<open>The value computed by \<open>sstatus_read\<close> from mstatus, and the one \<open>sstatus_write\<close> stores there.\<close>

definition sstatus_of :: "u32 \<Rightarrow> u32" where
  "sstatus_of m =
     (if m AND MSTATUS_UIE \<noteq> 0 then 1 else 0) OR (if m AND MSTATUS_SIE \<noteq> 0 then 2 else 0)
     OR (if m AND MSTATUS_UPIE \<noteq> 0 then 16 else 0) OR (if m AND MSTATUS_SPIE \<noteq> 0 then 32 else 0)
     OR (if m AND MSTATUS_SPP \<noteq> 0 then 256 else 0)
     OR shl (shr (m AND MSTATUS_FS_MASK) MSTATUS_FS_SHIFT) 13
     OR shl (shr (m AND MSTATUS_XS_MASK) MSTATUS_XS_SHIFT) 15
     OR (if m AND MSTATUS_SUM \<noteq> 0 then shl 1 18 else 0)
     OR (if m AND MSTATUS_MXR \<noteq> 0 then shl 1 19 else 0)"

definition sstatus_mask :: u32 where
  "sstatus_mask = MSTATUS_UIE OR MSTATUS_SIE OR MSTATUS_UPIE OR MSTATUS_SPIE OR MSTATUS_SPP
     OR MSTATUS_FS_MASK OR MSTATUS_XS_MASK OR MSTATUS_SUM OR MSTATUS_MXR"

definition sstatus_into :: "u32 \<Rightarrow> u32 \<Rightarrow> u32" where
  "sstatus_into val m =
     (let m = m AND NOT sstatus_mask;
          m = (if val AND 1 \<noteq> 0 then m OR MSTATUS_UIE else m);
          m = (if val AND 2 \<noteq> 0 then m OR MSTATUS_SIE else m);
          m = (if val AND 16 \<noteq> 0 then m OR MSTATUS_UPIE else m);
          m = (if val AND 32 \<noteq> 0 then m OR MSTATUS_SPIE else m);
          m = (if val AND 256 \<noteq> 0 then m OR MSTATUS_SPP else m);
          m = m OR shl (shr val 13 AND 3) MSTATUS_FS_SHIFT;
          m = m OR shl (shr val 15 AND 3) MSTATUS_XS_SHIFT;
          m = (if val AND shl 1 18 \<noteq> 0 then m OR MSTATUS_SUM else m)
      in if val AND shl 1 19 \<noteq> 0 then m OR MSTATUS_MXR else m)"

definition sstatus_read :: "emu \<Rightarrow> u32" where
  "sstatus_read s = sstatus_of (csr_val CSR_MSTATUS s)"

definition sstatus_write :: "u32 \<Rightarrow> emu \<Rightarrow> emu" where
  "sstatus_write val s = set_csr_val CSR_MSTATUS (sstatus_into val (csr_val CSR_MSTATUS s)) s"

subsection \<open>mip, sie and sip (zicsr\_extension.c)\<close>

definition get_mip :: "emu \<Rightarrow> u32" where
  "get_mip s =
     (let mip = csr_val CSR_MIP s;
          mip = (if clint_mtip_pending (clint_dev s) then mip OR MIP_MTIP else mip AND NOT MIP_MTIP);
          mip = (if plic_external_pending (plic_dev s) \<noteq> 0 then mip OR MIP_MEIP else mip AND NOT MIP_MEIP)
      in if plic_external_pending_s (plic_dev s) \<noteq> 0 then mip OR MIP_SEIP else mip AND NOT MIP_SEIP)"

text \<open>The callbacks of sie and sip, with the \<open>csr_read\<close> and \<open>csr_write\<close> they call as arguments.\<close>

definition get_sie :: "(u32 \<Rightarrow> emu \<Rightarrow> u32) \<Rightarrow> emu \<Rightarrow> u32" where
  "get_sie rd s = rd CSR_MIE s AND SIP_SIE_S_BITS"

definition set_sie :: "(u32 \<Rightarrow> emu \<Rightarrow> u32) \<Rightarrow> (u32 \<Rightarrow> u32 \<Rightarrow> emu \<Rightarrow> emu) \<Rightarrow> u32 \<Rightarrow> emu \<Rightarrow> emu" where
  "set_sie rd wr val s =
     (let mie = rd CSR_MIE s; mie = (mie AND NOT SIP_SIE_S_BITS) OR (val AND SIP_SIE_S_BITS)
      in wr CSR_MIE mie s)"

definition get_sip :: "(u32 \<Rightarrow> emu \<Rightarrow> u32) \<Rightarrow> emu \<Rightarrow> u32" where
  "get_sip rd s =
     (let sip = rd CSR_MIP s AND SIP_SIE_S_BITS
      in if clint_mtip_pending (clint_dev s) then sip OR MIP_STIP else sip)"

definition set_sip :: "(u32 \<Rightarrow> emu \<Rightarrow> u32) \<Rightarrow> (u32 \<Rightarrow> u32 \<Rightarrow> emu \<Rightarrow> emu) \<Rightarrow> u32 \<Rightarrow> emu \<Rightarrow> emu" where
  "set_sip rd wr val s =
     (let mip = rd CSR_MIP s; mip = (mip AND NOT SIP_SIE_S_BITS) OR (val AND SIP_SIE_S_BITS)
      in wr CSR_MIP mip s)"

subsection \<open>Debug triggers (sdtrig\_extension.c)\<close>

abbreviation SDTRIG_NUM_TRIGGERS :: u32 where "SDTRIG_NUM_TRIGGERS \<equiv> 4"
abbreviation SDTRIG_DMODE :: u32 where "SDTRIG_DMODE \<equiv> 0x08000000"

definition set_tselect :: "u32 \<Rightarrow> emu \<Rightarrow> emu" where
  "set_tselect val s =
     (if val \<ge> SDTRIG_NUM_TRIGGERS then s\<lparr>s_tselect := SDTRIG_NUM_TRIGGERS - 1\<rparr> else s\<lparr>s_tselect := val\<rparr>)"

definition get_tdata1 :: "emu \<Rightarrow> u32" where
  "get_tdata1 s = tdata1 (s_slots s (s_tselect s))"

definition set_tdata1 :: "u32 \<Rightarrow> emu \<Rightarrow> emu" where
  "set_tdata1 val s = s\<lparr>s_slots := (s_slots s)(s_tselect s :=
     (s_slots s (s_tselect s))\<lparr>tdata1 := val AND NOT SDTRIG_DMODE\<rparr>)\<rparr>"

definition get_tdata2 :: "emu \<Rightarrow> u32" where
  "get_tdata2 s = tdata2 (s_slots s (s_tselect s))"

definition set_tdata2 :: "u32 \<Rightarrow> emu \<Rightarrow> emu" where
  "set_tdata2 val s = s\<lparr>s_slots := (s_slots s)(s_tselect s := (s_slots s (s_tselect s))\<lparr>tdata2 := val\<rparr>)\<rparr>"

definition set_tcontrol :: "u32 \<Rightarrow> emu \<Rightarrow> emu" where
  "set_tcontrol val s = s\<lparr>s_tcontrol := val\<rparr>"

subsection \<open>Floating-point status (f\_extension.c)\<close>

definition get_fflags :: "emu \<Rightarrow> u32" where "get_fflags s = fcsr s AND 0x1F"

definition get_frm :: "emu \<Rightarrow> u32" where "get_frm s = shr (fcsr s) 5 AND 7"

definition set_fflags :: "u32 \<Rightarrow> emu \<Rightarrow> emu" where
  "set_fflags flags s = s\<lparr>fcsr := (fcsr s AND NOT 0x1F) OR (flags AND 0x1F)\<rparr>"

definition set_frm :: "u32 \<Rightarrow> emu \<Rightarrow> emu" where
  "set_frm frm s = (if frm > 4 then s else s\<lparr>fcsr := (fcsr s AND NOT 0xE0) OR shl frm 5\<rparr>)"

definition set_fcsr :: "u32 \<Rightarrow> emu \<Rightarrow> emu" where
  "set_fcsr csr s =
     (let new_frm = shr csr 5 AND 7; new_fflags = csr AND 0x1F
      in if new_frm \<le> 4 then s\<lparr>fcsr := (new_fflags AND 0x1F) OR shl new_frm 5\<rparr>
         else s\<lparr>fcsr := (new_fflags AND 0x1F) OR (fcsr s AND 0xE0)\<rparr>)"

subsection \<open>Counters (zicntr\_extension.c)\<close>

definition get_zicntr_cycle_l :: "emu \<Rightarrow> u32" where "get_zicntr_cycle_l s = ucast (cycle s)"

definition get_zicntr_cycle_h :: "emu \<Rightarrow> u32" where "get_zicntr_cycle_h s = ucast (shr (cycle s) 32)"

definition get_zicntr_time_l :: "emu \<Rightarrow> u32" where
  "get_zicntr_time_l s = ucast (clint_get_mtime (clint_dev s))"

definition get_zicntr_time_h :: "emu \<Rightarrow> u32" where
  "get_zicntr_time_h s = ucast (shr (clint_get_mtime (clint_dev s)) 32)"

definition get_zicntr_instret_l :: "emu \<Rightarrow> u32" where "get_zicntr_instret_l s = ucast (instret s)"

definition get_zicntr_instret_h :: "emu \<Rightarrow> u32" where
  "get_zicntr_instret_h s = ucast (shr (instret s) 32)"

definition set_zicntr_minstret_l :: "u32 \<Rightarrow> emu \<Rightarrow> emu" where
  "set_zicntr_minstret_l val s =
     s\<lparr>instret := (instret s AND 0xFFFFFFFF00000000) OR ucast val, instret_suppress_next := True\<rparr>"

definition set_zicntr_minstret_h :: "u32 \<Rightarrow> emu \<Rightarrow> emu" where
  "set_zicntr_minstret_h val s =
     s\<lparr>instret := (instret s AND 0x00000000FFFFFFFF) OR shl (ucast val) 32, instret_suppress_next := True\<rparr>"

section \<open>Calling a callback\<close>

definition run_read_callback :: "(u32 \<Rightarrow> emu \<Rightarrow> u32) \<Rightarrow> read_callback \<Rightarrow> emu \<Rightarrow> u32" where
  "run_read_callback rd cb s = (case cb of
     Get_mvendorid \<Rightarrow> 0
   | Get_marchid \<Rightarrow> 1
   | Get_mimpid \<Rightarrow> 0
   | Get_mhartid \<Rightarrow> 0
   | Get_misa \<Rightarrow> csr_val CSR_MISA s
   | Get_meideleg \<Rightarrow> csr_val CSR_MEDELEG s
   | Get_mideleg \<Rightarrow> csr_val CSR_MIDELEG s
   | Get_mie \<Rightarrow> csr_val CSR_MIE s
   | Get_mtvec \<Rightarrow> csr_val CSR_MTVEC s
   | Get_mcounteren \<Rightarrow> csr_val CSR_MCOUNTEREN s
   | Get_mscratch \<Rightarrow> csr_val CSR_MSCRATCH s
   | Get_mepc \<Rightarrow> csr_val CSR_MEPC s
   | Get_mcause \<Rightarrow> csr_val CSR_MCAUSE s
   | Get_mtval \<Rightarrow> csr_val CSR_MTVAL s
   | Get_mip \<Rightarrow> get_mip s
   | Get_mnstatus \<Rightarrow> csr_val CSR_MNSTATUS s
   | Get_pmpcfg \<Rightarrow> csr_val CSR_PMPCFG0 s
   | Get_pmpaddr \<Rightarrow> csr_val CSR_PMPADDR0 s
   | Get_sie \<Rightarrow> get_sie rd s
   | Get_sip \<Rightarrow> get_sip rd s
   | Mstatus_read \<Rightarrow> csr_val CSR_MSTATUS s
   | Sstatus_read \<Rightarrow> sstatus_read s
   | Get_tselect \<Rightarrow> s_tselect s
   | Get_tdata1 \<Rightarrow> get_tdata1 s
   | Get_tdata2 \<Rightarrow> get_tdata2 s
   | Get_tcontrol \<Rightarrow> s_tcontrol s
   | Get_fcsr \<Rightarrow> fcsr s
   | Get_fflags \<Rightarrow> get_fflags s
   | Get_frm \<Rightarrow> get_frm s
   | Get_zicntr_cycle_l \<Rightarrow> get_zicntr_cycle_l s
   | Get_zicntr_cycle_h \<Rightarrow> get_zicntr_cycle_h s
   | Get_zicntr_time_l \<Rightarrow> get_zicntr_time_l s
   | Get_zicntr_time_h \<Rightarrow> get_zicntr_time_h s
   | Get_zicntr_instret_l \<Rightarrow> get_zicntr_instret_l s
   | Get_zicntr_instret_h \<Rightarrow> get_zicntr_instret_h s)"

definition run_write_callback :: "(u32 \<Rightarrow> emu \<Rightarrow> u32) \<Rightarrow> (u32 \<Rightarrow> u32 \<Rightarrow> emu \<Rightarrow> emu) \<Rightarrow>
    write_callback \<Rightarrow> u32 \<Rightarrow> emu \<Rightarrow> emu" where
  "run_write_callback rd wr cb val s = (case cb of
     Set_pmpcfg \<Rightarrow> set_csr_val CSR_PMPCFG0 val s
   | Set_pmpaddr \<Rightarrow> set_csr_val CSR_PMPADDR0 val s
   | Set_meideleg \<Rightarrow> set_csr_val CSR_MEDELEG val s
   | Set_mideleg \<Rightarrow> set_csr_val CSR_MIDELEG val s
   | Set_mie \<Rightarrow> set_csr_val CSR_MIE val s
   | Set_mtvec \<Rightarrow> set_csr_val CSR_MTVEC val s
   | Set_mcounteren \<Rightarrow> set_csr_val CSR_MCOUNTEREN val s
   | Set_mscratch \<Rightarrow> set_csr_val CSR_MSCRATCH val s
   | Set_mepc \<Rightarrow> set_csr_val CSR_MEPC val s
   | Set_mcause \<Rightarrow> set_csr_val CSR_MCAUSE val s
   | Set_mtval \<Rightarrow> set_csr_val CSR_MTVAL val s
   | Set_mip \<Rightarrow> set_csr_val CSR_MIP val s
   | Set_sie \<Rightarrow> set_sie rd wr val s
   | Set_sip \<Rightarrow> set_sip rd wr val s
   | Mstatus_write \<Rightarrow> mstatus_write val s
   | Sstatus_write \<Rightarrow> sstatus_write val s
   | Set_tselect \<Rightarrow> set_tselect val s
   | Set_tdata1 \<Rightarrow> set_tdata1 val s
   | Set_tdata2 \<Rightarrow> set_tdata2 val s
   | Set_tcontrol \<Rightarrow> set_tcontrol val s
   | Set_fcsr \<Rightarrow> set_fcsr val s
   | Set_fflags \<Rightarrow> set_fflags val s
   | Set_frm \<Rightarrow> set_frm val s
   | Set_zicntr_minstret_l \<Rightarrow> set_zicntr_minstret_l val s
   | Set_zicntr_minstret_h \<Rightarrow> set_zicntr_minstret_h val s)"

section \<open>csr\_read and csr\_write\<close>

text \<open>With \<open>n\<close> nested calls allowed; out of fuel a read is 0 and a write does nothing.\<close>

primrec csr_read_fuel :: "nat \<Rightarrow> u32 \<Rightarrow> emu \<Rightarrow> u32" where
  "csr_read_fuel 0 = (\<lambda>csr s. 0)"
| "csr_read_fuel (Suc n) = (\<lambda>csr s.
     case csr_read_callback (csr_table s csr) of
       Some cb \<Rightarrow> run_read_callback (csr_read_fuel n) cb s
     | None \<Rightarrow> csr_val csr s)"

primrec csr_write_fuel :: "nat \<Rightarrow> u32 \<Rightarrow> u32 \<Rightarrow> emu \<Rightarrow> emu" where
  "csr_write_fuel 0 = (\<lambda>csr val s. s)"
| "csr_write_fuel (Suc n) = (\<lambda>csr val s.
     if \<not> csr_rw (csr_table s csr) then s
     else case csr_write_callback (csr_table s csr) of
       Some cb \<Rightarrow> run_write_callback (csr_read_fuel n) (csr_write_fuel n) cb val s
     | None \<Rightarrow> set_csr_val csr val s)"

definition csr_read :: "u32 \<Rightarrow> emu \<Rightarrow> u32" where "csr_read = csr_read_fuel 2"

definition csr_write :: "u32 \<Rightarrow> u32 \<Rightarrow> emu \<Rightarrow> emu" where "csr_write = csr_write_fuel 2"

section \<open>The table\<close>

text \<open>The compound literal \<open>(struct csr_operation)\{ 1, priv, rw, value, rd, wr \}\<close>.\<close>

definition csr_op :: "u32 \<Rightarrow> bool \<Rightarrow> u32 \<Rightarrow> read_callback option \<Rightarrow> write_callback option \<Rightarrow> csr_operation" where
  "csr_op p rw v rd wr = \<lparr>csr_valid = True, csr_privilege = p, csr_rw = rw, csr_value = v,
     csr_read_callback = rd, csr_write_callback = wr\<rparr>"

abbreviation RW :: bool where "RW \<equiv> True"
abbreviation RO :: bool where "RO \<equiv> False"

definition csr_unused :: csr_operation where
  "csr_unused = \<lparr>csr_valid = False, csr_privilege = PRV_MACHINE, csr_rw = RW, csr_value = 0,
     csr_read_callback = None, csr_write_callback = None\<rparr>"

text \<open>The assignments of \<open>init_sdtrig_csr_table\<close> and of \<open>init_csr_table\<close>, in order.\<close>

definition sdtrig_csr_entries :: "(u32 \<times> csr_operation) list" where
  "sdtrig_csr_entries =
    [(CSR_TSELECT, csr_op PRV_MACHINE RW 0 (Some Get_tselect) (Some Set_tselect)),
     (CSR_TDATA1, csr_op PRV_MACHINE RW 0 (Some Get_tdata1) (Some Set_tdata1)),
     (CSR_TDATA2, csr_op PRV_MACHINE RW 0 (Some Get_tdata2) (Some Set_tdata2)),
     (CSR_TCONTROL, csr_op PRV_MACHINE RW 0 (Some Get_tcontrol) (Some Set_tcontrol))]"

definition csr_entries_user :: "(u32 \<times> csr_operation) list" where
  "csr_entries_user =
    [(CSR_FCSR, csr_op PRV_USER RW 0 (Some Get_fcsr) (Some Set_fcsr)),
     (CSR_FFLAGS, csr_op PRV_USER RW 0 (Some Get_fflags) (Some Set_fflags)),
     (CSR_FRM, csr_op PRV_USER RW 0 (Some Get_frm) (Some Set_frm)),
     (CSR_CYCLE_LO, csr_op PRV_USER RO 0 (Some Get_zicntr_cycle_l) None),
     (CSR_TIME_LO, csr_op PRV_USER RO 0 (Some Get_zicntr_time_l) None),
     (CSR_INSTRET_LO, csr_op PRV_USER RO 0 (Some Get_zicntr_instret_l) None),
     (CSR_CYCLE_HI, csr_op PRV_USER RO 0 (Some Get_zicntr_cycle_h) None),
     (CSR_TIME_HI, csr_op PRV_USER RO 0 (Some Get_zicntr_time_h) None),
     (CSR_INSTRET_HI, csr_op PRV_USER RO 0 (Some Get_zicntr_instret_h) None)]"

definition csr_entries_machine :: "(u32 \<times> csr_operation) list" where
  "csr_entries_machine =
    [(CSR_MVENDORID, csr_op PRV_MACHINE RO 0 (Some Get_mvendorid) None),
     (CSR_MARCHID, csr_op PRV_MACHINE RO 0 (Some Get_marchid) None),
     (CSR_MIMPID, csr_op PRV_MACHINE RO 0 (Some Get_mimpid) None),
     (CSR_MHARTID, csr_op PRV_MACHINE RO 0 (Some Get_mhartid) None),
     (CSR_MCONFIGPTR, csr_op PRV_MACHINE RO 0 None None),
     (CSR_MSTATUS, csr_op PRV_MACHINE RW 0 (Some Mstatus_read) (Some Mstatus_write)),
     (CSR_MISA, csr_op PRV_MACHINE RO 0x40041125 (Some Get_misa) None),
     (CSR_MEDELEG, csr_op PRV_MACHINE RW 0 (Some Get_meideleg) (Some Set_meideleg)),
     (CSR_MIDELEG, csr_op PRV_MACHINE RW 0 (Some Get_mideleg) (Some Set_mideleg)),
     (CSR_MIE, csr_op PRV_MACHINE RW 0 (Some Get_mie) (Some Set_mie)),
     (CSR_MTVEC, csr_op PRV_MACHINE RW 0 (Some Get_mtvec) (Some Set_mtvec)),
     (CSR_MCOUNTEREN, csr_op PRV_MACHINE RW 0xFFFFFFFF (Some Get_mcounteren) (Some Set_mcounteren)),
     (CSR_MSTATUSH, csr_op PRV_MACHINE RW 0 None None),
     (CSR_MENVCFG, csr_op PRV_MACHINE RW 0 None None),
     (CSR_MENVCFGH, csr_op PRV_MACHINE RW 0 None None),
     (CSR_MNSCRATCH, csr_op PRV_MACHINE RW 0 None None),
     (CSR_MSECCFG, csr_op PRV_MACHINE RW 0 None None),
     (CSR_MSECCFGH, csr_op PRV_MACHINE RW 0 None None),
     (CSR_MSCRATCH, csr_op PRV_MACHINE RW 0 (Some Get_mscratch) (Some Set_mscratch)),
     (CSR_MEPC, csr_op PRV_MACHINE RW 0 (Some Get_mepc) (Some Set_mepc)),
     (CSR_MCAUSE, csr_op PRV_MACHINE RW 0 (Some Get_mcause) (Some Set_mcause)),
     (CSR_MTVAL, csr_op PRV_MACHINE RW 0 (Some Get_mtval) (Some Set_mtval)),
     (CSR_MIP, csr_op PRV_MACHINE RW 0 (Some Get_mip) (Some Set_mip)),
     (CSR_MNSTATUS, csr_op PRV_MACHINE RW 0 (Some Get_mnstatus) None),
     (CSR_MCOUNTINHIBIT, csr_op PRV_MACHINE RW 0 None None),
     (CSR_MCYCLE, csr_op PRV_MACHINE RW 0 None None),
     (CSR_MCYCLEH, csr_op PRV_MACHINE RW 0 None None),
     (CSR_MINSTRET, csr_op PRV_MACHINE RW 0 (Some Get_zicntr_instret_l) (Some Set_zicntr_minstret_l)),
     (CSR_MINSTRETH, csr_op PRV_MACHINE RW 0 (Some Get_zicntr_instret_h) (Some Set_zicntr_minstret_h))]"

definition csr_entries_pmp :: "(u32 \<times> csr_operation) list" where
  "csr_entries_pmp =
    [(CSR_PMPCFG0, csr_op PRV_MACHINE RW 0 (Some Get_pmpcfg) (Some Set_pmpcfg)),
     (CSR_PMPCFG0 + 1, csr_op PRV_MACHINE RW 0 (Some Get_pmpcfg) (Some Set_pmpcfg)),
     (CSR_PMPCFG0 + 2, csr_op PRV_MACHINE RW 0 (Some Get_pmpcfg) (Some Set_pmpcfg)),
     (CSR_PMPCFG0 + 3, csr_op PRV_MACHINE RW 0 (Some Get_pmpcfg) (Some Set_pmpcfg))] @
    map (\<lambda>i. (CSR_PMPADDR0 + of_nat i, csr_op PRV_MACHINE RW 0 (Some Get_pmpaddr) (Some Set_pmpaddr)))
      [0..<16]"

definition csr_entries_supervisor :: "(u32 \<times> csr_operation) list" where
  "csr_entries_supervisor =
    [(CSR_SSTATUS, csr_op PRV_SUPERVISOR RW 0 (Some Sstatus_read) (Some Sstatus_write)),
     (CSR_SIE, csr_op PRV_SUPERVISOR RW 0 (Some Get_sie) (Some Set_sie)),
     (CSR_STVEC, csr_op PRV_SUPERVISOR RW 0 None None),
     (CSR_SSCRATCH, csr_op PRV_SUPERVISOR RW 0 None None),
     (CSR_SEPC, csr_op PRV_SUPERVISOR RW 0 None None),
     (CSR_SCAUSE, csr_op PRV_SUPERVISOR RW 0 None None),
     (CSR_STVAL, csr_op PRV_SUPERVISOR RW 0 None None),
     (CSR_SIP, csr_op PRV_SUPERVISOR RW 0 (Some Get_sip) (Some Set_sip)),
     (CSR_SATP, csr_op PRV_SUPERVISOR RW 0 None None),
     (0x106, csr_op PRV_SUPERVISOR RW 0 None None),
     (CSR_SENVCFG, csr_op PRV_SUPERVISOR RW 0 None None),
     (CSR_SENVCFGH, csr_op PRV_SUPERVISOR RW 0 None None)]"

definition csr_entries :: "(u32 \<times> csr_operation) list" where
  "csr_entries = sdtrig_csr_entries @ csr_entries_user @ csr_entries_machine @ csr_entries_pmp
     @ csr_entries_supervisor"

text \<open>The table after the assignments: a later one wins.\<close>

definition csr_init :: "u32 \<Rightarrow> csr_operation" where
  "csr_init c = (case map_of (rev csr_entries) c of Some e \<Rightarrow> e | None \<Rightarrow> csr_unused)"

definition init_csr_table :: "emu \<Rightarrow> emu" where
  "init_csr_table s = s\<lparr>csr_table := csr_init,
     s_slots := (\<lambda>i. if i < SDTRIG_NUM_TRIGGERS then \<lparr>tdata1 = 0, tdata2 = 0\<rparr> else s_slots s i),
     s_tselect := 0, s_tcontrol := 0\<rparr>"

section \<open>Well-formed tables\<close>

text \<open>
  Only the \<open>value\<close> members change after \<open>init_csr_table\<close>, and misa, which is read-only, keeps its
  initial value.
\<close>

definition csr_wf :: "emu \<Rightarrow> bool" where
  "csr_wf s \<longleftrightarrow> (\<forall>c. (csr_table s c)\<lparr>csr_value := 0\<rparr> = (csr_init c)\<lparr>csr_value := 0\<rparr>) \<and>
     csr_val CSR_MISA s = 0x40041125"

lemmas csr_entry_defs = csr_entries_def sdtrig_csr_entries_def csr_entries_user_def
  csr_entries_machine_def csr_entries_pmp_def csr_entries_supervisor_def

lemma csr_entries_distinct: "distinct (map fst csr_entries)"
  by (simp add: csr_entry_defs upt_rec)

lemma csr_init_map_of: "csr_init c = (case map_of csr_entries c of Some e \<Rightarrow> e | None \<Rightarrow> csr_unused)"
proof -
  have "map_of (rev csr_entries) = map_of csr_entries"
    using csr_entries_distinct by (subst map_of_inject_set) (simp_all add: rev_map [symmetric])
  then show ?thesis by (simp add: csr_init_def)
qed

lemma csr_init_at:
  "csr_init CSR_MSTATUS = csr_op PRV_MACHINE RW 0 (Some Mstatus_read) (Some Mstatus_write)"
  "csr_init CSR_MISA = csr_op PRV_MACHINE RO 0x40041125 (Some Get_misa) None"
  "csr_init CSR_MEDELEG = csr_op PRV_MACHINE RW 0 (Some Get_meideleg) (Some Set_meideleg)"
  "csr_init CSR_MIDELEG = csr_op PRV_MACHINE RW 0 (Some Get_mideleg) (Some Set_mideleg)"
  "csr_init CSR_MIE = csr_op PRV_MACHINE RW 0 (Some Get_mie) (Some Set_mie)"
  "csr_init CSR_MTVEC = csr_op PRV_MACHINE RW 0 (Some Get_mtvec) (Some Set_mtvec)"
  "csr_init CSR_MSCRATCH = csr_op PRV_MACHINE RW 0 (Some Get_mscratch) (Some Set_mscratch)"
  "csr_init CSR_MEPC = csr_op PRV_MACHINE RW 0 (Some Get_mepc) (Some Set_mepc)"
  "csr_init CSR_MCAUSE = csr_op PRV_MACHINE RW 0 (Some Get_mcause) (Some Set_mcause)"
  "csr_init CSR_MTVAL = csr_op PRV_MACHINE RW 0 (Some Get_mtval) (Some Set_mtval)"
  "csr_init CSR_MIP = csr_op PRV_MACHINE RW 0 (Some Get_mip) (Some Set_mip)"
  "csr_init CSR_SSTATUS = csr_op PRV_SUPERVISOR RW 0 (Some Sstatus_read) (Some Sstatus_write)"
  "csr_init CSR_SIE = csr_op PRV_SUPERVISOR RW 0 (Some Get_sie) (Some Set_sie)"
  "csr_init CSR_SIP = csr_op PRV_SUPERVISOR RW 0 (Some Get_sip) (Some Set_sip)"
  "csr_init CSR_STVEC = csr_op PRV_SUPERVISOR RW 0 None None"
  "csr_init CSR_SEPC = csr_op PRV_SUPERVISOR RW 0 None None"
  "csr_init CSR_SCAUSE = csr_op PRV_SUPERVISOR RW 0 None None"
  "csr_init CSR_STVAL = csr_op PRV_SUPERVISOR RW 0 None None"
  "csr_init CSR_SATP = csr_op PRV_SUPERVISOR RW 0 None None"
  "csr_init CSR_FFLAGS = csr_op PRV_USER RW 0 (Some Get_fflags) (Some Set_fflags)"
  "csr_init CSR_FRM = csr_op PRV_USER RW 0 (Some Get_frm) (Some Set_frm)"
  by (simp_all add: csr_init_map_of csr_entry_defs upt_rec)

lemma csr_wf_static:
  assumes "csr_wf s"
  shows "csr_valid (csr_table s c) = csr_valid (csr_init c)"
    and "csr_privilege (csr_table s c) = csr_privilege (csr_init c)"
    and "csr_rw (csr_table s c) = csr_rw (csr_init c)"
    and "csr_read_callback (csr_table s c) = csr_read_callback (csr_init c)"
    and "csr_write_callback (csr_table s c) = csr_write_callback (csr_init c)"
proof -
  have eq: "(csr_table s c)\<lparr>csr_value := 0\<rparr> = (csr_init c)\<lparr>csr_value := 0\<rparr>"
    using assms by (simp add: csr_wf_def)
  show "csr_valid (csr_table s c) = csr_valid (csr_init c)"
    using arg_cong [OF eq, of csr_valid] by simp
  show "csr_privilege (csr_table s c) = csr_privilege (csr_init c)"
    using arg_cong [OF eq, of csr_privilege] by simp
  show "csr_rw (csr_table s c) = csr_rw (csr_init c)"
    using arg_cong [OF eq, of csr_rw] by simp
  show "csr_read_callback (csr_table s c) = csr_read_callback (csr_init c)"
    using arg_cong [OF eq, of csr_read_callback] by simp
  show "csr_write_callback (csr_table s c) = csr_write_callback (csr_init c)"
    using arg_cong [OF eq, of csr_write_callback] by simp
qed

lemma csr_op_fields [simp]:
  "csr_valid (csr_op p rw v rd wr)" "csr_privilege (csr_op p rw v rd wr) = p"
  "csr_rw (csr_op p rw v rd wr) = rw" "csr_value (csr_op p rw v rd wr) = v"
  "csr_read_callback (csr_op p rw v rd wr) = rd" "csr_write_callback (csr_op p rw v rd wr) = wr"
  by (simp_all add: csr_op_def)

lemma csr_wf_init: "csr_wf (init_csr_table s)"
  by (simp add: csr_wf_def init_csr_table_def csr_val_def csr_init_at)

lemma csr_wf_set [simp]: "c \<noteq> CSR_MISA \<Longrightarrow> csr_wf (set_csr_val c v s) = csr_wf s"
  by (auto simp: csr_wf_def set_csr_val_def csr_val_def)

lemma csr_wf_cong: "csr_table s = csr_table t \<Longrightarrow> csr_wf s = csr_wf t"
  by (simp add: csr_wf_def csr_val_def)

lemma csr_wf_updates [simp]:
  "csr_wf (reg_write i d s) = csr_wf s" "csr_wf (s\<lparr>pc := a\<rparr>) = csr_wf s"
  "csr_wf (s\<lparr>privilege := p\<rparr>) = csr_wf s" "csr_wf (s\<lparr>just_trapped := b\<rparr>) = csr_wf s"
  "csr_wf (s\<lparr>main_memory := f\<rparr>) = csr_wf s" "csr_wf (s\<lparr>mmu_flags := h\<rparr>) = csr_wf s"
  "csr_wf (s\<lparr>clint_dev := cl\<rparr>) = csr_wf s" "csr_wf (s\<lparr>plic_dev := pl\<rparr>) = csr_wf s"
  "csr_wf (s\<lparr>uart_dev := u\<rparr>) = csr_wf s" "csr_wf (s\<lparr>fpr := fs\<rparr>) = csr_wf s"
  "csr_wf (s\<lparr>fcsr := x\<rparr>) = csr_wf s" "csr_wf (s\<lparr>terminated := b\<rparr>) = csr_wf s"
  by (rule csr_wf_cong; simp)+

section \<open>Fuel\<close>

lemma run_read_callback_cong:
  "rd CSR_MIE s = rd' CSR_MIE s \<Longrightarrow> rd CSR_MIP s = rd' CSR_MIP s \<Longrightarrow>
     run_read_callback rd cb s = run_read_callback rd' cb s"
  by (cases cb) (simp_all add: run_read_callback_def get_sie_def get_sip_def)

lemma csr_read_fuel_plain:
  assumes "csr_wf s"
  shows "csr_read_fuel (Suc n) CSR_MIE s = csr_val CSR_MIE s"
    and "csr_read_fuel (Suc n) CSR_MIP s = get_mip s"
  using assms by (simp_all add: csr_wf_static csr_init_at run_read_callback_def)

lemma csr_write_fuel_plain:
  assumes "csr_wf s"
  shows "csr_write_fuel (Suc n) CSR_MIE v s = set_csr_val CSR_MIE v s"
    and "csr_write_fuel (Suc n) CSR_MIP v s = set_csr_val CSR_MIP v s"
  using assms by (simp_all add: csr_wf_static csr_init_at run_write_callback_def)

lemma run_write_callback_cong:
  assumes "rd CSR_MIE s = rd' CSR_MIE s" "rd CSR_MIP s = rd' CSR_MIP s"
    and "\<And>v. wr CSR_MIE v s = wr' CSR_MIE v s" "\<And>v. wr CSR_MIP v s = wr' CSR_MIP v s"
  shows "run_write_callback rd wr cb val s = run_write_callback rd' wr' cb val s"
  using assms by (cases cb) (simp_all add: run_write_callback_def set_sie_def set_sip_def Let_def)

text \<open>
  Two nested calls are enough: on a well-formed table, reads and writes with any
  larger amount of fuel agree with \<open>csr_read\<close> and \<open>csr_write\<close>, so the model does not cut
  off a recursion of the code.
\<close>

theorem csr_fuel_enough:
  assumes "csr_wf s" and "2 \<le> n"
  shows "csr_read_fuel n c s = csr_read c s \<and> csr_write_fuel n c v s = csr_write c v s"
proof -
  obtain k where n: "n = Suc (Suc k)" using assms(2) by (metis add_2_eq_Suc le_Suc_ex)
  have "run_read_callback (csr_read_fuel (Suc k)) cb s = run_read_callback (csr_read_fuel 1) cb s" for cb
    using csr_read_fuel_plain [OF assms(1)] by (intro run_read_callback_cong) (simp_all only: One_nat_def)
  moreover have "run_write_callback (csr_read_fuel (Suc k)) (csr_write_fuel (Suc k)) cb v s =
      run_write_callback (csr_read_fuel 1) (csr_write_fuel 1) cb v s" for cb
    using csr_read_fuel_plain [OF assms(1)] csr_write_fuel_plain [OF assms(1)]
    by (intro run_write_callback_cong) (simp_all only: One_nat_def)
  ultimately show ?thesis
    by (simp add: n csr_read_def csr_write_def numeral_2_eq_2 split: option.split)
qed

theorem csr_fuel_enough_witness: "\<exists>s. csr_read_fuel 7 CSR_SIE s = csr_read CSR_SIE s"
proof
  show "csr_read_fuel 7 CSR_SIE (init_csr_table s) = csr_read CSR_SIE (init_csr_table s)" for s
    using csr_fuel_enough [of "init_csr_table s" 7 CSR_SIE] csr_wf_init [of s] by simp
qed

section \<open>What each access does\<close>

lemma csr_read_wf:
  assumes "csr_wf s"
  shows "csr_read c s = (case csr_read_callback (csr_init c) of
      Some cb \<Rightarrow> run_read_callback (csr_read_fuel 1) cb s | None \<Rightarrow> csr_val c s)"
  using assms by (simp add: csr_read_def numeral_2_eq_2 csr_wf_static split: option.split)

lemma csr_write_wf:
  assumes "csr_wf s"
  shows "csr_write c v s = (if \<not> csr_rw (csr_init c) then s else
     case csr_write_callback (csr_init c) of
       Some cb \<Rightarrow> run_write_callback (csr_read_fuel 1) (csr_write_fuel 1) cb v s
     | None \<Rightarrow> set_csr_val c v s)"
  using assms by (simp add: csr_write_def numeral_2_eq_2 csr_wf_static split: option.split)

lemma csr_reads:
  assumes "csr_wf s"
  shows "csr_read CSR_MSTATUS s = csr_val CSR_MSTATUS s"
    and "csr_read CSR_MISA s = csr_val CSR_MISA s"
    and "csr_read CSR_MEDELEG s = csr_val CSR_MEDELEG s"
    and "csr_read CSR_MIDELEG s = csr_val CSR_MIDELEG s"
    and "csr_read CSR_MIE s = csr_val CSR_MIE s"
    and "csr_read CSR_MTVEC s = csr_val CSR_MTVEC s"
    and "csr_read CSR_MEPC s = csr_val CSR_MEPC s"
    and "csr_read CSR_MIP s = get_mip s"
    and "csr_read CSR_SSTATUS s = sstatus_of (csr_val CSR_MSTATUS s)"
    and "csr_read CSR_SIE s = csr_val CSR_MIE s AND SIP_SIE_S_BITS"
    and "csr_read CSR_SIP s = (get_mip s AND SIP_SIE_S_BITS) OR
           (if clint_mtip_pending (clint_dev s) then MIP_STIP else 0)"
    and "csr_read CSR_STVEC s = csr_val CSR_STVEC s"
    and "csr_read CSR_SEPC s = csr_val CSR_SEPC s"
    and "csr_read CSR_SATP s = csr_val CSR_SATP s"
    and "csr_read CSR_FFLAGS s = get_fflags s"
  using assms csr_read_fuel_plain [OF assms, of 0]
  by (simp_all add: csr_read_wf csr_init_at run_read_callback_def get_sie_def get_sip_def sstatus_read_def)

lemma csr_writes:
  assumes "csr_wf s"
  shows "csr_write CSR_MSTATUS v s = mstatus_write v s"
    and "csr_write CSR_MCAUSE v s = set_csr_val CSR_MCAUSE v s"
    and "csr_write CSR_MTVAL v s = set_csr_val CSR_MTVAL v s"
    and "csr_write CSR_MEPC v s = set_csr_val CSR_MEPC v s"
    and "csr_write CSR_MTVEC v s = set_csr_val CSR_MTVEC v s"
    and "csr_write CSR_MIP v s = set_csr_val CSR_MIP v s"
    and "csr_write CSR_MIE v s = set_csr_val CSR_MIE v s"
    and "csr_write CSR_SSTATUS v s = sstatus_write v s"
    and "csr_write CSR_SIE v s = set_csr_val CSR_MIE
           ((csr_val CSR_MIE s AND NOT SIP_SIE_S_BITS) OR (v AND SIP_SIE_S_BITS)) s"
    and "csr_write CSR_SCAUSE v s = set_csr_val CSR_SCAUSE v s"
    and "csr_write CSR_STVAL v s = set_csr_val CSR_STVAL v s"
    and "csr_write CSR_SEPC v s = set_csr_val CSR_SEPC v s"
    and "csr_write CSR_STVEC v s = set_csr_val CSR_STVEC v s"
    and "csr_write CSR_SATP v s = set_csr_val CSR_SATP v s"
    and "csr_write CSR_FFLAGS v s = set_fflags v s"
  using assms csr_read_fuel_plain [OF assms, of 0] csr_write_fuel_plain [OF assms, of 0]
  by (simp_all add: csr_write_wf csr_init_at run_write_callback_def set_sie_def)

section \<open>Preservation\<close>

lemma csr_wf_callback:
  assumes "csr_wf s"
  shows "csr_wf (run_write_callback (csr_read_fuel 1) (csr_write_fuel 1) cb v s)"
  using assms csr_write_fuel_plain [OF assms, of 0]
  by (cases cb) (simp_all add: run_write_callback_def set_sie_def set_sip_def mstatus_write_def
      sstatus_write_def Let_def set_tselect_def set_tdata1_def set_tdata2_def set_tcontrol_def
      set_fcsr_def set_fflags_def set_frm_def set_zicntr_minstret_l_def set_zicntr_minstret_h_def
      csr_wf_def csr_val_def set_csr_val_def)

lemma csr_wf_write [simp]:
  assumes "csr_wf s"
  shows "csr_wf (csr_write c v s)"
proof (cases "csr_write_callback (csr_init c)")
  case None
  then show ?thesis using assms by (cases "c = CSR_MISA") (simp_all add: csr_write_wf csr_init_at)
next
  case (Some cb)
  then show ?thesis using assms csr_wf_callback [OF assms, of cb v]
    by (simp add: csr_write_wf del: csr_read_fuel.simps csr_write_fuel.simps One_nat_def)
qed

text \<open>
  A CSR access never touches the program counter, the privilege, the memory, the devices or the
  integer registers.
\<close>

lemma csr_write_frame_callback:
  assumes "csr_wf s"
  shows "pc (csr_write c v s) = pc s \<and> privilege (csr_write c v s) = privilege s \<and>
    gpr (csr_write c v s) = gpr s \<and> main_memory (csr_write c v s) = main_memory s \<and>
    clint_dev (csr_write c v s) = clint_dev s \<and> plic_dev (csr_write c v s) = plic_dev s \<and>
    uart_dev (csr_write c v s) = uart_dev s \<and> mmu_flags (csr_write c v s) = mmu_flags s \<and>
    just_trapped (csr_write c v s) = just_trapped s \<and> terminated (csr_write c v s) = terminated s \<and>
    (s_tselect s < SDTRIG_NUM_TRIGGERS \<longrightarrow> s_tselect (csr_write c v s) < SDTRIG_NUM_TRIGGERS)"
proof (cases "csr_write_callback (csr_init c)")
  case None
  then show ?thesis using assms by (simp add: csr_write_wf)
next
  case (Some cb)
  then show ?thesis using assms csr_write_fuel_plain [OF assms, of 0]
    by (cases cb) (simp_all add: csr_write_wf run_write_callback_def set_sie_def set_sip_def
      mstatus_write_def sstatus_write_def Let_def set_tselect_def set_tdata1_def set_tdata2_def
      set_tcontrol_def set_fcsr_def set_fflags_def set_frm_def set_zicntr_minstret_l_def
      set_zicntr_minstret_h_def not_le)
qed

lemma csr_write_fields [simp]:
  assumes "csr_wf s"
  shows "pc (csr_write c v s) = pc s" "privilege (csr_write c v s) = privilege s"
    "gpr (csr_write c v s) = gpr s" "main_memory (csr_write c v s) = main_memory s"
    "clint_dev (csr_write c v s) = clint_dev s" "plic_dev (csr_write c v s) = plic_dev s"
    "uart_dev (csr_write c v s) = uart_dev s" "mmu_flags (csr_write c v s) = mmu_flags s"
    "just_trapped (csr_write c v s) = just_trapped s" "terminated (csr_write c v s) = terminated s"
    "s_tselect s < SDTRIG_NUM_TRIGGERS \<Longrightarrow> s_tselect (csr_write c v s) < SDTRIG_NUM_TRIGGERS"
  using csr_write_frame_callback [OF assms] by simp_all

section \<open>Registers that are views\<close>

lemma sstatus_of_mask: "sstatus_of m = m AND sstatus_mask"
  unfolding sstatus_of_def sstatus_mask_def flag_simps push_bit_of_1
  by (simp add: flag_simps) (simp add: word32_bits bit_simps)

lemma sstatus_into_mask: "sstatus_into v m = (m AND NOT sstatus_mask) OR (v AND sstatus_mask)"
proof -
  have or_if: "(if b then x OR k else x) = x OR (if b then k else 0)" for b and x k :: u32
    by simp
  have "sstatus_into v m = (m AND NOT sstatus_mask) OR (if bit v 0 then MSTATUS_UIE else 0)
      OR (if bit v 1 then MSTATUS_SIE else 0) OR (if bit v 4 then MSTATUS_UPIE else 0)
      OR (if bit v 5 then MSTATUS_SPIE else 0) OR (if bit v 8 then MSTATUS_SPP else 0)
      OR shl (shr v 13 AND 3) MSTATUS_FS_SHIFT OR shl (shr v 15 AND 3) MSTATUS_XS_SHIFT
      OR (if bit v 18 then MSTATUS_SUM else 0) OR (if bit v 19 then MSTATUS_MXR else 0)"
    unfolding sstatus_into_def or_if by (simp add: Let_def flag_simps or.assoc)
  then show ?thesis unfolding sstatus_mask_def
    by (simp only:) (simp add: word32_bits bit_simps)
qed

interpretation sstatus_view: masked_view "csr_read CSR_SSTATUS" "csr_write CSR_SSTATUS"
  "csr_val CSR_MSTATUS" sstatus_mask csr_wf
  by unfold_locales
    (simp_all add: csr_reads csr_writes sstatus_of_mask sstatus_into_mask sstatus_write_def csr_val_set)

interpretation sie_view: masked_view "csr_read CSR_SIE" "csr_write CSR_SIE"
  "csr_val CSR_MIE" SIP_SIE_S_BITS csr_wf
  by unfold_locales (simp_all add: csr_reads csr_writes csr_val_set)

interpretation fflags_view: masked_view "csr_read CSR_FFLAGS" "csr_write CSR_FFLAGS"
  fcsr "0x1F" csr_wf
  by unfold_locales (simp_all add: csr_reads csr_writes get_fflags_def set_fflags_def)

text \<open>
  Writing sstatus cannot escape supervisor privilege: the write changes exactly the
  supervisor's bits of mstatus, so MIE, MPIE, MPP, MPRV, TVM, TW and TSR keep their values; reading it back
  gives the bits written; and writing back what was read changes nothing.
\<close>

theorem sstatus_is_view_of_mstatus:
  assumes "csr_wf s" and "K = MSTATUS_MIE OR MSTATUS_MPIE OR MSTATUS_MPP_MASK OR MSTATUS_MPRV
             OR MSTATUS_TVM OR MSTATUS_TW OR MSTATUS_TSR"
  shows "csr_val CSR_MSTATUS (csr_write CSR_SSTATUS v s) AND K = csr_val CSR_MSTATUS s AND K \<and>
         csr_read CSR_SSTATUS (csr_write CSR_SSTATUS v s) = v AND sstatus_mask \<and>
         csr_val CSR_MSTATUS (csr_write CSR_SSTATUS (csr_read CSR_SSTATUS s) s) = csr_val CSR_MSTATUS s"
proof -
  have "K = NOT sstatus_mask AND K" by (simp add: assms(2) sstatus_mask_def)
  then have "x AND K = (x AND NOT sstatus_mask) AND K" for x by (metis and.assoc)
  then have "csr_val CSR_MSTATUS (csr_write CSR_SSTATUS v s) AND K = csr_val CSR_MSTATUS s AND K"
    using sstatus_view.put_outside [OF assms(1), of v] by metis
  then show ?thesis
    using sstatus_view.get_put [OF assms(1)] sstatus_view.put_get [OF assms(1)] by simp
qed

theorem sstatus_is_view_of_mstatus_witness:
  "\<exists>s. csr_wf s \<and> csr_read CSR_SSTATUS (csr_write CSR_SSTATUS 0x22 s) = 0x22"
proof
  show "csr_wf (init_csr_table s) \<and>
      csr_read CSR_SSTATUS (csr_write CSR_SSTATUS 0x22 (init_csr_table s)) = 0x22" for s
    using sstatus_is_view_of_mstatus [of "init_csr_table s" _ "0x22"] csr_wf_init [of s]
    by (simp add: sstatus_mask_def)
qed

lemma bit_get_mip:
  "bit (get_mip s) n \<longleftrightarrow>
     (if n = 7 then clint_mtip_pending (clint_dev s)
      else if n = 9 then plic_external_pending_s (plic_dev s) \<noteq> 0
      else if n = 11 then plic_external_pending (plic_dev s) \<noteq> 0
      else bit (csr_val CSR_MIP s) n)"
proof -
  have masks: "bit (MIP_MTIP :: u32) n \<longleftrightarrow> n = 7" "bit (MIP_SEIP :: u32) n \<longleftrightarrow> n = 9"
    "bit (MIP_MEIP :: u32) n \<longleftrightarrow> n = 11"
    using bit_exp_iff [where 'a = u32, of 7 n] bit_exp_iff [where 'a = u32, of 9 n]
      bit_exp_iff [where 'a = u32, of 11 n] by auto
  show ?thesis unfolding get_mip_def Let_def
    by (cases "n < 32"; simp only: if_distrib [of "\<lambda>x. bit x n"] bit_or_iff bit_and_iff bit_not_iff
        masks possible_bit_word len_bit0 len_num1) (auto dest: bit_imp_le_length)
qed

text \<open>
  The timer and external bits of mip are live views of the devices: whatever software last
  wrote to mip or sip, bit 7 is the CLINT comparator, bits 11 and 9 are the machine and
  supervisor contexts of the PLIC, and the supervisor also sees the comparator as bit 5 of sip.
\<close>

theorem mip_is_live:
  assumes "csr_wf s" and "c \<in> {CSR_MIP, CSR_SIP}"
  shows "bit (csr_read CSR_MIP (csr_write c v s)) 7 = clint_mtip_pending (clint_dev s) \<and>
         bit (csr_read CSR_MIP (csr_write c v s)) 11 = (plic_best_source (plic_dev s) 0 \<noteq> 0) \<and>
         bit (csr_read CSR_MIP (csr_write c v s)) 9 = (plic_best_source (plic_dev s) 1 \<noteq> 0) \<and>
         (clint_mtip_pending (clint_dev s) \<longrightarrow> bit (csr_read CSR_SIP (csr_write c v s)) 5)"
  using assms
  by (auto simp: csr_reads bit_get_mip plic_external_pending_def plic_external_pending_s_def bit_simps)

theorem mip_is_live_witness:
  "\<exists>s. csr_wf s \<and> \<not> bit (csr_read CSR_MIP (csr_write CSR_MIP 0x80 s)) 7"
proof
  let ?s = "\<lambda>s. init_csr_table (s\<lparr>clint_dev := clint_init\<rparr>)"
  show "csr_wf (?s s) \<and> \<not> bit (csr_read CSR_MIP (csr_write CSR_MIP 0x80 (?s s))) 7" for s
    using mip_is_live [of "?s s" CSR_MIP "0x80"] csr_wf_init
    by (simp add: init_csr_table_def clint_init_def clint_mtip_pending_def)
qed

end
