(* ===== verification/Trap.thy ===== *)
theory Trap
  imports Csr
begin

text \<open>
  Traps and privileged instructions of src/src/extension/system.c, and the CSR instructions of
  zicsr_extension.c with their access check of zicsr_extension.h. An exception leaves \<open>pc\<close> four
  below the handler, because the run loop adds four after every instruction; an interrupt is taken
  between instructions and leaves \<open>pc\<close> at the handler itself.
\<close>

section \<open>Causes\<close>

abbreviation CAUSE_MISALIGNED_FETCH :: u32 where "CAUSE_MISALIGNED_FETCH \<equiv> 0"
abbreviation CAUSE_ILLEGAL_INSTRUCTION :: u32 where "CAUSE_ILLEGAL_INSTRUCTION \<equiv> 2"
abbreviation CAUSE_BREAKPOINT :: u32 where "CAUSE_BREAKPOINT \<equiv> 3"
abbreviation CAUSE_MISALIGNED_LOAD :: u32 where "CAUSE_MISALIGNED_LOAD \<equiv> 4"
abbreviation CAUSE_MISALIGNED_STORE :: u32 where "CAUSE_MISALIGNED_STORE \<equiv> 6"
abbreviation CAUSE_USER_ECALL :: u32 where "CAUSE_USER_ECALL \<equiv> 8"
abbreviation CAUSE_SUPERVISOR_ECALL :: u32 where "CAUSE_SUPERVISOR_ECALL \<equiv> 9"
abbreviation CAUSE_MACHINE_ECALL :: u32 where "CAUSE_MACHINE_ECALL \<equiv> 11"
abbreviation CAUSE_FETCH_PAGE_FAULT :: u32 where "CAUSE_FETCH_PAGE_FAULT \<equiv> 12"
abbreviation CAUSE_LOAD_PAGE_FAULT :: u32 where "CAUSE_LOAD_PAGE_FAULT \<equiv> 13"
abbreviation CAUSE_STORE_PAGE_FAULT :: u32 where "CAUSE_STORE_PAGE_FAULT \<equiv> 15"

section \<open>Exceptions\<close>

definition misa_c_enabled :: "emu \<Rightarrow> bool" where
  "misa_c_enabled s \<longleftrightarrow> shr (csr_val CSR_MISA s) 2 AND 1 \<noteq> 0"

definition raise_machine_exception :: "u32 \<Rightarrow> u32 \<Rightarrow> u32 \<Rightarrow> emu \<Rightarrow> emu" where
  "raise_machine_exception cause tval epc s =
     (let mstatus = csr_read CSR_MSTATUS s;
          mstatus = (mstatus AND NOT MSTATUS_MPP_MASK) OR shl (privilege s) MSTATUS_MPP_SHIFT;
          mstatus = (if mstatus AND MSTATUS_MIE \<noteq> 0 then mstatus OR MSTATUS_MPIE
                     else mstatus AND NOT MSTATUS_MPIE);
          mstatus = mstatus AND NOT MSTATUS_MIE;
          s = csr_write CSR_MSTATUS mstatus s;
          s = csr_write CSR_MCAUSE cause s;
          s = csr_write CSR_MTVAL tval s;
          s = csr_write CSR_MEPC epc s;
          s = s\<lparr>privilege := PRV_MACHINE, just_trapped := True\<rparr>;
          mtvec = csr_read CSR_MTVEC s
      in s\<lparr>pc := (mtvec AND NOT 3) - 4\<rparr>)"

definition raise_supervisor_exception :: "u32 \<Rightarrow> u32 \<Rightarrow> u32 \<Rightarrow> emu \<Rightarrow> emu" where
  "raise_supervisor_exception cause tval epc s =
     (let sstatus = csr_read CSR_SSTATUS s;
          sstatus = (if privilege s = PRV_SUPERVISOR then sstatus OR shl 1 8 else sstatus AND NOT (shl 1 8));
          sstatus = (if sstatus AND shl 1 1 \<noteq> 0 then sstatus OR shl 1 5 else sstatus AND NOT (shl 1 5));
          sstatus = sstatus AND NOT (shl 1 1);
          s = csr_write CSR_SSTATUS sstatus s;
          s = csr_write CSR_SCAUSE cause s;
          s = csr_write CSR_STVAL tval s;
          s = csr_write CSR_SEPC epc s;
          s = s\<lparr>privilege := PRV_SUPERVISOR\<rparr>;
          stvec = csr_read CSR_STVEC s
      in s\<lparr>pc := (stvec AND NOT 3) - 4\<rparr>)"

text \<open>A trap drops the reservation of LR.W.\<close>

definition drop_reservations :: "emu \<Rightarrow> emu" where
  "drop_reservations s = (if hsize (mmu_flags s) > 0 then s\<lparr>mmu_flags := hashmap_clear (mmu_flags s)\<rparr> else s)"

definition delegated :: "u32 \<Rightarrow> u32 \<Rightarrow> emu \<Rightarrow> bool" where
  "delegated deleg cause s \<longleftrightarrow>
     (privilege s = PRV_USER \<or> privilege s = PRV_SUPERVISOR) \<and> deleg AND shl 1 (unat cause) \<noteq> 0"

definition raise_exception_pc :: "u32 \<Rightarrow> u32 \<Rightarrow> u32 \<Rightarrow> emu \<Rightarrow> emu" where
  "raise_exception_pc cause tval epc s =
     (let s = drop_reservations s
      in if delegated (csr_read CSR_MEDELEG s) cause s then raise_supervisor_exception cause tval epc s
         else raise_machine_exception cause tval epc s)"

definition raise_exception :: "u32 \<Rightarrow> u32 \<Rightarrow> emu \<Rightarrow> emu" where
  "raise_exception cause tval s = raise_exception_pc cause tval (pc s) s"

definition raise_illegal :: "u32 \<Rightarrow> emu \<Rightarrow> emu" where
  "raise_illegal ins = raise_exception CAUSE_ILLEGAL_INSTRUCTION ins"

text \<open>Whether the trap was raised, and the state.\<close>

definition raise_if_misaligned_fetch :: "u32 \<Rightarrow> emu \<Rightarrow> bool \<times> emu" where
  "raise_if_misaligned_fetch target_addr s =
     (if target_addr AND (if misa_c_enabled s then 1 else 3) \<noteq> 0
      then (True, raise_exception_pc CAUSE_MISALIGNED_FETCH target_addr (pc s) s)
      else (False, s))"

section \<open>Privileged instructions\<close>

definition ins_mret :: "emu \<Rightarrow> emu" where
  "ins_mret s =
     (let m = csr_val CSR_MSTATUS s;
          mpp = shr (m AND MSTATUS_MPP_MASK) MSTATUS_MPP_SHIFT;
          m = (if m AND MSTATUS_MPIE \<noteq> 0 then m OR MSTATUS_MIE else m AND NOT MSTATUS_MIE);
          m = (m OR MSTATUS_MPIE) AND NOT MSTATUS_MPP_MASK;
          m = m OR shl PRV_USER MSTATUS_MPP_SHIFT;
          s = set_csr_val CSR_MSTATUS m s;
          s = s\<lparr>privilege := mpp\<rparr>
      in s\<lparr>pc := csr_val CSR_MEPC s - 4\<rparr>)"

definition ins_sret :: "emu \<Rightarrow> emu" where
  "ins_sret s =
     (if privilege s = PRV_SUPERVISOR \<and> csr_val CSR_MSTATUS s AND MSTATUS_TSR \<noteq> 0
      then raise_illegal 0x10200073 s
      else
        let v = csr_read CSR_SSTATUS s;
            spp = shr v 8 AND 1;
            v = (if v AND shl 1 5 \<noteq> 0 then v OR shl 1 1 else v AND NOT (shl 1 1));
            v = (v OR shl 1 5) AND NOT (shl 1 8);
            s = csr_write CSR_SSTATUS v s;
            s = s\<lparr>privilege := if spp \<noteq> 0 then PRV_SUPERVISOR else PRV_USER\<rparr>
        in s\<lparr>pc := csr_read CSR_SEPC s - 4\<rparr>)"

definition ins_mnret :: "emu \<Rightarrow> emu" where "ins_mnret s = ins_mret s"

definition ins_wfi :: "emu \<Rightarrow> emu" where "ins_wfi s = s"

definition ins_sctrclr :: "emu \<Rightarrow> emu" where "ins_sctrclr s = s"

definition ins_sfence_vma :: "emu \<Rightarrow> emu" where
  "ins_sfence_vma s =
     (if privilege s = PRV_SUPERVISOR \<and> csr_val CSR_MSTATUS s AND MSTATUS_TVM \<noteq> 0
      then raise_illegal 0x12000073 s else s)"

section \<open>Interrupts\<close>

definition raise_machine_interrupt :: "u32 \<Rightarrow> u32 \<Rightarrow> emu \<Rightarrow> emu" where
  "raise_machine_interrupt irq epc s =
     (let cause = irq OR shl 1 31;
          mstatus = csr_read CSR_MSTATUS s;
          mstatus = (mstatus AND NOT MSTATUS_MPP_MASK) OR shl (privilege s) MSTATUS_MPP_SHIFT;
          mstatus = (if mstatus AND MSTATUS_MIE \<noteq> 0 then mstatus OR MSTATUS_MPIE
                     else mstatus AND NOT MSTATUS_MPIE);
          mstatus = mstatus AND NOT MSTATUS_MIE;
          s = csr_write CSR_MSTATUS mstatus s;
          s = csr_write CSR_MCAUSE cause s;
          s = csr_write CSR_MTVAL 0 s;
          s = csr_write CSR_MEPC epc s;
          s = s\<lparr>privilege := PRV_MACHINE, just_trapped := True\<rparr>;
          mtvec = csr_read CSR_MTVEC s;
          base = mtvec AND NOT 3
      in if mtvec AND 1 \<noteq> 0 then s\<lparr>pc := base + shl (irq AND 0xF) 2\<rparr> else s\<lparr>pc := base\<rparr>)"

definition raise_supervisor_interrupt_internal :: "u32 \<Rightarrow> u32 \<Rightarrow> emu \<Rightarrow> emu" where
  "raise_supervisor_interrupt_internal irq epc s =
     (let cause = irq OR shl 1 31;
          sstatus = csr_read CSR_SSTATUS s;
          sstatus = (if privilege s = PRV_SUPERVISOR then sstatus OR shl 1 8 else sstatus AND NOT (shl 1 8));
          sstatus = (if sstatus AND shl 1 1 \<noteq> 0 then sstatus OR shl 1 5 else sstatus AND NOT (shl 1 5));
          sstatus = sstatus AND NOT (shl 1 1);
          s = csr_write CSR_SSTATUS sstatus s;
          s = csr_write CSR_SCAUSE cause s;
          s = csr_write CSR_STVAL 0 s;
          s = csr_write CSR_SEPC epc s;
          s = s\<lparr>privilege := PRV_SUPERVISOR\<rparr>;
          stvec = csr_read CSR_STVEC s;
          base = stvec AND NOT 3
      in if stvec AND 1 \<noteq> 0 then s\<lparr>pc := base + shl (irq AND 0xF) 2\<rparr> else s\<lparr>pc := base\<rparr>)"

definition raise_interrupt :: "u32 \<Rightarrow> emu \<Rightarrow> emu" where
  "raise_interrupt irq s =
     (let s = drop_reservations s
      in if delegated (csr_read CSR_MIDELEG s) irq s then raise_supervisor_interrupt_internal irq (pc s) s
         else raise_machine_interrupt irq (pc s) s)"

text \<open>The two chains that pick the interrupt to take; \<open>None\<close> is \<open>irq = -1\<close>.\<close>

definition machine_irq :: "u32 \<Rightarrow> u32 option" where
  "machine_irq pend =
     (if pend AND MIP_MEIP \<noteq> 0 then Some 11
      else if pend AND MIP_MSIP \<noteq> 0 then Some 3
      else if pend AND MIP_MTIP \<noteq> 0 then Some 7
      else if pend AND MIP_SEIP \<noteq> 0 then Some 9
      else if pend AND MIP_SSIP \<noteq> 0 then Some 1
      else if pend AND MIP_STIP \<noteq> 0 then Some 5
      else None)"

definition supervisor_irq :: "u32 \<Rightarrow> u32 option" where
  "supervisor_irq pend =
     (if pend AND MIP_SEIP \<noteq> 0 then Some 9
      else if pend AND MIP_SSIP \<noteq> 0 then Some 1
      else if pend AND MIP_STIP \<noteq> 0 then Some 5
      else None)"

definition check_and_handle_interrupts :: "emu \<Rightarrow> emu" where
  "check_and_handle_interrupts s =
     (let mip = csr_read CSR_MIP s;
          mie = csr_read CSR_MIE s;
          mstatus = csr_read CSR_MSTATUS s;
          mideleg = csr_read CSR_MIDELEG s;
          sip = csr_read CSR_SIP s;
          sie = csr_read CSR_SIE s
      in if privilege s = PRV_MACHINE then
           if mstatus AND MSTATUS_MIE = 0 then s
           else if mip AND mie = 0 then s
           else (case machine_irq (mip AND mie) of Some irq \<Rightarrow> raise_interrupt irq s | None \<Rightarrow> s)
         else
           let global_en = mstatus AND (if privilege s = PRV_SUPERVISOR then MSTATUS_SIE else MSTATUS_UIE);
               s_irq = (if global_en \<noteq> 0 then supervisor_irq (sip AND sie AND mideleg) else None)
           in case s_irq of
                Some irq \<Rightarrow> raise_interrupt irq s
              | None \<Rightarrow>
                  if mstatus AND MSTATUS_MIE \<noteq> 0 then
                    let mp = (mip AND mie) AND NOT (sip AND sie AND mideleg)
                    in if mp \<noteq> 0 then
                         (case machine_irq mp of Some irq \<Rightarrow> raise_interrupt irq s | None \<Rightarrow> s)
                       else s
                  else s)"

section \<open>CSR instructions\<close>

text \<open>
  \<open>check_csr_access\<close> returns \<open>void\<close>: after it has raised the exception its callers go on.
\<close>

definition check_csr_access :: "u32 \<Rightarrow> u32 \<Rightarrow> emu \<Rightarrow> emu" where
  "check_csr_access csr ins s =
     (if \<not> csr_valid (csr_table s csr) then raise_exception CAUSE_ILLEGAL_INSTRUCTION ins s
      else if privilege s < csr_privilege (csr_table s csr) then raise_exception CAUSE_ILLEGAL_INSTRUCTION ins s
      else if csr = CSR_SATP \<and> privilege s = PRV_SUPERVISOR \<and> csr_val CSR_MSTATUS s AND MSTATUS_TVM \<noteq> 0
        then raise_exception CAUSE_ILLEGAL_INSTRUCTION ins s
      else s)"

definition write_rd :: "u32 \<Rightarrow> u32 \<Rightarrow> emu \<Rightarrow> emu" where
  "write_rd rd old s = (if rd \<noteq> 0 then reg_write rd old s else s)"

definition ins_zicsr_csrrw :: "u32 \<Rightarrow> u32 \<Rightarrow> u32 \<Rightarrow> u32 \<Rightarrow> emu \<Rightarrow> emu" where
  "ins_zicsr_csrrw rs1 rd csr ins s =
     (let s = check_csr_access csr ins s;
          old_val = csr_read csr s;
          new_val = reg_read rs1 s
      in write_rd rd old_val (csr_write csr new_val s))"

definition ins_zicsr_csrrs :: "u32 \<Rightarrow> u32 \<Rightarrow> u32 \<Rightarrow> u32 \<Rightarrow> emu \<Rightarrow> emu" where
  "ins_zicsr_csrrs rs1 rd csr ins s =
     (let s = check_csr_access csr ins s;
          old_val = csr_read csr s;
          s = (if rs1 \<noteq> 0 then csr_write csr (old_val OR reg_read rs1 s) s else s)
      in write_rd rd old_val s)"

definition ins_zicsr_csrrc :: "u32 \<Rightarrow> u32 \<Rightarrow> u32 \<Rightarrow> u32 \<Rightarrow> emu \<Rightarrow> emu" where
  "ins_zicsr_csrrc rs1 rd csr ins s =
     (let s = check_csr_access csr ins s;
          old_val = csr_read csr s;
          s = (if rs1 \<noteq> 0 then csr_write csr (old_val AND NOT (reg_read rs1 s)) s else s)
      in write_rd rd old_val s)"

definition ins_zicsr_csrrwi :: "u32 \<Rightarrow> u32 \<Rightarrow> u32 \<Rightarrow> u32 \<Rightarrow> emu \<Rightarrow> emu" where
  "ins_zicsr_csrrwi uimm rd csr ins s =
     (let s = check_csr_access csr ins s;
          old_val = csr_read csr s
      in write_rd rd old_val (csr_write csr (uimm AND 0x1F) s))"

definition ins_zicsr_csrrsi :: "u32 \<Rightarrow> u32 \<Rightarrow> u32 \<Rightarrow> u32 \<Rightarrow> emu \<Rightarrow> emu" where
  "ins_zicsr_csrrsi uimm rd csr ins s =
     (let s = check_csr_access csr ins s;
          old_val = csr_read csr s;
          s = (if uimm \<noteq> 0 then csr_write csr (old_val OR (uimm AND 0x1F)) s else s)
      in write_rd rd old_val s)"

definition ins_zicsr_csrrci :: "u32 \<Rightarrow> u32 \<Rightarrow> u32 \<Rightarrow> u32 \<Rightarrow> emu \<Rightarrow> emu" where
  "ins_zicsr_csrrci uimm rd csr ins s =
     (let s = check_csr_access csr ins s;
          old_val = csr_read csr s;
          s = (if uimm \<noteq> 0 then csr_write csr (old_val AND NOT (uimm AND 0x1F)) s else s)
      in write_rd rd old_val s)"

section \<open>Reset\<close>

text \<open>
  \<open>init_mem\<close> (src/src/mem.c; the argument is whether \<open>calloc\<close> succeeds), and the state the run
  loop of src/src/emu.c starts in, without a program loaded: statically allocated variables are zero.
\<close>

definition init_mem :: "bool \<Rightarrow> emu \<Rightarrow> emu res" where
  "init_mem calloc_ok s =
     (let (u, p) = uart_init plic_init;
          s = s\<lparr>clint_dev := clint_init, plic_dev := p, uart_dev := u,
                main_memory := (\<lambda>_. 0), mmu_flags := hashmap_init\<rparr>
      in if calloc_ok then Inr s else Inl ''Failed to allocate memory'')"

definition zero_state :: emu where
  "zero_state = \<lparr>gpr = (\<lambda>_. 0), pc = 0, main_memory = (\<lambda>_. 0), terminated = False,
     mmu_flags = hashmap_init, privilege = 0, just_trapped = False, csr_table = (\<lambda>_. csr_unused),
     clint_dev = clint_init, plic_dev = plic_init, uart_dev = fst (uart_init plic_init),
     s_slots = (\<lambda>_. \<lparr>tdata1 = 0, tdata2 = 0\<rparr>), s_tselect = 0, s_tcontrol = 0, cycle = 0, instret = 0,
     instret_suppress_next = False, fpr = (\<lambda>_. 0), fcsr = 0, g_prev_ins_pc = 0\<rparr>"

definition start_at :: "u32 \<Rightarrow> emu \<Rightarrow> emu" where
  "start_at program_base s =
     init_csr_table (s\<lparr>pc := program_base, terminated := False, privilege := PRV_MACHINE\<rparr>)"

definition reset_state :: "u32 \<Rightarrow> emu" where
  "reset_state program_base =
     (case init_mem True zero_state of Inr s \<Rightarrow> start_at program_base s | Inl _ \<Rightarrow> zero_state)"

section \<open>The machine invariant\<close>

text \<open>
  What every operation of the emulator keeps: the CSR table is well formed, the reservation
  map is a well-formed hash table, x0 is zero, the privilege is one of the four modes, the selected
  debug trigger exists, and the devices are consistent.
\<close>

definition emu_inv :: "emu \<Rightarrow> bool" where
  "emu_inv s \<longleftrightarrow> csr_wf s \<and> hm_inv (mmu_flags s) \<and> gpr s 0 = 0 \<and> privilege s \<le> PRV_MACHINE \<and>
     s_tselect s < SDTRIG_NUM_TRIGGERS \<and> uart_inv (uart_dev s) (plic_dev s) \<and> plic_inv (plic_dev s)"

lemma emu_inv_wf: "emu_inv s \<Longrightarrow> csr_wf s"
  by (simp add: emu_inv_def)

text \<open>An instruction that can end the emulator keeps the invariant when it returns a state.\<close>

definition keeps_inv :: "emu res \<Rightarrow> bool" where
  "keeps_inv r = (case r of Inl _ \<Rightarrow> True | Inr s \<Rightarrow> emu_inv s)"

lemma keeps_inv_simps [simp]: "keeps_inv (Inl m)" "keeps_inv (Inr s) = emu_inv s"
  by (simp_all add: keeps_inv_def)

lemma reset_state_eq:
  "reset_state a = init_csr_table (zero_state\<lparr>pc := a, privilege := PRV_MACHINE\<rparr>)"
  by (simp add: reset_state_def start_at_def init_mem_def zero_state_def uart_init_def uart_update_irq_def
      uart_want_def)

lemma emu_inv_reset: "emu_inv (reset_state a)"
proof -
  have "uart_inv (fst (uart_init plic_init)) (snd (uart_init plic_init))"
    using uart_init_inv [of plic_init] by (simp add: plic_init_def case_prod_unfold)
  moreover have "snd (uart_init plic_init) = plic_init"
    by (simp add: uart_init_def uart_update_irq_def uart_want_def)
  ultimately show ?thesis
    by (simp add: emu_inv_def reset_state_eq csr_wf_init)
      (simp add: init_csr_table_def zero_state_def hashmap_init_correct plic_inv_init)
qed

lemma reset_state_fields [simp]:
  "csr_val c (reset_state a) = csr_value (csr_init c)" "privilege (reset_state a) = PRV_MACHINE"
  "pc (reset_state a) = a" "clint_dev (reset_state a) = clint_init" "plic_dev (reset_state a) = plic_init"
  "gpr (reset_state a) i = 0"
  by (simp_all add: reset_state_eq init_csr_table_def csr_val_def zero_state_def)

lemma emu_inv_pc [simp]: "emu_inv (s\<lparr>pc := a\<rparr>) = emu_inv s"
  by (simp add: emu_inv_def)

lemma emu_inv_fpr [simp]: "emu_inv (s\<lparr>fpr := f\<rparr>) = emu_inv s" "emu_inv (s\<lparr>fcsr := x\<rparr>) = emu_inv s"
  by (simp_all add: emu_inv_def)

lemma emu_inv_mem [simp]: "emu_inv (s\<lparr>main_memory := f\<rparr>) = emu_inv s"
  by (simp add: emu_inv_def)

lemma emu_inv_misc [simp]:
  "emu_inv (s\<lparr>just_trapped := b\<rparr>) = emu_inv s" "emu_inv (s\<lparr>terminated := b\<rparr>) = emu_inv s"
  "emu_inv (s\<lparr>clint_dev := cl\<rparr>) = emu_inv s"
  by (simp_all add: emu_inv_def)

lemma emu_inv_privilege [inv_rules]: "emu_inv s \<Longrightarrow> p \<le> PRV_MACHINE \<Longrightarrow> emu_inv (s\<lparr>privilege := p\<rparr>)"
  by (simp add: emu_inv_def)

lemma emu_inv_reg_write [inv_rules]: "emu_inv s \<Longrightarrow> emu_inv (reg_write i d s)"
  by (simp add: emu_inv_def) (simp add: reg_write_def)

lemma emu_inv_csr_write [inv_rules]: "emu_inv s \<Longrightarrow> emu_inv (csr_write c v s)"
  by (simp add: emu_inv_def)

lemma emu_inv_set_csr [inv_rules]: "emu_inv s \<Longrightarrow> c \<noteq> CSR_MISA \<Longrightarrow> emu_inv (set_csr_val c v s)"
  by (simp add: emu_inv_def)

lemma hm_inv_clear: "hm_inv m \<Longrightarrow> hm_inv (hashmap_clear m)"
  by (rule hm.invar_clr)

lemma emu_inv_drop [inv_rules]: "emu_inv s \<Longrightarrow> emu_inv (drop_reservations s)"
  by (simp add: emu_inv_def drop_reservations_def hm_inv_clear)

lemma drop_reservations_fields [simp]:
  "csr_table (drop_reservations s) = csr_table s" "privilege (drop_reservations s) = privilege s"
  "pc (drop_reservations s) = pc s" "gpr (drop_reservations s) = gpr s"
  "main_memory (drop_reservations s) = main_memory s" "csr_val c (drop_reservations s) = csr_val c s"
  "csr_wf (drop_reservations s) = csr_wf s" "clint_dev (drop_reservations s) = clint_dev s"
  "plic_dev (drop_reservations s) = plic_dev s" "uart_dev (drop_reservations s) = uart_dev s"
  by (simp_all add: drop_reservations_def)

text \<open>After a trap the reservation map is empty.\<close>

lemma drop_reservations_empty: "hm_inv (mmu_flags s) \<Longrightarrow> hm_alpha (mmu_flags (drop_reservations s)) = Map.empty"
  by (cases "hsize (mmu_flags s) > 0")
    (simp_all add: drop_reservations_def hashmap_clear_correct hm_alpha_card)

lemma csr_read_drop [simp]: "csr_wf s \<Longrightarrow> csr_read CSR_MEDELEG (drop_reservations s) = csr_val CSR_MEDELEG s"
  "csr_wf s \<Longrightarrow> csr_read CSR_MIDELEG (drop_reservations s) = csr_val CSR_MIDELEG s"
  by (simp_all add: csr_reads)

lemma delegated_drop [simp]: "delegated d c (drop_reservations s) = delegated d c s"
  by (simp add: delegated_def)

section \<open>The status register on trap entry and return\<close>

text \<open>mstatus after a trap to machine mode from privilege \<open>p\<close>, and sstatus after one to supervisor mode.\<close>

definition m_entry :: "u32 \<Rightarrow> u32 \<Rightarrow> u32" where
  "m_entry p m =
     (let m = (m AND NOT MSTATUS_MPP_MASK) OR shl p MSTATUS_MPP_SHIFT;
          m = (if m AND MSTATUS_MIE \<noteq> 0 then m OR MSTATUS_MPIE else m AND NOT MSTATUS_MPIE)
      in m AND NOT MSTATUS_MIE)"

definition s_entry :: "u32 \<Rightarrow> u32 \<Rightarrow> u32" where
  "s_entry p v =
     (let v = (if p = PRV_SUPERVISOR then v OR shl 1 8 else v AND NOT (shl 1 8));
          v = (if v AND shl 1 1 \<noteq> 0 then v OR shl 1 5 else v AND NOT (shl 1 5))
      in v AND NOT (shl 1 1))"

lemma raise_machine_exception_eq:
  assumes "csr_wf s"
  shows "raise_machine_exception cause tval epc s =
    (set_csr_val CSR_MEPC epc (set_csr_val CSR_MTVAL tval (set_csr_val CSR_MCAUSE cause
       (set_csr_val CSR_MSTATUS (m_entry (privilege s) (csr_val CSR_MSTATUS s) AND mstatus_writable) s))))
      \<lparr>privilege := PRV_MACHINE, just_trapped := True, pc := (csr_val CSR_MTVEC s AND NOT 3) - 4\<rparr>"
  using assms by (simp add: raise_machine_exception_def m_entry_def Let_def csr_reads csr_writes
      mstatus_write_def csr_val_set)

lemma raise_machine_interrupt_eq:
  assumes "csr_wf s"
  shows "raise_machine_interrupt irq epc s =
    (set_csr_val CSR_MEPC epc (set_csr_val CSR_MTVAL 0 (set_csr_val CSR_MCAUSE (irq OR shl 1 31)
       (set_csr_val CSR_MSTATUS (m_entry (privilege s) (csr_val CSR_MSTATUS s) AND mstatus_writable) s))))
      \<lparr>privilege := PRV_MACHINE, just_trapped := True, pc := (csr_val CSR_MTVEC s AND NOT 3) +
        (if csr_val CSR_MTVEC s AND 1 \<noteq> 0 then shl (irq AND 0xF) 2 else 0)\<rparr>"
  using assms by (simp add: raise_machine_interrupt_def m_entry_def Let_def csr_reads csr_writes
      mstatus_write_def csr_val_set)

lemma raise_supervisor_exception_eq:
  assumes "csr_wf s"
  shows "raise_supervisor_exception cause tval epc s =
    (set_csr_val CSR_SEPC epc (set_csr_val CSR_STVAL tval (set_csr_val CSR_SCAUSE cause
       (set_csr_val CSR_MSTATUS (sstatus_into (s_entry (privilege s) (sstatus_of (csr_val CSR_MSTATUS s)))
          (csr_val CSR_MSTATUS s)) s))))
      \<lparr>privilege := PRV_SUPERVISOR, pc := (csr_val CSR_STVEC s AND NOT 3) - 4\<rparr>"
  using assms by (simp add: raise_supervisor_exception_def s_entry_def Let_def csr_reads csr_writes
      sstatus_write_def csr_val_set)

lemma raise_supervisor_interrupt_eq:
  assumes "csr_wf s"
  shows "raise_supervisor_interrupt_internal irq epc s =
    (set_csr_val CSR_SEPC epc (set_csr_val CSR_STVAL 0 (set_csr_val CSR_SCAUSE (irq OR shl 1 31)
       (set_csr_val CSR_MSTATUS (sstatus_into (s_entry (privilege s) (sstatus_of (csr_val CSR_MSTATUS s)))
          (csr_val CSR_MSTATUS s)) s))))
      \<lparr>privilege := PRV_SUPERVISOR, pc := (csr_val CSR_STVEC s AND NOT 3) +
        (if csr_val CSR_STVEC s AND 1 \<noteq> 0 then shl (irq AND 0xF) 2 else 0)\<rparr>"
  using assms by (simp add: raise_supervisor_interrupt_internal_def s_entry_def Let_def csr_reads csr_writes
      sstatus_write_def csr_val_set)

lemmas trap_eqs = raise_machine_exception_eq raise_machine_interrupt_eq
  raise_supervisor_exception_eq raise_supervisor_interrupt_eq

lemma emu_inv_raise_pc [inv_rules]: "emu_inv s \<Longrightarrow> emu_inv (raise_exception_pc cause tval epc s)"
  by (simp add: raise_exception_pc_def Let_def emu_inv_wf trap_eqs inv_rules)

lemma emu_inv_raise [inv_rules]: "emu_inv s \<Longrightarrow> emu_inv (raise_exception cause tval s)"
  by (simp add: raise_exception_def inv_rules)

lemma emu_inv_raise_illegal [inv_rules]: "emu_inv s \<Longrightarrow> emu_inv (raise_illegal ins s)"
  by (simp add: raise_illegal_def inv_rules)

lemma emu_inv_raise_interrupt [inv_rules]: "emu_inv s \<Longrightarrow> emu_inv (raise_interrupt irq s)"
  by (simp add: raise_interrupt_def Let_def emu_inv_wf trap_eqs inv_rules)

lemma emu_inv_check_interrupts [inv_rules]: "emu_inv s \<Longrightarrow> emu_inv (check_and_handle_interrupts s)"
  by (simp add: check_and_handle_interrupts_def Let_def inv_rules split: option.split)

lemma emu_inv_misaligned_fetch [inv_rules]: "emu_inv s \<Longrightarrow> emu_inv (snd (raise_if_misaligned_fetch a s))"
  by (simp add: raise_if_misaligned_fetch_def inv_rules)

lemma emu_inv_mret [inv_rules]: "emu_inv s \<Longrightarrow> emu_inv (ins_mret s)"
  by (simp add: ins_mret_def Let_def inv_rules word_and_le1)

lemma emu_inv_sret [inv_rules]: "emu_inv s \<Longrightarrow> emu_inv (ins_sret s)"
  by (simp add: ins_sret_def Let_def inv_rules)

lemma emu_inv_sfence [inv_rules]: "emu_inv s \<Longrightarrow> emu_inv (ins_sfence_vma s)"
  by (simp add: ins_sfence_vma_def inv_rules)

lemma emu_inv_check_csr [inv_rules]: "emu_inv s \<Longrightarrow> emu_inv (check_csr_access csr ins s)"
  by (simp add: check_csr_access_def inv_rules)

lemma emu_inv_write_rd [inv_rules]: "emu_inv s \<Longrightarrow> emu_inv (write_rd rd v s)"
  by (simp add: write_rd_def inv_rules)

lemma emu_inv_zicsr [inv_rules]:
  assumes "emu_inv s"
  shows "emu_inv (ins_zicsr_csrrw a b c d s)" "emu_inv (ins_zicsr_csrrs a b c d s)"
    "emu_inv (ins_zicsr_csrrc a b c d s)" "emu_inv (ins_zicsr_csrrwi a b c d s)"
    "emu_inv (ins_zicsr_csrrsi a b c d s)" "emu_inv (ins_zicsr_csrrci a b c d s)"
  using assms by (simp_all add: ins_zicsr_csrrw_def ins_zicsr_csrrs_def ins_zicsr_csrrc_def
      ins_zicsr_csrrwi_def ins_zicsr_csrrsi_def ins_zicsr_csrrci_def Let_def inv_rules)

section \<open>Trap entry and return\<close>

lemma privilege_cases:
  assumes "(p :: u32) \<le> PRV_MACHINE"
  shows "p = 0 \<or> p = 1 \<or> p = 2 \<or> p = 3"
proof -
  have "unat p \<le> 3" using assms by unat_arith
  then have "unat p = 0 \<or> unat p = 1 \<or> unat p = 2 \<or> unat p = 3" by arith
  then show ?thesis by (auto simp: word_unat_eq_iff)
qed

lemma m_entry_bits:
  assumes "p \<le> PRV_MACHINE"
  shows "\<not> bit (m_entry p m AND mstatus_writable) 3"
    and "bit (m_entry p m AND mstatus_writable) 7 = bit m 3"
    and "shr ((m_entry p m AND mstatus_writable) AND MSTATUS_MPP_MASK) MSTATUS_MPP_SHIFT = p"
    and "(m_entry p m AND mstatus_writable) AND NOT 0x1888 = m AND mstatus_writable AND NOT 0x1888"
  using privilege_cases [OF assms]
  by (elim disjE; simp add: m_entry_def Let_def mstatus_writable_def flag_simps word32_bits bit_simps)+

lemma raise_exception_machine:
  assumes "emu_inv s" "\<not> delegated (csr_val CSR_MEDELEG s) cause s"
  shows "raise_exception cause tval s = raise_machine_exception cause tval (pc s) (drop_reservations s)"
  using assms by (simp add: raise_exception_def raise_exception_pc_def Let_def emu_inv_wf)

lemma raise_exception_supervisor:
  assumes "emu_inv s" "delegated (csr_val CSR_MEDELEG s) cause s"
  shows "raise_exception cause tval s = raise_supervisor_exception cause tval (pc s) (drop_reservations s)"
  using assms by (simp add: raise_exception_def raise_exception_pc_def Let_def emu_inv_wf)

text \<open>
  C6. Exception entry in machine mode is precise: mepc is the address of the trapping
  instruction, mcause and mtval are those given, the interrupt enable is stacked into MPIE and
  cleared, the old privilege is stacked into MPP, the hart is in machine mode, the next
  instruction (four above \<open>pc\<close>) is the trap vector, no LR reservation survives, and registers and
  memory are untouched.
\<close>

theorem exception_entry_machine:
  assumes "emu_inv s" and "\<not> delegated (csr_val CSR_MEDELEG s) cause s"
    and "t = raise_exception cause tval s"
  shows "csr_val CSR_MEPC t = pc s \<and> csr_val CSR_MCAUSE t = cause \<and> csr_val CSR_MTVAL t = tval \<and>
         \<not> bit (csr_val CSR_MSTATUS t) 3 \<and> bit (csr_val CSR_MSTATUS t) 7 = bit (csr_val CSR_MSTATUS s) 3 \<and>
         shr (csr_val CSR_MSTATUS t AND MSTATUS_MPP_MASK) MSTATUS_MPP_SHIFT = privilege s \<and>
         privilege t = PRV_MACHINE \<and> pc t + 4 = csr_val CSR_MTVEC s AND NOT 3 \<and>
         hm_alpha (mmu_flags t) = Map.empty \<and> gpr t = gpr s \<and> main_memory t = main_memory s"
proof -
  have inv: "csr_wf s" "privilege s \<le> PRV_MACHINE" "hm_inv (mmu_flags s)"
    using assms(1) by (simp_all add: emu_inv_def)
  show ?thesis unfolding assms(3) raise_exception_machine [OF assms(1,2)]
    using inv m_entry_bits [OF inv(2), of "csr_val CSR_MSTATUS s"]
    by (simp add: raise_machine_exception_eq csr_val_set drop_reservations_empty)
qed

theorem exception_entry_machine_witness:
  "csr_val CSR_MEPC (raise_exception 2 0x30200073 (reset_state 0x80000000)) = 0x80000000"
proof -
  have "\<not> delegated d 2 (reset_state 0x80000000)" for d by (simp add: delegated_def)
  from exception_entry_machine [OF emu_inv_reset this refl, of "0x30200073"] show ?thesis
    by (elim conjE) (simp only: reset_state_fields)
qed

text \<open>
  C13. \<open>mret\<close> undoes a machine-mode exception: it resumes at the trapping instruction, in its
  privilege and with its interrupt enable; every writable mstatus field other than the stack (MPP,
  MPIE) is as before.
\<close>

theorem mret_undoes_exception:
  assumes "emu_inv s" and "\<not> delegated (csr_val CSR_MEDELEG s) cause s"
    and "t = ins_mret (raise_exception cause tval s)"
  shows "privilege t = privilege s \<and> pc t + 4 = pc s \<and>
         csr_val CSR_MSTATUS t AND NOT 0x1880 = csr_val CSR_MSTATUS s AND mstatus_writable AND NOT 0x1880 \<and>
         gpr t = gpr s \<and> main_memory t = main_memory s"
proof -
  have inv: "csr_wf s" "privilege s \<le> PRV_MACHINE" using assms(1) by (simp_all add: emu_inv_def)
  define m where "m = m_entry (privilege s) (csr_val CSR_MSTATUS s) AND mstatus_writable"
  note m = m_entry_bits [OF inv(2), of "csr_val CSR_MSTATUS s", folded m_def]
  have "(if m AND MSTATUS_MPIE \<noteq> 0 then m OR MSTATUS_MIE else m AND NOT MSTATUS_MIE) AND NOT 0x1880 =
      csr_val CSR_MSTATUS s AND mstatus_writable AND NOT 0x1880"
    using m(1,2,4) unfolding mstatus_writable_def
    by (simp add: flag_simps word32_bits bit_simps)
  then have "((if m AND MSTATUS_MPIE \<noteq> 0 then m OR MSTATUS_MIE else m AND NOT MSTATUS_MIE) OR MSTATUS_MPIE)
      AND NOT MSTATUS_MPP_MASK AND NOT 0x1880 = csr_val CSR_MSTATUS s AND mstatus_writable AND NOT 0x1880"
    by (simp add: word32_bits bit_simps flag_simps)
  then show ?thesis unfolding assms(3) raise_exception_machine [OF assms(1,2)]
    using inv m(3)
    by (simp add: raise_machine_exception_eq csr_val_set ins_mret_def Let_def m_def [symmetric]
        and.assoc split: if_splits)
qed

theorem mret_undoes_exception_witness:
  "pc (ins_mret (raise_exception 11 0 (reset_state 0x80000000))) = 0x7FFFFFFC"
proof -
  have "\<not> delegated d 11 (reset_state 0x80000000)" for d by (simp add: delegated_def)
  from mret_undoes_exception [OF emu_inv_reset this refl, of 0]
  have "pc (ins_mret (raise_exception 11 0 (reset_state 0x80000000))) + 4 = 0x80000000"
    by (elim conjE) (simp only: reset_state_fields)
  then have "pc (ins_mret (raise_exception 11 0 (reset_state 0x80000000))) = 0x80000000 - 4"
    by (rule eq_diff_eq [THEN iffD2])
  then show ?thesis by simp
qed

lemma s_entry_bits:
  assumes "p = PRV_USER \<or> p = PRV_SUPERVISOR"
  shows "\<not> bit (sstatus_into (s_entry p (sstatus_of m)) m) 1"
    and "bit (sstatus_into (s_entry p (sstatus_of m)) m) 5 = bit m 1"
    and "bit (sstatus_into (s_entry p (sstatus_of m)) m) 8 = (p = PRV_SUPERVISOR)"
    and "sstatus_into (s_entry p (sstatus_of m)) m AND NOT 0x122 = m AND NOT 0x122"
  unfolding sstatus_into_mask sstatus_of_mask
  using assms
  by (elim disjE; simp add: s_entry_def Let_def sstatus_mask_def flag_simps word32_bits bit_simps)+

text \<open>
  C14. A delegated exception is handled in supervisor mode and undone by \<open>sret\<close>: sepc, scause
  and stval describe it, SIE is stacked and cleared, SPP records the mode, machine-mode CSRs
  mepc and mcause are untouched; a following \<open>sret\<close> (with TSR clear) resumes at
  the trapping instruction, in its privilege, with every mstatus field other than SPP and SPIE as before.
\<close>

theorem exception_delegated_roundtrip:
  assumes "emu_inv s" and "delegated (csr_val CSR_MEDELEG s) cause s"
    and "csr_val CSR_MSTATUS s AND MSTATUS_TSR = 0"
    and "t = raise_exception cause tval s" and "r = ins_sret t"
  shows "csr_val CSR_SEPC t = pc s \<and> csr_val CSR_SCAUSE t = cause \<and> csr_val CSR_STVAL t = tval \<and>
         \<not> bit (csr_val CSR_MSTATUS t) 1 \<and> bit (csr_val CSR_MSTATUS t) 5 = bit (csr_val CSR_MSTATUS s) 1 \<and>
         bit (csr_val CSR_MSTATUS t) 8 = (privilege s = PRV_SUPERVISOR) \<and>
         csr_val CSR_MEPC t = csr_val CSR_MEPC s \<and> csr_val CSR_MCAUSE t = csr_val CSR_MCAUSE s \<and>
         privilege t = PRV_SUPERVISOR \<and> pc t + 4 = csr_val CSR_STVEC s AND NOT 3 \<and>
         privilege r = privilege s \<and> pc r + 4 = pc s \<and>
         csr_val CSR_MSTATUS r AND NOT 0x120 = csr_val CSR_MSTATUS s AND NOT 0x120"
proof -
  have inv: "csr_wf s" "privilege s = PRV_USER \<or> privilege s = PRV_SUPERVISOR"
    using assms(1,2) by (simp_all add: emu_inv_def delegated_def)
  define m where "m = sstatus_into (s_entry (privilege s) (sstatus_of (csr_val CSR_MSTATUS s))) (csr_val CSR_MSTATUS s)"
  note m = s_entry_bits [OF inv(2), of "csr_val CSR_MSTATUS s", folded m_def]
  have t: "t = (set_csr_val CSR_SEPC (pc s) (set_csr_val CSR_STVAL tval (set_csr_val CSR_SCAUSE cause
       (set_csr_val CSR_MSTATUS m (drop_reservations s)))))
      \<lparr>privilege := PRV_SUPERVISOR, pc := (csr_val CSR_STVEC s AND NOT 3) - 4\<rparr>"
    unfolding assms(4) raise_exception_supervisor [OF assms(1,2)]
    using inv(1) by (simp add: raise_supervisor_exception_eq m_def)
  have wf: "csr_wf t" using inv(1) by (simp add: t)
  have mt: "csr_val CSR_MSTATUS t = m" "privilege t = PRV_SUPERVISOR" "csr_val CSR_SEPC t = pc s"
    by (simp_all add: t csr_val_set)
  have tsr: "\<not> bit m 22"
    using assms(3) m(4) by (simp add: flag_simps word32_bits bit_simps)
  define v where "v = m AND sstatus_mask"
  define w where "w = ((if v AND shl 1 5 \<noteq> 0 then v OR shl 1 1 else v AND NOT (shl 1 1)) OR shl 1 5) AND NOT (shl 1 8)"
  have r: "r = (set_csr_val CSR_MSTATUS ((m AND NOT sstatus_mask) OR (w AND sstatus_mask)) t)
     \<lparr>privilege := if shr v 8 AND 1 \<noteq> 0 then PRV_SUPERVISOR else PRV_USER, pc := pc s - 4\<rparr>"
    unfolding assms(5) ins_sret_def
    using wf mt tsr
    by (simp add: flag_simps Let_def csr_reads csr_writes sstatus_write_def sstatus_of_mask
        sstatus_into_mask csr_val_set v_def [symmetric] w_def)
  have v: "shr v 8 AND 1 \<noteq> 0 \<longleftrightarrow> privilege s = PRV_SUPERVISOR"
    using m(3) by (simp add: v_def sstatus_mask_def word32_bits bit_simps)
  have "((m AND NOT sstatus_mask) OR (w AND sstatus_mask)) AND NOT 0x120 = csr_val CSR_MSTATUS s AND NOT 0x120"
    using m(1,2,4) by (simp add: w_def v_def sstatus_mask_def flag_simps word32_bits bit_simps)
  then show ?thesis using m(1-3) inv(2) v by (auto simp: r t csr_val_set)
qed

text \<open>A supervisor-mode state with the load page fault delegated.\<close>

definition supervisor_demo :: emu where
  "supervisor_demo = (set_csr_val CSR_MEDELEG 0x2000 (reset_state 0x400))\<lparr>privilege := PRV_SUPERVISOR\<rparr>"

theorem exception_delegated_roundtrip_witness:
  "privilege (raise_exception 13 0xBAD supervisor_demo) = PRV_SUPERVISOR \<and>
   privilege (ins_sret (raise_exception 13 0xBAD supervisor_demo)) = PRV_SUPERVISOR"
proof -
  have "emu_inv supervisor_demo"
    unfolding supervisor_demo_def by (intro inv_rules emu_inv_reset) simp_all
  then show ?thesis
    using exception_delegated_roundtrip [OF _ _ _ refl refl, of supervisor_demo 13 "0xBAD"]
    by (simp add: supervisor_demo_def delegated_def csr_val_set csr_init_at)
qed

section \<open>Which interrupt is taken\<close>

text \<open>
  The specification is the privileged architecture's. \<open>irq_order\<close> is its priority order: external, software, timer,
  machine before supervisor. A line that mideleg does not delegate traps to machine mode when it is set in mip and mie, and
  the hart is below machine mode or mstatus.MIE is set; a delegated line traps to supervisor mode when it is set in sip
  and sie, and the hart is in user mode, or in supervisor mode with mstatus.SIE set. The lines that trap to machine mode go first.
\<close>

definition irq_order :: "u32 list" where
  "irq_order = [11, 3, 7, 9, 1, 5]"

definition line_on :: "emu \<Rightarrow> u32 \<Rightarrow> bool" where
  "line_on s i \<longleftrightarrow> bit (csr_read CSR_MIP s) (unat i) \<and> bit (csr_read CSR_MIE s) (unat i)"

definition sline_on :: "emu \<Rightarrow> u32 \<Rightarrow> bool" where
  "sline_on s i \<longleftrightarrow> bit (csr_read CSR_SIP s) (unat i) \<and> bit (csr_read CSR_SIE s) (unat i)"

definition lines_to_m :: "emu \<Rightarrow> u32 list" where
  "lines_to_m s = [i \<leftarrow> irq_order. line_on s i \<and> \<not> bit (csr_read CSR_MIDELEG s) (unat i)]"

definition lines_to_s :: "emu \<Rightarrow> u32 list" where
  "lines_to_s s = [i \<leftarrow> irq_order. sline_on s i \<and> bit (csr_read CSR_MIDELEG s) (unat i)]"

definition status_bit :: "emu \<Rightarrow> nat \<Rightarrow> bool" where
  "status_bit s n \<longleftrightarrow> bit (csr_read CSR_MSTATUS s) n"

definition arch_lines :: "emu \<Rightarrow> u32 list" where
  "arch_lines s =
     (if privilege s \<noteq> PRV_MACHINE \<or> status_bit s 3 then lines_to_m s else []) @
     (if privilege s = PRV_USER \<or> privilege s = PRV_SUPERVISOR \<and> status_bit s 1 then lines_to_s s else [])"

definition take_first :: "u32 list \<Rightarrow> emu \<Rightarrow> emu" where
  "take_first lines s = (case lines of [] \<Rightarrow> s | i # _ \<Rightarrow> raise_interrupt i s)"

text \<open>The enable bit the code consults for the delegated lines: SIE in supervisor mode, UIE in user mode.\<close>

definition local_enable :: "emu \<Rightarrow> bool" where
  "local_enable s \<longleftrightarrow> status_bit s (if privilege s = PRV_SUPERVISOR then 1 else 0)"

lemma machine_irq_find: "machine_irq p = find (\<lambda>i. bit p (unat i)) [11, 3, 7, 9, 1, 5]"
  by (simp add: machine_irq_def flag_simps)

lemma supervisor_irq_find: "supervisor_irq p = find (\<lambda>i. bit p (unat i)) [9, 1, 5]"
  by (simp add: supervisor_irq_def flag_simps)

lemma machine_irq_0: "machine_irq 0 = None"
  by (simp add: machine_irq_def)

lemma s_line_bits:
  "bit (MIP_SSIP :: u32) n \<longleftrightarrow> n = 1" "bit (MIP_STIP :: u32) n \<longleftrightarrow> n = 5" "bit (MIP_SEIP :: u32) n \<longleftrightarrow> n = 9"
  using bit_exp_iff [where 'a = u32, of 1 n] bit_exp_iff [where 'a = u32, of 5 n]
    bit_exp_iff [where 'a = u32, of 9 n] by auto

lemma bit_sip:
  assumes "csr_wf s"
  shows "bit (csr_read CSR_SIP s) n \<longleftrightarrow>
    n \<in> {1, 5, 9} \<and> (bit (get_mip s) n \<or> n = 5 \<and> clint_mtip_pending (clint_dev s))"
  unfolding csr_reads(11) [OF assms]
  by (simp only: bit_or_iff bit_and_iff s_line_bits if_distrib [of "\<lambda>x. bit x n"] bit_0_eq bot_apply) auto

lemma bit_sie: "csr_wf s \<Longrightarrow> bit (csr_read CSR_SIE s) n \<longleftrightarrow> n \<in> {1, 5, 9} \<and> bit (csr_val CSR_MIE s) n"
  unfolding csr_reads(10) by (simp only: bit_and_iff bit_or_iff s_line_bits) auto

lemma find_filter: "find P xs = (case filter P xs of [] \<Rightarrow> None | x # _ \<Rightarrow> Some x)"
  by (induction xs) simp_all

lemma take_first_find:
  "(case find P xs of None \<Rightarrow> s | Some i \<Rightarrow> raise_interrupt i s) = take_first (filter P xs) s"
  by (simp add: find_filter take_first_def split: list.split)

lemma in_irq_order: "i \<in> set irq_order \<longleftrightarrow> i \<in> {11, 3, 7, 9, 1, 5}"
  by (simp add: irq_order_def)

lemma take_first_append:
  "take_first (xs @ ys) s = (if xs = [] then take_first ys s else take_first xs s)"
  by (simp add: take_first_def split: list.split)

text \<open>What the code does, on the same lists.\<close>

lemma lines_to_s_order:
  assumes "csr_wf s"
  shows "lines_to_s s = filter (\<lambda>i. sline_on s i \<and> bit (csr_read CSR_MIDELEG s) (unat i)) [9, 1, 5]"
proof -
  have "\<not> sline_on s i" if "i \<in> {11, 3, 7}" for i
    using that by (auto simp: sline_on_def bit_sip [OF assms])
  then show ?thesis by (simp add: lines_to_s_def irq_order_def)
qed

lemma check_and_handle_interrupts_lines:
  assumes "csr_wf s"
  shows "check_and_handle_interrupts s =
    (if privilege s = PRV_MACHINE then take_first (if status_bit s 3 then [i \<leftarrow> irq_order. line_on s i] else []) s
     else take_first ((if local_enable s then lines_to_s s else []) @
       (if status_bit s 3 then [i \<leftarrow> irq_order. line_on s i \<and> i \<notin> set (lines_to_s s)] else [])) s)"
proof -
  let ?sp = "csr_read CSR_SIP s AND csr_read CSR_SIE s AND csr_read CSR_MIDELEG s"
  let ?m = "csr_read CSR_MIP s AND csr_read CSR_MIE s"
  have diff: "bit (a AND NOT b) n \<longleftrightarrow> bit a n \<and> \<not> bit b n" for a b :: u32 and n
    by (auto simp: bit_and_iff bit_not_iff dest: bit_imp_le_length)
  have s_irq: "(case supervisor_irq ?sp of None \<Rightarrow> t | Some i \<Rightarrow> raise_interrupt i s) =
      (if lines_to_s s = [] then t else take_first (lines_to_s s) s)" for t
    unfolding supervisor_irq_find lines_to_s_order [OF assms] find_filter take_first_def
    by (simp add: bit_and_iff sline_on_def split: list.split)
  have m_irq: "(case machine_irq ?m of None \<Rightarrow> s | Some i \<Rightarrow> raise_interrupt i s) = take_first [i \<leftarrow> irq_order. line_on s i] s"
    unfolding machine_irq_find take_first_find irq_order_def bit_and_iff line_on_def ..
  have "[i \<leftarrow> irq_order. bit (?m AND NOT ?sp) (unat i)] = [i \<leftarrow> irq_order. line_on s i \<and> i \<notin> set (lines_to_s s)]"
    unfolding diff by (rule filter_cong [OF refl]) (auto simp: bit_and_iff line_on_def lines_to_s_def sline_on_def)
  then have mp_irq: "(case machine_irq (?m AND NOT ?sp) of None \<Rightarrow> s | Some i \<Rightarrow> raise_interrupt i s) =
      take_first [i \<leftarrow> irq_order. line_on s i \<and> i \<notin> set (lines_to_s s)] s"
    unfolding machine_irq_find take_first_find irq_order_def [symmetric] by simp
  have m0: "(if x = 0 then s else case machine_irq x of Some irq \<Rightarrow> raise_interrupt irq s | None \<Rightarrow> s) =
      (case machine_irq x of Some irq \<Rightarrow> raise_interrupt irq s | None \<Rightarrow> s)" for x
    by (simp add: machine_irq_0)
  have m1: "(if x \<noteq> 0 then case machine_irq x of Some irq \<Rightarrow> raise_interrupt irq s | None \<Rightarrow> s else s) =
      (case machine_irq x of Some irq \<Rightarrow> raise_interrupt irq s | None \<Rightarrow> s)" for x
    by (simp add: machine_irq_0)
  have local: "csr_read CSR_MSTATUS s AND (if privilege s = PRV_SUPERVISOR then MSTATUS_SIE else MSTATUS_UIE) \<noteq> 0 \<longleftrightarrow> local_enable s"
    "csr_read CSR_MSTATUS s AND MSTATUS_MIE = 0 \<longleftrightarrow> \<not> status_bit s 3"
    by (simp_all add: local_enable_def status_bit_def flag_simps)
  have nil: "take_first [] s = s" by (simp add: take_first_def)
  show ?thesis
    unfolding check_and_handle_interrupts_def Let_def m0 m1 m_irq mp_irq local
    by (cases "local_enable s") (simp_all add: s_irq take_first_append nil)
qed

lemma check_and_handle_interrupts_cases:
  assumes "csr_wf s"
  obtains xs where "check_and_handle_interrupts s = take_first xs s"
  using check_and_handle_interrupts_lines [OF assms] that
  by (cases "privilege s = PRV_MACHINE"; simp only: if_True if_False simp_thms; blast)

lemma trap_mode:
  assumes "csr_wf s" "privilege s \<in> {PRV_USER, PRV_SUPERVISOR, PRV_MACHINE}"
  shows "i \<in> set (lines_to_m s) \<Longrightarrow> privilege (raise_interrupt i s) = PRV_MACHINE"
    "i \<in> set (lines_to_s s) \<Longrightarrow> privilege s \<noteq> PRV_MACHINE \<Longrightarrow> privilege (raise_interrupt i s) = PRV_SUPERVISOR"
  using assms
  by (auto simp: lines_to_m_def lines_to_s_def in_irq_order raise_interrupt_def Let_def trap_eqs delegated_def csr_reads flag_simps)

text \<open>
  C10. Interrupt arbitration: with only supervisor lines delegated, the hart takes between instructions the interrupt that
  the privileged architecture selects, and into the mode it selects, in every situation but four, which the code decides
  otherwise: a delegated line in machine mode, where the architecture leaves it pending and the code takes it into
  machine mode; a machine-mode line below machine mode while MIE is clear, which the architecture takes and the code leaves pending;
  machine-mode and delegated lines that are both enabled below machine mode, where the code takes the delegated one first; and a
  delegated line in user mode while UIE is clear, which the code leaves pending. The last two equations say what the code does in
  each of them.
\<close>

theorem interrupt_arbitration:
  assumes "csr_wf s" and "privilege s \<in> {PRV_USER, PRV_SUPERVISOR, PRV_MACHINE}"
    and "\<forall>i\<in>set irq_order. bit (csr_read CSR_MIDELEG s) (unat i) \<longrightarrow> i \<in> {9, 1, 5}"
  shows "((privilege s = PRV_MACHINE \<longrightarrow> (\<forall>i\<in>set irq_order. line_on s i \<longrightarrow> i \<in> set (lines_to_m s))) \<and>
      (privilege s \<noteq> PRV_MACHINE \<and> lines_to_m s \<noteq> [] \<longrightarrow> status_bit s 3 \<and> (lines_to_s s = [] \<or> \<not> local_enable s)) \<and>
      (privilege s = PRV_USER \<and> lines_to_m s = [] \<and> lines_to_s s \<noteq> [] \<longrightarrow> local_enable s)
      \<longrightarrow> check_and_handle_interrupts s = take_first (arch_lines s) s) \<and>
    (\<forall>i\<in>set (lines_to_m s). privilege (raise_interrupt i s) = PRV_MACHINE) \<and>
    (\<forall>i\<in>set (lines_to_s s). privilege s \<noteq> PRV_MACHINE \<longrightarrow> privilege (raise_interrupt i s) = PRV_SUPERVISOR) \<and>
    (privilege s = PRV_MACHINE \<longrightarrow>
       check_and_handle_interrupts s = take_first (if status_bit s 3 then [i \<leftarrow> irq_order. line_on s i] else []) s) \<and>
    (privilege s \<noteq> PRV_MACHINE \<longrightarrow>
       check_and_handle_interrupts s =
         take_first ((if local_enable s then lines_to_s s else []) @ (if status_bit s 3 then lines_to_m s else [])) s)"
proof -
  have line: "line_on s i \<and> i \<notin> set (lines_to_s s) \<longleftrightarrow> line_on s i \<and> \<not> bit (csr_read CSR_MIDELEG s) (unat i)"
    if "i \<in> set irq_order" for i
  proof -
    have "sline_on s i" if "line_on s i" "i \<in> {9, 1, 5}"
      using that by (auto simp: sline_on_def line_on_def bit_sip [OF assms(1)] bit_sie [OF assms(1)] csr_reads(1,4,5,8) [OF assms(1)])
    then show ?thesis using that assms(3) by (auto simp: lines_to_s_def)
  qed
  have m: "[i \<leftarrow> irq_order. line_on s i \<and> i \<notin> set (lines_to_s s)] = lines_to_m s"
    unfolding lines_to_m_def by (rule filter_cong [OF refl]) (rule line)
  have machine: "check_and_handle_interrupts s = take_first (if status_bit s 3 then [i \<leftarrow> irq_order. line_on s i] else []) s"
    if "privilege s = PRV_MACHINE"
    using that by (simp add: check_and_handle_interrupts_lines [OF assms(1)])
  have below: "check_and_handle_interrupts s =
      take_first ((if local_enable s then lines_to_s s else []) @ (if status_bit s 3 then lines_to_m s else [])) s"
    if "privilege s \<noteq> PRV_MACHINE"
    using that by (simp add: check_and_handle_interrupts_lines [OF assms(1)] m)
  have "[i \<leftarrow> irq_order. line_on s i] = lines_to_m s" if "\<forall>i\<in>set irq_order. line_on s i \<longrightarrow> i \<in> set (lines_to_m s)"
    unfolding lines_to_m_def by (rule filter_cong [OF refl]) (use that in \<open>auto simp: lines_to_m_def\<close>)
  then have agree: "check_and_handle_interrupts s = take_first (arch_lines s) s"
    if "privilege s = PRV_MACHINE \<longrightarrow> (\<forall>i\<in>set irq_order. line_on s i \<longrightarrow> i \<in> set (lines_to_m s))"
      "privilege s \<noteq> PRV_MACHINE \<and> lines_to_m s \<noteq> [] \<longrightarrow> status_bit s 3 \<and> (lines_to_s s = [] \<or> \<not> local_enable s)"
      "privilege s = PRV_USER \<and> lines_to_m s = [] \<and> lines_to_s s \<noteq> [] \<longrightarrow> local_enable s"
    using that assms(2) machine below
    by (cases "privilege s = PRV_MACHINE"; cases "lines_to_m s = []")
      (auto simp: arch_lines_def take_first_append local_enable_def)
  show ?thesis using agree trap_mode [OF assms(1,2)] machine below by blast
qed

theorem interrupt_arbitration_witness:
  "privilege (check_and_handle_interrupts (set_csr_val CSR_MIE 8 (set_csr_val CSR_MIP 8
      (set_csr_val CSR_MSTATUS 8 (reset_state 0))))) = PRV_MACHINE \<and>
   arch_lines (set_csr_val CSR_MIE 8 (set_csr_val CSR_MIP 8 (set_csr_val CSR_MSTATUS 8 (reset_state 0)))) = [3]"
proof -
  let ?s = "set_csr_val CSR_MIE 8 (set_csr_val CSR_MIP 8 (set_csr_val CSR_MSTATUS 8 (reset_state 0)))"
  have wf: "csr_wf ?s" using emu_inv_reset by (simp add: emu_inv_def)
  have mode: "csr_read CSR_MIDELEG ?s = 0" "status_bit ?s 3" "privilege ?s = PRV_MACHINE"
    using wf by (simp_all add: csr_reads csr_val_set csr_init_at status_bit_def)
  have on: "line_on ?s i \<longleftrightarrow> i = 3" if "i \<in> set irq_order" for i
    using that wf by (auto simp: line_on_def in_irq_order csr_reads bit_get_mip csr_val_set)
  have "[i \<leftarrow> irq_order. i = 3] = [3]" by (simp add: irq_order_def)
  then have m: "lines_to_m ?s = [3]" unfolding lines_to_m_def using on mode(1) by (simp cong: filter_cong)
  have "check_and_handle_interrupts ?s = take_first (arch_lines ?s) ?s"
    using interrupt_arbitration [OF wf] on m mode by simp
  moreover have "arch_lines ?s = [3]" using m mode by (simp add: arch_lines_def)
  moreover have "privilege (raise_interrupt 3 ?s) = PRV_MACHINE"
    using interrupt_arbitration [OF wf] m mode by simp
  ultimately show ?thesis by (simp add: take_first_def)
qed

section \<open>Privilege\<close>

text \<open>
  A trap never lowers the privilege: whatever the exception or the pending interrupts,
  the hart ends in a mode at least as privileged as the one it trapped from.
\<close>

theorem trap_never_lowers_privilege:
  assumes "emu_inv s"
  shows "privilege s \<le> privilege (raise_exception cause tval s) \<and>
         privilege s \<le> privilege (check_and_handle_interrupts s)"
proof -
  have inv: "csr_wf s" "privilege s \<le> PRV_MACHINE" using assms by (simp_all add: emu_inv_def)
  have irq: "privilege s \<le> privilege (raise_interrupt i s)" for i
    using inv by (auto simp: raise_interrupt_def Let_def trap_eqs delegated_def)
  have taken: "privilege s \<le> privilege (take_first xs s)" for xs
    using irq by (simp add: take_first_def split: list.split)
  have "privilege s \<le> privilege (raise_exception cause tval s)"
    using inv by (auto simp: raise_exception_def raise_exception_pc_def Let_def trap_eqs delegated_def)
  then show ?thesis using taken by (metis check_and_handle_interrupts_cases [OF inv(1)])
qed

theorem trap_never_lowers_privilege_witness:
  "privilege (reset_state 0) \<le> privilege (raise_exception 2 0 (reset_state 0))"
  using trap_never_lowers_privilege [OF emu_inv_reset, of 0 2 0] by simp

section \<open>CSR instructions\<close>

text \<open>
  A CSR instruction that may not access its register still completes: in user mode \<open>csrrw\<close> on mtvec
  raises the illegal-instruction exception and then writes mtvec and the destination register all
  the same, so user code can redirect the machine-mode trap vector.
\<close>

theorem user_csrrw_writes_mtvec:
  assumes "emu_inv s" and "privilege s = PRV_USER" and "\<not> bit (csr_val CSR_MEDELEG s) 2" and "rd \<noteq> 0"
    and "t = ins_zicsr_csrrw rs1 rd CSR_MTVEC ins s"
  shows "csr_val CSR_MCAUSE t = CAUSE_ILLEGAL_INSTRUCTION \<and> csr_val CSR_MEPC t = pc s \<and>
         privilege t = PRV_MACHINE \<and> csr_val CSR_MTVEC t = reg_read rs1 s \<and>
         reg_read rd t = csr_val CSR_MTVEC s"
proof -
  have wf: "csr_wf s" using assms(1) by (simp add: emu_inv_def)
  have nd: "\<not> delegated (csr_val CSR_MEDELEG s) CAUSE_ILLEGAL_INSTRUCTION s"
    using assms(3) by (simp add: delegated_def flag_simps)
  have "check_csr_access CSR_MTVEC ins s = raise_machine_exception CAUSE_ILLEGAL_INSTRUCTION ins (pc s) (drop_reservations s)"
    using raise_exception_machine [OF assms(1) nd] assms(2)
    by (simp add: check_csr_access_def csr_wf_static [OF wf] csr_init_at)
  then show ?thesis using wf assms(4)
    by (simp add: assms(5) ins_zicsr_csrrw_def Let_def raise_machine_exception_eq csr_reads csr_writes
        csr_val_set write_rd_def reg_read_write) (simp add: reg_read_def)
qed

theorem user_csrrw_writes_mtvec_witness:
  "csr_val CSR_MTVEC (ins_zicsr_csrrw 5 6 CSR_MTVEC 0x30529373
     (reg_write 5 0xBAD (reset_state 0)\<lparr>privilege := PRV_USER\<rparr>)) = 0xBAD"
proof -
  let ?s = "reg_write 5 0xBAD (reset_state 0)\<lparr>privilege := PRV_USER\<rparr>"
  have inv: "emu_inv ?s" by (intro inv_rules emu_inv_reset) simp
  have "\<not> bit (csr_val CSR_MEDELEG ?s) 2" by (simp add: csr_init_at)
  from user_csrrw_writes_mtvec [OF inv _ this, of 6 _ 5 "0x30529373", OF _ _ refl]
  show ?thesis by (simp add: reg_read_def reg_write_def)
qed

end
