(* ===== verification/Memory.thy ===== *)
theory Memory
  imports Trap
begin

text \<open>
  The physical address space of src/include/mem.h: RAM of \<open>MEM_SIZE\<close> bytes with the CLINT, the
  UART and the PLIC mapped over it. A read can change a device (a UART receive, a PLIC claim), so
  reads return the new state too. A 16-, 32- or 64-bit RAM access is the host's little-endian
  one.
\<close>

section \<open>The code\<close>

abbreviation MEM_SIZE :: u32 where "MEM_SIZE \<equiv> 0xFFFFF000"

definition mem_clear_reservation :: "u32 \<Rightarrow> emu \<Rightarrow> emu" where
  "mem_clear_reservation addr s =
     (if hsize (mmu_flags s) > 0
      then s\<lparr>mmu_flags := snd (hashmap_remove (mmu_flags s) (addr AND NOT 3))\<rparr> else s)"

definition in_clint :: "u32 \<Rightarrow> bool" where
  "in_clint addr \<longleftrightarrow> addr \<ge> CLINT_BASE \<and> addr < CLINT_BASE + CLINT_SIZE"

definition in_uart :: "u32 \<Rightarrow> bool" where
  "in_uart addr \<longleftrightarrow> addr \<ge> UART_BASE \<and> addr < UART_BASE + UART_NREGS"

text \<open>The PLIC window of the byte accessors is shorter than that of the word accessors.\<close>

definition in_plic8 :: "u32 \<Rightarrow> bool" where
  "in_plic8 addr \<longleftrightarrow> addr \<ge> PLIC_BASE \<and> addr < PLIC_BASE + 0x10000"

definition in_plic :: "u32 \<Rightarrow> bool" where
  "in_plic addr \<longleftrightarrow> addr \<ge> PLIC_BASE \<and> addr < PLIC_BASE + PLIC_SIZE"

definition dev_uart_read :: "u32 \<Rightarrow> emu \<Rightarrow> u32 \<times> emu" where
  "dev_uart_read off s =
     (let (v, u, p) = uart_read off (uart_dev s) (plic_dev s) in (v, s\<lparr>uart_dev := u, plic_dev := p\<rparr>))"

definition dev_uart_write :: "u32 \<Rightarrow> u32 \<Rightarrow> emu \<Rightarrow> emu" where
  "dev_uart_write off v s =
     (let (u, p) = uart_write off v (uart_dev s) (plic_dev s) in s\<lparr>uart_dev := u, plic_dev := p\<rparr>)"

definition dev_plic_read :: "u32 \<Rightarrow> emu \<Rightarrow> u32 \<times> emu" where
  "dev_plic_read off s = (let (v, p) = plic_read32 off (plic_dev s) in (v, s\<lparr>plic_dev := p\<rparr>))"

text \<open>The byte loops over the CLINT and the UART.\<close>

definition clint_gather :: "nat \<Rightarrow> u32 \<Rightarrow> clint \<Rightarrow> 'a::len word" where
  "clint_gather n addr c =
     fold (\<lambda>i v. v OR shl (ucast (ucast (clint_read (addr + of_nat i) c) :: u8)) (i * 8)) [0..<n] 0"

definition clint_scatter :: "nat \<Rightarrow> u32 \<Rightarrow> 'a::len word \<Rightarrow> clint \<Rightarrow> clint" where
  "clint_scatter n addr val c =
     fold (\<lambda>i c. clint_store (addr + of_nat i) (ucast (shr val (i * 8))) c) [0..<n] c"

definition uart_lanes :: "u32 \<Rightarrow> nat list" where
  "uart_lanes addr = takeWhile (\<lambda>i. addr + of_nat i < UART_BASE + UART_NREGS) [0..<4]"

definition uart_gather :: "u32 \<Rightarrow> emu \<Rightarrow> u32 \<times> emu" where
  "uart_gather addr s =
     fold (\<lambda>i (v, s). let (b, s) = dev_uart_read (addr - UART_BASE + of_nat i) s in (v OR shl b (i * 8), s))
       (uart_lanes addr) (0, s)"

definition uart_scatter :: "u32 \<Rightarrow> u32 \<Rightarrow> emu \<Rightarrow> emu" where
  "uart_scatter addr val s =
     fold (\<lambda>i s. dev_uart_write (addr - UART_BASE + of_nat i) (ucast (ucast (shr val (i * 8)) :: u8)) s)
       (uart_lanes addr) s"

text \<open>Little-endian loads and stores of \<open>n\<close> bytes of RAM.\<close>

definition load_le :: "nat \<Rightarrow> u32 \<Rightarrow> (u32 \<Rightarrow> u8) \<Rightarrow> 'a::len word" where
  "load_le n addr m = fold (\<lambda>i v. v OR shl (ucast (m (addr + of_nat i))) (8 * i)) [0..<n] 0"

definition store_le :: "nat \<Rightarrow> u32 \<Rightarrow> 'a::len word \<Rightarrow> (u32 \<Rightarrow> u8) \<Rightarrow> u32 \<Rightarrow> u8" where
  "store_le n addr val m = fold (\<lambda>i m. m(addr + of_nat i := ucast (shr val (8 * i)))) [0..<n] m"

definition mem_read8_unsigned :: "u32 \<Rightarrow> emu \<Rightarrow> u32 \<times> emu" where
  "mem_read8_unsigned addr s =
     (if in_clint addr then
        let v = clint_read addr (clint_dev s) in (if v <s 0 then 0 else v, s)
      else if in_uart addr then dev_uart_read (addr - UART_BASE) s
      else if in_plic8 addr then
        let (w, s) = dev_plic_read (addr - PLIC_BASE) s in (shr w (unat (addr AND 3) * 8) AND 0xFF, s)
      else if addr \<ge> MEM_SIZE then (0, s)
      else (ucast (main_memory s addr), s))"

definition mem_read8_signed :: "u32 \<Rightarrow> emu \<Rightarrow> u32 \<times> emu" where
  "mem_read8_signed addr s =
     (if in_clint addr then (clint_read addr (clint_dev s), s)
      else if in_uart addr then
        let (v, s) = dev_uart_read (addr - UART_BASE) s in (ucast (ucast v :: u8), s)
      else if addr \<ge> MEM_SIZE then (0, s)
      else (scast (main_memory s addr), s))"

definition mem_write8 :: "u32 \<Rightarrow> u8 \<Rightarrow> emu \<Rightarrow> emu" where
  "mem_write8 addr val s =
     (let s = mem_clear_reservation addr s
      in if in_clint addr then s\<lparr>clint_dev := clint_store addr val (clint_dev s)\<rparr>
         else if in_uart addr then dev_uart_write (addr - UART_BASE) (ucast val) s
         else if in_plic8 addr then
           let off = addr - PLIC_BASE;
               (cur, s) = dev_plic_read (off AND NOT 3) s;
               cur = cur AND NOT (shl 0xFF (unat (off AND 3) * 8));
               cur = cur OR shl (ucast val) (unat (off AND 3) * 8)
           in s\<lparr>plic_dev := plic_write32 (off AND NOT 3) cur (plic_dev s)\<rparr>
         else if addr \<ge> MEM_SIZE then s
         else s\<lparr>main_memory := (main_memory s)(addr := val)\<rparr>)"

definition mem_read16_unsigned :: "u32 \<Rightarrow> emu \<Rightarrow> u32 \<times> emu" where
  "mem_read16_unsigned addr s =
     (if in_clint addr then (clint_gather 2 addr (clint_dev s), s)
      else if addr \<ge> MEM_SIZE - 1 then (0, s)
      else (ucast (load_le 2 addr (main_memory s) :: u16), s))"

definition mem_read16_signed :: "u32 \<Rightarrow> emu \<Rightarrow> u32 \<times> emu" where
  "mem_read16_signed addr s =
     (let (v, s) = mem_read16_unsigned addr s in (scast (ucast v :: u16), s))"

definition mem_write16 :: "u32 \<Rightarrow> u16 \<Rightarrow> emu \<Rightarrow> emu" where
  "mem_write16 addr val s =
     (let s = mem_clear_reservation addr s
      in if in_clint addr then s\<lparr>clint_dev := clint_scatter 2 addr val (clint_dev s)\<rparr>
         else if addr \<ge> MEM_SIZE - 1 then s
         else s\<lparr>main_memory := store_le 2 addr val (main_memory s)\<rparr>)"

definition mem_read32_unsigned :: "u32 \<Rightarrow> emu \<Rightarrow> u32 \<times> emu" where
  "mem_read32_unsigned addr s =
     (if in_clint addr then (clint_gather 4 addr (clint_dev s), s)
      else if in_uart addr then uart_gather addr s
      else if in_plic addr then dev_plic_read (addr - PLIC_BASE) s
      else if addr \<ge> MEM_SIZE - 3 then (0, s)
      else (load_le 4 addr (main_memory s), s))"

definition mem_read32_signed :: "u32 \<Rightarrow> emu \<Rightarrow> u32 \<times> emu" where
  "mem_read32_signed addr s = mem_read32_unsigned addr s"

definition mem_write32 :: "u32 \<Rightarrow> u32 \<Rightarrow> emu \<Rightarrow> emu" where
  "mem_write32 addr val s =
     (let s = mem_clear_reservation addr s
      in if in_clint addr then s\<lparr>clint_dev := clint_scatter 4 addr val (clint_dev s)\<rparr>
         else if in_uart addr then uart_scatter addr val s
         else if in_plic addr then s\<lparr>plic_dev := plic_write32 (addr - PLIC_BASE) val (plic_dev s)\<rparr>
         else if addr \<ge> MEM_SIZE - 3 then s
         else s\<lparr>main_memory := store_le 4 addr val (main_memory s)\<rparr>)"

definition mem_read64_unsigned :: "u32 \<Rightarrow> emu \<Rightarrow> u64 \<times> emu" where
  "mem_read64_unsigned addr s =
     (if in_clint addr then (clint_gather 8 addr (clint_dev s), s)
      else if addr \<ge> MEM_SIZE - 7 then (0, s)
      else (load_le 8 addr (main_memory s), s))"

definition mem_write64 :: "u32 \<Rightarrow> u64 \<Rightarrow> emu \<Rightarrow> emu" where
  "mem_write64 addr val s =
     (let s = mem_clear_reservation addr s
      in if in_clint addr then s\<lparr>clint_dev := clint_scatter 8 addr val (clint_dev s)\<rparr>
         else if addr \<ge> MEM_SIZE - 7 then s
         else s\<lparr>main_memory := store_le 8 addr val (main_memory s)\<rparr>)"

definition is_aligned :: "u32 \<Rightarrow> u32 \<Rightarrow> bool" where
  "is_aligned addr sz \<longleftrightarrow> addr AND (sz - 1) = 0"

section \<open>Little-endian words\<close>

lemma bit_load_le_fold:
  fixes m :: "u32 \<Rightarrow> u8"
  shows "bit (fold (\<lambda>i v. v OR shl (ucast (m (addr + of_nat i))) (8 * i)) [0..<n] (0 :: 'a::len word)) k \<longleftrightarrow>
     k < LENGTH('a) \<and> k div 8 < n \<and> bit (m (addr + of_nat (k div 8))) (k mod 8)"
proof (induction n)
  case (Suc n)
  have "bit (shl (ucast (m (addr + of_nat n)) :: 'a word) (8 * n)) k \<longleftrightarrow>
      k < LENGTH('a) \<and> k div 8 = n \<and> bit (m (addr + of_nat n)) (k mod 8)"
  proof -
    have "8 * n \<le> k \<and> bit (m (addr + of_nat n)) (k - 8 * n) \<longleftrightarrow>
        k div 8 = n \<and> bit (m (addr + of_nat n)) (k mod 8)"
    proof
      assume a: "8 * n \<le> k \<and> bit (m (addr + of_nat n)) (k - 8 * n)"
      then have "k - 8 * n < 8" by (auto dest: bit_imp_le_length)
      with a have "k = 8 * n + (k - 8 * n)" "k - 8 * n < 8" by auto
      then have "k div 8 = n" "k mod 8 = k - 8 * n" by (metis div_mult_self4 div_less add_0_right zero_neq_numeral, metis mod_mult_self4 mod_less)
      with a show "k div 8 = n \<and> bit (m (addr + of_nat n)) (k mod 8)" by simp
    next
      assume a: "k div 8 = n \<and> bit (m (addr + of_nat n)) (k mod 8)"
      then have "8 * n \<le> k" "k - 8 * n = k mod 8" by (auto simp: minus_mult_div_eq_mod)
      with a show "8 * n \<le> k \<and> bit (m (addr + of_nat n)) (k - 8 * n)" by simp
    qed
    then show ?thesis by (auto simp: bit_simps)
  qed
  with Suc show ?case by (auto simp: bit_or_iff less_Suc_eq)
qed simp

lemma bit_load_le:
  "bit (load_le n addr m :: 'a::len word) k \<longleftrightarrow>
     k < LENGTH('a) \<and> k div 8 < n \<and> bit (m (addr + of_nat (k div 8))) (k mod 8)"
  unfolding load_le_def by (rule bit_load_le_fold)

lemma store_le_apply:
  assumes "n \<le> 8"
  shows "store_le n addr val m a =
    (if unat (a - addr) < n then ucast (shr val (8 * unat (a - addr))) else m a)"
  using assms
proof (induction n)
  case 0
  then show ?case by (simp add: store_le_def)
next
  case (Suc n)
  have eq: "a = addr + of_nat n \<longleftrightarrow> unat (a - addr) = n"
  proof
    assume "a = addr + of_nat n"
    then show "unat (a - addr) = n" using Suc.prems by (simp add: unat_of_nat)
  next
    assume "unat (a - addr) = n"
    then have "of_nat n = a - addr" by auto
    then show "a = addr + of_nat n" by simp
  qed
  show ?case using Suc eq by (auto simp: store_le_def less_Suc_eq)
qed

lemma load_store_le:
  assumes "n \<le> 8" "8 * n = LENGTH('a::len)"
  shows "load_le n addr (store_le n addr val m) = (val :: 'a word)"
proof (rule bit_word_eqI)
  fix k assume k: "k < LENGTH('a)"
  then have "k div 8 < n" using assms(2) by (simp add: less_mult_imp_div_less mult.commute)
  moreover have "unat (of_nat (k div 8) :: u32) = k div 8"
    using \<open>k div 8 < n\<close> assms(1) by (simp add: unat_of_nat)
  moreover have "8 * (k div 8) + k mod 8 = k" by simp
  ultimately show "bit (load_le n addr (store_le n addr val m) :: 'a word) k = bit val k"
    using k assms(1) by (simp add: bit_load_le store_le_apply bit_simps)
qed

lemma load_le_cong:
  assumes "\<And>i. i < n \<Longrightarrow> m (addr + of_nat i) = m' (addr + of_nat i)"
  shows "load_le n addr m = (load_le n addr m' :: 'a::len word)"
  by (rule bit_word_eqI) (use assms in \<open>auto simp: bit_load_le\<close>)

section \<open>What an access leaves alone\<close>

text \<open>A read changes at most the two devices with read side effects.\<close>

definition dev_frame :: "emu \<Rightarrow> emu \<Rightarrow> bool" where
  "dev_frame s t \<longleftrightarrow> (\<exists>u p. t = s\<lparr>uart_dev := u, plic_dev := p\<rparr>)"

lemma dev_frameI: "dev_frame s (s\<lparr>uart_dev := u, plic_dev := p\<rparr>)"
  by (auto simp: dev_frame_def)

lemma dev_frame_refl [simp]: "dev_frame s s"
  using dev_frameI [where s = s and u = "uart_dev s" and p = "plic_dev s"] by simp

lemma dev_frame_trans:
  assumes "dev_frame s t" "dev_frame t r"
  shows "dev_frame s r"
proof -
  obtain u p where "r = t\<lparr>uart_dev := u, plic_dev := p\<rparr>" using assms(2) by (auto simp: dev_frame_def)
  moreover obtain u' p' where "t = s\<lparr>uart_dev := u', plic_dev := p'\<rparr>"
    using assms(1) by (auto simp: dev_frame_def)
  ultimately have "r = s\<lparr>uart_dev := u, plic_dev := p\<rparr>" by simp
  then show ?thesis by (simp only: dev_frameI)
qed

lemma dev_frame_fields:
  assumes "dev_frame s t"
  shows "gpr t = gpr s" "pc t = pc s" "main_memory t = main_memory s" "mmu_flags t = mmu_flags s"
    "privilege t = privilege s" "csr_table t = csr_table s" "csr_val c t = csr_val c s"
    "clint_dev t = clint_dev s" "csr_wf t = csr_wf s" "reg_read i t = reg_read i s" "fpr t = fpr s"
  using assms by (auto simp: dev_frame_def csr_val_def reg_read_def)

lemma dev_frame_uart_read: "dev_frame s (snd (dev_uart_read off s))"
  by (simp add: dev_uart_read_def case_prod_unfold Let_def dev_frameI)

lemma dev_frame_plic_read: "dev_frame s (snd (dev_plic_read off s))"
  using dev_frameI [where s = s and u = "uart_dev s"] by (simp add: dev_plic_read_def case_prod_unfold Let_def)

lemma dev_frame_uart_gather: "dev_frame s (snd (uart_gather addr s))"
proof -
  have "dev_frame (snd q) (snd (fold (\<lambda>i (v, s). let (b, s) = dev_uart_read (addr - UART_BASE + of_nat i) s
      in (v OR shl b (i * 8), s)) is q))" for "is" and q :: "u32 \<times> emu"
  proof (induction "is" arbitrary: q)
    case (Cons i "is")
    have "dev_frame (snd q) (snd (dev_uart_read (addr - UART_BASE + of_nat i) (snd q)))"
      by (rule dev_frame_uart_read)
    with Cons show ?case by (fastforce simp: case_prod_unfold Let_def intro: dev_frame_trans)
  qed simp
  from this [of "(0, s)"] show ?thesis by (simp add: uart_gather_def)
qed

lemma dev_frame_reads:
  "dev_frame s (snd (mem_read8_unsigned a s))" "dev_frame s (snd (mem_read8_signed a s))"
  "dev_frame s (snd (mem_read16_unsigned a s))" "dev_frame s (snd (mem_read16_signed a s))"
  "dev_frame s (snd (mem_read32_unsigned a s))" "dev_frame s (snd (mem_read64_unsigned a s))"
  by (simp_all add: mem_read8_unsigned_def mem_read8_signed_def mem_read16_unsigned_def
      mem_read16_signed_def mem_read32_unsigned_def mem_read64_unsigned_def case_prod_unfold Let_def
      dev_frame_uart_read dev_frame_plic_read dev_frame_uart_gather)

section \<open>The machine invariant\<close>

lemma plic_inv_update_irq: "plic_inv p \<Longrightarrow> plic_inv (snd (uart_update_irq u p))"
  by (simp add: uart_update_irq_def Let_def plic_inv_set_irq)

lemma plic_inv_uart_read: "plic_inv p \<Longrightarrow> plic_inv (snd (snd (uart_read off u p)))"
  by (simp add: uart_read_def Let_def plic_inv_update_irq)

lemma plic_inv_uart_write: "plic_inv p \<Longrightarrow> plic_inv (snd (uart_write off v u p))"
  by (simp add: uart_write_def Let_def plic_inv_update_irq)

lemma plic_inv_uart_tick: "plic_inv p \<Longrightarrow> plic_inv (snd (uart_tick u p))"
  by (simp add: uart_tick_def Let_def plic_inv_update_irq)

lemma emu_inv_devices:
  "emu_inv s \<Longrightarrow> uart_inv u p \<Longrightarrow> plic_inv p \<Longrightarrow> emu_inv (s\<lparr>uart_dev := u, plic_dev := p\<rparr>)"
  by (simp add: emu_inv_def)

lemma emu_inv_plic:
  "emu_inv s \<Longrightarrow> plic_inv p \<Longrightarrow> pending p = pending (plic_dev s) \<Longrightarrow> emu_inv (s\<lparr>plic_dev := p\<rparr>)"
  by (simp add: emu_inv_def uart_inv_def)

lemma emu_inv_uart_read [inv_rules]: "emu_inv s \<Longrightarrow> emu_inv (snd (dev_uart_read off s))"
  using uart_read_inv [of "uart_dev s" "plic_dev s" off] plic_inv_uart_read [of "plic_dev s" off "uart_dev s"]
  by (simp add: dev_uart_read_def case_prod_unfold Let_def emu_inv_def)

lemma emu_inv_uart_write [inv_rules]: "emu_inv s \<Longrightarrow> emu_inv (dev_uart_write off v s)"
  using uart_write_inv [of "uart_dev s" "plic_dev s" off v] plic_inv_uart_write [of "plic_dev s" off v "uart_dev s"]
  by (simp add: dev_uart_write_def case_prod_unfold Let_def emu_inv_def)

lemma emu_inv_plic_read [inv_rules]: "emu_inv s \<Longrightarrow> emu_inv (snd (dev_plic_read off s))"
  unfolding dev_plic_read_def case_prod_unfold Let_def snd_conv
  by (rule emu_inv_plic) (simp_all add: frame plic_inv_read emu_inv_def)

lemma emu_inv_plic_write [inv_rules]:
  "emu_inv s \<Longrightarrow> emu_inv (s\<lparr>plic_dev := plic_write32 off v (plic_dev s)\<rparr>)"
  by (rule emu_inv_plic) (simp_all add: frame plic_inv_write emu_inv_def)

lemma emu_inv_uart_gather [inv_rules]: "emu_inv s \<Longrightarrow> emu_inv (snd (uart_gather addr s))"
proof -
  have "emu_inv (snd q) \<Longrightarrow> emu_inv (snd (fold (\<lambda>i (v, s). let (b, s) = dev_uart_read (addr - UART_BASE + of_nat i) s
      in (v OR shl b (i * 8), s)) is q))" for "is" and q :: "u32 \<times> emu"
    by (induction "is" arbitrary: q) (simp_all add: case_prod_unfold Let_def inv_rules)
  from this [of "(0, s)"] show "emu_inv s \<Longrightarrow> ?thesis" by (simp add: uart_gather_def)
qed

lemma emu_inv_uart_scatter [inv_rules]: "emu_inv s \<Longrightarrow> emu_inv (uart_scatter addr val s)"
  unfolding uart_scatter_def by (rule fold_invariant [where Q = "\<lambda>_. True"]) (simp_all add: inv_rules)

lemma emu_inv_clear_reservation [inv_rules]: "emu_inv s \<Longrightarrow> emu_inv (mem_clear_reservation a s)"
  by (simp add: emu_inv_def mem_clear_reservation_def hm.invar_del)

lemma emu_inv_mem_reads [inv_rules]:
  assumes "emu_inv s"
  shows "emu_inv (snd (mem_read8_unsigned a s))" "emu_inv (snd (mem_read8_signed a s))"
    "emu_inv (snd (mem_read16_unsigned a s))" "emu_inv (snd (mem_read16_signed a s))"
    "emu_inv (snd (mem_read32_unsigned a s))" "emu_inv (snd (mem_read64_unsigned a s))"
  using assms by (simp_all add: mem_read8_unsigned_def mem_read8_signed_def mem_read16_unsigned_def
      mem_read16_signed_def mem_read32_unsigned_def mem_read64_unsigned_def case_prod_unfold Let_def inv_rules)

lemma emu_inv_mem_writes [inv_rules]:
  assumes "emu_inv s"
  shows "emu_inv (mem_write8 a v8 s)" "emu_inv (mem_write16 a v16 s)" "emu_inv (mem_write32 a v32 s)"
    "emu_inv (mem_write64 a v64 s)"
  using assms by (simp_all add: mem_write8_def mem_write16_def mem_write32_def mem_write64_def
      case_prod_unfold Let_def inv_rules)

section \<open>RAM behaves like memory\<close>

text \<open>A word access that goes to RAM.\<close>

definition ram32 :: "u32 \<Rightarrow> bool" where
  "ram32 a \<longleftrightarrow> \<not> in_clint a \<and> \<not> in_uart a \<and> \<not> in_plic a \<and> a < MEM_SIZE - 3"

lemma clear_reservation_fields [simp]:
  "main_memory (mem_clear_reservation a s) = main_memory s" "gpr (mem_clear_reservation a s) = gpr s"
  "clint_dev (mem_clear_reservation a s) = clint_dev s" "plic_dev (mem_clear_reservation a s) = plic_dev s"
  "uart_dev (mem_clear_reservation a s) = uart_dev s" "csr_table (mem_clear_reservation a s) = csr_table s"
  "pc (mem_clear_reservation a s) = pc s" "privilege (mem_clear_reservation a s) = privilege s"
  by (simp_all add: mem_clear_reservation_def)

lemma read32_ram: "ram32 a \<Longrightarrow> mem_read32_unsigned a s = (load_le 4 a (main_memory s), s)"
  by (auto simp: ram32_def mem_read32_unsigned_def dest: leD)

lemma write32_ram:
  "ram32 a \<Longrightarrow> mem_write32 a v s =
     (mem_clear_reservation a s)\<lparr>main_memory := store_le 4 a v (main_memory s)\<rparr>"
  by (auto simp: ram32_def mem_write32_def Let_def dest: leD)

lemma disjoint_words:
  assumes "4 \<le> unat ((b :: u32) - a)" "4 \<le> unat (a - b)" "i < 4"
  shows "\<not> unat (b + of_nat i - a) < 4"
proof -
  define d where "d = unat (b - a)"
  define e where "e = unat (a - b)"
  have "(d + e) mod 2 ^ 32 = unat ((b - a) + (a - b))"
    unfolding d_def e_def by (simp only: unat_word_ariths) simp
  then have "(d + e) mod 2 ^ 32 = 0" by simp
  moreover have "d < 2 ^ 32" "e < 2 ^ 32"
    using unsigned_less [of "b - a"] unsigned_less [of "a - b"] by (simp_all add: d_def e_def)
  moreover have "4 \<le> d" using assms(1) by (simp add: d_def)
  ultimately have "d + e = 2 ^ 32" by (simp add: mod_if split: if_splits)
  then have lt: "d + i < 2 ^ 32" using assms(2,3) by (simp add: e_def)
  have "unat (of_nat i :: u32) = i" using assms(3) by (simp add: unat_of_nat)
  then have "unat ((b - a) + of_nat i) = d + i"
    using lt by (simp add: unat_word_ariths d_def)
  moreover have eq: "b + of_nat i - a = (b - a) + of_nat i" by simp
  ultimately show ?thesis using \<open>4 \<le> d\<close> unfolding eq by simp
qed

text \<open>
  A word stored in RAM is the word loaded back; a disjoint word, every device and every
  register are unchanged; and the reservation of the word stored to is gone while every
  other one is kept.
\<close>

theorem mem_word_roundtrip:
  assumes "hm_inv (mmu_flags s)" and "ram32 a" and "ram32 b"
    and "4 \<le> unat (b - a)" and "4 \<le> unat (a - b)" and "t = mem_write32 a v s"
  shows "mem_read32_unsigned a t = (v, t) \<and> fst (mem_read32_unsigned b t) = fst (mem_read32_unsigned b s) \<and>
         hm_alpha (mmu_flags t) = (hm_alpha (mmu_flags s))(a AND NOT 3 := None) \<and>
         clint_dev t = clint_dev s \<and> plic_dev t = plic_dev s \<and> uart_dev t = uart_dev s \<and>
         gpr t = gpr s \<and> csr_table t = csr_table s"
proof -
  have "load_le 4 b (store_le 4 a v (main_memory s)) = (load_le 4 b (main_memory s) :: u32)"
    by (rule load_le_cong) (use disjoint_words [OF assms(4,5)] in \<open>simp add: store_le_apply\<close>)
  moreover have "load_le 4 a (store_le 4 a v (main_memory s)) = v"
    by (rule load_store_le) simp_all
  moreover have "hm_alpha (mmu_flags (mem_clear_reservation a s)) = (hm_alpha (mmu_flags s))(a AND NOT 3 := None)"
    using assms(1) hm_alpha_card [OF assms(1)]
    by (auto simp: mem_clear_reservation_def hashmap_remove_correct)
  ultimately show ?thesis using assms(2,3)
    by (simp add: assms(6) read32_ram write32_ram)
qed

theorem mem_word_roundtrip_witness:
  "fst (mem_read32_unsigned 0x80000000 (mem_write32 0x80000000 0xCAFE (reset_state 0))) = 0xCAFE"
proof -
  have "hm_inv (mmu_flags (reset_state 0))" using emu_inv_reset by (simp add: emu_inv_def)
  then show ?thesis
    using mem_word_roundtrip [OF _ _ _ _ _ refl, of "reset_state 0" "0x80000000" "0x80000010" "0xCAFE"]
    by (simp add: ram32_def in_clint_def in_uart_def in_plic_def)
qed

text \<open>
  A 64-bit store drops only the reservation of its first word: it changes the second word
  too, but a reservation held on that word survives, so a later SC.W there would succeed.
\<close>

theorem mem_write64_keeps_second_reservation:
  assumes "hm_inv (mmu_flags s)" and "a AND 7 = 0" and "\<not> in_clint a" and "a < MEM_SIZE - 7"
    and "t = mem_write64 a v s"
  shows "hm_alpha (mmu_flags t) (a + 4) = hm_alpha (mmu_flags s) (a + 4) \<and>
         load_le 4 (a + 4) (main_memory t) = (ucast (shr v 32) :: u32)"
proof -
  have "a AND NOT 3 = a" using assms(2) by (simp add: word32_bits bit_simps)
  moreover have "a + 4 \<noteq> a" by simp
  ultimately have flags: "hm_alpha (mmu_flags (mem_clear_reservation a s)) (a + 4) = hm_alpha (mmu_flags s) (a + 4)"
    using assms(1) by (simp add: mem_clear_reservation_def hashmap_remove_correct)
  have "load_le 4 (a + 4) (store_le 8 a v (main_memory s)) = (ucast (shr v 32) :: u32)"
  proof (rule bit_word_eqI)
    fix k assume k: "k < LENGTH(32)"
    have "unat (4 + of_nat (k div 8) :: u32) = 4 + k div 8"
      using k by (simp add: unat_word_ariths unat_of_nat)
    moreover have "8 * (4 + k div 8) + k mod 8 = 32 + k" "k div 8 < 4" using k by simp_all
    ultimately show "bit (load_le 4 (a + 4) (store_le 8 a v (main_memory s)) :: u32) k = bit (ucast (shr v 32) :: u32) k"
      using k by (simp add: bit_load_le store_le_apply bit_simps add.assoc)
  qed
  with flags show ?thesis using assms(3,4) by (auto simp: assms(5) mem_write64_def Let_def dest: leD)
qed

theorem mem_write64_keeps_second_reservation_witness:
  "hm_alpha (mmu_flags (mem_write64 0x80000000 0x100000000
     (reset_state 0\<lparr>mmu_flags := hashmap_put True hashmap_init 0x80000004 1\<rparr>))) 0x80000004 = Some 1"
proof -
  let ?m = "hashmap_put True hashmap_init 0x80000004 1"
  have m: "hm_inv ?m" "hm_alpha ?m 0x80000004 = Some 1"
    by (simp_all add: hashmap_put_correct hashmap_init_correct)
  then show ?thesis
    using mem_write64_keeps_second_reservation [OF _ _ _ _ refl, of "reset_state 0\<lparr>mmu_flags := ?m\<rparr>" "0x80000000" "0x100000000"]
    by (simp add: in_clint_def)
qed

end
