(* ===== verification/Mmu.thy ===== *)
theory Mmu
  imports Memory
begin

text \<open>
  SV32 address translation of src/include/mmu.h and the virtual accessors built on it. A fault is
  \<open>None\<close>, with the state after the page-fault exception was raised; the C accessors then return
  0 (reads) or do nothing (writes).
\<close>

section \<open>The code\<close>

abbreviation PTE_V :: u32 where "PTE_V \<equiv> 0x001"
abbreviation PTE_R :: u32 where "PTE_R \<equiv> 0x002"
abbreviation PTE_W :: u32 where "PTE_W \<equiv> 0x004"
abbreviation PTE_X :: u32 where "PTE_X \<equiv> 0x008"
abbreviation PTE_U :: u32 where "PTE_U \<equiv> 0x010"
abbreviation PTE_A :: u32 where "PTE_A \<equiv> 0x040"
abbreviation PTE_D :: u32 where "PTE_D \<equiv> 0x080"

datatype mmu_access = MMU_FETCH | MMU_LOAD | MMU_STORE

definition mmu_satp_mode :: "emu \<Rightarrow> bool" where
  "mmu_satp_mode s \<longleftrightarrow> csr_read CSR_SATP s AND 0x80000000 \<noteq> 0"

definition mmu_effective_dpriv :: "emu \<Rightarrow> u32" where
  "mmu_effective_dpriv s =
     (let mstatus = csr_read CSR_MSTATUS s
      in if mstatus AND MSTATUS_MPRV \<noteq> 0 then shr (mstatus AND MSTATUS_MPP_MASK) MSTATUS_MPP_SHIFT
         else privilege s)"

definition mmu_vm_active :: "u32 \<Rightarrow> emu \<Rightarrow> bool" where
  "mmu_vm_active epriv s = (if epriv = PRV_MACHINE then False else mmu_satp_mode s)"

definition mmu_satp_root_ppn :: "emu \<Rightarrow> u32" where
  "mmu_satp_root_ppn s = csr_read CSR_SATP s AND 0x003FFFFF"

definition mmu_check_pte :: "u32 \<Rightarrow> u32 \<Rightarrow> bool \<Rightarrow> mmu_access \<Rightarrow> emu \<Rightarrow> bool" where
  "mmu_check_pte pte epriv write access s =
     (let user_leaf = pte AND PTE_U \<noteq> 0
      in if epriv = PRV_MACHINE then True
         else if pte AND PTE_A = 0 then False
         else if write \<and> pte AND PTE_W = 0 then False
         else if write \<and> pte AND PTE_D = 0 then False
         else if \<not> write \<and> access = MMU_FETCH \<and> pte AND PTE_X = 0 then False
         else if \<not> write \<and> access \<noteq> MMU_FETCH \<and> pte AND PTE_R = 0 \<and> pte AND PTE_X = 0 then False
         else if \<not> write \<and> access \<noteq> MMU_FETCH \<and> pte AND PTE_R = 0 \<and> pte AND PTE_X \<noteq> 0 \<and>
           csr_read CSR_MSTATUS s AND MSTATUS_MXR = 0 then False
         else if epriv = PRV_SUPERVISOR then
           if user_leaf \<and> csr_read CSR_MSTATUS s AND MSTATUS_SUM = 0 then False else True
         else if epriv = PRV_USER then user_leaf
         else True)"

definition mmu_fault :: "u32 \<Rightarrow> mmu_access \<Rightarrow> emu \<Rightarrow> u32 option \<times> emu" where
  "mmu_fault vaddr access s =
     (None,
      if access = MMU_FETCH then raise_exception CAUSE_FETCH_PAGE_FAULT vaddr s
      else if access = MMU_STORE then raise_exception CAUSE_STORE_PAGE_FAULT vaddr s
      else raise_exception CAUSE_LOAD_PAGE_FAULT vaddr s)"

definition mmu_translate :: "u32 \<Rightarrow> mmu_access \<Rightarrow> emu \<Rightarrow> u32 option \<times> emu" where
  "mmu_translate vaddr access s =
     (let write = (access = MMU_STORE);
          epriv = (if access = MMU_FETCH then privilege s else mmu_effective_dpriv s)
      in if \<not> mmu_vm_active epriv s then (Some vaddr, s)
         else
           let root = shl (mmu_satp_root_ppn s) 12;
               vpn1 = shr vaddr 22 AND 0x3FF;
               vpn0 = shr vaddr 12 AND 0x3FF;
               (pte1, s) = mem_read32_unsigned (root + vpn1 * 4) s
           in if pte1 AND PTE_V = 0 then mmu_fault vaddr access s
              else if pte1 AND (PTE_R OR PTE_W OR PTE_X) \<noteq> 0 then
                if shr pte1 10 AND 0x3FF \<noteq> 0 then mmu_fault vaddr access s
                else if \<not> mmu_check_pte pte1 epriv write access s then mmu_fault vaddr access s
                else (Some (shl (shr pte1 10) 12 OR (vaddr AND 0x3FFFFF)), s)
              else
                let level2_base = shl (shr pte1 10) 12;
                    (pte2, s) = mem_read32_unsigned (level2_base + vpn0 * 4) s
                in if pte2 AND PTE_V = 0 then mmu_fault vaddr access s
                   else if pte2 AND (PTE_R OR PTE_W OR PTE_X) = 0 then mmu_fault vaddr access s
                   else if \<not> mmu_check_pte pte2 epriv write access s then mmu_fault vaddr access s
                   else (Some (shl (shr pte2 10) 12 OR (vaddr AND 0xFFF)), s))"

text \<open>
  Translate, then access. \<open>mmu_load\<close> and \<open>mmu_store\<close> are the common body of the seven readers
  and the four writers.
\<close>

definition mmu_fetch_ok :: "u32 \<Rightarrow> emu \<Rightarrow> u32 option \<times> emu" where
  "mmu_fetch_ok vaddr s =
     (case mmu_translate vaddr MMU_FETCH s of
        (None, s) \<Rightarrow> (None, s)
      | (Some pa, s) \<Rightarrow> let (ins, s) = mem_read32_unsigned pa s in (Some ins, s))"

definition mmu_load :: "(u32 \<Rightarrow> emu \<Rightarrow> 'a::len word \<times> emu) \<Rightarrow> u32 \<Rightarrow> emu \<Rightarrow> 'a word \<times> emu" where
  "mmu_load mem_read vaddr s =
     (case mmu_translate vaddr MMU_LOAD s of (None, s) \<Rightarrow> (0, s) | (Some pa, s) \<Rightarrow> mem_read pa s)"

definition mmu_store :: "(u32 \<Rightarrow> 'a::len word \<Rightarrow> emu \<Rightarrow> emu) \<Rightarrow> u32 \<Rightarrow> 'a word \<Rightarrow> emu \<Rightarrow> emu" where
  "mmu_store mem_write vaddr val s =
     (case mmu_translate vaddr MMU_STORE s of (None, s) \<Rightarrow> s | (Some pa, s) \<Rightarrow> mem_write pa val s)"

definition mmu_read8_unsigned :: "u32 \<Rightarrow> emu \<Rightarrow> u32 \<times> emu" where
  "mmu_read8_unsigned = mmu_load mem_read8_unsigned"

definition mmu_read8_signed :: "u32 \<Rightarrow> emu \<Rightarrow> u32 \<times> emu" where
  "mmu_read8_signed = mmu_load mem_read8_signed"

definition mmu_read16_unsigned :: "u32 \<Rightarrow> emu \<Rightarrow> u32 \<times> emu" where
  "mmu_read16_unsigned = mmu_load mem_read16_unsigned"

definition mmu_read16_signed :: "u32 \<Rightarrow> emu \<Rightarrow> u32 \<times> emu" where
  "mmu_read16_signed = mmu_load mem_read16_signed"

definition mmu_read32_unsigned :: "u32 \<Rightarrow> emu \<Rightarrow> u32 \<times> emu" where
  "mmu_read32_unsigned = mmu_load mem_read32_unsigned"

definition mmu_read32_signed :: "u32 \<Rightarrow> emu \<Rightarrow> u32 \<times> emu" where
  "mmu_read32_signed = mmu_load mem_read32_signed"

definition mmu_read64_unsigned :: "u32 \<Rightarrow> emu \<Rightarrow> u64 \<times> emu" where
  "mmu_read64_unsigned = mmu_load mem_read64_unsigned"

definition mmu_write8 :: "u32 \<Rightarrow> u8 \<Rightarrow> emu \<Rightarrow> emu" where "mmu_write8 = mmu_store mem_write8"

definition mmu_write16 :: "u32 \<Rightarrow> u16 \<Rightarrow> emu \<Rightarrow> emu" where "mmu_write16 = mmu_store mem_write16"

definition mmu_write32 :: "u32 \<Rightarrow> u32 \<Rightarrow> emu \<Rightarrow> emu" where "mmu_write32 = mmu_store mem_write32"

definition mmu_write64 :: "u32 \<Rightarrow> u64 \<Rightarrow> emu \<Rightarrow> emu" where "mmu_write64 = mmu_store mem_write64"

section \<open>The machine invariant\<close>

lemma emu_inv_fault [inv_rules]: "emu_inv s \<Longrightarrow> emu_inv (snd (mmu_fault va acc s))"
  by (simp add: mmu_fault_def inv_rules)

lemma emu_inv_translate [inv_rules]: "emu_inv s \<Longrightarrow> emu_inv (snd (mmu_translate va acc s))"
  by (simp add: mmu_translate_def Let_def case_prod_unfold inv_rules)

lemma emu_inv_fetch [inv_rules]:
  assumes "emu_inv s"
  shows "emu_inv (snd (mmu_fetch_ok va s))"
  using emu_inv_translate [OF assms, of va MMU_FETCH]
  by (auto simp: mmu_fetch_ok_def Let_def case_prod_unfold inv_rules split: option.split)

lemma emu_inv_load:
  assumes "emu_inv s" "\<And>a s. emu_inv s \<Longrightarrow> emu_inv (snd (rd a s))"
  shows "emu_inv (snd (mmu_load rd va s))"
  using emu_inv_translate [OF assms(1), of va MMU_LOAD] assms(2)
  by (auto simp: mmu_load_def case_prod_unfold split: option.split)

lemma emu_inv_store:
  assumes "emu_inv s" "\<And>a s. emu_inv s \<Longrightarrow> emu_inv (wr a v s)"
  shows "emu_inv (mmu_store wr va v s)"
  using emu_inv_translate [OF assms(1), of va MMU_STORE] assms(2)
  by (auto simp: mmu_store_def case_prod_unfold split: option.split)

lemma emu_inv_mmu_access [inv_rules]:
  assumes "emu_inv s"
  shows "emu_inv (snd (mmu_read8_unsigned a s))" "emu_inv (snd (mmu_read8_signed a s))"
    "emu_inv (snd (mmu_read16_unsigned a s))" "emu_inv (snd (mmu_read16_signed a s))"
    "emu_inv (snd (mmu_read32_unsigned a s))" "emu_inv (snd (mmu_read32_signed a s))"
    "emu_inv (snd (mmu_read64_unsigned a s))"
    "emu_inv (mmu_write8 a v8 s)" "emu_inv (mmu_write16 a v16 s)" "emu_inv (mmu_write32 a v32 s)"
    "emu_inv (mmu_write64 a v64 s)"
  using assms by (simp_all add: mmu_read8_unsigned_def mmu_read8_signed_def mmu_read16_unsigned_def
      mmu_read16_signed_def mmu_read32_unsigned_def mmu_read32_signed_def mmu_read64_unsigned_def
      mmu_write8_def mmu_write16_def mmu_write32_def mmu_write64_def mem_read32_signed_def
      emu_inv_load emu_inv_store inv_rules)

section \<open>Accesses without translation\<close>

text \<open>With paging off and a word address in RAM, the virtual accessors are plain loads and stores.\<close>

definition bare :: "emu \<Rightarrow> bool" where
  "bare s \<longleftrightarrow> csr_wf s \<and> \<not> bit (csr_val CSR_SATP s) 31"

lemma translate_bare: "bare s \<Longrightarrow> mmu_translate a acc s = (Some a, s)"
  by (simp add: bare_def mmu_translate_def Let_def mmu_vm_active_def mmu_satp_mode_def csr_reads flag_simps)

lemma read32_bare: "bare s \<Longrightarrow> ram32 a \<Longrightarrow> mmu_read32_unsigned a s = (load_le 4 a (main_memory s), s)"
  by (simp add: mmu_read32_unsigned_def mmu_load_def translate_bare read32_ram)

lemma write32_bare:
  "bare s \<Longrightarrow> ram32 a \<Longrightarrow> mmu_write32 a v s =
     (mem_clear_reservation a s)\<lparr>main_memory := store_le 4 a v (main_memory s)\<rparr>"
  by (simp add: mmu_write32_def mmu_store_def translate_bare write32_ram)

lemma bare_updates [simp]:
  "bare (reg_write i d s) = bare s" "bare (s\<lparr>main_memory := f\<rparr>) = bare s" "bare (s\<lparr>mmu_flags := h\<rparr>) = bare s"
  "bare (mem_clear_reservation a s) = bare s"
  by (simp_all add: bare_def mem_clear_reservation_def)

lemma bare_reset [simp]: "bare (reset_state p)"
  using emu_inv_reset [of p] by (simp add: bare_def emu_inv_def csr_init_at)

section \<open>SV32\<close>

text \<open>
  The specification, from the privileged architecture, with its physical addresses of 34 bits. An entry's bits are V 0, R 1, W 2,
  X 3, U 4, A 6, D 7 and the page number from 10; of mstatus SUM is 18 and MXR 19. Writable but unreadable entries are
  reserved, and so are pointers to a table with U, A or D set. \<open>sv32_allows\<close> is the permission rule of a leaf: supervisor mode
  may load and store in user pages when SUM is set, and never fetches from them; an entry whose A bit, or for a store D bit, is
  clear faults. \<open>sv32_maps\<close> relates a virtual address to the physical one it is mapped to by a leaf of the first level (a 4 MiB
  page) or of the second (a 4 KiB page), \<open>word\<close> being the word at a physical address.
\<close>

type_synonym u34 = "34 word"

definition pte_leaf :: "u32 \<Rightarrow> bool" where
  "pte_leaf pte \<longleftrightarrow> bit pte 1 \<or> bit pte 3"

definition pte_reserved :: "u32 \<Rightarrow> bool" where
  "pte_reserved pte \<longleftrightarrow>
     bit pte 2 \<and> \<not> bit pte 1 \<or> \<not> pte_leaf pte \<and> (bit pte 4 \<or> bit pte 6 \<or> bit pte 7)"

definition sv32_allows :: "u32 \<Rightarrow> u32 \<Rightarrow> mmu_access \<Rightarrow> u32 \<Rightarrow> bool" where
  "sv32_allows mstatus epriv access pte \<longleftrightarrow>
     bit pte 6 \<and>
     (case access of
        MMU_FETCH \<Rightarrow> bit pte 3
      | MMU_LOAD \<Rightarrow> bit pte 1 \<or> bit pte 3 \<and> bit mstatus 19
      | MMU_STORE \<Rightarrow> bit pte 2 \<and> bit pte 7) \<and>
     (if epriv = PRV_USER then bit pte 4 else bit pte 4 \<longrightarrow> bit mstatus 18 \<and> access \<noteq> MMU_FETCH)"

definition l1_addr :: "u32 \<Rightarrow> u32 \<Rightarrow> u34" where
  "l1_addr satp va = shl (ucast (satp AND 0x3FFFFF)) 12 + ucast (shr va 22 AND 0x3FF) * 4"

definition l2_addr :: "u32 \<Rightarrow> u32 \<Rightarrow> u34" where
  "l2_addr pte1 va = shl (ucast (shr pte1 10)) 12 + ucast (shr va 12 AND 0x3FF) * 4"

definition leaf_entry :: "(u34 \<Rightarrow> u32) \<Rightarrow> u32 \<Rightarrow> u32 \<Rightarrow> u32" where
  "leaf_entry word satp va =
     (let pte1 = word (l1_addr satp va) in if pte_leaf pte1 then pte1 else word (l2_addr pte1 va))"

definition sv32_maps :: "(u34 \<Rightarrow> u32) \<Rightarrow> u32 \<Rightarrow> (u32 \<Rightarrow> bool) \<Rightarrow> u32 \<Rightarrow> u34 \<Rightarrow> bool" where
  "sv32_maps word satp allows va pa \<longleftrightarrow>
     (let pte1 = word (l1_addr satp va); pte2 = word (l2_addr pte1 va)
      in bit pte1 0 \<and> \<not> pte_reserved pte1 \<and>
         (if pte_leaf pte1 then
            allows pte1 \<and> shr pte1 10 AND 0x3FF = 0 \<and> pa = shl (ucast (shr pte1 10)) 12 OR ucast (va AND 0x3FFFFF)
          else
            bit pte2 0 \<and> \<not> pte_reserved pte2 \<and> pte_leaf pte2 \<and> allows pte2 \<and>
            pa = shl (ucast (shr pte2 10)) 12 OR ucast (va AND 0xFFF)))"

text \<open>The walk reads no valid entry with a reserved encoding.\<close>

definition well_encoded :: "(u34 \<Rightarrow> u32) \<Rightarrow> u32 \<Rightarrow> u32 \<Rightarrow> bool" where
  "well_encoded word satp va \<longleftrightarrow>
     (\<forall>pte\<in>{word (l1_addr satp va), leaf_entry word satp va}. bit pte 0 \<longrightarrow> \<not> pte_reserved pte)"

text \<open>The tables are in RAM, which lies below 4 GiB.\<close>

definition ram34 :: "u34 \<Rightarrow> bool" where
  "ram34 a \<longleftrightarrow> a < 2 ^ 32 \<and> ram32 (ucast a)"

lemma leaf_test: "\<not> pte_reserved pte \<Longrightarrow> (pte AND 0xE = 0) \<longleftrightarrow> \<not> pte_leaf pte"
  by (auto simp: pte_reserved_def pte_leaf_def word32_bits bit_simps)

lemma allowed_check:
  assumes "csr_wf s" "epriv = PRV_USER \<or> epriv = PRV_SUPERVISOR"
    and "sv32_allows (csr_val CSR_MSTATUS s) epriv access pte"
  shows "mmu_check_pte pte epriv (access = MMU_STORE) access s"
  using assms by (cases access) (auto simp: mmu_check_pte_def sv32_allows_def Let_def flag_simps csr_reads)

lemma check_allowed:
  assumes "csr_wf s" "epriv = PRV_USER \<or> epriv = PRV_SUPERVISOR"
    and "mmu_check_pte pte epriv (access = MMU_STORE) access s"
    and "\<not> (epriv = PRV_SUPERVISOR \<and> access = MMU_FETCH \<and> bit pte 4)"
  shows "sv32_allows (csr_val CSR_MSTATUS s) epriv access pte"
  using assms
  by (cases access) (auto simp: mmu_check_pte_def sv32_allows_def Let_def flag_simps csr_reads split: if_splits)

lemma check_user_fetch:
  assumes "csr_wf s" "bit (csr_val CSR_MSTATUS s) 18" "sv32_allows (csr_val CSR_MSTATUS s) PRV_USER MMU_FETCH pte"
  shows "mmu_check_pte pte PRV_SUPERVISOR False MMU_FETCH s"
  using assms by (simp add: mmu_check_pte_def sv32_allows_def Let_def flag_simps csr_reads)

lemma page_offset: "(shl (shr x 10) 12 OR (va AND 0xFFF)) AND 0xFFF = va AND (0xFFF :: u32)"
  and superpage_offset: "(shl (shr x 10) 12 OR (va AND 0x3FFFFF)) AND 0xFFF = va AND (0xFFF :: u32)"
  by (simp_all add: word32_bits bit_simps)

lemma ucast_34:
  "(ucast (shl (ucast x :: u34) 12 OR ucast y) :: u32) = shl x 12 OR y"
  "(ucast (shl (ucast x :: u34) 12 + ucast y * 4) :: u32) = shl x 12 + y * 4"
proof -
  have lt: "n < 32 \<Longrightarrow> n - 12 < 34" for n :: nat by simp
  show "(ucast (shl (ucast x :: u34) 12 OR ucast y) :: u32) = shl x 12 OR y"
    by (rule bit_word_eqI) (simp add: bit_simps lt)
  have add: "(ucast (a + b) :: u32) = ucast a + ucast b" "(ucast (a * 4) :: u32) = ucast a * 4" for a b :: u34
    by (simp_all add: word_unat_eq_iff unsigned_ucast_eq unat_word_ariths take_bit_eq_mod mod_mod_cancel mod_simps)
  have "(ucast (shl (ucast x :: u34) 12) :: u32) = shl x 12" "(ucast (ucast y :: u34) :: u32) = y"
    by (rule bit_word_eqI, simp add: bit_simps lt)+
  then show "(ucast (shl (ucast x :: u34) 12 + ucast y * 4) :: u32) = shl x 12 + y * 4" by (simp add: add)
qed

text \<open>
  C7. Translation is SV32: with paging active and the page tables in RAM, every address that the architecture
  maps for the access and its effective privilege (one of the three modes) is translated to the low 32 bits of its physical address (RAM ends
  at 4 GiB), with the same page offset and no side effect; an address that it does not map raises the page fault of the
  access for that address, provided that the walk meets no reserved encoding and that it is not supervisor mode
  fetching from a user page. Such a fetch the code lets through when SUM is set, wherever user mode could fetch, though the
  architecture forbids it. With paging off the address is physical.
\<close>

theorem mmu_translate_correct:
  assumes "csr_wf s"
    and "epriv = (if access = MMU_FETCH then privilege s else mmu_effective_dpriv s)"
    and "epriv \<in> {PRV_USER, PRV_SUPERVISOR, PRV_MACHINE}"
    and "satp = csr_val CSR_SATP s" and "mstatus = csr_val CSR_MSTATUS s"
    and "word = (\<lambda>a. load_le 4 (ucast a) (main_memory s) :: u32)"
    and "maps = sv32_maps word satp (sv32_allows mstatus epriv access) va"
    and "ram34 (l1_addr satp va)"
    and "\<not> pte_leaf (word (l1_addr satp va)) \<Longrightarrow> ram34 (l2_addr (word (l1_addr satp va)) va)"
  shows "(epriv = PRV_MACHINE \<or> \<not> bit satp 31 \<longrightarrow> mmu_translate va access s = (Some va, s)) \<and>
    (epriv \<noteq> PRV_MACHINE \<and> bit satp 31 \<longrightarrow>
       (\<forall>pa. maps pa \<longrightarrow> mmu_translate va access s = (Some (ucast pa), s) \<and> ucast pa AND 0xFFF = va AND 0xFFF) \<and>
       ((\<forall>pa. \<not> maps pa) \<and> well_encoded word satp va \<and>
          \<not> (epriv = PRV_SUPERVISOR \<and> access = MMU_FETCH \<and> bit (leaf_entry word satp va) 4) \<longrightarrow>
        mmu_translate va access s = (None, raise_exception
          (case access of MMU_FETCH \<Rightarrow> 12 | MMU_LOAD \<Rightarrow> 13 | MMU_STORE \<Rightarrow> 15) va s)) \<and>
       (epriv = PRV_SUPERVISOR \<and> access = MMU_FETCH \<and> bit mstatus 18 \<longrightarrow>
          (\<forall>pa. sv32_maps word satp (sv32_allows mstatus PRV_USER MMU_FETCH) va pa \<longrightarrow>
             mmu_translate va access s = (Some (ucast pa), s))))"
proof -
  define pte1 where "pte1 = word (l1_addr satp va)"
  define pte2 where "pte2 = word (l2_addr pte1 va)"
  let ?check = "\<lambda>pte. mmu_check_pte pte epriv (access = MMU_STORE) access s"
  let ?allows = "sv32_allows mstatus epriv access"
  have rd1: "mem_read32_unsigned (shl (mmu_satp_root_ppn s) 12 + (shr va 22 AND 0x3FF) * 4) s = (pte1, s)"
    using assms(8) read32_ram [of "shl (mmu_satp_root_ppn s) 12 + (shr va 22 AND 0x3FF) * 4" s] assms(1)
    by (simp add: pte1_def assms(4,6) l1_addr_def ram34_def mmu_satp_root_ppn_def csr_reads ucast_34)
  have rd2: "mem_read32_unsigned (shl (shr pte1 10) 12 + (shr va 12 AND 0x3FF) * 4) s = (pte2, s)"
    if "\<not> pte_leaf pte1"
  proof -
    have "ram34 (l2_addr pte1 va)" unfolding pte1_def by (rule assms(9)) (use that in \<open>simp add: pte1_def\<close>)
    then show ?thesis using read32_ram [of "shl (shr pte1 10) 12 + (shr va 12 AND 0x3FF) * 4" s]
      by (simp add: pte2_def assms(6) l2_addr_def ram34_def ucast_34)
  qed
  have active: "mmu_vm_active epriv s \<longleftrightarrow> epriv \<noteq> PRV_MACHINE \<and> bit satp 31"
    using assms(1) by (simp add: mmu_vm_active_def mmu_satp_mode_def csr_reads assms(4) flag_simps)
  have fault: "mmu_fault va access s = (None, raise_exception
          (case access of MMU_FETCH \<Rightarrow> 12 | MMU_LOAD \<Rightarrow> 13 | MMU_STORE \<Rightarrow> 15) va s)"
    by (cases access) (simp_all add: mmu_fault_def)
  have walk: "mmu_translate va access s =
      (if \<not> bit pte1 0 then mmu_fault va access s
       else if pte_leaf pte1 then
         if shr pte1 10 AND 0x3FF \<noteq> 0 \<or> \<not> ?check pte1 then mmu_fault va access s
         else (Some (shl (shr pte1 10) 12 OR (va AND 0x3FFFFF)), s)
       else if bit pte2 0 \<and> pte_leaf pte2 \<and> ?check pte2 then (Some (shl (shr pte2 10) 12 OR (va AND 0xFFF)), s)
       else mmu_fault va access s)"
    if "epriv \<noteq> PRV_MACHINE" "bit satp 31" "bit pte1 0 \<Longrightarrow> \<not> pte_reserved pte1"
      "\<not> pte_leaf pte1 \<Longrightarrow> bit pte2 0 \<Longrightarrow> \<not> pte_reserved pte2"
    unfolding mmu_translate_def Let_def assms(2) [symmetric] rd1
    using that active
    by (cases "bit pte1 0"; cases "pte_leaf pte1"; cases "bit pte2 0") (auto simp: rd2 leaf_test flag_simps)
  have maps: "sv32_maps word satp P va pa \<longleftrightarrow> bit pte1 0 \<and> \<not> pte_reserved pte1 \<and>
      (if pte_leaf pte1 then
         P pte1 \<and> shr pte1 10 AND 0x3FF = 0 \<and> pa = shl (ucast (shr pte1 10)) 12 OR ucast (va AND 0x3FFFFF)
       else bit pte2 0 \<and> \<not> pte_reserved pte2 \<and> pte_leaf pte2 \<and> P pte2 \<and>
         pa = shl (ucast (shr pte2 10)) 12 OR ucast (va AND 0xFFF))" for P pa
    by (simp add: sv32_maps_def Let_def pte1_def pte2_def)
  have leaf: "leaf_entry word satp va = (if pte_leaf pte1 then pte1 else pte2)"
    by (simp add: leaf_entry_def Let_def pte1_def pte2_def)
  have bare: "epriv = PRV_MACHINE \<or> \<not> bit satp 31 \<longrightarrow> mmu_translate va access s = (Some va, s)"
    using active by (auto simp: mmu_translate_def assms(2) [symmetric])
  have translated: "mmu_translate va access s = (Some (ucast pa), s) \<and> ucast pa AND 0xFFF = va AND 0xFFF"
    if "epriv \<noteq> PRV_MACHINE" "bit satp 31" "sv32_maps word satp P va pa" "\<And>pte. P pte \<Longrightarrow> ?check pte" for P pa
    using that(3,4) walk [OF that(1,2)] unfolding maps
    by (cases "pte_leaf pte1") (simp_all add: ucast_34 page_offset superpage_offset)
  have user: "epriv = PRV_USER \<or> epriv = PRV_SUPERVISOR" if "epriv \<noteq> PRV_MACHINE" using that assms(3) by blast
  have hit: "mmu_translate va access s = (Some (ucast pa), s) \<and> ucast pa AND 0xFFF = va AND 0xFFF"
    if "epriv \<noteq> PRV_MACHINE" "bit satp 31" "maps pa" for pa
    by (rule translated [OF that(1,2), of ?allows]) (use that(3) allowed_check [OF assms(1) user [OF that(1)]] in \<open>simp_all add: assms(5,7)\<close>)
  have fetch: "mmu_translate va access s = (Some (ucast pa), s)"
    if "epriv = PRV_SUPERVISOR" "access = MMU_FETCH" "bit satp 31" "bit mstatus 18"
      "sv32_maps word satp (sv32_allows mstatus PRV_USER MMU_FETCH) va pa" for pa
    using translated [OF _ that(3,5)] check_user_fetch [OF assms(1)] that(1,2,4) by (simp add: assms(5))
  have miss: "mmu_translate va access s = mmu_fault va access s"
    if "epriv \<noteq> PRV_MACHINE" "bit satp 31" "\<forall>pa. \<not> maps pa" "well_encoded word satp va"
      "\<not> (epriv = PRV_SUPERVISOR \<and> access = MMU_FETCH \<and> bit (leaf_entry word satp va) 4)"
  proof -
    have enc: "bit pte1 0 \<Longrightarrow> \<not> pte_reserved pte1" "\<not> pte_leaf pte1 \<Longrightarrow> bit pte2 0 \<Longrightarrow> \<not> pte_reserved pte2"
      using that(4) by (auto simp: well_encoded_def leaf pte1_def)
    have "?allows pte" if "?check pte" "pte = leaf_entry word satp va" for pte
      using check_allowed [OF assms(1) user [OF \<open>epriv \<noteq> PRV_MACHINE\<close>] that(1)] \<open>\<not> (epriv = _ \<and> _)\<close> that(2)
      by (simp add: assms(5))
    then show ?thesis using that(3) walk [OF that(1,2) enc] enc
      unfolding assms(7) maps leaf by (cases "pte_leaf pte1") auto
  qed
  show ?thesis using bare hit miss fetch unfolding fault by blast
qed

text \<open>Supervisor mode with a root table at 0x80000000 whose first entry is a 4 MiB page at 0x80400000.\<close>

definition paging_demo :: emu where
  "paging_demo = (set_csr_val CSR_SATP 0x80080000 (reset_state 0))\<lparr>privilege := PRV_SUPERVISOR,
     main_memory := store_le 4 0x80000000 (0x201000CF :: u32) (\<lambda>_. 0)\<rparr>"

lemma paging_demo_walk:
  "load_le 4 0x80000000 (main_memory paging_demo) = (0x201000CF :: u32)"
  "csr_val CSR_SATP paging_demo = 0x80080000" "csr_val CSR_MSTATUS paging_demo = 0"
  "privilege paging_demo = PRV_SUPERVISOR" "csr_wf paging_demo"
  using emu_inv_reset [of 0]
  by (simp_all add: paging_demo_def load_store_le csr_val_set csr_init_at emu_inv_def)

theorem mmu_translate_correct_witness:
  "mmu_translate 0x123 MMU_LOAD paging_demo = (Some 0x80400123, paging_demo)"
proof -
  have ep: "mmu_effective_dpriv paging_demo = PRV_SUPERVISOR"
    by (simp add: mmu_effective_dpriv_def csr_reads paging_demo_walk)
  have l1: "l1_addr 0x80080000 0x123 = 0x80000000" by (simp add: l1_addr_def)
  have leaf: "pte_leaf 0x201000CF" "\<not> pte_reserved 0x201000CF" by (simp_all add: pte_leaf_def pte_reserved_def)
  have ram: "ram34 0x80000000" by (simp add: ram34_def ram32_def in_clint_def in_uart_def in_plic_def)
  have "sv32_maps (\<lambda>a. load_le 4 (ucast a) (main_memory paging_demo)) 0x80080000
      (sv32_allows 0 PRV_SUPERVISOR MMU_LOAD) 0x123 0x80400123"
    by (simp add: sv32_maps_def Let_def l1 paging_demo_walk leaf sv32_allows_def)
  then show ?thesis
    using mmu_translate_correct [where va = "0x123" and access = MMU_LOAD, OF paging_demo_walk(5) refl _ refl refl refl refl]
    by (simp add: paging_demo_walk ep l1 leaf ram)
qed

text \<open>A reserved encoding that the code does not refuse: a store to a page that is writable and not readable.\<close>

lemma reserved_store:
  assumes "bit pte 6" "bit pte 2" "bit pte 7" "\<not> bit pte 4"
  shows "mmu_check_pte pte PRV_SUPERVISOR True MMU_STORE s"
  using assms by (simp add: mmu_check_pte_def Let_def flag_simps)

end
