(* ===== verification/Sdtrig.thy ===== *)
theory Sdtrig
  imports Trap
begin

text \<open>
  Address-match triggers of src/src/extension/sdtrig_extension.c: a slot fires on the access kinds
  and modes its tdata1 enables, and the first slot that matches raises a breakpoint exception. The
  trigger CSRs themselves are in theory \<open>Csr\<close>.
\<close>

abbreviation SDTRIG_LOAD :: u32 where "SDTRIG_LOAD \<equiv> 1"
abbreviation SDTRIG_STORE :: u32 where "SDTRIG_STORE \<equiv> 2"
abbreviation SDTRIG_EXECUTE :: u32 where "SDTRIG_EXECUTE \<equiv> 4"
abbreviation SDTRIG_MODE_U :: u32 where "SDTRIG_MODE_U \<equiv> 0x8"
abbreviation SDTRIG_MODE_S :: u32 where "SDTRIG_MODE_S \<equiv> 0x10"
abbreviation SDTRIG_MODE_M :: u32 where "SDTRIG_MODE_M \<equiv> 0x40"
abbreviation SDTRIG_MATCH_MASK :: u32 where "SDTRIG_MATCH_MASK \<equiv> 0x780"
abbreviation SDTRIG_CHAIN :: u32 where "SDTRIG_CHAIN \<equiv> 0x800"
abbreviation SDTRIG_ACTION_MASK :: u32 where "SDTRIG_ACTION_MASK \<equiv> 0x3F000"
abbreviation SDTRIG_TCONTROL_MTE :: u32 where "SDTRIG_TCONTROL_MTE \<equiv> 0x8"

definition trigger_matches :: "u32 \<Rightarrow> u32 \<Rightarrow> u32 \<Rightarrow> emu \<Rightarrow> bool" where
  "trigger_matches i addr access_type s =
     (let d = tdata1 (s_slots s i)
      in if shr d 28 AND 0xF \<noteq> 2 then False
         else if shr (d AND SDTRIG_ACTION_MASK) 12 \<noteq> 0 then False
         else if d AND SDTRIG_CHAIN \<noteq> 0 then False
         else if access_type = SDTRIG_LOAD \<and> d AND SDTRIG_LOAD = 0 then False
         else if access_type = SDTRIG_STORE \<and> d AND SDTRIG_STORE = 0 then False
         else if access_type = SDTRIG_EXECUTE \<and> d AND SDTRIG_EXECUTE = 0 then False
         else if privilege s = PRV_MACHINE \<and> d AND SDTRIG_MODE_M = 0 then False
         else if privilege s = PRV_MACHINE \<and> s_tcontrol s AND SDTRIG_TCONTROL_MTE = 0 then False
         else if privilege s = PRV_SUPERVISOR \<and> d AND SDTRIG_MODE_S = 0 then False
         else if privilege s = PRV_USER \<and> d AND SDTRIG_MODE_U = 0 then False
         else if privilege s \<noteq> PRV_MACHINE \<and> privilege s \<noteq> PRV_SUPERVISOR \<and> privilege s \<noteq> PRV_USER then False
         else if d AND SDTRIG_MATCH_MASK \<noteq> 0 then False
         else tdata2 (s_slots s i) = addr)"

text \<open>The loop over the slots; the result is whether a trap was raised, and the state.\<close>

definition sdtrig_check :: "u32 \<Rightarrow> u32 \<Rightarrow> emu \<Rightarrow> bool \<times> emu" where
  "sdtrig_check addr access_type s =
     (case find (\<lambda>i. trigger_matches i addr access_type s) [0, 1, 2, 3] of
        Some i \<Rightarrow> (True, raise_exception CAUSE_BREAKPOINT addr s)
      | None \<Rightarrow> (False, s))"

definition sdtrig_check_fetch_trigger :: "u32 \<Rightarrow> emu \<Rightarrow> bool \<times> emu" where
  "sdtrig_check_fetch_trigger a s = sdtrig_check a SDTRIG_EXECUTE s"

definition sdtrig_check_load_trigger :: "u32 \<Rightarrow> emu \<Rightarrow> bool \<times> emu" where
  "sdtrig_check_load_trigger a s = sdtrig_check a SDTRIG_LOAD s"

definition sdtrig_check_store_trigger :: "u32 \<Rightarrow> emu \<Rightarrow> bool \<times> emu" where
  "sdtrig_check_store_trigger a s = sdtrig_check a SDTRIG_STORE s"

lemma emu_inv_sdtrig [inv_rules]:
  assumes "emu_inv s"
  shows "emu_inv (snd (sdtrig_check_fetch_trigger a s))" "emu_inv (snd (sdtrig_check_load_trigger a s))"
    "emu_inv (snd (sdtrig_check_store_trigger a s))"
  using assms by (simp_all add: sdtrig_check_fetch_trigger_def sdtrig_check_load_trigger_def
      sdtrig_check_store_trigger_def sdtrig_check_def inv_rules split: option.split)

section \<open>Correctness\<close>

text \<open>An armed address match: type 2, action and chain and match fields zero, the access kind and the mode enabled.\<close>

definition armed :: "u32 \<Rightarrow> u32 \<Rightarrow> emu \<Rightarrow> bool" where
  "armed d k s \<longleftrightarrow> d AND 0xF003FF80 = 0x20000000 \<and> d AND k \<noteq> 0 \<and>
     (privilege s = PRV_MACHINE \<and> bit d 6 \<and> bit (s_tcontrol s) 3 \<or>
      privilege s = PRV_SUPERVISOR \<and> bit d 4 \<or> privilege s = PRV_USER \<and> bit d 3)"

lemma trigger_fields:
  "(shr d 28 AND 0xF = 2 \<and> shr (d AND SDTRIG_ACTION_MASK) 12 = 0 \<and> d AND SDTRIG_CHAIN = 0 \<and>
     d AND SDTRIG_MATCH_MASK = 0) \<longleftrightarrow> d AND 0xF003FF80 = (0x20000000 :: u32)"
  by (simp add: word32_bits bit_simps) blast

lemma trigger_matches_iff:
  assumes "k \<in> {SDTRIG_LOAD, SDTRIG_STORE, SDTRIG_EXECUTE}"
  shows "trigger_matches i a k s \<longleftrightarrow> armed (tdata1 (s_slots s i)) k s \<and> tdata2 (s_slots s i) = a"
  unfolding trigger_matches_def armed_def Let_def trigger_fields [symmetric]
  using assms by (auto simp: flag_simps)

text \<open>
  C33. Triggers are exact: an access check raises the breakpoint, with the address as trap value,
  exactly when some slot is an armed address match for that access kind in the current mode; an
  access that no slot matches leaves the machine as it was.
\<close>

theorem trigger_fires_iff:
  assumes "k \<in> {SDTRIG_LOAD, SDTRIG_STORE, SDTRIG_EXECUTE}"
  shows "sdtrig_check a k s =
    (if \<exists>i\<in>{0, 1, 2, 3}. armed (tdata1 (s_slots s i)) k s \<and> tdata2 (s_slots s i) = a
     then (True, raise_exception CAUSE_BREAKPOINT a s) else (False, s))"
  using trigger_matches_iff [OF assms]
  by (auto simp: sdtrig_check_def find_None_iff find_Some_iff split: option.splits)

theorem trigger_fires_iff_witness:
  "fst (sdtrig_check 0x1000 SDTRIG_STORE (reset_state 0\<lparr>s_tcontrol := 8,
     s_slots := (\<lambda>_. \<lparr>tdata1 = 0x20000042, tdata2 = 0x1000\<rparr>)\<rparr>))"
  using trigger_fires_iff [of SDTRIG_STORE "0x1000" "reset_state 0\<lparr>s_tcontrol := 8,
     s_slots := (\<lambda>_. \<lparr>tdata1 = 0x20000042, tdata2 = 0x1000\<rparr>)\<rparr>"]
  by (auto simp: armed_def)

end
