(* ===== verification/Base_Insn.thy ===== *)
theory Base_Insn
  imports Mmu Sdtrig
begin

text \<open>
  The base integer instructions of src/include/basic_instructions.h. The default build has
  \<open>CONFIG_SUPPORT_MISALIGN\<close> off: a misaligned half-word or word access raises an exception. The
  run loop adds 4 to \<open>pc\<close> after every instruction, so a jump leaves its target minus 4.
\<close>

section \<open>Arithmetic\<close>

definition insi_r_add :: "u32 \<Rightarrow> u32 \<Rightarrow> u32 \<Rightarrow> emu \<Rightarrow> emu" where
  "insi_r_add rs2 rs1 rd s = (let v1 = reg_read rs1 s; v2 = reg_read rs2 s in reg_write rd (v1 + v2) s)"

definition insi_r_sub :: "u32 \<Rightarrow> u32 \<Rightarrow> u32 \<Rightarrow> emu \<Rightarrow> emu" where
  "insi_r_sub rs2 rs1 rd s = (let v1 = reg_read rs1 s; v2 = reg_read rs2 s in reg_write rd (v1 - v2) s)"

definition insi_r_xor :: "u32 \<Rightarrow> u32 \<Rightarrow> u32 \<Rightarrow> emu \<Rightarrow> emu" where
  "insi_r_xor rs2 rs1 rd s = (let v1 = reg_read rs1 s; v2 = reg_read rs2 s in reg_write rd (v1 XOR v2) s)"

definition insi_r_or :: "u32 \<Rightarrow> u32 \<Rightarrow> u32 \<Rightarrow> emu \<Rightarrow> emu" where
  "insi_r_or rs2 rs1 rd s = (let v1 = reg_read rs1 s; v2 = reg_read rs2 s in reg_write rd (v1 OR v2) s)"

definition insi_r_and :: "u32 \<Rightarrow> u32 \<Rightarrow> u32 \<Rightarrow> emu \<Rightarrow> emu" where
  "insi_r_and rs2 rs1 rd s = (let v1 = reg_read rs1 s; v2 = reg_read rs2 s in reg_write rd (v1 AND v2) s)"

definition insi_r_sll :: "u32 \<Rightarrow> u32 \<Rightarrow> u32 \<Rightarrow> emu \<Rightarrow> emu" where
  "insi_r_sll rs2 rs1 rd s = (let v1 = reg_read rs1 s; v2 = reg_read rs2 s in reg_write rd (shl v1 (unat (v2 AND 0x1F))) s)"

definition insi_r_srl :: "u32 \<Rightarrow> u32 \<Rightarrow> u32 \<Rightarrow> emu \<Rightarrow> emu" where
  "insi_r_srl rs2 rs1 rd s = (let v1 = reg_read rs1 s; v2 = reg_read rs2 s in reg_write rd (shr v1 (unat (v2 AND 0x1F))) s)"

definition insi_r_sra :: "u32 \<Rightarrow> u32 \<Rightarrow> u32 \<Rightarrow> emu \<Rightarrow> emu" where
  "insi_r_sra rs2 rs1 rd s = (let v1 = reg_read rs1 s; v2 = reg_read rs2 s in reg_write rd (sar v1 (unat (v2 AND 0x1F))) s)"

definition insi_r_slt :: "u32 \<Rightarrow> u32 \<Rightarrow> u32 \<Rightarrow> emu \<Rightarrow> emu" where
  "insi_r_slt rs2 rs1 rd s = (let v1 = reg_read rs1 s; v2 = reg_read rs2 s in reg_write rd (if v1 <s v2 then 1 else 0) s)"

definition insi_r_sltu :: "u32 \<Rightarrow> u32 \<Rightarrow> u32 \<Rightarrow> emu \<Rightarrow> emu" where
  "insi_r_sltu rs2 rs1 rd s = (let v1 = reg_read rs1 s; v2 = reg_read rs2 s in reg_write rd (if v1 < v2 then 1 else 0) s)"

definition insi_i_addi :: "u32 \<Rightarrow> u32 \<Rightarrow> u32 \<Rightarrow> emu \<Rightarrow> emu" where
  "insi_i_addi imm rs1 rd s = (let v1 = reg_read rs1 s in reg_write rd (v1 + imm) s)"

definition insi_i_xori :: "u32 \<Rightarrow> u32 \<Rightarrow> u32 \<Rightarrow> emu \<Rightarrow> emu" where
  "insi_i_xori imm rs1 rd s = (let v1 = reg_read rs1 s in reg_write rd (v1 XOR imm) s)"

definition insi_i_ori :: "u32 \<Rightarrow> u32 \<Rightarrow> u32 \<Rightarrow> emu \<Rightarrow> emu" where
  "insi_i_ori imm rs1 rd s = (let v1 = reg_read rs1 s in reg_write rd (v1 OR imm) s)"

definition insi_i_andi :: "u32 \<Rightarrow> u32 \<Rightarrow> u32 \<Rightarrow> emu \<Rightarrow> emu" where
  "insi_i_andi imm rs1 rd s = (let v1 = reg_read rs1 s in reg_write rd (v1 AND imm) s)"

definition insi_i_slli :: "u32 \<Rightarrow> u32 \<Rightarrow> u32 \<Rightarrow> emu \<Rightarrow> emu" where
  "insi_i_slli imm rs1 rd s = (let v1 = reg_read rs1 s in reg_write rd (shl v1 (unat (imm AND 0x1F))) s)"

definition insi_i_srli :: "u32 \<Rightarrow> u32 \<Rightarrow> u32 \<Rightarrow> emu \<Rightarrow> emu" where
  "insi_i_srli imm rs1 rd s = (let v1 = reg_read rs1 s in reg_write rd (shr v1 (unat (imm AND 0x1F))) s)"

definition insi_i_srai :: "u32 \<Rightarrow> u32 \<Rightarrow> u32 \<Rightarrow> emu \<Rightarrow> emu" where
  "insi_i_srai imm rs1 rd s = (let v1 = reg_read rs1 s in reg_write rd (sar v1 (unat (imm AND 0x1F))) s)"

definition insi_i_slti :: "u32 \<Rightarrow> u32 \<Rightarrow> u32 \<Rightarrow> emu \<Rightarrow> emu" where
  "insi_i_slti imm rs1 rd s = (let v1 = reg_read rs1 s in reg_write rd (if v1 <s imm then 1 else 0) s)"

definition insi_i_sltiu :: "u32 \<Rightarrow> u32 \<Rightarrow> u32 \<Rightarrow> emu \<Rightarrow> emu" where
  "insi_i_sltiu imm rs1 rd s = (let v1 = reg_read rs1 s in reg_write rd (if v1 < imm then 1 else 0) s)"

section \<open>Loads and stores\<close>

definition insi_i_lb :: "u32 \<Rightarrow> u32 \<Rightarrow> u32 \<Rightarrow> emu \<Rightarrow> emu" where
  "insi_i_lb imm rs1 rd s =
     (let addr = reg_read rs1 s + imm;
          (fired, s) = sdtrig_check_load_trigger addr s
      in if fired then s
         else let (val, s) = mmu_read8_signed addr s in reg_write rd val s)"

definition insi_i_lh :: "u32 \<Rightarrow> u32 \<Rightarrow> u32 \<Rightarrow> emu \<Rightarrow> emu" where
  "insi_i_lh imm rs1 rd s =
     (let addr = reg_read rs1 s + imm;
          (fired, s) = sdtrig_check_load_trigger addr s
      in if fired then s
              else if addr AND 1 \<noteq> 0 then raise_exception CAUSE_MISALIGNED_LOAD addr s
         else let (val, s) = mmu_read16_signed addr s in reg_write rd val s)"

definition insi_i_lw :: "u32 \<Rightarrow> u32 \<Rightarrow> u32 \<Rightarrow> emu \<Rightarrow> emu" where
  "insi_i_lw imm rs1 rd s =
     (let addr = reg_read rs1 s + imm;
          (fired, s) = sdtrig_check_load_trigger addr s
      in if fired then s
              else if addr AND 3 \<noteq> 0 then raise_exception CAUSE_MISALIGNED_LOAD addr s
         else let (val, s) = mmu_read32_signed addr s in reg_write rd val s)"

definition insi_i_lbu :: "u32 \<Rightarrow> u32 \<Rightarrow> u32 \<Rightarrow> emu \<Rightarrow> emu" where
  "insi_i_lbu imm rs1 rd s =
     (let addr = reg_read rs1 s + imm;
          (fired, s) = sdtrig_check_load_trigger addr s
      in if fired then s
         else let (val, s) = mmu_read8_unsigned addr s in reg_write rd val s)"

definition insi_i_lhu :: "u32 \<Rightarrow> u32 \<Rightarrow> u32 \<Rightarrow> emu \<Rightarrow> emu" where
  "insi_i_lhu imm rs1 rd s =
     (let addr = reg_read rs1 s + imm;
          (fired, s) = sdtrig_check_load_trigger addr s
      in if fired then s
              else if addr AND 1 \<noteq> 0 then raise_exception CAUSE_MISALIGNED_LOAD addr s
         else let (val, s) = mmu_read16_unsigned addr s in reg_write rd val s)"

definition insi_s_sb :: "u32 \<Rightarrow> u32 \<Rightarrow> u32 \<Rightarrow> emu \<Rightarrow> emu" where
  "insi_s_sb imm rs2 rs1 s =
     (let addr = reg_read rs1 s + imm;
          (fired, s) = sdtrig_check_store_trigger addr s
      in if fired then s
         else let val = reg_read rs2 s in mmu_write8 addr (ucast (val AND 0xFF)) s)"

definition insi_s_sh :: "u32 \<Rightarrow> u32 \<Rightarrow> u32 \<Rightarrow> emu \<Rightarrow> emu" where
  "insi_s_sh imm rs2 rs1 s =
     (let addr = reg_read rs1 s + imm;
          (fired, s) = sdtrig_check_store_trigger addr s
      in if fired then s
         else if addr AND 1 \<noteq> 0 then raise_exception CAUSE_MISALIGNED_STORE addr s
         else let val = reg_read rs2 s in mmu_write16 addr (ucast (val AND 0xFFFF)) s)"

definition insi_s_sw :: "u32 \<Rightarrow> u32 \<Rightarrow> u32 \<Rightarrow> emu \<Rightarrow> emu" where
  "insi_s_sw imm rs2 rs1 s =
     (let addr = reg_read rs1 s + imm;
          (fired, s) = sdtrig_check_store_trigger addr s
      in if fired then s
         else if addr AND 3 \<noteq> 0 then raise_exception CAUSE_MISALIGNED_STORE addr s
         else let val = reg_read rs2 s in mmu_write32 addr val s)"

section \<open>Control transfer\<close>

definition insi_i_jalr :: "u32 \<Rightarrow> u32 \<Rightarrow> u32 \<Rightarrow> emu \<Rightarrow> emu" where
  "insi_i_jalr imm rs1 rd s =
     (let addr = (reg_read rs1 s + imm) AND NOT 1;
          (bad, s) = raise_if_misaligned_fetch addr s
      in if bad then s
         else let s = reg_write rd (pc s + 4) s in s\<lparr>pc := addr - 4\<rparr>)"

text \<open>The body the six branches share.\<close>

definition take_branch :: "u32 \<Rightarrow> emu \<Rightarrow> emu" where
  "take_branch imm s =
     (let (bad, s) = raise_if_misaligned_fetch (pc s + imm) s
      in if bad then s else s\<lparr>pc := pc s + imm - 4\<rparr>)"

definition insi_b_beq :: "u32 \<Rightarrow> u32 \<Rightarrow> u32 \<Rightarrow> emu \<Rightarrow> emu" where
  "insi_b_beq imm rs2 rs1 s =
     (let v1 = reg_read rs1 s; v2 = reg_read rs2 s in if v1 = v2 then take_branch imm s else s)"

definition insi_b_bne :: "u32 \<Rightarrow> u32 \<Rightarrow> u32 \<Rightarrow> emu \<Rightarrow> emu" where
  "insi_b_bne imm rs2 rs1 s =
     (let v1 = reg_read rs1 s; v2 = reg_read rs2 s in if v1 \<noteq> v2 then take_branch imm s else s)"

definition insi_b_blt :: "u32 \<Rightarrow> u32 \<Rightarrow> u32 \<Rightarrow> emu \<Rightarrow> emu" where
  "insi_b_blt imm rs2 rs1 s =
     (let v1 = reg_read rs1 s; v2 = reg_read rs2 s in if v1 <s v2 then take_branch imm s else s)"

definition insi_b_bge :: "u32 \<Rightarrow> u32 \<Rightarrow> u32 \<Rightarrow> emu \<Rightarrow> emu" where
  "insi_b_bge imm rs2 rs1 s =
     (let v1 = reg_read rs1 s; v2 = reg_read rs2 s in if \<not> v1 <s v2 then take_branch imm s else s)"

definition insi_b_bltu :: "u32 \<Rightarrow> u32 \<Rightarrow> u32 \<Rightarrow> emu \<Rightarrow> emu" where
  "insi_b_bltu imm rs2 rs1 s =
     (let v1 = reg_read rs1 s; v2 = reg_read rs2 s in if v1 < v2 then take_branch imm s else s)"

definition insi_b_bgeu :: "u32 \<Rightarrow> u32 \<Rightarrow> u32 \<Rightarrow> emu \<Rightarrow> emu" where
  "insi_b_bgeu imm rs2 rs1 s =
     (let v1 = reg_read rs1 s; v2 = reg_read rs2 s in if v1 \<ge> v2 then take_branch imm s else s)"

definition insi_u_lui :: "u32 \<Rightarrow> u32 \<Rightarrow> emu \<Rightarrow> emu" where
  "insi_u_lui imm rd s = reg_write rd imm s"

definition insi_u_auipc :: "u32 \<Rightarrow> u32 \<Rightarrow> emu \<Rightarrow> emu" where
  "insi_u_auipc imm rd s = reg_write rd (pc s + imm) s"

definition insi_j_jal :: "u32 \<Rightarrow> u32 \<Rightarrow> emu \<Rightarrow> emu" where
  "insi_j_jal imm rd s =
     (let target = pc s + imm;
          (bad, s) = raise_if_misaligned_fetch target s
      in if bad then s
         else let s = reg_write rd (pc s + 4) s in s\<lparr>pc := pc s + imm - 4\<rparr>)"

definition insi_i_ecall :: "emu \<Rightarrow> emu" where
  "insi_i_ecall s =
     (if gpr s 17 = 93 then s\<lparr>terminated := True\<rparr>
      else
        let cause = (if privilege s = PRV_SUPERVISOR then CAUSE_SUPERVISOR_ECALL
                     else if privilege s = PRV_MACHINE then CAUSE_MACHINE_ECALL
                     else CAUSE_USER_ECALL)
        in raise_exception cause 0 s)"

definition insi_i_ebreak :: "emu \<Rightarrow> emu" where
  "insi_i_ebreak s = raise_exception CAUSE_BREAKPOINT 0 s"

definition ins_fence :: "emu \<Rightarrow> emu" where "ins_fence s = s"

section \<open>Immediates\<close>

definition sign_extend_12 :: "u32 \<Rightarrow> u32" where
  "sign_extend_12 imm = (if imm AND 0x800 \<noteq> 0 then imm OR 0xFFFFF000 else imm)"

definition sign_extend_13 :: "u32 \<Rightarrow> u32" where
  "sign_extend_13 imm = (if imm AND 0x1000 \<noteq> 0 then imm OR 0xFFFFE000 else imm)"

definition sign_extend_21 :: "u32 \<Rightarrow> u32" where
  "sign_extend_21 imm = (if imm AND 0x100000 \<noteq> 0 then imm OR 0xFFE00000 else imm)"

section \<open>The machine invariant\<close>

lemma emu_inv_take_branch [inv_rules]: "emu_inv s \<Longrightarrow> emu_inv (take_branch imm s)"
  by (simp add: take_branch_def case_prod_unfold Let_def inv_rules)

lemma emu_inv_r [inv_rules]:
  assumes "emu_inv s"
  shows "emu_inv (insi_r_add a b c s)"
    "emu_inv (insi_r_sub a b c s)"
    "emu_inv (insi_r_xor a b c s)"
    "emu_inv (insi_r_or a b c s)"
    "emu_inv (insi_r_and a b c s)"
    "emu_inv (insi_r_sll a b c s)"
    "emu_inv (insi_r_srl a b c s)"
    "emu_inv (insi_r_sra a b c s)"
    "emu_inv (insi_r_slt a b c s)"
    "emu_inv (insi_r_sltu a b c s)"
  using assms by (simp_all add: insi_r_add_def insi_r_sub_def insi_r_xor_def insi_r_or_def insi_r_and_def insi_r_sll_def insi_r_srl_def insi_r_sra_def insi_r_slt_def insi_r_sltu_def Let_def inv_rules)

lemma emu_inv_i [inv_rules]:
  assumes "emu_inv s"
  shows "emu_inv (insi_i_addi a b c s)"
    "emu_inv (insi_i_xori a b c s)"
    "emu_inv (insi_i_ori a b c s)"
    "emu_inv (insi_i_andi a b c s)"
    "emu_inv (insi_i_slli a b c s)"
    "emu_inv (insi_i_srli a b c s)"
    "emu_inv (insi_i_srai a b c s)"
    "emu_inv (insi_i_slti a b c s)"
    "emu_inv (insi_i_sltiu a b c s)"
  using assms by (simp_all add: insi_i_addi_def insi_i_xori_def insi_i_ori_def insi_i_andi_def insi_i_slli_def insi_i_srli_def insi_i_srai_def insi_i_slti_def insi_i_sltiu_def Let_def inv_rules)

lemma emu_inv_loads [inv_rules]:
  assumes "emu_inv s"
  shows "emu_inv (insi_i_lb a b c s)" "emu_inv (insi_i_lh a b c s)" "emu_inv (insi_i_lw a b c s)"
    "emu_inv (insi_i_lbu a b c s)" "emu_inv (insi_i_lhu a b c s)"
  using assms by (simp_all add: insi_i_lb_def insi_i_lh_def insi_i_lw_def insi_i_lbu_def insi_i_lhu_def
      Let_def case_prod_unfold inv_rules)

lemma emu_inv_stores [inv_rules]:
  assumes "emu_inv s"
  shows "emu_inv (insi_s_sb a b c s)" "emu_inv (insi_s_sh a b c s)" "emu_inv (insi_s_sw a b c s)"
  using assms by (simp_all add: insi_s_sb_def insi_s_sh_def insi_s_sw_def Let_def case_prod_unfold inv_rules)

lemma emu_inv_branches [inv_rules]:
  assumes "emu_inv s"
  shows "emu_inv (insi_b_beq a b c s)" "emu_inv (insi_b_bne a b c s)" "emu_inv (insi_b_blt a b c s)"
    "emu_inv (insi_b_bge a b c s)" "emu_inv (insi_b_bltu a b c s)" "emu_inv (insi_b_bgeu a b c s)"
  using assms by (simp_all add: insi_b_beq_def insi_b_bne_def insi_b_blt_def insi_b_bge_def
      insi_b_bltu_def insi_b_bgeu_def Let_def inv_rules)

lemma emu_inv_jumps [inv_rules]:
  assumes "emu_inv s"
  shows "emu_inv (insi_i_jalr a b c s)" "emu_inv (insi_j_jal a b s)" "emu_inv (insi_u_lui a b s)"
    "emu_inv (insi_u_auipc a b s)" "emu_inv (insi_i_ecall s)" "emu_inv (insi_i_ebreak s)" "emu_inv (ins_fence s)"
  using assms by (simp_all add: insi_i_jalr_def insi_j_jal_def insi_u_lui_def insi_u_auipc_def
      insi_i_ecall_def insi_i_ebreak_def ins_fence_def Let_def case_prod_unfold inv_rules)

section \<open>Stores and loads\<close>

text \<open>No debug trigger of type 2 is set up.\<close>

definition untriggered :: "emu \<Rightarrow> bool" where
  "untriggered s \<longleftrightarrow> (\<forall>i. shr (tdata1 (s_slots s i)) 28 AND 0xF \<noteq> 2)"

lemma untriggered_checks:
  assumes "untriggered s"
  shows "sdtrig_check_load_trigger a s = (False, s)" "sdtrig_check_store_trigger a s = (False, s)"
  using assms by (simp_all add: untriggered_def sdtrig_check_load_trigger_def sdtrig_check_store_trigger_def
      sdtrig_check_def trigger_matches_def Let_def)

lemma ram32_limits: "ram32 a \<Longrightarrow> \<not> MEM_SIZE \<le> a \<and> \<not> MEM_SIZE - 1 \<le> a \<and> \<not> in_plic8 a"
  by (auto simp: ram32_def in_plic_def in_plic8_def word_le_nat_alt word_less_nat_alt)

text \<open>The narrow loads at the address of a word in RAM.\<close>

lemma narrow_loads:
  assumes "bare t" "ram32 a" "load_le 4 a (main_memory t) = (v :: u32)"
  shows "mmu_read8_unsigned a t = (v AND 0xFF, t)" "mmu_read8_signed a t = (scast (ucast v :: u8), t)"
    "mmu_read16_unsigned a t = (v AND 0xFFFF, t)" "mmu_read16_signed a t = (scast (ucast v :: u16), t)"
    "mmu_read32_signed a t = (v, t)"
proof -
  have byte: "main_memory t a = ucast v"
    unfolding assms(3) [symmetric] by (rule bit_word_eqI) (auto simp: bit_load_le bit_simps)
  have half: "load_le 2 a (main_memory t) = (ucast v :: u16)"
    unfolding assms(3) [symmetric] by (rule bit_word_eqI) (auto simp: bit_load_le bit_simps)
  have lanes: "ucast (ucast v :: u8) = v AND 0xFF" "ucast (ucast v :: u16) = v AND 0xFFFF"
    by (simp_all add: word32_bits bit_simps)
  have narrow: "(ucast (ucast h :: u32) :: u16) = h" for h :: u16
    by (rule bit_word_eqI) (simp add: bit_simps)
  note l = ram32_limits [OF assms(2)] assms(2) [unfolded ram32_def] translate_bare [OF assms(1)]
  show "mmu_read8_unsigned a t = (v AND 0xFF, t)" "mmu_read8_signed a t = (scast (ucast v :: u8), t)"
    "mmu_read16_unsigned a t = (v AND 0xFFFF, t)" "mmu_read16_signed a t = (scast (ucast v :: u16), t)"
    "mmu_read32_signed a t = (v, t)"
    using l by (simp_all add: mmu_read8_unsigned_def mmu_read8_signed_def mmu_read16_unsigned_def mmu_read16_signed_def
        mmu_read32_signed_def mmu_load_def mem_read8_unsigned_def mem_read8_signed_def mem_read16_unsigned_def
        mem_read16_signed_def mem_read32_signed_def read32_ram [OF assms(2)] assms(3) byte half narrow lanes [symmetric])
qed

text \<open>
  C15. What \<open>sw\<close> stores the loads of the same address read back, whole or narrow: \<open>lw\<close> the word, \<open>lhu\<close>
  and \<open>lbu\<close> its low half and byte extended with zeros, \<open>lh\<close> and \<open>lb\<close> with the sign. The
  store changes four bytes of memory and no register.
\<close>

theorem store_load_roundtrip:
  assumes "bare s" "untriggered s" and "a = reg_read rs1 s + imm" "ram32 a" "a AND 3 = 0" and "rd \<noteq> 0"
    and "v = reg_read rs2 s" "t = insi_s_sw imm rs2 rs1 s"
  shows "reg_read rd (insi_i_lw imm rs1 rd t) = v \<and>
    uint (reg_read rd (insi_i_lhu imm rs1 rd t)) = uint v mod 2 ^ 16 \<and>
    uint (reg_read rd (insi_i_lbu imm rs1 rd t)) = uint v mod 2 ^ 8 \<and>
    sint (reg_read rd (insi_i_lh imm rs1 rd t)) = sint (ucast v :: u16) \<and>
    sint (reg_read rd (insi_i_lb imm rs1 rd t)) = sint (ucast v :: u8) \<and>
    gpr t = gpr s \<and> (\<forall>b. 4 \<le> unat (b - a) \<longrightarrow> main_memory t b = main_memory s b)"
proof -
  have t: "t = (mem_clear_reservation a s)\<lparr>main_memory := store_le 4 a v (main_memory s)\<rparr>"
    using assms by (simp add: insi_s_sw_def untriggered_checks write32_bare Let_def)
  have b: "bare t" "untriggered t" "reg_read rs1 t = reg_read rs1 s" "load_le 4 a (main_memory t) = v"
    using assms(1,2) by (simp_all add: t untriggered_def mem_clear_reservation_def reg_read_def load_store_le)
  have a1: "a AND 1 = 0" using assms(5) by (simp add: word32_bits bit_simps flag_simps)
  have "v AND 0xFF = take_bit 8 v" "v AND 0xFFFF = take_bit 16 v"
    by (simp_all add: take_bit_eq_mask mask_eq_exp_minus_1)
  then have masks: "uint (v AND 0xFF) = uint v mod 2 ^ 8" "uint (v AND 0xFFFF) = uint v mod 2 ^ 16"
    by (simp_all only: unsigned_take_bit_eq) (simp_all only: take_bit_eq_mod)
  note loads = narrow_loads [OF b(1) assms(4) b(4)] untriggered_checks [OF b(2)]
  have "gpr t = gpr s \<and> (\<forall>b. 4 \<le> unat (b - a) \<longrightarrow> main_memory t b = main_memory s b)"
    by (simp add: t store_le_apply)
  then show ?thesis using assms(5,6) a1
    by (simp add: assms(3) [symmetric] insi_i_lw_def insi_i_lhu_def insi_i_lbu_def insi_i_lh_def insi_i_lb_def loads b(3) reg_read_write masks
        sint_up_scast is_up Let_def)
qed

theorem store_load_roundtrip_witness:
  "sint (reg_read 5 (insi_i_lb 0 6 5 (insi_s_sw 0 7 6
      (reg_write 7 0x12345680 (reg_write 6 0x80001000 (reset_state 0x80000000)))))) = - 128"
proof -
  let ?s = "reg_write 7 0x12345680 (reg_write 6 0x80001000 (reset_state 0x80000000))"
  have "untriggered ?s" by (simp add: untriggered_def reg_write_def reset_state_eq init_csr_table_def zero_state_def)
  moreover have "ram32 0x80001000" by (simp add: ram32_def in_clint_def in_uart_def in_plic_def)
  ultimately show ?thesis
    using store_load_roundtrip [of ?s "0x80001000" 6 0 5 _ 7, OF _ _ _ _ _ _ refl refl] by (simp add: reg_read_write)
qed

end
