(* ===== verification/Fpu.thy ===== *)
theory Fpu
  imports Mmu
begin

text \<open>
  Floating point, src/src/extension/f_extension.c and f_extension.h, with the D, Q and Zfh options of
  the default build. SoftFloat is not part of the repository: its functions are the fields of the
  record \<open>softfloat\<close>, an argument of every definition that calls them. A SoftFloat function takes the
  rounding mode \<open>sf_begin\<close> stores in the library's global variable and returns the result with
  the exception flags it raises, which \<open>sf_begin\<close> clears and \<open>sf_end\<close> collects.
\<close>

section \<open>SoftFloat, as a parameter\<close>

text \<open>A \<open>float128_t\<close> is the pair of \<open>v[0]\<close> (low) and \<open>v[1]\<close> (high).\<close>

type_synonym float128 = "u64 \<times> u64"

datatype sf_round = Round_near_even | Round_minMag | Round_min | Round_max | Round_near_maxMag

record 'f sf_ops =
  sf_add :: "sf_round \<Rightarrow> 'f \<Rightarrow> 'f \<Rightarrow> 'f \<times> u32"
  sf_sub :: "sf_round \<Rightarrow> 'f \<Rightarrow> 'f \<Rightarrow> 'f \<times> u32"
  sf_mul :: "sf_round \<Rightarrow> 'f \<Rightarrow> 'f \<Rightarrow> 'f \<times> u32"
  sf_div :: "sf_round \<Rightarrow> 'f \<Rightarrow> 'f \<Rightarrow> 'f \<times> u32"
  sf_sqrt :: "sf_round \<Rightarrow> 'f \<Rightarrow> 'f \<times> u32"
  sf_mulAdd :: "sf_round \<Rightarrow> 'f \<Rightarrow> 'f \<Rightarrow> 'f \<Rightarrow> 'f \<times> u32"
  sf_eq :: "'f \<Rightarrow> 'f \<Rightarrow> bool"
  sf_lt :: "'f \<Rightarrow> 'f \<Rightarrow> bool"
  sf_le :: "'f \<Rightarrow> 'f \<Rightarrow> bool"
  sf_to_i32 :: "sf_round \<Rightarrow> 'f \<Rightarrow> u32 \<times> u32"
  sf_to_ui32 :: "sf_round \<Rightarrow> 'f \<Rightarrow> u32 \<times> u32"
  sf_to_i64 :: "sf_round \<Rightarrow> 'f \<Rightarrow> u64 \<times> u32"
  sf_to_ui64 :: "sf_round \<Rightarrow> 'f \<Rightarrow> u64 \<times> u32"
  sf_of_i32 :: "sf_round \<Rightarrow> u32 \<Rightarrow> 'f \<times> u32"
  sf_of_ui32 :: "sf_round \<Rightarrow> u32 \<Rightarrow> 'f \<times> u32"
  sf_of_i64 :: "sf_round \<Rightarrow> u64 \<Rightarrow> 'f \<times> u32"
  sf_of_ui64 :: "sf_round \<Rightarrow> u64 \<Rightarrow> 'f \<times> u32"

record softfloat =
  f16 :: "u16 sf_ops"
  f32 :: "u32 sf_ops"
  f64 :: "u64 sf_ops"
  f128M :: "float128 sf_ops"
  f16_to_f32 :: "sf_round \<Rightarrow> u16 \<Rightarrow> u32 \<times> u32"
  f64_to_f32 :: "sf_round \<Rightarrow> u64 \<Rightarrow> u32 \<times> u32"
  f128M_to_f32 :: "sf_round \<Rightarrow> float128 \<Rightarrow> u32 \<times> u32"
  f32_to_f64 :: "sf_round \<Rightarrow> u32 \<Rightarrow> u64 \<times> u32"
  f128M_to_f64 :: "sf_round \<Rightarrow> float128 \<Rightarrow> u64 \<times> u32"
  f16_to_f64 :: "sf_round \<Rightarrow> u16 \<Rightarrow> u64 \<times> u32"
  f32_to_f128M :: "u32 \<Rightarrow> float128"
  f64_to_f128M :: "u64 \<Rightarrow> float128"
  f16_to_f128M :: "u16 \<Rightarrow> float128"
  f32_to_f16 :: "sf_round \<Rightarrow> u32 \<Rightarrow> u16 \<times> u32"
  f64_to_f16 :: "sf_round \<Rightarrow> u64 \<Rightarrow> u16 \<times> u32"
  f128M_to_f16 :: "sf_round \<Rightarrow> float128 \<Rightarrow> u16 \<times> u32"

section \<open>Status and rounding\<close>

abbreviation NV :: u32 where "NV \<equiv> 0x10"

definition fpu_fs_off :: "emu \<Rightarrow> bool" where
  "fpu_fs_off s \<longleftrightarrow> csr_read CSR_MSTATUS s AND MSTATUS_FS_MASK = 0"

definition get_rm :: "u32 \<Rightarrow> emu \<Rightarrow> u32" where
  "get_rm rm s = (if rm = 7 then shr (fcsr s) 5 AND 7 else rm)"

definition sf_rm :: "u32 \<Rightarrow> emu \<Rightarrow> sf_round" where
  "sf_rm rm s =
     (let m = get_rm rm s
      in if m = 0 then Round_near_even
         else if m = 1 then Round_minMag
         else if m = 2 then Round_min
         else if m = 3 then Round_max
         else if m = 4 then Round_near_maxMag
         else Round_near_even)"

definition or_fcsr :: "u32 \<Rightarrow> emu \<Rightarrow> emu" where
  "or_fcsr flags s = s\<lparr>fcsr := fcsr s OR flags\<rparr>"

text \<open>\<open>sf_begin\<close>, the library call, \<open>sf_end\<close>: the result and the state with the flags collected.\<close>

definition sf_call :: "u32 \<Rightarrow> (sf_round \<Rightarrow> 'f \<times> u32) \<Rightarrow> emu \<Rightarrow> 'f \<times> emu" where
  "sf_call rm call s = (let (r, flags) = call (sf_rm rm s) in (r, or_fcsr flags s))"

section \<open>Register accessors\<close>

definition fpr_read_s :: "u32 \<Rightarrow> emu \<Rightarrow> u32" where "fpr_read_s r s = ucast (fpr s (2 * r))"

definition fpr_read_d :: "u32 \<Rightarrow> emu \<Rightarrow> u64" where "fpr_read_d r s = fpr s (2 * r)"

definition fpr_read_h :: "u32 \<Rightarrow> emu \<Rightarrow> u16" where "fpr_read_h r s = ucast (fpr s (2 * r))"

definition fpr_read_q :: "u32 \<Rightarrow> emu \<Rightarrow> float128" where
  "fpr_read_q r s = (fpr s (2 * r), fpr s (2 * r + 1))"

definition fpr_write_s :: "u32 \<Rightarrow> u32 \<Rightarrow> emu \<Rightarrow> emu" where
  "fpr_write_s r v s =
     s\<lparr>fpr := (fpr s)(2 * r := 0xFFFFFFFF00000000 OR ucast v, 2 * r + 1 := 0xFFFFFFFFFFFFFFFF)\<rparr>"

definition fpr_write_d :: "u32 \<Rightarrow> u64 \<Rightarrow> emu \<Rightarrow> emu" where
  "fpr_write_d r v s = s\<lparr>fpr := (fpr s)(2 * r := v, 2 * r + 1 := 0xFFFFFFFFFFFFFFFF)\<rparr>"

definition fpr_write_h :: "u32 \<Rightarrow> u16 \<Rightarrow> emu \<Rightarrow> emu" where
  "fpr_write_h r v s =
     s\<lparr>fpr := (fpr s)(2 * r := 0xFFFFFFFFFFFF0000 OR ucast v, 2 * r + 1 := 0xFFFFFFFFFFFFFFFF)\<rparr>"

definition fpr_write_q :: "u32 \<Rightarrow> float128 \<Rightarrow> emu \<Rightarrow> emu" where
  "fpr_write_q r v s = s\<lparr>fpr := (fpr s)(2 * r := fst v, 2 * r + 1 := snd v)\<rparr>"

section \<open>NaNs and classes\<close>

abbreviation RISCV_CANONICAL_NAN_H :: u16 where "RISCV_CANONICAL_NAN_H \<equiv> 0x7E00"
abbreviation RISCV_CANONICAL_NAN_S :: u32 where "RISCV_CANONICAL_NAN_S \<equiv> 0x7FC00000"
abbreviation RISCV_CANONICAL_NAN_D :: u64 where "RISCV_CANONICAL_NAN_D \<equiv> 0x7FF8000000000000"
abbreviation RISCV_CANONICAL_NAN_Q :: float128 where "RISCV_CANONICAL_NAN_Q \<equiv> (0, 0x7FFF800000000000)"

definition is_nan_s :: "u32 \<Rightarrow> bool" where
  "is_nan_s x \<longleftrightarrow> x AND 0x7F800000 = 0x7F800000 \<and> x AND 0x007FFFFF \<noteq> 0"

definition is_signaling_nan_s :: "u32 \<Rightarrow> bool" where
  "is_signaling_nan_s x \<longleftrightarrow>
     x AND 0x7F800000 = 0x7F800000 \<and> x AND 0x007FFFFF \<noteq> 0 \<and> x AND 0x00400000 = 0"

definition is_nan_d :: "u64 \<Rightarrow> bool" where
  "is_nan_d x \<longleftrightarrow> x AND 0x7FF0000000000000 = 0x7FF0000000000000 \<and> x AND 0x000FFFFFFFFFFFFF \<noteq> 0"

definition is_signaling_nan_d :: "u64 \<Rightarrow> bool" where
  "is_signaling_nan_d x \<longleftrightarrow> x AND 0x7FF0000000000000 = 0x7FF0000000000000 \<and>
     x AND 0x000FFFFFFFFFFFFF \<noteq> 0 \<and> x AND 0x0008000000000000 = 0"

definition is_nan_h :: "u16 \<Rightarrow> bool" where
  "is_nan_h x \<longleftrightarrow> x AND 0x7C00 = 0x7C00 \<and> x AND 0x03FF \<noteq> 0"

definition is_signaling_nan_h :: "u16 \<Rightarrow> bool" where
  "is_signaling_nan_h x \<longleftrightarrow> x AND 0x7C00 = 0x7C00 \<and> x AND 0x03FF \<noteq> 0 \<and> x AND 0x0200 = 0"

definition is_nan_q :: "float128 \<Rightarrow> bool" where
  "is_nan_q x =
     (let hi = snd x; exp = shr hi 48 AND 0x7FFF
      in if exp \<noteq> 0x7FFF then False
         else let mant_hi = hi AND 0x0000FFFFFFFFFFFF; mant_lo = fst x
              in mant_hi \<noteq> 0 \<or> mant_lo \<noteq> 0)"

definition is_signaling_nan_q :: "float128 \<Rightarrow> bool" where
  "is_signaling_nan_q p =
     (let hi = snd p; lo = fst p; exp = shr hi 48 AND 0x7FFF
      in if exp \<noteq> 0x7FFF then False
         else let mant_hi = hi AND 0x0000FFFFFFFFFFFF; mant_lo = lo
              in if mant_hi = 0 \<and> mant_lo = 0 then False
                 else mant_hi AND shl 1 47 = 0)"

definition fclass_s :: "u32 \<Rightarrow> u32" where
  "fclass_s x =
     (let sign = shr x 31 AND 1; exp = shr x 23 AND 0xFF; mant = x AND 0x7FFFFF
      in if exp = 0xFF then
           if mant = 0 then (if sign \<noteq> 0 then shl 1 0 else shl 1 7)
           else if mant AND 0x400000 \<noteq> 0 then shl 1 9
           else shl 1 8
         else if exp = 0 then
           if mant = 0 then (if sign \<noteq> 0 then shl 1 3 else shl 1 4)
           else (if sign \<noteq> 0 then shl 1 2 else shl 1 5)
         else (if sign \<noteq> 0 then shl 1 1 else shl 1 6))"

definition fclass_d :: "u64 \<Rightarrow> u32" where
  "fclass_d x =
     (let sign = shr x 63 AND 1; exp = shr x 52 AND 0x7FF; mant = x AND 0xFFFFFFFFFFFFF
      in if exp = 0x7FF then
           if mant = 0 then (if sign \<noteq> 0 then shl 1 0 else shl 1 7)
           else if mant AND 0x8000000000000 \<noteq> 0 then shl 1 9
           else shl 1 8
         else if exp = 0 then
           if mant = 0 then (if sign \<noteq> 0 then shl 1 3 else shl 1 4)
           else (if sign \<noteq> 0 then shl 1 2 else shl 1 5)
         else (if sign \<noteq> 0 then shl 1 1 else shl 1 6))"

definition fclass_h :: "u16 \<Rightarrow> u32" where
  "fclass_h x =
     (let sign = shr x 15 AND 1; exp = shr x 10 AND 0x1F; mant = x AND 0x3FF
      in if exp = 0x1F then
           if mant = 0 then (if sign \<noteq> 0 then shl 1 0 else shl 1 7)
           else if mant AND 0x200 \<noteq> 0 then shl 1 9
           else shl 1 8
         else if exp = 0 then
           if mant = 0 then (if sign \<noteq> 0 then shl 1 3 else shl 1 4)
           else (if sign \<noteq> 0 then shl 1 2 else shl 1 5)
         else (if sign \<noteq> 0 then shl 1 1 else shl 1 6))"

definition fclass_q :: "float128 \<Rightarrow> u32" where
  "fclass_q x =
     (let hi = snd x; lo = fst x; sign = shr hi 63 AND 1; exp = shr hi 48 AND 0x7FFF; mhi = hi AND 0x0000FFFFFFFFFFFF
      in if exp = 0x7FFF then
           if mhi = 0 \<and> lo = 0 then (if sign \<noteq> 0 then shl 1 0 else shl 1 7)
           else if mhi AND shl 1 47 \<noteq> 0 then shl 1 9
           else shl 1 8
         else if exp = 0 then
           if mhi = 0 \<and> lo = 0 then (if sign \<noteq> 0 then shl 1 3 else shl 1 4)
           else (if sign \<noteq> 0 then shl 1 2 else shl 1 5)
         else (if sign \<noteq> 0 then shl 1 1 else shl 1 6))"

section \<open>The four formats\<close>

text \<open>
  The functions of the four precisions have the same bodies; a format collects what the bodies
  use: the register accessors, the NaN tests, the sign, its inversion and the canonical NaN.
\<close>

record 'f fp_format =
  fmt_read :: "u32 \<Rightarrow> emu \<Rightarrow> 'f"
  fmt_write :: "u32 \<Rightarrow> 'f \<Rightarrow> emu \<Rightarrow> emu"
  fmt_nan :: "'f \<Rightarrow> bool"
  fmt_snan :: "'f \<Rightarrow> bool"
  fmt_inf :: "'f \<Rightarrow> bool"
  fmt_sign :: "'f \<Rightarrow> bool"
  fmt_flip :: "'f \<Rightarrow> 'f"
  fmt_canonical :: 'f

definition fmt_s :: "u32 fp_format" where
  "fmt_s = \<lparr>fmt_read = fpr_read_s, fmt_write = fpr_write_s, fmt_nan = is_nan_s, fmt_snan = is_signaling_nan_s,
     fmt_inf = (\<lambda>a. a AND 0x7F800000 = 0x7F800000 \<and> a AND 0x007FFFFF = 0), fmt_sign = (\<lambda>a. shr a 31 AND 1 \<noteq> 0),
     fmt_flip = (\<lambda>a. a XOR 0x80000000), fmt_canonical = RISCV_CANONICAL_NAN_S\<rparr>"

definition fmt_h :: "u16 fp_format" where
  "fmt_h = \<lparr>fmt_read = fpr_read_h, fmt_write = fpr_write_h, fmt_nan = is_nan_h, fmt_snan = is_signaling_nan_h,
     fmt_inf = (\<lambda>a. a AND 0x7C00 = 0x7C00 \<and> a AND 0x03FF = 0), fmt_sign = (\<lambda>a. shr a 15 AND 1 \<noteq> 0),
     fmt_flip = (\<lambda>a. a XOR 0x8000), fmt_canonical = RISCV_CANONICAL_NAN_H\<rparr>"

definition fmt_d :: "u64 fp_format" where
  "fmt_d = \<lparr>fmt_read = fpr_read_d, fmt_write = fpr_write_d, fmt_nan = is_nan_d, fmt_snan = is_signaling_nan_d,
     fmt_inf = (\<lambda>a. a AND 0x7FF0000000000000 = 0x7FF0000000000000 \<and> a AND 0x000FFFFFFFFFFFFF = 0),
     fmt_sign = (\<lambda>a. shr a 63 AND 1 \<noteq> 0),
     fmt_flip = (\<lambda>a. a XOR 0x8000000000000000), fmt_canonical = RISCV_CANONICAL_NAN_D\<rparr>"

definition fmt_q :: "float128 fp_format" where
  "fmt_q = \<lparr>fmt_read = fpr_read_q, fmt_write = fpr_write_q, fmt_nan = is_nan_q, fmt_snan = is_signaling_nan_q,
     fmt_inf = (\<lambda>a. snd a AND 0x7FFF000000000000 = 0x7FFF000000000000 \<and> snd a AND 0x0000FFFFFFFFFFFF = 0 \<and> fst a = 0),
     fmt_sign = (\<lambda>a. shr (snd a) 63 AND 1 \<noteq> 0),
     fmt_flip = (\<lambda>a. (fst a, snd a XOR 0x8000000000000000)), fmt_canonical = RISCV_CANONICAL_NAN_Q\<rparr>"

section \<open>Minimum and maximum\<close>

text \<open>The common body; \<open>pick_first\<close> chooses the operand of two ordered numbers.\<close>

definition fp_minmax :: "'f fp_format \<Rightarrow> ('f \<Rightarrow> 'f \<Rightarrow> bool) \<Rightarrow> 'f \<Rightarrow> 'f \<Rightarrow> emu \<Rightarrow> 'f \<times> emu" where
  "fp_minmax F pick_first a b s =
     (let a_snan = fmt_snan F a;
          b_snan = fmt_snan F b;
          a_qnan = (fmt_nan F a \<and> \<not> a_snan);
          b_qnan = (fmt_nan F b \<and> \<not> b_snan);
          s = (if a_snan \<or> b_snan then or_fcsr NV s else s)
      in if (a_snan \<or> a_qnan) \<and> (b_snan \<or> b_qnan) then (fmt_canonical F, s)
         else if a_snan \<or> a_qnan then (b, s)
         else if b_snan \<or> b_qnan then (a, s)
         else (if pick_first a b then a else b, s))"

definition fmin_first :: "'f fp_format \<Rightarrow> 'f sf_ops \<Rightarrow> 'f \<Rightarrow> 'f \<Rightarrow> bool" where
  "fmin_first F ops a b = (if sf_eq ops a b then fmt_sign F a else sf_lt ops a b)"

definition fmax_first :: "'f fp_format \<Rightarrow> 'f sf_ops \<Rightarrow> 'f \<Rightarrow> 'f \<Rightarrow> bool" where
  "fmax_first F ops a b = (if sf_eq ops a b then \<not> fmt_sign F a else \<not> sf_lt ops a b)"

definition rv_fmin_s :: "softfloat \<Rightarrow> u32 \<Rightarrow> u32 \<Rightarrow> emu \<Rightarrow> u32 \<times> emu" where
  "rv_fmin_s sf = fp_minmax fmt_s (fmin_first fmt_s (f32 sf))"

definition rv_fmax_s :: "softfloat \<Rightarrow> u32 \<Rightarrow> u32 \<Rightarrow> emu \<Rightarrow> u32 \<times> emu" where
  "rv_fmax_s sf = fp_minmax fmt_s (fmax_first fmt_s (f32 sf))"

definition rv_fmin_h :: "softfloat \<Rightarrow> u16 \<Rightarrow> u16 \<Rightarrow> emu \<Rightarrow> u16 \<times> emu" where
  "rv_fmin_h sf = fp_minmax fmt_h (fmin_first fmt_h (f16 sf))"

definition rv_fmax_h :: "softfloat \<Rightarrow> u16 \<Rightarrow> u16 \<Rightarrow> emu \<Rightarrow> u16 \<times> emu" where
  "rv_fmax_h sf = fp_minmax fmt_h (fmax_first fmt_h (f16 sf))"

definition rv_fmin_d :: "softfloat \<Rightarrow> u64 \<Rightarrow> u64 \<Rightarrow> emu \<Rightarrow> u64 \<times> emu" where
  "rv_fmin_d sf = fp_minmax fmt_d (fmin_first fmt_d (f64 sf))"

definition rv_fmax_d :: "softfloat \<Rightarrow> u64 \<Rightarrow> u64 \<Rightarrow> emu \<Rightarrow> u64 \<times> emu" where
  "rv_fmax_d sf = fp_minmax fmt_d (fmax_first fmt_d (f64 sf))"

definition rv_fmin_q :: "softfloat \<Rightarrow> float128 \<Rightarrow> float128 \<Rightarrow> emu \<Rightarrow> float128 \<times> emu" where
  "rv_fmin_q sf = fp_minmax fmt_q (fmin_first fmt_q (f128M sf))"

definition rv_fmax_q :: "softfloat \<Rightarrow> float128 \<Rightarrow> float128 \<Rightarrow> emu \<Rightarrow> float128 \<times> emu" where
  "rv_fmax_q sf = fp_minmax fmt_q (fmax_first fmt_q (f128M sf))"

section \<open>Arithmetic\<close>

definition normalize_nan :: "'f fp_format \<Rightarrow> 'f \<Rightarrow> 'f" where
  "normalize_nan F x = (if fmt_nan F x then fmt_canonical F else x)"

definition normalize_nan_s :: "u32 \<Rightarrow> u32" where
  "normalize_nan_s = normalize_nan fmt_s"

definition normalize_nan_h :: "u16 \<Rightarrow> u16" where
  "normalize_nan_h = normalize_nan fmt_h"

definition normalize_nan_d :: "u64 \<Rightarrow> u64" where
  "normalize_nan_d = normalize_nan fmt_d"

definition normalize_nan_q :: "float128 \<Rightarrow> float128" where
  "normalize_nan_q = normalize_nan fmt_q"

text \<open>The bodies the precisions share.\<close>

definition fp_binop ::
  "'f fp_format \<Rightarrow> (sf_round \<Rightarrow> 'f \<Rightarrow> 'f \<Rightarrow> 'f \<times> u32) \<Rightarrow> u32 \<Rightarrow> u32 \<Rightarrow> u32 \<Rightarrow> u32 \<Rightarrow> emu \<Rightarrow> emu" where
  "fp_binop F fn rs2 rs1 rm rd s =
     (let a = fmt_read F rs1 s; b = fmt_read F rs2 s;
          (r, s) = sf_call rm (\<lambda>mode. fn mode a b) s
      in fmt_write F rd (normalize_nan F r) s)"

definition fp_sqrt ::
  "'f fp_format \<Rightarrow> 'f sf_ops \<Rightarrow> u32 \<Rightarrow> u32 \<Rightarrow> u32 \<Rightarrow> emu \<Rightarrow> emu" where
  "fp_sqrt F ops rs1 rm rd s =
     (let a = fmt_read F rs1 s;
          (r, s) = sf_call rm (\<lambda>mode. sf_sqrt ops mode a) s
      in fmt_write F rd (normalize_nan F r) s)"

definition fp_minmax_ins ::
  "'f fp_format \<Rightarrow> ('f \<Rightarrow> 'f \<Rightarrow> emu \<Rightarrow> 'f \<times> emu) \<Rightarrow> u32 \<Rightarrow> u32 \<Rightarrow> u32 \<Rightarrow> emu \<Rightarrow> emu" where
  "fp_minmax_ins F rv rs2 rs1 rd s =
     (let (r, s) = rv (fmt_read F rs1 s) (fmt_read F rs2 s) s in fmt_write F rd r s)"

definition fp_cmp :: "'f fp_format \<Rightarrow> 'f sf_ops \<Rightarrow> u32 \<Rightarrow> u32 \<Rightarrow> u32 \<Rightarrow> u32 \<Rightarrow> emu \<Rightarrow> emu" where
  "fp_cmp F ops op rs2 rs1 rd s =
     (let a = fmt_read F rs1 s; b = fmt_read F rs2 s;
          a_is_nan = fmt_nan F a; b_is_nan = fmt_nan F b;
          a_is_snan = fmt_snan F a; b_is_snan = fmt_snan F b
      in if a_is_nan \<or> b_is_nan then
           let s = (if op = 2 then (if a_is_snan \<or> b_is_snan then or_fcsr NV s else s)
                    else if op = 0 \<or> op = 1 then or_fcsr NV s
                    else s)
           in reg_write rd 0 s
         else
           let r = (if op = 2 then (if sf_eq ops a b then 1 else 0)
                    else if op = 1 then (if sf_lt ops a b then 1 else 0)
                    else if op = 0 then (if sf_le ops a b then 1 else 0)
                    else 0)
           in reg_write rd r s)"

definition fp_fma :: "'f fp_format \<Rightarrow> 'f sf_ops \<Rightarrow> u32 \<Rightarrow> u32 \<Rightarrow> u32 \<Rightarrow> u32 \<Rightarrow> u32 \<Rightarrow> u32 \<Rightarrow> emu \<Rightarrow> emu" where
  "fp_fma F ops subop rs3 rs2 rs1 rm rd s =
     (let a = fmt_read F rs1 s; b = fmt_read F rs2 s; c = fmt_read F rs3 s;
          c = (if subop AND 1 \<noteq> 0 then fmt_flip F c else c);
          a = (if subop AND 2 \<noteq> 0 then fmt_flip F a else a);
          (r, s) = sf_call rm (\<lambda>mode. sf_mulAdd ops mode a b c) s
      in fmt_write F rd (normalize_nan F r) s)"

subsection \<open>Single precision (F)\<close>

definition s_add :: "softfloat \<Rightarrow> u32 \<Rightarrow> u32 \<Rightarrow> u32 \<Rightarrow> u32 \<Rightarrow> emu \<Rightarrow> emu" where
  "s_add sf = fp_binop fmt_s (sf_add (f32 sf))"

definition s_sub :: "softfloat \<Rightarrow> u32 \<Rightarrow> u32 \<Rightarrow> u32 \<Rightarrow> u32 \<Rightarrow> emu \<Rightarrow> emu" where
  "s_sub sf = fp_binop fmt_s (sf_sub (f32 sf))"

definition s_mul :: "softfloat \<Rightarrow> u32 \<Rightarrow> u32 \<Rightarrow> u32 \<Rightarrow> u32 \<Rightarrow> emu \<Rightarrow> emu" where
  "s_mul sf = fp_binop fmt_s (sf_mul (f32 sf))"

definition s_div :: "softfloat \<Rightarrow> u32 \<Rightarrow> u32 \<Rightarrow> u32 \<Rightarrow> u32 \<Rightarrow> emu \<Rightarrow> emu" where
  "s_div sf = fp_binop fmt_s (sf_div (f32 sf))"

definition s_sqrt :: "softfloat \<Rightarrow> u32 \<Rightarrow> u32 \<Rightarrow> u32 \<Rightarrow> emu \<Rightarrow> emu" where
  "s_sqrt sf = fp_sqrt fmt_s (f32 sf)"

definition s_fsgnj :: "u32 \<Rightarrow> u32 \<Rightarrow> u32 \<Rightarrow> u32 \<Rightarrow> emu \<Rightarrow> emu" where
  "s_fsgnj rs2 rs1 op rd s =
     (let a = fpr_read_s rs1 s; b = fpr_read_s rs2 s;
          r = (if op = 0 then (a AND 0x7FFFFFFF) OR (b AND 0x80000000)
               else if op = 1 then (a AND 0x7FFFFFFF) OR ((b XOR 0x80000000) AND 0x80000000)
               else (a AND 0x7FFFFFFF) OR ((a XOR b) AND 0x80000000))
      in fpr_write_s rd r s)"

definition s_fmin :: "softfloat \<Rightarrow> u32 \<Rightarrow> u32 \<Rightarrow> u32 \<Rightarrow> emu \<Rightarrow> emu" where
  "s_fmin sf = fp_minmax_ins fmt_s (rv_fmin_s sf)"

definition s_fmax :: "softfloat \<Rightarrow> u32 \<Rightarrow> u32 \<Rightarrow> u32 \<Rightarrow> emu \<Rightarrow> emu" where
  "s_fmax sf = fp_minmax_ins fmt_s (rv_fmax_s sf)"

definition s_fclass :: "u32 \<Rightarrow> u32 \<Rightarrow> emu \<Rightarrow> emu" where
  "s_fclass rs1 rd s = reg_write rd (fclass_s (fpr_read_s rs1 s)) s"

definition s_fcmp :: "softfloat \<Rightarrow> u32 \<Rightarrow> u32 \<Rightarrow> u32 \<Rightarrow> u32 \<Rightarrow> emu \<Rightarrow> emu" where
  "s_fcmp sf = fp_cmp fmt_s (f32 sf)"

definition s_fma :: "softfloat \<Rightarrow> u32 \<Rightarrow> u32 \<Rightarrow> u32 \<Rightarrow> u32 \<Rightarrow> u32 \<Rightarrow> u32 \<Rightarrow> emu \<Rightarrow> emu" where
  "s_fma sf = fp_fma fmt_s (f32 sf)"

subsection \<open>Half precision (Zfh)\<close>

definition h_add :: "softfloat \<Rightarrow> u32 \<Rightarrow> u32 \<Rightarrow> u32 \<Rightarrow> u32 \<Rightarrow> emu \<Rightarrow> emu" where
  "h_add sf = fp_binop fmt_h (sf_add (f16 sf))"

definition h_sub :: "softfloat \<Rightarrow> u32 \<Rightarrow> u32 \<Rightarrow> u32 \<Rightarrow> u32 \<Rightarrow> emu \<Rightarrow> emu" where
  "h_sub sf = fp_binop fmt_h (sf_sub (f16 sf))"

definition h_mul :: "softfloat \<Rightarrow> u32 \<Rightarrow> u32 \<Rightarrow> u32 \<Rightarrow> u32 \<Rightarrow> emu \<Rightarrow> emu" where
  "h_mul sf = fp_binop fmt_h (sf_mul (f16 sf))"

definition h_div :: "softfloat \<Rightarrow> u32 \<Rightarrow> u32 \<Rightarrow> u32 \<Rightarrow> u32 \<Rightarrow> emu \<Rightarrow> emu" where
  "h_div sf = fp_binop fmt_h (sf_div (f16 sf))"

definition h_sqrt :: "softfloat \<Rightarrow> u32 \<Rightarrow> u32 \<Rightarrow> u32 \<Rightarrow> emu \<Rightarrow> emu" where
  "h_sqrt sf = fp_sqrt fmt_h (f16 sf)"

definition h_fsgnj :: "u32 \<Rightarrow> u32 \<Rightarrow> u32 \<Rightarrow> u32 \<Rightarrow> emu \<Rightarrow> emu" where
  "h_fsgnj rs2 rs1 op rd s =
     (let a = fpr_read_h rs1 s; b = fpr_read_h rs2 s;
          r = (if op = 0 then (a AND 0x7FFF) OR (b AND 0x8000)
               else if op = 1 then (a AND 0x7FFF) OR ((b XOR 0x8000) AND 0x8000)
               else (a AND 0x7FFF) OR ((a XOR b) AND 0x8000))
      in fpr_write_h rd r s)"

definition h_fmin :: "softfloat \<Rightarrow> u32 \<Rightarrow> u32 \<Rightarrow> u32 \<Rightarrow> emu \<Rightarrow> emu" where
  "h_fmin sf = fp_minmax_ins fmt_h (rv_fmin_h sf)"

definition h_fmax :: "softfloat \<Rightarrow> u32 \<Rightarrow> u32 \<Rightarrow> u32 \<Rightarrow> emu \<Rightarrow> emu" where
  "h_fmax sf = fp_minmax_ins fmt_h (rv_fmax_h sf)"

definition h_fclass :: "u32 \<Rightarrow> u32 \<Rightarrow> emu \<Rightarrow> emu" where
  "h_fclass rs1 rd s = reg_write rd (fclass_h (fpr_read_h rs1 s)) s"

definition h_fcmp :: "softfloat \<Rightarrow> u32 \<Rightarrow> u32 \<Rightarrow> u32 \<Rightarrow> u32 \<Rightarrow> emu \<Rightarrow> emu" where
  "h_fcmp sf = fp_cmp fmt_h (f16 sf)"

definition h_fma :: "softfloat \<Rightarrow> u32 \<Rightarrow> u32 \<Rightarrow> u32 \<Rightarrow> u32 \<Rightarrow> u32 \<Rightarrow> u32 \<Rightarrow> emu \<Rightarrow> emu" where
  "h_fma sf = fp_fma fmt_h (f16 sf)"

subsection \<open>Double precision (D)\<close>

definition d_add :: "softfloat \<Rightarrow> u32 \<Rightarrow> u32 \<Rightarrow> u32 \<Rightarrow> u32 \<Rightarrow> emu \<Rightarrow> emu" where
  "d_add sf = fp_binop fmt_d (sf_add (f64 sf))"

definition d_sub :: "softfloat \<Rightarrow> u32 \<Rightarrow> u32 \<Rightarrow> u32 \<Rightarrow> u32 \<Rightarrow> emu \<Rightarrow> emu" where
  "d_sub sf = fp_binop fmt_d (sf_sub (f64 sf))"

definition d_mul :: "softfloat \<Rightarrow> u32 \<Rightarrow> u32 \<Rightarrow> u32 \<Rightarrow> u32 \<Rightarrow> emu \<Rightarrow> emu" where
  "d_mul sf = fp_binop fmt_d (sf_mul (f64 sf))"

definition d_div :: "softfloat \<Rightarrow> u32 \<Rightarrow> u32 \<Rightarrow> u32 \<Rightarrow> u32 \<Rightarrow> emu \<Rightarrow> emu" where
  "d_div sf = fp_binop fmt_d (sf_div (f64 sf))"

definition d_sqrt :: "softfloat \<Rightarrow> u32 \<Rightarrow> u32 \<Rightarrow> u32 \<Rightarrow> emu \<Rightarrow> emu" where
  "d_sqrt sf = fp_sqrt fmt_d (f64 sf)"

definition d_fsgnj :: "u32 \<Rightarrow> u32 \<Rightarrow> u32 \<Rightarrow> u32 \<Rightarrow> emu \<Rightarrow> emu" where
  "d_fsgnj rs2 rs1 op rd s =
     (let a = fpr_read_d rs1 s; b = fpr_read_d rs2 s;
          r = (if op = 0 then (a AND 0x7FFFFFFFFFFFFFFF) OR (b AND 0x8000000000000000)
               else if op = 1 then (a AND 0x7FFFFFFFFFFFFFFF) OR ((b XOR 0x8000000000000000) AND 0x8000000000000000)
               else (a AND 0x7FFFFFFFFFFFFFFF) OR ((a XOR b) AND 0x8000000000000000))
      in fpr_write_d rd r s)"

definition d_fmin :: "softfloat \<Rightarrow> u32 \<Rightarrow> u32 \<Rightarrow> u32 \<Rightarrow> emu \<Rightarrow> emu" where
  "d_fmin sf = fp_minmax_ins fmt_d (rv_fmin_d sf)"

definition d_fmax :: "softfloat \<Rightarrow> u32 \<Rightarrow> u32 \<Rightarrow> u32 \<Rightarrow> emu \<Rightarrow> emu" where
  "d_fmax sf = fp_minmax_ins fmt_d (rv_fmax_d sf)"

definition d_fclass :: "u32 \<Rightarrow> u32 \<Rightarrow> emu \<Rightarrow> emu" where
  "d_fclass rs1 rd s = reg_write rd (fclass_d (fpr_read_d rs1 s)) s"

definition d_fcmp :: "softfloat \<Rightarrow> u32 \<Rightarrow> u32 \<Rightarrow> u32 \<Rightarrow> u32 \<Rightarrow> emu \<Rightarrow> emu" where
  "d_fcmp sf = fp_cmp fmt_d (f64 sf)"

definition d_fma :: "softfloat \<Rightarrow> u32 \<Rightarrow> u32 \<Rightarrow> u32 \<Rightarrow> u32 \<Rightarrow> u32 \<Rightarrow> u32 \<Rightarrow> emu \<Rightarrow> emu" where
  "d_fma sf = fp_fma fmt_d (f64 sf)"

subsection \<open>Quad precision (Q)\<close>

definition q_binop ::
  "(sf_round \<Rightarrow> float128 \<Rightarrow> float128 \<Rightarrow> float128 \<times> u32) \<Rightarrow> u32 \<Rightarrow> u32 \<Rightarrow> u32 \<Rightarrow> u32 \<Rightarrow> emu \<Rightarrow> emu" where
  "q_binop = fp_binop fmt_q"

definition q_sqrt :: "softfloat \<Rightarrow> u32 \<Rightarrow> u32 \<Rightarrow> u32 \<Rightarrow> emu \<Rightarrow> emu" where
  "q_sqrt sf = fp_sqrt fmt_q (f128M sf)"

definition q_fsgnj :: "u32 \<Rightarrow> u32 \<Rightarrow> u32 \<Rightarrow> u32 \<Rightarrow> emu \<Rightarrow> emu" where
  "q_fsgnj rs2 rs1 op rd s =
     (let a = fpr_read_q rs1 s; b = fpr_read_q rs2 s;
          sign_a = snd a AND 0x8000000000000000;
          sign_b = snd b AND 0x8000000000000000;
          hi = (if op = 0 then (snd a AND 0x7FFFFFFFFFFFFFFF) OR sign_b
                else if op = 1 then (snd a AND 0x7FFFFFFFFFFFFFFF) OR (sign_b XOR 0x8000000000000000)
                else (snd a AND 0x7FFFFFFFFFFFFFFF) OR (sign_a XOR sign_b))
      in fpr_write_q rd (fst a, hi) s)"

definition q_fmin :: "softfloat \<Rightarrow> u32 \<Rightarrow> u32 \<Rightarrow> u32 \<Rightarrow> emu \<Rightarrow> emu" where
  "q_fmin sf = fp_minmax_ins fmt_q (rv_fmin_q sf)"

definition q_fmax :: "softfloat \<Rightarrow> u32 \<Rightarrow> u32 \<Rightarrow> u32 \<Rightarrow> emu \<Rightarrow> emu" where
  "q_fmax sf = fp_minmax_ins fmt_q (rv_fmax_q sf)"

definition q_fclass :: "u32 \<Rightarrow> u32 \<Rightarrow> emu \<Rightarrow> emu" where
  "q_fclass rs1 rd s = reg_write rd (fclass_q (fpr_read_q rs1 s)) s"

definition q_fcmp :: "softfloat \<Rightarrow> u32 \<Rightarrow> u32 \<Rightarrow> u32 \<Rightarrow> u32 \<Rightarrow> emu \<Rightarrow> emu" where
  "q_fcmp sf = fp_cmp fmt_q (f128M sf)"

definition q_fma :: "softfloat \<Rightarrow> u32 \<Rightarrow> u32 \<Rightarrow> u32 \<Rightarrow> u32 \<Rightarrow> u32 \<Rightarrow> u32 \<Rightarrow> emu \<Rightarrow> emu" where
  "q_fma sf = fp_fma fmt_q (f128M sf)"

section \<open>Loads and stores\<close>

text \<open>The default build has \<open>CONFIG_SUPPORT_MISALIGN\<close> off: a misaligned access goes straight to memory.\<close>

definition insf_flw :: "u32 \<Rightarrow> u32 \<Rightarrow> u32 \<Rightarrow> emu \<Rightarrow> emu" where
  "insf_flw imm rs1 rd s =
     (let addr = reg_read rs1 s + imm; (val, s) = mmu_read32_unsigned addr s in fpr_write_s rd val s)"

definition insf_fsw :: "u32 \<Rightarrow> u32 \<Rightarrow> u32 \<Rightarrow> emu \<Rightarrow> emu" where
  "insf_fsw imm rs1 rs2 s =
     (let addr = reg_read rs1 s + imm; val = fpr_read_s rs2 s in mmu_write32 addr val s)"

definition insf_fld :: "u32 \<Rightarrow> u32 \<Rightarrow> u32 \<Rightarrow> emu \<Rightarrow> emu" where
  "insf_fld imm rs1 rd s =
     (let addr = reg_read rs1 s + imm; (val, s) = mmu_read64_unsigned addr s in fpr_write_d rd val s)"

definition insf_fsd :: "u32 \<Rightarrow> u32 \<Rightarrow> u32 \<Rightarrow> emu \<Rightarrow> emu" where
  "insf_fsd imm rs1 rs2 s =
     (let addr = reg_read rs1 s + imm; val = fpr_read_d rs2 s in mmu_write64 addr val s)"

definition insf_flh :: "u32 \<Rightarrow> u32 \<Rightarrow> u32 \<Rightarrow> emu \<Rightarrow> emu" where
  "insf_flh imm rs1 rd s =
     (let addr = reg_read rs1 s + imm; (val, s) = mmu_read16_unsigned addr s in fpr_write_h rd (ucast val) s)"

definition insf_fsh :: "u32 \<Rightarrow> u32 \<Rightarrow> u32 \<Rightarrow> emu \<Rightarrow> emu" where
  "insf_fsh imm rs1 rs2 s =
     (let addr = reg_read rs1 s + imm; val = fpr_read_h rs2 s in mmu_write16 addr val s)"

definition insf_flq :: "u32 \<Rightarrow> u32 \<Rightarrow> u32 \<Rightarrow> emu \<Rightarrow> emu" where
  "insf_flq imm rs1 rd s =
     (let addr = reg_read rs1 s + imm;
          (lo, s) = mmu_read64_unsigned addr s;
          (hi, s) = mmu_read64_unsigned (addr + 8) s
      in fpr_write_q rd (lo, hi) s)"

definition insf_fsq :: "u32 \<Rightarrow> u32 \<Rightarrow> u32 \<Rightarrow> emu \<Rightarrow> emu" where
  "insf_fsq imm rs1 rs2 s =
     (let addr = reg_read rs1 s + imm;
          v = fpr_read_q rs2 s;
          s = mmu_write64 addr (fst v) s
      in mmu_write64 (addr + 8) (snd v) s)"

section \<open>Conversions\<close>

text \<open>A message of \<open>fatal\<close> is its format string without the arguments.\<close>

definition fcvt_int_sat :: "u32 \<Rightarrow> bool \<Rightarrow> u32" where
  "fcvt_int_sat kind sign =
     (if kind = 1 \<or> kind = 3 then (if sign then 0 else 0xFFFFFFFF)
      else (if sign then 0x80000000 else 0x7FFFFFFF))"

text \<open>The body of \<open>fcvt_fp_int\<close> for one format: the integer and the flags.\<close>

definition fp_to_int :: "'f fp_format \<Rightarrow> 'f sf_ops \<Rightarrow> u32 \<Rightarrow> 'f \<Rightarrow> sf_round \<Rightarrow> u32 \<times> u32" where
  "fp_to_int F ops kind a mode =
     (let sign = fmt_sign F a; nan = fmt_nan F a; inf = fmt_inf F a
      in if nan \<or> inf then (fcvt_int_sat kind (if nan then False else sign), NV)
         else
           let (r, flags) =
                 (if kind = 0 then sf_to_i32 ops mode a
                  else if kind = 1 then sf_to_ui32 ops mode a
                  else if kind = 2 then (let (r, fl) = sf_to_i64 ops mode a in (ucast r, fl))
                  else (let (r, fl) = sf_to_ui64 ops mode a in (ucast r, fl)))
           in (if flags AND NV \<noteq> 0 then fcvt_int_sat kind sign else r, flags))"

definition fcvt_fp_int :: "softfloat \<Rightarrow> u32 \<Rightarrow> u32 \<Rightarrow> u32 \<Rightarrow> u32 \<Rightarrow> emu \<Rightarrow> (u32 \<times> emu) res" where
  "fcvt_fp_int sf fmt kind rs1 rm s =
     (if fmt = 0 then Inr (sf_call rm (fp_to_int fmt_s (f32 sf) kind (fpr_read_s rs1 s)) s)
      else if fmt = 2 then Inr (sf_call rm (fp_to_int fmt_h (f16 sf) kind (fpr_read_h rs1 s)) s)
      else if fmt = 1 then Inr (sf_call rm (fp_to_int fmt_d (f64 sf) kind (fpr_read_d rs1 s)) s)
      else if fmt = 3 then Inr (sf_call rm (fp_to_int fmt_q (f128M sf) kind (fpr_read_q rs1 s)) s)
      else Inl ''fcvt.fp->int: unsupported fmt'')"

definition fp_of_int :: "'f sf_ops \<Rightarrow> u32 \<Rightarrow> u32 \<Rightarrow> sf_round \<Rightarrow> 'f \<times> u32" where
  "fp_of_int ops kind v mode =
     (if kind = 0 then sf_of_i32 ops mode v
      else if kind = 1 then sf_of_ui32 ops mode v
      else if kind = 2 then sf_of_i64 ops mode (scast v)
      else sf_of_ui64 ops mode (ucast v))"

definition fcvt_int_fp :: "softfloat \<Rightarrow> u32 \<Rightarrow> u32 \<Rightarrow> u32 \<Rightarrow> u32 \<Rightarrow> u32 \<Rightarrow> emu \<Rightarrow> emu res" where
  "fcvt_int_fp sf fmt kind rs1 rm rd s =
     (let v = reg_read rs1 s
      in if fmt = 0 then let (r, s) = sf_call rm (fp_of_int (f32 sf) kind v) s in Inr (fpr_write_s rd r s)
         else if fmt = 2 then let (r, s) = sf_call rm (fp_of_int (f16 sf) kind v) s in Inr (fpr_write_h rd r s)
         else if fmt = 1 then let (r, s) = sf_call rm (fp_of_int (f64 sf) kind v) s in Inr (fpr_write_d rd r s)
         else if fmt = 3 then let (r, s) = sf_call rm (fp_of_int (f128M sf) kind v) s in Inr (fpr_write_q rd r s)
         else Inl ''fcvt.int->fp: unsupported fmt'')"

text \<open>A narrowing or widening conversion into S, D or H: a NaN keeps its sign and becomes quiet.\<close>

definition fix_nan_s :: "u32 \<Rightarrow> u32" where
  "fix_nan_s r = (if is_nan_s r then (r AND 0x80000000) OR 0x7FC00000 else r)"

definition fix_nan_d :: "u64 \<Rightarrow> u64" where
  "fix_nan_d r = (if is_nan_d r then (r AND 0x8000000000000000) OR 0x7FF8000000000000 else r)"

definition fix_nan_h :: "u16 \<Rightarrow> u16" where
  "fix_nan_h r = (if is_nan_h r then (r AND 0x8000) OR 0x7E00 else r)"

definition fcvt_to :: "(u32 \<Rightarrow> 'f \<Rightarrow> emu \<Rightarrow> emu) \<Rightarrow> ('f \<Rightarrow> 'f) \<Rightarrow> u32 \<Rightarrow> (sf_round \<Rightarrow> 'f \<times> u32) \<Rightarrow> u32 \<Rightarrow> emu \<Rightarrow> emu" where
  "fcvt_to write fix_nan rm call rd s = (let (r, s) = sf_call rm call s in write rd (fix_nan r) s)"

definition fcvt_fp_fp :: "softfloat \<Rightarrow> u32 \<Rightarrow> u32 \<Rightarrow> u32 \<Rightarrow> u32 \<Rightarrow> u32 \<Rightarrow> emu \<Rightarrow> emu res" where
  "fcvt_fp_fp sf dfmt sfmt rs1 rm rd s =
     (let h = fpr_read_h rs1 s; x = fpr_read_s rs1 s; d = fpr_read_d rs1 s; q = fpr_read_q rs1 s
      in if dfmt = 0 then
           if sfmt = 2 then Inr (fcvt_to fpr_write_s fix_nan_s rm (\<lambda>m. f16_to_f32 sf m h) rd s)
           else if sfmt = 1 then Inr (fcvt_to fpr_write_s fix_nan_s rm (\<lambda>m. f64_to_f32 sf m d) rd s)
           else if sfmt = 3 then Inr (fcvt_to fpr_write_s fix_nan_s rm (\<lambda>m. f128M_to_f32 sf m q) rd s)
           else Inl ''fcvt S<-: unsupported''
         else if dfmt = 1 then
           if sfmt = 0 then Inr (fcvt_to fpr_write_d fix_nan_d rm (\<lambda>m. f32_to_f64 sf m x) rd s)
           else if sfmt = 3 then Inr (fcvt_to fpr_write_d fix_nan_d rm (\<lambda>m. f128M_to_f64 sf m q) rd s)
           else if sfmt = 2 then Inr (fcvt_to fpr_write_d fix_nan_d rm (\<lambda>m. f16_to_f64 sf m h) rd s)
           else Inl ''fcvt D<-: unsupported''
         else if dfmt = 3 then
           if sfmt = 0 then Inr (fpr_write_q rd (f32_to_f128M sf x) s)
           else if sfmt = 1 then Inr (fpr_write_q rd (f64_to_f128M sf d) s)
           else if sfmt = 2 then Inr (fpr_write_q rd (f16_to_f128M sf h) s)
           else Inl ''fcvt Q<-: unsupported''
         else if dfmt = 2 then
           if sfmt = 0 then Inr (fcvt_to fpr_write_h fix_nan_h rm (\<lambda>m. f32_to_f16 sf m x) rd s)
           else if sfmt = 1 then Inr (fcvt_to fpr_write_h fix_nan_h rm (\<lambda>m. f64_to_f16 sf m d) rd s)
           else if sfmt = 3 then Inr (fcvt_to fpr_write_h fix_nan_h rm (\<lambda>m. f128M_to_f16 sf m q) rd s)
           else Inl ''fcvt H<-: unsupported''
         else Inl ''fcvt.fp->fp: unsupported dest fmt'')"

section \<open>Dispatch\<close>

definition do_fadd :: "softfloat \<Rightarrow> u32 \<Rightarrow> u32 \<Rightarrow> u32 \<Rightarrow> u32 \<Rightarrow> u32 \<Rightarrow> emu \<Rightarrow> emu res" where
  "do_fadd sf fmt rs2 rs1 rm rd s =
     (if fmt = 0 then Inr (s_add sf rs2 rs1 rm rd s)
      else if fmt = 2 then Inr (h_add sf rs2 rs1 rm rd s)
      else if fmt = 1 then Inr (d_add sf rs2 rs1 rm rd s)
      else if fmt = 3 then Inr (q_binop (sf_add (f128M sf)) rs2 rs1 rm rd s)
      else Inl ''fadd: unsupported fmt'')"

definition do_fsub :: "softfloat \<Rightarrow> u32 \<Rightarrow> u32 \<Rightarrow> u32 \<Rightarrow> u32 \<Rightarrow> u32 \<Rightarrow> emu \<Rightarrow> emu res" where
  "do_fsub sf fmt rs2 rs1 rm rd s =
     (if fmt = 0 then Inr (s_sub sf rs2 rs1 rm rd s)
      else if fmt = 2 then Inr (h_sub sf rs2 rs1 rm rd s)
      else if fmt = 1 then Inr (d_sub sf rs2 rs1 rm rd s)
      else if fmt = 3 then Inr (q_binop (sf_sub (f128M sf)) rs2 rs1 rm rd s)
      else Inl ''fsub: unsupported fmt'')"

definition do_fmul :: "softfloat \<Rightarrow> u32 \<Rightarrow> u32 \<Rightarrow> u32 \<Rightarrow> u32 \<Rightarrow> u32 \<Rightarrow> emu \<Rightarrow> emu res" where
  "do_fmul sf fmt rs2 rs1 rm rd s =
     (if fmt = 0 then Inr (s_mul sf rs2 rs1 rm rd s)
      else if fmt = 2 then Inr (h_mul sf rs2 rs1 rm rd s)
      else if fmt = 1 then Inr (d_mul sf rs2 rs1 rm rd s)
      else if fmt = 3 then Inr (q_binop (sf_mul (f128M sf)) rs2 rs1 rm rd s)
      else Inl ''fmul: unsupported fmt'')"

definition do_fdiv :: "softfloat \<Rightarrow> u32 \<Rightarrow> u32 \<Rightarrow> u32 \<Rightarrow> u32 \<Rightarrow> u32 \<Rightarrow> emu \<Rightarrow> emu res" where
  "do_fdiv sf fmt rs2 rs1 rm rd s =
     (if fmt = 0 then Inr (s_div sf rs2 rs1 rm rd s)
      else if fmt = 2 then Inr (h_div sf rs2 rs1 rm rd s)
      else if fmt = 1 then Inr (d_div sf rs2 rs1 rm rd s)
      else if fmt = 3 then Inr (q_binop (sf_div (f128M sf)) rs2 rs1 rm rd s)
      else Inl ''fdiv: unsupported fmt'')"

definition do_fsqrt :: "softfloat \<Rightarrow> u32 \<Rightarrow> u32 \<Rightarrow> u32 \<Rightarrow> u32 \<Rightarrow> emu \<Rightarrow> emu res" where
  "do_fsqrt sf fmt rs1 rm rd s =
     (if fmt = 0 then Inr (s_sqrt sf rs1 rm rd s)
      else if fmt = 2 then Inr (h_sqrt sf rs1 rm rd s)
      else if fmt = 1 then Inr (d_sqrt sf rs1 rm rd s)
      else if fmt = 3 then Inr (q_sqrt sf rs1 rm rd s)
      else Inl ''fsqrt: unsupported fmt'')"

definition do_fsgnj :: "u32 \<Rightarrow> u32 \<Rightarrow> u32 \<Rightarrow> u32 \<Rightarrow> u32 \<Rightarrow> emu \<Rightarrow> emu res" where
  "do_fsgnj fmt rs2 rs1 op rd s =
     (if fmt = 0 then Inr (s_fsgnj rs2 rs1 op rd s)
      else if fmt = 2 then Inr (h_fsgnj rs2 rs1 op rd s)
      else if fmt = 1 then Inr (d_fsgnj rs2 rs1 op rd s)
      else if fmt = 3 then Inr (q_fsgnj rs2 rs1 op rd s)
      else Inl ''fsgnj: unsupported fmt'')"

definition do_fminmax :: "softfloat \<Rightarrow> u32 \<Rightarrow> u32 \<Rightarrow> u32 \<Rightarrow> u32 \<Rightarrow> u32 \<Rightarrow> emu \<Rightarrow> emu res" where
  "do_fminmax sf fmt rs2 rs1 op rd s =
     (if fmt = 0 then Inr (if op = 0 then s_fmin sf rs2 rs1 rd s else s_fmax sf rs2 rs1 rd s)
      else if fmt = 2 then Inr (if op = 0 then h_fmin sf rs2 rs1 rd s else h_fmax sf rs2 rs1 rd s)
      else if fmt = 1 then Inr (if op = 0 then d_fmin sf rs2 rs1 rd s else d_fmax sf rs2 rs1 rd s)
      else if fmt = 3 then Inr (if op = 0 then q_fmin sf rs2 rs1 rd s else q_fmax sf rs2 rs1 rd s)
      else Inl ''fmin/fmax: unsupported fmt'')"

definition do_fcmp :: "softfloat \<Rightarrow> u32 \<Rightarrow> u32 \<Rightarrow> u32 \<Rightarrow> u32 \<Rightarrow> u32 \<Rightarrow> emu \<Rightarrow> emu res" where
  "do_fcmp sf fmt rs2 rs1 op rd s =
     (if fmt = 0 then Inr (s_fcmp sf op rs2 rs1 rd s)
      else if fmt = 2 then Inr (h_fcmp sf op rs2 rs1 rd s)
      else if fmt = 1 then Inr (d_fcmp sf op rs2 rs1 rd s)
      else if fmt = 3 then Inr (q_fcmp sf op rs2 rs1 rd s)
      else Inl ''fcmp: unsupported fmt'')"

definition do_fclass :: "u32 \<Rightarrow> u32 \<Rightarrow> u32 \<Rightarrow> emu \<Rightarrow> emu res" where
  "do_fclass fmt rs1 rd s =
     (if fmt = 0 then Inr (s_fclass rs1 rd s)
      else if fmt = 2 then Inr (h_fclass rs1 rd s)
      else if fmt = 1 then Inr (d_fclass rs1 rd s)
      else if fmt = 3 then Inr (q_fclass rs1 rd s)
      else Inl ''fclass: unsupported fmt'')"

definition insf_r_fma :: "softfloat \<Rightarrow> u32 \<Rightarrow> u32 \<Rightarrow> emu \<Rightarrow> emu res" where
  "insf_r_fma sf ins subop s =
     (let fmt = shr ins 25 AND 3;
          rs3 = shr ins 27 AND 0x1F;
          rs2 = shr ins 20 AND 0x1F;
          rs1 = shr ins 15 AND 0x1F;
          rm = shr ins 12 AND 7;
          rd = shr ins 7 AND 0x1F
      in if fmt = 0 then Inr (s_fma sf subop rs3 rs2 rs1 rm rd s)
         else if fmt = 2 then Inr (h_fma sf subop rs3 rs2 rs1 rm rd s)
         else if fmt = 1 then Inr (d_fma sf subop rs3 rs2 rs1 rm rd s)
         else if fmt = 3 then Inr (q_fma sf subop rs3 rs2 rs1 rm rd s)
         else Inl ''FMA: unsupported fmt'')"

definition fmv_x :: "u32 \<Rightarrow> u32 \<Rightarrow> u32 \<Rightarrow> emu \<Rightarrow> emu res" where
  "fmv_x fmt rs1 rd s =
     (if fmt = 0 then Inr (reg_write rd (fpr_read_s rs1 s) s)
      else if fmt = 2 then Inr (reg_write rd (scast (fpr_read_h rs1 s)) s)
      else if fmt = 1 then Inr (reg_write rd (ucast (fpr_read_d rs1 s)) s)
      else if fmt = 3 then Inr (reg_write rd (ucast (fpr s (2 * rs1))) s)
      else Inl ''fmv.x.*: unsupported fmt'')"

definition fmv_to_fp :: "u32 \<Rightarrow> u32 \<Rightarrow> u32 \<Rightarrow> emu \<Rightarrow> emu res" where
  "fmv_to_fp fmt rs1 rd s =
     (if fmt = 0 then Inr (fpr_write_s rd (reg_read rs1 s) s)
      else if fmt = 2 then Inr (fpr_write_h rd (ucast (reg_read rs1 s)) s)
      else if fmt = 1 then Inr (fpr_write_d rd (ucast (reg_read rs1 s)) s)
      else if fmt = 3 then Inr (fpr_write_q rd (ucast (reg_read rs1 s), 0) s)
      else Inl ''fmv.*.x: unsupported fmt'')"

definition insf_r_fpop :: "softfloat \<Rightarrow> u32 \<Rightarrow> emu \<Rightarrow> emu res" where
  "insf_r_fpop sf ins s =
     (let op = shr ins 27 AND 0x1F;
          fmt = shr ins 25 AND 3;
          rs2 = shr ins 20 AND 0x1F;
          rs1 = shr ins 15 AND 0x1F;
          f3 = shr ins 12 AND 7;
          rd = shr ins 7 AND 0x1F
      in if op = 0 then do_fadd sf fmt rs2 rs1 f3 rd s
         else if op = 1 then do_fsub sf fmt rs2 rs1 f3 rd s
         else if op = 2 then do_fmul sf fmt rs2 rs1 f3 rd s
         else if op = 3 then do_fdiv sf fmt rs2 rs1 f3 rd s
         else if op = 4 then do_fsgnj fmt rs2 rs1 f3 rd s
         else if op = 5 then do_fminmax sf fmt rs2 rs1 f3 rd s
         else if op = 11 then do_fsqrt sf fmt rs1 f3 rd s
         else if op = 20 then do_fcmp sf fmt rs2 rs1 f3 rd s
         else if op = 28 then
           if f3 = 0 then fmv_x fmt rs1 rd s
           else if f3 = 1 then do_fclass fmt rs1 rd s
           else Inl ''FP-OP op=28: invalid funct3''
         else if op = 30 then
           if f3 \<noteq> 0 \<or> rs2 \<noteq> 0 then Inl ''fmv.*.x: invalid f3 rs2'' else fmv_to_fp fmt rs1 rd s
         else if op = 24 then
           (case fcvt_fp_int sf fmt rs2 rs1 f3 s of
              Inl m \<Rightarrow> Inl m | Inr (r, s) \<Rightarrow> Inr (reg_write rd r s))
         else if op = 26 then fcvt_int_fp sf fmt rs2 rs1 f3 rd s
         else if op = 8 then fcvt_fp_fp sf fmt rs2 rs1 f3 rd s
         else Inl ''unsupported FP-OP'')"

end
