(* ===== verification/Fpu_Correct.thy ===== *)
theory Fpu_Correct
  imports Fpu
begin

text \<open>
  Correctness of the floating-point instructions: the locale \<open>float_format\<close> states what a precision
  provides and is interpreted on the four of the code; in it, arithmetic results are canonical and
  minimum and maximum follow the standard. Then classification against IEEE 754 and saturating
  conversions, each for every SoftFloat that meets the stated hypotheses.
\<close>

lemma word16_eq_iff: "(x = (y :: u16)) \<longleftrightarrow> (\<forall>n<16. bit x n = bit y n)"
  by (auto intro: bit_word_eqI)

section \<open>The machine invariant\<close>

lemma emu_inv_fpr_write [simp]:
  "emu_inv (fpr_write_s r v1 s) = emu_inv s" "emu_inv (fpr_write_h r v2 s) = emu_inv s"
  "emu_inv (fpr_write_d r v3 s) = emu_inv s" "emu_inv (fpr_write_q r v4 s) = emu_inv s"
  "emu_inv (or_fcsr x s) = emu_inv s" "emu_inv (snd (sf_call rm call s)) = emu_inv s"
  by (simp_all add: fpr_write_s_def fpr_write_h_def fpr_write_d_def fpr_write_q_def or_fcsr_def sf_call_def
      case_prod_unfold Let_def)

lemma emu_inv_fp_access [inv_rules]:
  assumes "emu_inv s"
  shows "emu_inv (insf_flw a b c s)" "emu_inv (insf_fld a b c s)" "emu_inv (insf_flh a b c s)" "emu_inv (insf_flq a b c s)"
    "emu_inv (insf_fsw a b c s)" "emu_inv (insf_fsd a b c s)" "emu_inv (insf_fsh a b c s)" "emu_inv (insf_fsq a b c s)"
  using assms by (simp_all add: insf_flw_def insf_fld_def insf_flh_def insf_flq_def insf_fsw_def insf_fsd_def
      insf_fsh_def insf_fsq_def Let_def case_prod_unfold inv_rules)

section \<open>What a format provides\<close>

text \<open>
  The contract of a format: a register reads back what was written, the canonical NaN is a
  quiet NaN, a signalling NaN is a NaN, NaNs and infinities exclude each other, and writes reach
  nothing but the floating-point registers.
\<close>

locale float_format =
  fixes F :: "'f fp_format"
  assumes read_write: "fmt_read F r (fmt_write F r v s) = v"
    and write_only_fpr: "\<exists>f. fmt_write F r v s = s\<lparr>fpr := f\<rparr>"
    and write_lanes: "r < 32 \<Longrightarrow> q < 32 \<Longrightarrow> q \<noteq> r \<Longrightarrow> fpr_read_q q (fmt_write F r v s) = fpr_read_q q s"
    and canonical_nan: "fmt_nan F (fmt_canonical F)" "\<not> fmt_snan F (fmt_canonical F)"
    and snan_nan: "fmt_snan F x \<Longrightarrow> fmt_nan F x"
    and inf_not_nan: "fmt_inf F x \<Longrightarrow> \<not> fmt_nan F x"
begin

lemma write_inv: "emu_inv s \<Longrightarrow> emu_inv (fmt_write F r v s)"
  using write_only_fpr [of r v s] by auto

lemma normalized: "fmt_nan F (normalize_nan F x) \<longleftrightarrow> fmt_nan F x" "fmt_nan F x \<Longrightarrow> normalize_nan F x = fmt_canonical F"
  by (simp_all add: normalize_nan_def canonical_nan)

end

lemma ucast_boxed:
  "(ucast (0xFFFFFFFF00000000 OR ucast v :: u64) :: u32) = v"
  "(ucast (0xFFFFFFFFFFFF0000 OR ucast w :: u64) :: u16) = w" for v :: u32 and w :: u16
  by (simp_all add: word32_eq_iff word16_eq_iff all_less_32 all_less_16 all_less_8 bit_simps)

lemma lane_neq:
  assumes "r < 32" "q < 32" "q \<noteq> (r :: u32)"
  shows "2 * q \<noteq> 2 * r" "2 * q \<noteq> 2 * r + 1" "2 * q + 1 \<noteq> 2 * r" "2 * q + 1 \<noteq> 2 * r + 1"
proof -
  have lt: "unat r < 32" "unat q < 32" using assms(1,2) by (simp_all add: word_less_nat_alt)
  have ne: "unat q \<noteq> unat r" using assms(3) by (simp add: word_unat_eq_iff)
  have u: "unat (2 * x) = 2 * unat x" "unat (2 * x + 1) = 2 * unat x + 1" if "unat x < 32" for x :: u32
    using that by (simp_all add: unat_word_ariths)
  show "2 * q \<noteq> 2 * r" "2 * q \<noteq> 2 * r + 1" "2 * q + 1 \<noteq> 2 * r" "2 * q + 1 \<noteq> 2 * r + 1"
    using ne u lt unfolding word_unat_eq_iff by (simp, presburger, presburger, simp)
qed

lemma lane_succ [simp]: "2 * r + 1 \<noteq> 2 * (r :: u32)" "2 * r \<noteq> 2 * r + 1"
  by simp_all

lemma exists_fpr: "\<exists>f. s\<lparr>fpr := g\<rparr> = s\<lparr>fpr := f\<rparr>" for s :: emu
  by blast

interpretation single: float_format fmt_s
  by unfold_locales (auto simp: fmt_s_def fpr_read_s_def fpr_write_s_def ucast_boxed fpr_read_q_def lane_neq
      is_nan_s_def is_signaling_nan_s_def intro: exists_fpr)

interpretation half: float_format fmt_h
  by unfold_locales (auto simp: fmt_h_def fpr_read_h_def fpr_write_h_def ucast_boxed fpr_read_q_def lane_neq
      is_nan_h_def is_signaling_nan_h_def intro: exists_fpr)

interpretation double: float_format fmt_d
  by unfold_locales (auto simp: fmt_d_def fpr_read_d_def fpr_write_d_def fpr_read_q_def lane_neq
      is_nan_d_def is_signaling_nan_d_def intro: exists_fpr)

lemma quad_exponent: "(shr x 48 AND 0x7FFF = 0x7FFF) \<longleftrightarrow> (x AND 0x7FFF000000000000 = 0x7FFF000000000000)" for x :: u64
  by (simp add: word64_bits bit_simps)

interpretation quad: float_format fmt_q
  by unfold_locales (auto simp: fmt_q_def fpr_read_q_def fpr_write_q_def lane_neq
      is_nan_q_def is_signaling_nan_q_def Let_def quad_exponent intro: exists_fpr split: if_splits)

context float_format
begin

lemma inv_arith [inv_rules]:
  assumes "emu_inv s"
  shows "emu_inv (fp_binop F fn rs2 rs1 rm rd s)" "emu_inv (fp_sqrt F ops rs1 rm rd s)"
    "emu_inv (fp_cmp F ops op rs2 rs1 rd s)" "emu_inv (fp_fma F ops subop rs3 rs2 rs1 rm rd s)"
    "emu_inv (fp_minmax_ins F (fp_minmax F pick) rs2 rs1 rd s)"
  using assms by (simp_all add: fp_binop_def fp_sqrt_def fp_cmp_def fp_fma_def fp_minmax_ins_def fp_minmax_def
      Let_def case_prod_unfold write_inv inv_rules)

end

lemmas format_inv = single.inv_arith half.inv_arith double.inv_arith quad.inv_arith

lemmas s_ops = s_add_def s_sub_def s_mul_def s_div_def s_sqrt_def s_fmin_def s_fmax_def s_fclass_def s_fcmp_def
  s_fma_def rv_fmin_s_def rv_fmax_s_def
lemmas h_ops = h_add_def h_sub_def h_mul_def h_div_def h_sqrt_def h_fmin_def h_fmax_def h_fclass_def h_fcmp_def
  h_fma_def rv_fmin_h_def rv_fmax_h_def
lemmas d_ops = d_add_def d_sub_def d_mul_def d_div_def d_sqrt_def d_fmin_def d_fmax_def d_fclass_def d_fcmp_def
  d_fma_def rv_fmin_d_def rv_fmax_d_def
lemmas q_ops = q_binop_def q_sqrt_def q_fmin_def q_fmax_def q_fclass_def q_fcmp_def q_fma_def rv_fmin_q_def rv_fmax_q_def

lemma keeps_inv_if [simp]: "keeps_inv (if b then x else y) = (if b then keeps_inv x else keeps_inv y)"
  by simp

lemma keeps_inv_arith [inv_rules]:
  assumes "emu_inv s"
  shows "keeps_inv (do_fadd sf fmt rs2 rs1 rm rd s)" "keeps_inv (do_fsub sf fmt rs2 rs1 rm rd s)"
    "keeps_inv (do_fmul sf fmt rs2 rs1 rm rd s)" "keeps_inv (do_fdiv sf fmt rs2 rs1 rm rd s)"
    "keeps_inv (do_fsqrt sf fmt rs1 rm rd s)" "keeps_inv (do_fcmp sf fmt rs2 rs1 rm rd s)"
    "keeps_inv (do_fminmax sf fmt rs2 rs1 rm rd s)"
    "keeps_inv (do_fclass fmt rs1 rd s)" "keeps_inv (insf_r_fma sf ins subop s)"
  using assms by (simp_all add: do_fadd_def do_fsub_def do_fmul_def do_fdiv_def do_fsqrt_def do_fcmp_def do_fminmax_def
      do_fclass_def insf_r_fma_def Let_def s_ops h_ops d_ops q_ops format_inv inv_rules)

lemma keeps_inv_moves [inv_rules]:
  assumes "emu_inv s"
  shows "keeps_inv (do_fsgnj fmt rs2 rs1 op rd s)" "keeps_inv (fmv_x fmt rs1 rd s)" "keeps_inv (fmv_to_fp fmt rs1 rd s)"
    "keeps_inv (fcvt_int_fp sf fmt kind rs1 rm rd s)" "keeps_inv (fcvt_fp_fp sf dfmt sfmt rs1 rm rd s)"
  using assms by (simp_all add: do_fsgnj_def s_fsgnj_def h_fsgnj_def d_fsgnj_def q_fsgnj_def fmv_x_def fmv_to_fp_def
      fcvt_int_fp_def fcvt_fp_fp_def fcvt_to_def Let_def case_prod_unfold inv_rules)

lemma keeps_inv_fpop [inv_rules]:
  assumes "emu_inv s"
  shows "keeps_inv (insf_r_fpop sf ins s)"
proof -
  have "keeps_inv (case fcvt_fp_int sf fmt kind rs1 rm s of Inl m \<Rightarrow> Inl m | Inr (r, t) \<Rightarrow> Inr (reg_write rd r t))"
    for fmt kind rs1 rm rd
    using assms by (simp add: fcvt_fp_int_def sf_call_def Let_def case_prod_unfold inv_rules)
  then show ?thesis using assms unfolding insf_r_fpop_def Let_def by (simp add: inv_rules)
qed

section \<open>Arithmetic results\<close>

text \<open>
  What an arithmetic instruction may do: the result is no NaN but the canonical one, the flags only
  accumulate, and every other floating-point register, the integer registers, memory and
  \<open>pc\<close> are unchanged.
\<close>

definition fp_result :: "'f fp_format \<Rightarrow> u32 \<Rightarrow> emu \<Rightarrow> emu \<Rightarrow> bool" where
  "fp_result F rd s t \<longleftrightarrow>
     (fmt_nan F (fmt_read F rd t) \<longrightarrow> fmt_read F rd t = fmt_canonical F) \<and>
     (\<forall>q<32. q \<noteq> rd \<longrightarrow> fpr_read_q q t = fpr_read_q q s) \<and>
     (\<forall>n. bit (fcsr s) n \<longrightarrow> bit (fcsr t) n) \<and>
     gpr t = gpr s \<and> main_memory t = main_memory s \<and> pc t = pc s"

definition fp_result_of :: "u32 \<Rightarrow> u32 \<Rightarrow> emu \<Rightarrow> emu \<Rightarrow> bool" where
  "fp_result_of fmt rd s t \<longleftrightarrow>
     (if fmt = 0 then fp_result fmt_s rd s t \<and> fpr t (2 * rd) AND 0xFFFFFFFF00000000 = 0xFFFFFFFF00000000
      else if fmt = 2 then fp_result fmt_h rd s t \<and> fpr t (2 * rd) AND 0xFFFFFFFFFFFF0000 = 0xFFFFFFFFFFFF0000
      else if fmt = 1 then fp_result fmt_d rd s t \<and> fpr t (2 * rd + 1) = 0xFFFFFFFFFFFFFFFF
      else fp_result fmt_q rd s t)"

lemma or_fcsr_fields [simp]:
  "fpr (or_fcsr x s) = fpr s" "gpr (or_fcsr x s) = gpr s" "main_memory (or_fcsr x s) = main_memory s"
  "pc (or_fcsr x s) = pc s" "fcsr (or_fcsr x s) = fcsr s OR x" "fpr_read_q r (or_fcsr x s) = fpr_read_q r s"
  by (simp_all add: or_fcsr_def fpr_read_q_def)

context float_format
begin

lemma written_result:
  assumes "rd < 32"
  shows "fp_result F rd s (fmt_write F rd (normalize_nan F r) (or_fcsr fl s))"
proof -
  obtain f where f: "fmt_write F rd (normalize_nan F r) (or_fcsr fl s) = (or_fcsr fl s)\<lparr>fpr := f\<rparr>"
    using write_only_fpr by blast
  have "fpr_read_q q (fmt_write F rd (normalize_nan F r) (or_fcsr fl s)) = fpr_read_q q s" if "q < 32" "q \<noteq> rd" for q
    using write_lanes [OF assms that] by simp
  moreover have "gpr (fmt_write F rd (normalize_nan F r) (or_fcsr fl s)) = gpr s"
    "main_memory (fmt_write F rd (normalize_nan F r) (or_fcsr fl s)) = main_memory s"
    "pc (fmt_write F rd (normalize_nan F r) (or_fcsr fl s)) = pc s"
    "fcsr (fmt_write F rd (normalize_nan F r) (or_fcsr fl s)) = fcsr s OR fl"
    unfolding f by simp_all
  ultimately show ?thesis by (auto simp: fp_result_def read_write normalized bit_simps)
qed

end

lemma and_3_cases: "x AND 3 = 0 \<or> x AND 3 = 1 \<or> x AND 3 = 2 \<or> x AND 3 = (3 :: u32)"
proof -
  have "unat (x AND 3) \<le> 3" using word_and_le1 [of x 3] by (simp add: word_le_nat_alt)
  then have "unat (x AND 3) \<in> {0, 1, 2, 3}" by auto
  then show ?thesis by (auto simp: word_unat_eq_iff)
qed

lemma boxed_result:
  assumes "rd < 32"
  shows "fp_result_of 0 rd s (fmt_write fmt_s rd (normalize_nan fmt_s r1) (or_fcsr fl s))"
    "fp_result_of 1 rd s (fmt_write fmt_d rd (normalize_nan fmt_d r2) (or_fcsr fl s))"
    "fp_result_of 2 rd s (fmt_write fmt_h rd (normalize_nan fmt_h r3) (or_fcsr fl s))"
    "fp_result_of 3 rd s (fmt_write fmt_q rd (normalize_nan fmt_q r4) (or_fcsr fl s))"
proof -
  have box: "(0xFFFFFFFF00000000 OR x) AND 0xFFFFFFFF00000000 = (0xFFFFFFFF00000000 :: u64)"
    "(0xFFFFFFFFFFFF0000 OR x) AND 0xFFFFFFFFFFFF0000 = (0xFFFFFFFFFFFF0000 :: u64)" for x
    by (simp_all add: word64_bits bit_simps)
  have "fpr (fmt_write fmt_s rd v s) (2 * rd) AND 0xFFFFFFFF00000000 = 0xFFFFFFFF00000000"
    "fpr (fmt_write fmt_h rd w s) (2 * rd) AND 0xFFFFFFFFFFFF0000 = 0xFFFFFFFFFFFF0000"
    "fpr (fmt_write fmt_d rd x s) (2 * rd + 1) = 0xFFFFFFFFFFFFFFFF" for v w x s
    by (simp_all add: fmt_s_def fmt_h_def fmt_d_def fpr_write_s_def fpr_write_h_def fpr_write_d_def box)
  then show "fp_result_of 0 rd s (fmt_write fmt_s rd (normalize_nan fmt_s r1) (or_fcsr fl s))"
    "fp_result_of 1 rd s (fmt_write fmt_d rd (normalize_nan fmt_d r2) (or_fcsr fl s))"
    "fp_result_of 2 rd s (fmt_write fmt_h rd (normalize_nan fmt_h r3) (or_fcsr fl s))"
    "fp_result_of 3 rd s (fmt_write fmt_q rd (normalize_nan fmt_q r4) (or_fcsr fl s))"
    using single.written_result [OF assms] double.written_result [OF assms] half.written_result [OF assms]
      quad.written_result [OF assms] by (simp_all add: fp_result_of_def)
qed

lemma boxed_arith:
  assumes "rd < 32"
  shows "fp_result_of 0 rd s (fp_binop fmt_s f1 rs2 rs1 rm rd s)" "fp_result_of 1 rd s (fp_binop fmt_d f2 rs2 rs1 rm rd s)"
    "fp_result_of 2 rd s (fp_binop fmt_h f3 rs2 rs1 rm rd s)" "fp_result_of 3 rd s (fp_binop fmt_q f4 rs2 rs1 rm rd s)"
    "fp_result_of 0 rd s (fp_sqrt fmt_s o1 rs1 rm rd s)" "fp_result_of 1 rd s (fp_sqrt fmt_d o2 rs1 rm rd s)"
    "fp_result_of 2 rd s (fp_sqrt fmt_h o3 rs1 rm rd s)" "fp_result_of 3 rd s (fp_sqrt fmt_q o4 rs1 rm rd s)"
    "fp_result_of 0 rd s (fp_fma fmt_s o1 subop rs3 rs2 rs1 rm rd s)"
    "fp_result_of 1 rd s (fp_fma fmt_d o2 subop rs3 rs2 rs1 rm rd s)"
    "fp_result_of 2 rd s (fp_fma fmt_h o3 subop rs3 rs2 rs1 rm rd s)"
    "fp_result_of 3 rd s (fp_fma fmt_q o4 subop rs3 rs2 rs1 rm rd s)"
  using boxed_result [OF assms]
  by (simp_all add: fp_binop_def fp_sqrt_def fp_fma_def sf_call_def Let_def case_prod_unfold)

lemma arith_results:
  assumes "rd < 32"
  shows "\<exists>t. do_fadd sf (x AND 3) rs2 rs1 rm rd s = Inr t \<and> fp_result_of (x AND 3) rd s t"
    "\<exists>t. do_fsub sf (x AND 3) rs2 rs1 rm rd s = Inr t \<and> fp_result_of (x AND 3) rd s t"
    "\<exists>t. do_fmul sf (x AND 3) rs2 rs1 rm rd s = Inr t \<and> fp_result_of (x AND 3) rd s t"
    "\<exists>t. do_fdiv sf (x AND 3) rs2 rs1 rm rd s = Inr t \<and> fp_result_of (x AND 3) rd s t"
    "\<exists>t. do_fsqrt sf (x AND 3) rs1 rm rd s = Inr t \<and> fp_result_of (x AND 3) rd s t"
  unfolding do_fadd_def do_fsub_def do_fmul_def do_fdiv_def do_fsqrt_def s_ops h_ops d_ops q_ops
  by (rule disjE [OF and_3_cases [of x]]; (elim disjE)?; simp add: boxed_arith [OF assms])+

text \<open>
  C35. Every arithmetic floating-point instruction (FADD, FSUB, FMUL, FDIV and FSQRT, which the upper five bits of
  the register group select, and the four FMAs with any third source) in every precision, whatever SoftFloat
  returns, writes a NaN-boxed result that is no NaN but the canonical one, only ever adds to fflags, and changes no
  other register, no memory and not \<open>pc\<close>.
\<close>

theorem fp_arith_result:
  "(shr ins 27 AND 0x1F \<in> {0, 1, 2, 3, 11} \<longrightarrow>
      (\<exists>t. insf_r_fpop sf ins s = Inr t \<and> fp_result_of (shr ins 25 AND 3) (get_rd ins) s t)) \<and>
    (\<exists>t. insf_r_fma sf ins subop s = Inr t \<and> fp_result_of (shr ins 25 AND 3) (get_rd ins) s t)"
proof -
  have rd: "get_rd ins < 32" unfolding get_rd_def by (rule and_mask_bound) simp
  have "\<exists>t. insf_r_fma sf ins subop s = Inr t \<and> fp_result_of (shr ins 25 AND 3) (get_rd ins) s t"
    unfolding insf_r_fma_def Let_def s_ops h_ops d_ops q_ops get_rd_def [symmetric]
    by (rule disjE [OF and_3_cases [of "shr ins 25"]]; (elim disjE)?; simp add: boxed_arith [OF rd])
  moreover have "\<exists>t. insf_r_fpop sf ins s = Inr t \<and> fp_result_of (shr ins 25 AND 3) (get_rd ins) s t"
    if "shr ins 27 AND 0x1F \<in> {0, 1, 2, 3, 11}"
    using that arith_results [OF rd] unfolding insf_r_fpop_def Let_def get_rd_def [symmetric] by auto
  ultimately show ?thesis by blast
qed

section \<open>Minimum and maximum\<close>

text \<open>What the code relies on of SoftFloat's comparisons: on numbers they are those of a linear order.\<close>

definition ieee_order :: "'f fp_format \<Rightarrow> 'f sf_ops \<Rightarrow> ('f \<Rightarrow> 'v::linorder) \<Rightarrow> bool" where
  "ieee_order F ops val \<longleftrightarrow>
     (\<forall>a b. \<not> fmt_nan F a \<longrightarrow> \<not> fmt_nan F b \<longrightarrow>
        (sf_eq ops a b \<longleftrightarrow> val a = val b) \<and> (sf_lt ops a b \<longleftrightarrow> val a < val b))"

text \<open>
  The minimum and the maximum of the standard: NaN operands lose against numbers, of two NaNs the
  result is canonical, equal operands are told apart by their sign, signalling NaNs raise NV.
\<close>

definition minmax_spec ::
  "'f fp_format \<Rightarrow> ('f \<Rightarrow> 'v::linorder) \<Rightarrow> ('f \<Rightarrow> 'f \<Rightarrow> emu \<Rightarrow> 'f \<times> emu) \<Rightarrow> ('f \<Rightarrow> 'f \<Rightarrow> emu \<Rightarrow> 'f \<times> emu) \<Rightarrow> bool" where
  "minmax_spec F val mn mx \<longleftrightarrow> (\<forall>a b s.
     let lo = fst (mn a b s); hi = fst (mx a b s); nv = fmt_snan F a \<or> fmt_snan F b
     in snd (mn a b s) = (if nv then or_fcsr NV s else s) \<and> snd (mx a b s) = snd (mn a b s) \<and>
        (if fmt_nan F a \<and> fmt_nan F b then lo = fmt_canonical F \<and> hi = fmt_canonical F
         else if fmt_nan F a then lo = b \<and> hi = b
         else if fmt_nan F b then lo = a \<and> hi = a
         else {lo, hi} = {a, b} \<and> val lo = min (val a) (val b) \<and> val hi = max (val a) (val b) \<and>
           (val a = val b \<longrightarrow> fmt_sign F lo = (fmt_sign F a \<or> fmt_sign F b) \<and> fmt_sign F hi = (fmt_sign F a \<and> fmt_sign F b))))"

context float_format
begin

lemma minmax_meets_spec:
  assumes "ieee_order F ops val"
  shows "minmax_spec F val (fp_minmax F (fmin_first F ops)) (fp_minmax F (fmax_first F ops))"
  unfolding minmax_spec_def
proof (intro allI)
  fix a b s
  have ord: "sf_eq ops a b \<longleftrightarrow> val a = val b" "sf_lt ops a b \<longleftrightarrow> val a < val b" if "\<not> fmt_nan F a" "\<not> fmt_nan F b"
    using assms that by (simp_all add: ieee_order_def)
  show "let lo = fst (fp_minmax F (fmin_first F ops) a b s); hi = fst (fp_minmax F (fmax_first F ops) a b s);
        nv = fmt_snan F a \<or> fmt_snan F b
     in snd (fp_minmax F (fmin_first F ops) a b s) = (if nv then or_fcsr NV s else s) \<and>
        snd (fp_minmax F (fmax_first F ops) a b s) = snd (fp_minmax F (fmin_first F ops) a b s) \<and>
        (if fmt_nan F a \<and> fmt_nan F b then lo = fmt_canonical F \<and> hi = fmt_canonical F
         else if fmt_nan F a then lo = b \<and> hi = b
         else if fmt_nan F b then lo = a \<and> hi = a
         else {lo, hi} = {a, b} \<and> val lo = min (val a) (val b) \<and> val hi = max (val a) (val b) \<and>
           (val a = val b \<longrightarrow> fmt_sign F lo = (fmt_sign F a \<or> fmt_sign F b) \<and> fmt_sign F hi = (fmt_sign F a \<and> fmt_sign F b)))"
    using snan_nan [of a] snan_nan [of b] ord
    by (cases "fmt_nan F a"; cases "fmt_nan F b") (auto simp: fp_minmax_def Let_def fmin_first_def fmax_first_def)
qed

end

text \<open>
  C36. FMIN and FMAX in the four precisions are the minimum and the maximum of the standard, for every
  SoftFloat whose comparisons order the numbers.
\<close>

theorem fmin_fmax_correct:
  assumes "ieee_order fmt_s (f32 sf) v1" and "ieee_order fmt_h (f16 sf) v2"
    and "ieee_order fmt_d (f64 sf) v3" and "ieee_order fmt_q (f128M sf) v4"
  shows "minmax_spec fmt_s v1 (rv_fmin_s sf) (rv_fmax_s sf) \<and> minmax_spec fmt_h v2 (rv_fmin_h sf) (rv_fmax_h sf) \<and>
    minmax_spec fmt_d v3 (rv_fmin_d sf) (rv_fmax_d sf) \<and> minmax_spec fmt_q v4 (rv_fmin_q sf) (rv_fmax_q sf)"
  unfolding s_ops h_ops d_ops q_ops
  using single.minmax_meets_spec [OF assms(1)] half.minmax_meets_spec [OF assms(2)]
    double.minmax_meets_spec [OF assms(3)] quad.minmax_meets_spec [OF assms(4)] by simp

text \<open>
  A SoftFloat for the examples: values are compared as sign and magnitude, which is the order of the
  standard; the arithmetic is a stand-in that returns its first operand and raises no flag, and the
  conversions to integers return the sign and magnitude.
\<close>

definition sign_magnitude :: "'a::len word \<Rightarrow> int" where
  "sign_magnitude x = (let m = uint (take_bit (LENGTH('a) - 1) x) in if bit x (LENGTH('a) - 1) then - m else m)"

definition order_ops :: "('f \<Rightarrow> int) \<Rightarrow> 'f \<Rightarrow> 'f sf_ops" where
  "order_ops val z = \<lparr>sf_add = (\<lambda>m a b. (a, 0)), sf_sub = (\<lambda>m a b. (a, 0)), sf_mul = (\<lambda>m a b. (a, 0)), sf_div = (\<lambda>m a b. (a, 0)),
     sf_sqrt = (\<lambda>m a. (a, 0)), sf_mulAdd = (\<lambda>m a b c. (a, 0)), sf_eq = (\<lambda>a b. val a = val b),
     sf_lt = (\<lambda>a b. val a < val b), sf_le = (\<lambda>a b. val a \<le> val b),
     sf_to_i32 = (\<lambda>m a. (word_of_int (val a), if - (2 ^ 31) \<le> val a \<and> val a < 2 ^ 31 then 0 else NV)),
     sf_to_ui32 = (\<lambda>m a. (word_of_int (val a), if 0 \<le> val a \<and> val a < 2 ^ 32 then 0 else NV)),
     sf_to_i64 = (\<lambda>m a. (word_of_int (val a), 0)), sf_to_ui64 = (\<lambda>m a. (word_of_int (val a), 0)),
     sf_of_i32 = (\<lambda>m a. (z, 0)), sf_of_ui32 = (\<lambda>m a. (z, 0)), sf_of_i64 = (\<lambda>m a. (z, 0)), sf_of_ui64 = (\<lambda>m a. (z, 0))\<rparr>"

definition sign_magnitude_q :: "float128 \<Rightarrow> int" where
  "sign_magnitude_q x =
     (let m = uint (take_bit 63 (snd x)) * 2 ^ 64 + uint (fst x) in if bit (snd x) 63 then - m else m)"

lemma sign_magnitude_signs:
  "sign_magnitude x < 0 \<Longrightarrow> bit x (LENGTH('a) - 1)" "0 < sign_magnitude x \<Longrightarrow> \<not> bit x (LENGTH('a) - 1)"
  "sign_magnitude_q q < 0 \<Longrightarrow> bit (snd q) 63" "0 < sign_magnitude_q q \<Longrightarrow> \<not> bit (snd q) 63" for x :: "'a::len word"
proof -
  define m where "m = uint (take_bit 63 (snd q)) * 2 ^ 64 + uint (fst q)"
  have "0 \<le> m" unfolding m_def by (intro add_nonneg_nonneg mult_nonneg_nonneg) simp_all
  then show "sign_magnitude_q q < 0 \<Longrightarrow> bit (snd q) 63" "0 < sign_magnitude_q q \<Longrightarrow> \<not> bit (snd q) 63"
    unfolding sign_magnitude_q_def Let_def m_def [symmetric] by (simp_all split: if_splits)
qed (simp_all add: sign_magnitude_def Let_def split: if_splits)

definition order_softfloat :: softfloat where
  "order_softfloat = \<lparr>f16 = order_ops sign_magnitude 0, f32 = order_ops sign_magnitude 0,
     f64 = order_ops sign_magnitude 0, f128M = order_ops sign_magnitude_q (0, 0),
     f16_to_f32 = (\<lambda>m a. (0, 0)), f64_to_f32 = (\<lambda>m a. (0, 0)), f128M_to_f32 = (\<lambda>m a. (0, 0)),
     f32_to_f64 = (\<lambda>m a. (0, 0)), f128M_to_f64 = (\<lambda>m a. (0, 0)), f16_to_f64 = (\<lambda>m a. (0, 0)),
     f32_to_f128M = (\<lambda>a. (0, 0)), f64_to_f128M = (\<lambda>a. (0, 0)), f16_to_f128M = (\<lambda>a. (0, 0)),
     f32_to_f16 = (\<lambda>m a. (0, 0)), f64_to_f16 = (\<lambda>m a. (0, 0)), f128M_to_f16 = (\<lambda>m a. (0, 0))\<rparr>"

lemma order_ops_order: "ieee_order F (order_ops val z) val"
  by (simp add: ieee_order_def order_ops_def)

theorem fp_arith_result_witness:
  "(\<exists>t. insf_r_fpop order_softfloat 0x00208053 (reset_state 0) = Inr t \<and> fp_result_of 0 0 (reset_state 0) t) \<and>
   (\<exists>t. insf_r_fma order_softfloat 0x28208043 0 (reset_state 0) = Inr t \<and> fp_result_of 0 0 (reset_state 0) t)"
  using fp_arith_result [of "0x00208053" order_softfloat "reset_state 0" 0]
    fp_arith_result [of "0x28208043" order_softfloat "reset_state 0" 0] by (simp add: get_rd_def)

theorem fmin_fmax_correct_witness:
  "fst (rv_fmin_s order_softfloat 0x3F800000 0xBF800000 (reset_state 0)) = 0xBF800000"
proof -
  have "minmax_spec fmt_s sign_magnitude (rv_fmin_s order_softfloat) (rv_fmax_s order_softfloat)"
    using fmin_fmax_correct [of order_softfloat sign_magnitude sign_magnitude sign_magnitude sign_magnitude_q]
    by (simp add: order_softfloat_def order_ops_order)
  then have "let lo = fst (rv_fmin_s order_softfloat 0x3F800000 0xBF800000 (reset_state 0))
    in lo \<in> {0x3F800000, 0xBF800000} \<and>
       sign_magnitude lo = min (sign_magnitude (0x3F800000 :: u32)) (sign_magnitude (0xBF800000 :: u32))"
    unfolding minmax_spec_def Let_def
    by (elim allE [of _ "0x3F800000"] allE [of _ "0xBF800000"] allE [of _ "reset_state 0"])
      (auto simp: fmt_s_def is_nan_s_def)
  then show ?thesis by (auto simp: Let_def sign_magnitude_def)
qed

lemma fmt_sign_bits:
  "fmt_sign fmt_s a = bit a 31" "fmt_sign fmt_h b = bit b 15" "fmt_sign fmt_d c = bit c 63" "fmt_sign fmt_q q = bit (snd q) 63"
  by (simp_all add: fmt_s_def fmt_h_def fmt_d_def fmt_q_def word32_bits word64_bits word16_eq_iff bit_simps)

section \<open>Classification\<close>

text \<open>
  The class of an IEEE 754 bit pattern with \<open>eb\<close> exponent and \<open>mb\<close> fraction bits, numbered as FCLASS
  does: negative infinity, normal, subnormal, zero (0 to 3), the positive ones (4 to 7), signalling
  NaN (8), quiet NaN (9).
\<close>

definition ieee_class :: "nat \<Rightarrow> nat \<Rightarrow> nat \<Rightarrow> nat" where
  "ieee_class eb mb n =
     (let sign = odd (n div 2 ^ (eb + mb)); e = n div 2 ^ mb mod 2 ^ eb; m = n mod 2 ^ mb
      in if e = 2 ^ eb - 1 then
           if m = 0 then (if sign then 0 else 7)
           else if 2 ^ (mb - 1) \<le> m then 9 else 8
         else if e = 0 then
           if m = 0 then (if sign then 3 else 4)
           else (if sign then 2 else 5)
         else (if sign then 1 else 6))"

text \<open>Fields of a word as numbers.\<close>

lemma field_unat: "unat (shr x k AND mask n) = unat x div 2 ^ k mod 2 ^ n" for x :: "'a::len word"
proof -
  have "unat (take_bit n (shr x k)) = take_bit n (drop_bit k (unat x))"
    by (rule bit_eqI) (auto simp: bit_simps bit_unsigned_iff dest: bit_imp_le_length)
  then show ?thesis by (simp only: take_bit_eq_mask [symmetric] take_bit_eq_mod drop_bit_eq_div)
qed

lemma low_unat: "unat (x AND mask n) = unat x mod 2 ^ n" for x :: "'a::len word"
  using field_unat [of 0 x n] by simp

lemma high_half: "2 ^ k \<le> n mod 2 ^ Suc k \<longleftrightarrow> bit n k" for n k :: nat
  unfolding take_bit_eq_mod [symmetric] take_bit_Suc_from_most
  by (cases "bit n k") (simp_all add: not_le)

lemma field_tests:
  fixes x :: "'a::len word"
  assumes "n \<le> LENGTH('a)"
  shows "(shr x k AND mask n = mask n) \<longleftrightarrow> unat x div 2 ^ k mod 2 ^ n = 2 ^ n - 1"
    "(shr x k AND mask n = 0) \<longleftrightarrow> unat x div 2 ^ k mod 2 ^ n = 0"
    "(x AND mask n = 0) \<longleftrightarrow> unat x mod 2 ^ n = 0"
proof -
  have "unat (mask n :: 'a word) = mask n"
    by (rule bit_eqI) (use assms in \<open>auto simp: bit_simps bit_unsigned_iff\<close>)
  also have "\<dots> = 2 ^ n - 1" by (rule mask_eq_exp_minus_1)
  finally show "(shr x k AND mask n = mask n) \<longleftrightarrow> unat x div 2 ^ k mod 2 ^ n = 2 ^ n - 1"
    by (simp only: word_unat_eq_iff field_unat)
  show "(shr x k AND mask n = 0) \<longleftrightarrow> unat x div 2 ^ k mod 2 ^ n = 0"
    by (simp only: word_unat_eq_iff field_unat unsigned_0)
  show "(x AND mask n = 0) \<longleftrightarrow> unat x mod 2 ^ n = 0"
    by (simp only: word_unat_eq_iff low_unat unsigned_0)
qed

lemma class_of_word:
  fixes x :: "'a::len word"
  assumes "LENGTH('a) = eb + Suc mb + 1"
  shows "ieee_class eb (Suc mb) (unat x) =
    (if shr x (Suc mb) AND mask eb = mask eb then
       if x AND mask (Suc mb) = 0 then (if bit x (eb + Suc mb) then 0 else 7) else if bit x mb then 9 else 8
     else if shr x (Suc mb) AND mask eb = 0 then
       if x AND mask (Suc mb) = 0 then (if bit x (eb + Suc mb) then 3 else 4)
       else (if bit x (eb + Suc mb) then 2 else 5)
     else (if bit x (eb + Suc mb) then 1 else 6))"
proof -
  have le: "eb \<le> LENGTH('a)" "Suc mb \<le> LENGTH('a)" using assms by simp_all
  have "odd (unat x div 2 ^ (eb + Suc mb)) \<longleftrightarrow> bit x (eb + Suc mb)"
    using bit_unsigned_iff [where ?'a = nat, of x "eb + Suc mb"] by (simp add: bit_iff_odd)
  moreover have "2 ^ mb \<le> unat x mod 2 ^ Suc mb \<longleftrightarrow> bit x mb"
    using bit_unsigned_iff [where ?'a = nat, of x mb] unfolding high_half by simp
  ultimately show ?thesis
    by (simp only: ieee_class_def Let_def field_tests(1,2) [OF le(1)] field_tests(3) [OF le(2), of x] diff_Suc_1)
qed

lemma quad_fields:
  fixes hi lo :: u64
  shows "(unat hi * 2 ^ 64 + unat lo) div 2 ^ 127 = unat hi div 2 ^ 63"
    "(unat hi * 2 ^ 64 + unat lo) div 2 ^ 112 = unat hi div 2 ^ 48"
    "(unat hi * 2 ^ 64 + unat lo) mod 2 ^ 112 = (unat hi mod 2 ^ 48) * 2 ^ 64 + unat lo"
proof -
  have lo: "unat lo < 2 ^ 64" using unsigned_less [of lo] by simp
  have d: "(unat hi * 2 ^ 64 + unat lo) div 2 ^ 64 = unat hi" using lo by simp
  have "(2 :: nat) ^ 127 = 2 ^ 64 * 2 ^ 63" "(2 :: nat) ^ 112 = 2 ^ 64 * 2 ^ 48" by simp_all
  then show "(unat hi * 2 ^ 64 + unat lo) div 2 ^ 127 = unat hi div 2 ^ 63"
    "(unat hi * 2 ^ 64 + unat lo) div 2 ^ 112 = unat hi div 2 ^ 48"
    "(unat hi * 2 ^ 64 + unat lo) mod 2 ^ 112 = (unat hi mod 2 ^ 48) * 2 ^ 64 + unat lo"
    using lo by (simp_all only: div_mult2_eq mod_mult2_eq d) simp_all
qed

lemma fclass_words:
  "fclass_h h = 2 ^ ieee_class 5 10 (unat h)" "fclass_s x = 2 ^ ieee_class 8 23 (unat x)"
  "fclass_d d = 2 ^ ieee_class 11 52 (unat d)"
proof -
  have m: "mask 5 = (0x1F :: u16)" "mask 10 = (0x3FF :: u16)" "mask 8 = (0xFF :: u32)" "mask 23 = (0x7FFFFF :: u32)"
    "mask 11 = (0x7FF :: u64)" "mask 52 = (0xFFFFFFFFFFFFF :: u64)" by (simp_all add: mask_eq_exp_minus_1)
  have h: "(h AND 0x3FF) AND 0x200 = 0 \<longleftrightarrow> \<not> bit h 9" "(shr h 15 AND 1 = 0) \<longleftrightarrow> \<not> bit h 15"
    by (simp_all add: word16_eq_iff all_less_16 all_less_8 bit_simps)
  have x: "(x AND 0x7FFFFF) AND 0x400000 = 0 \<longleftrightarrow> \<not> bit x 22" "(shr x 31 AND 1 = 0) \<longleftrightarrow> \<not> bit x 31"
    by (simp_all add: word32_bits bit_simps)
  have d: "(d AND 0xFFFFFFFFFFFFF) AND 0x8000000000000 = 0 \<longleftrightarrow> \<not> bit d 51" "(shr d 63 AND 1 = 0) \<longleftrightarrow> \<not> bit d 63"
    by (simp_all add: word64_bits bit_simps)
  show "fclass_h h = 2 ^ ieee_class 5 10 (unat h)"
    using class_of_word [of 5 9 h] unfolding fclass_h_def Let_def h by (simp add: m)
  show "fclass_s x = 2 ^ ieee_class 8 23 (unat x)"
    using class_of_word [of 8 22 x] unfolding fclass_s_def Let_def x by (simp add: m)
  show "fclass_d d = 2 ^ ieee_class 11 52 (unat d)"
    using class_of_word [of 11 51 d] unfolding fclass_d_def Let_def d by (simp add: m)
qed

lemma scaled_le: "l < N \<Longrightarrow> a * N \<le> c * N + l \<longleftrightarrow> a \<le> c" for a c l N :: nat
proof
  assume l: "l < N" and le: "a * N \<le> c * N + l"
  from le l have "a * N < Suc c * N" by simp
  then show "a \<le> c" by (simp only: mult_less_cancel2 less_Suc_eq_le)
qed (simp add: trans_le_add1)

lemma quad_half: "(2 :: nat) ^ (112 - 1) \<le> (unat hi mod 2 ^ 48) * 2 ^ 64 + unat lo \<longleftrightarrow> 2 ^ 47 \<le> unat hi mod 2 ^ Suc 47"
  for hi lo :: u64
proof -
  have lo: "unat lo < 2 ^ 64" using unsigned_less [of lo] by simp
  have e: "(2 :: nat) ^ (112 - 1) = 2 ^ 47 * 2 ^ 64" "Suc 47 = 48" by simp_all
  show ?thesis unfolding e by (rule scaled_le [OF lo])
qed

lemma fclass_quad: "fclass_q (lo, hi) = 2 ^ ieee_class 15 112 (unat hi * 2 ^ 64 + unat lo)"
proof -
  have m: "mask 15 = (0x7FFF :: u64)" "mask 48 = (0x0000FFFFFFFFFFFF :: u64)" by (simp_all add: mask_eq_exp_minus_1)
  have b: "(shr hi 63 AND 1 = 0) \<longleftrightarrow> \<not> bit hi 63" "((hi AND 0x0000FFFFFFFFFFFF) AND shl 1 47 = 0) \<longleftrightarrow> \<not> bit hi 47"
    by (simp_all add: word64_bits bit_simps)
  have u: "odd (unat hi div 2 ^ 63) \<longleftrightarrow> bit hi 63" "2 ^ 47 \<le> unat hi mod 2 ^ Suc 47 \<longleftrightarrow> bit hi 47"
    using bit_unsigned_iff [where ?'a = nat, of hi 63] bit_unsigned_iff [where ?'a = nat, of hi 47]
    unfolding high_half by (simp_all add: bit_iff_odd)
  have z: "(lo = 0) \<longleftrightarrow> unat lo = 0" by (simp add: word_unat_eq_iff)
  have half: "(2 :: nat) ^ (112 - 1) \<le> (unat hi mod 2 ^ 48) * 2 ^ 64 + unat lo \<longleftrightarrow> 2 ^ 47 \<le> unat hi mod 2 ^ Suc 47"
    by (rule quad_half)
  have e: "(2 :: nat) ^ (15 + 112) = 2 ^ 127" by simp
  show ?thesis
    unfolding ieee_class_def Let_def e quad_fields half u
      fclass_q_def fst_conv snd_conv b
    unfolding m [symmetric] z
    using field_tests(1,2) [where n = 15 and k = 48 and x = hi] field_tests(3) [where n = 48 and x = hi] by simp
qed

lemma exponent_tests:
  "(x AND 0x7F800000 = 0x7F800000) \<longleftrightarrow> (shr x 23 AND 0xFF = (0xFF :: u32))"
  "(d AND 0x7FF0000000000000 = 0x7FF0000000000000) \<longleftrightarrow> (shr d 52 AND 0x7FF = (0x7FF :: u64))"
  "(h AND 0x7C00 = 0x7C00) \<longleftrightarrow> (shr h 10 AND 0x1F = (0x1F :: u16))"
  by (simp_all add: word32_bits word64_bits word16_eq_iff bit_simps)

lemma quiet_tests:
  "(x AND 0x7FFFFF) AND 0x400000 = (x AND (0x400000 :: u32))"
  "(d AND 0xFFFFFFFFFFFFF) AND 0x8000000000000 = (d AND (0x8000000000000 :: u64))"
  "(h AND 0x3FF) AND 0x200 = (h AND (0x200 :: u16))"
  by (simp_all add: and.assoc)

lemma nan_class:
  "is_nan_s x \<longleftrightarrow> fclass_s x \<in> {0x100, 0x200}" "is_signaling_nan_s x \<longleftrightarrow> fclass_s x = 0x100"
  "is_nan_d d \<longleftrightarrow> fclass_d d \<in> {0x100, 0x200}" "is_signaling_nan_d d \<longleftrightarrow> fclass_d d = 0x100"
  "is_nan_h h \<longleftrightarrow> fclass_h h \<in> {0x100, 0x200}" "is_signaling_nan_h h \<longleftrightarrow> fclass_h h = 0x100"
  "is_nan_q q \<longleftrightarrow> fclass_q q \<in> {0x100, 0x200}" "is_signaling_nan_q q \<longleftrightarrow> fclass_q q = 0x100"
  unfolding is_nan_s_def is_signaling_nan_s_def fclass_s_def is_nan_d_def is_signaling_nan_d_def fclass_d_def
    is_nan_h_def is_signaling_nan_h_def fclass_h_def is_nan_q_def is_signaling_nan_q_def fclass_q_def
    Let_def exponent_tests quiet_tests
  by auto

text \<open>
  FCLASS in the four precisions returns exactly one bit, that of the class the IEEE 754 format gives
  the bit pattern, and the NaN tests the other instructions use agree with it.
\<close>

theorem fclass_correct:
  "fclass_h h = 2 ^ ieee_class 5 10 (unat h) \<and> fclass_s x = 2 ^ ieee_class 8 23 (unat x) \<and>
   fclass_d d = 2 ^ ieee_class 11 52 (unat d) \<and> fclass_q (lo, hi) = 2 ^ ieee_class 15 112 (unat hi * 2 ^ 64 + unat lo) \<and>
   is_nan_h h = (fclass_h h \<in> {0x100, 0x200}) \<and> is_signaling_nan_h h = (fclass_h h = 0x100) \<and>
   is_nan_s x = (fclass_s x \<in> {0x100, 0x200}) \<and> is_signaling_nan_s x = (fclass_s x = 0x100) \<and>
   is_nan_d d = (fclass_d d \<in> {0x100, 0x200}) \<and> is_signaling_nan_d d = (fclass_d d = 0x100) \<and>
   is_nan_q (lo, hi) = (fclass_q (lo, hi) \<in> {0x100, 0x200}) \<and> is_signaling_nan_q (lo, hi) = (fclass_q (lo, hi) = 0x100)"
  by (intro conjI fclass_words fclass_quad nan_class)

section \<open>Conversion to integers\<close>

text \<open>
  What the code relies on of SoftFloat's conversions of finite values: \<open>rnd\<close> being the value rounded to
  an integer, they return it when it is representable and raise NV otherwise.
\<close>

definition rounds_to_int :: "'f fp_format \<Rightarrow> 'f sf_ops \<Rightarrow> (sf_round \<Rightarrow> 'f \<Rightarrow> int) \<Rightarrow> bool" where
  "rounds_to_int F ops rnd \<longleftrightarrow> (\<forall>mode a. \<not> fmt_nan F a \<longrightarrow> \<not> fmt_inf F a \<longrightarrow>
     (rnd mode a < 0 \<longrightarrow> fmt_sign F a) \<and> (0 < rnd mode a \<longrightarrow> \<not> fmt_sign F a) \<and>
     (if - (2 ^ 31) \<le> rnd mode a \<and> rnd mode a < 2 ^ 31
      then sint (fst (sf_to_i32 ops mode a)) = rnd mode a \<and> \<not> bit (snd (sf_to_i32 ops mode a)) 4
      else bit (snd (sf_to_i32 ops mode a)) 4) \<and>
     (if 0 \<le> rnd mode a \<and> rnd mode a < 2 ^ 32
      then uint (fst (sf_to_ui32 ops mode a)) = rnd mode a \<and> \<not> bit (snd (sf_to_ui32 ops mode a)) 4
      else bit (snd (sf_to_ui32 ops mode a)) 4))"

text \<open>The integer nearest to the rounded value in a range; a NaN counts as plus infinity.\<close>

definition int_clamp :: "int \<Rightarrow> int \<Rightarrow> 'f fp_format \<Rightarrow> (sf_round \<Rightarrow> 'f \<Rightarrow> int) \<Rightarrow> sf_round \<Rightarrow> 'f \<Rightarrow> int" where
  "int_clamp lo hi F rnd mode a =
     (if fmt_nan F a then hi
      else if fmt_inf F a then (if fmt_sign F a then lo else hi)
      else max lo (min hi (rnd mode a)))"

definition fcvt_ok :: "'f fp_format \<Rightarrow> (sf_round \<Rightarrow> 'f \<Rightarrow> int) \<Rightarrow> sf_round \<Rightarrow> 'f \<Rightarrow> u32 \<Rightarrow> u32 \<Rightarrow> bool" where
  "fcvt_ok F rnd mode a kind r \<longleftrightarrow>
     (if kind = 0 then sint r = int_clamp (- (2 ^ 31)) (2 ^ 31 - 1) F rnd mode a
      else uint r = int_clamp 0 (2 ^ 32 - 1) F rnd mode a)"

lemma nv_test: "(fl AND NV = 0) \<longleftrightarrow> \<not> bit fl 4" for fl :: u32
  by (rule flag_tests)

lemma fp_to_int_clamps:
  assumes "rounds_to_int F ops rnd" "kind = 0 \<or> kind = 1"
  shows "fcvt_ok F rnd mode a kind (fst (fp_to_int F ops kind a mode))"
proof (cases "fmt_nan F a \<or> fmt_inf F a")
  case True
  then show ?thesis using assms(2)
    by (auto simp: fcvt_ok_def int_clamp_def fp_to_int_def Let_def fcvt_int_sat_def)
next
  case False
  with assms(1) have r: "rnd mode a < 0 \<longrightarrow> fmt_sign F a" "0 < rnd mode a \<longrightarrow> \<not> fmt_sign F a"
    "if - (2 ^ 31) \<le> rnd mode a \<and> rnd mode a < 2 ^ 31
      then sint (fst (sf_to_i32 ops mode a)) = rnd mode a \<and> \<not> bit (snd (sf_to_i32 ops mode a)) 4
      else bit (snd (sf_to_i32 ops mode a)) 4"
    "if 0 \<le> rnd mode a \<and> rnd mode a < 2 ^ 32
      then uint (fst (sf_to_ui32 ops mode a)) = rnd mode a \<and> \<not> bit (snd (sf_to_ui32 ops mode a)) 4
      else bit (snd (sf_to_ui32 ops mode a)) 4"
    unfolding rounds_to_int_def by blast+
  from assms(2) show ?thesis
  proof
    assume k: "kind = 0"
    show ?thesis using r(1-3) False unfolding k
      by (auto simp: fcvt_ok_def int_clamp_def fp_to_int_def Let_def fcvt_int_sat_def case_prod_unfold nv_test
          split: if_splits)
  next
    assume k: "kind = 1"
    show ?thesis using r(1,2,4) False unfolding k
      by (auto simp: fcvt_ok_def int_clamp_def fp_to_int_def Let_def fcvt_int_sat_def case_prod_unfold nv_test
          split: if_splits)
  qed
qed

text \<open>
  C37. FCVT.W and FCVT.WU from the four precisions saturate: the result is the rounded value clamped to
  the range of the integer type, infinities go to the end of the range on their side and every NaN to
  its upper end, for every SoftFloat that converts representable values and reports the others.
\<close>

theorem fcvt_saturates:
  assumes "rounds_to_int fmt_s (f32 sf) n1" and "rounds_to_int fmt_h (f16 sf) n2"
    and "rounds_to_int fmt_d (f64 sf) n3" and "rounds_to_int fmt_q (f128M sf) n4" and "kind = 0 \<or> kind = 1"
  shows "(\<exists>r t. fcvt_fp_int sf 0 kind rs1 rm s = Inr (r, t) \<and> fcvt_ok fmt_s n1 (sf_rm rm s) (fpr_read_s rs1 s) kind r) \<and>
    (\<exists>r t. fcvt_fp_int sf 2 kind rs1 rm s = Inr (r, t) \<and> fcvt_ok fmt_h n2 (sf_rm rm s) (fpr_read_h rs1 s) kind r) \<and>
    (\<exists>r t. fcvt_fp_int sf 1 kind rs1 rm s = Inr (r, t) \<and> fcvt_ok fmt_d n3 (sf_rm rm s) (fpr_read_d rs1 s) kind r) \<and>
    (\<exists>r t. fcvt_fp_int sf 3 kind rs1 rm s = Inr (r, t) \<and> fcvt_ok fmt_q n4 (sf_rm rm s) (fpr_read_q rs1 s) kind r)"
  using fp_to_int_clamps [OF assms(1,5)] fp_to_int_clamps [OF assms(2,5)]
    fp_to_int_clamps [OF assms(3,5)] fp_to_int_clamps [OF assms(4,5)]
  by (simp add: fcvt_fp_int_def sf_call_def Let_def case_prod_unfold)

lemma order_rounds:
  assumes "\<And>a. val a < 0 \<Longrightarrow> fmt_sign F a" "\<And>a. 0 < val a \<Longrightarrow> \<not> fmt_sign F a"
  shows "rounds_to_int F (order_ops val z) (\<lambda>mode. val)"
  using assms by (auto simp: rounds_to_int_def order_ops_def sint_sbintrunc' uint_word_of_int
      signed_take_bit_int_eq_self)

lemma order_softfloat_rounds:
  "rounds_to_int fmt_s (f32 order_softfloat) (\<lambda>mode. sign_magnitude)"
  "rounds_to_int fmt_h (f16 order_softfloat) (\<lambda>mode. sign_magnitude)"
  "rounds_to_int fmt_d (f64 order_softfloat) (\<lambda>mode. sign_magnitude)"
  "rounds_to_int fmt_q (f128M order_softfloat) (\<lambda>mode. sign_magnitude_q)"
  unfolding order_softfloat_def softfloat.simps
  using sign_magnitude_signs(1,2) [where ?'a = 32] sign_magnitude_signs(1,2) [where ?'a = 16]
    sign_magnitude_signs(1,2) [where ?'a = 64] sign_magnitude_signs(3,4)
  by (auto intro!: order_rounds simp: fmt_sign_bits)

theorem fcvt_saturates_witness:
  "\<exists>r t. fcvt_fp_int order_softfloat 0 0 1 0 (fpr_write_s 1 0xFF800000 (reset_state 0)) = Inr (r, t) \<and>
     sint r = - (2 ^ 31)"
proof -
  let ?s = "fpr_write_s 1 0xFF800000 (reset_state 0)"
  have a: "fpr_read_s 1 ?s = 0xFF800000" using single.read_write [of 1 "0xFF800000" "reset_state 0"] by (simp add: fmt_s_def)
  have "int_clamp (- (2 ^ 31)) (2 ^ 31 - 1) fmt_s (\<lambda>mode. sign_magnitude) mode 0xFF800000 = - (2 ^ 31)" for mode
    by (simp add: int_clamp_def fmt_s_def is_nan_s_def)
  then show ?thesis
    using fcvt_saturates [OF order_softfloat_rounds, of 0 1 0 ?s] unfolding a fcvt_ok_def by simp
qed

end
