(* ===== verification/C_Ext.thy ===== *)
theory C_Ext
  imports Base_Insn Fpu_Correct
begin

text \<open>
  Compressed instructions, src/src/extension/c_extension.c. The run loop adds 4 to \<open>pc\<close> after every
  instruction, so a compressed instruction takes 2 off first. The result is the return value of
  \<open>exec_c_insn\<close> (whether it reports a trap) and the state.
\<close>

section \<open>Immediates\<close>

definition sext6 :: "u32 \<Rightarrow> u32" where
  "sext6 v = (let v = v AND 0x3F in if v \<ge> 0x20 then v - 0x40 else v)"

definition sext10 :: "u32 \<Rightarrow> u32" where
  "sext10 v = (let v = v AND 0x3FF in if v \<ge> 0x200 then v - 0x400 else v)"

text \<open>\<open>(uint32_t)((c >> lo) & m)\<close>, a field of the 16-bit word.\<close>

definition cfield :: "u16 \<Rightarrow> nat \<Rightarrow> u32 \<Rightarrow> u32" where
  "cfield c lo m = shr (ucast c) lo AND m"

definition c_addi4spn_imm :: "u16 \<Rightarrow> u32" where
  "c_addi4spn_imm c =
     shl (cfield c 11 0x3) 4 OR shl (cfield c 7 0xF) 6 OR shl (cfield c 6 0x1) 2 OR shl (cfield c 5 0x1) 3"

definition c_ls_uimm :: "u16 \<Rightarrow> u32" where
  "c_ls_uimm c = shl (cfield c 5 0x1) 6 OR shl (cfield c 10 0x7) 3 OR shl (cfield c 6 0x1) 2"

definition c_lwsp_uimm :: "u16 \<Rightarrow> u32" where
  "c_lwsp_uimm c = shl (cfield c 2 0x3) 6 OR shl (cfield c 12 0x1) 5 OR shl (cfield c 4 0x7) 2"

definition c_swsp_uimm :: "u16 \<Rightarrow> u32" where
  "c_swsp_uimm c = shl (cfield c 7 0x3) 6 OR shl (cfield c 9 0xF) 2"

definition c_addi16sp_imm :: "u16 \<Rightarrow> u32" where
  "c_addi16sp_imm c =
     sext10 (shl (cfield c 12 0x1) 9 OR shl (cfield c 4 0x1) 8 OR shl (cfield c 3 0x1) 7 OR
             shl (cfield c 5 0x1) 6 OR shl (cfield c 2 0x1) 5 OR shl (cfield c 6 0x1) 4)"

definition c_jal_offset :: "u16 \<Rightarrow> u32" where
  "c_jal_offset c =
     (let imm = shl (cfield c 12 0x1) 11 OR shl (cfield c 11 0x1) 4 OR shl (cfield c 9 0x3) 8 OR
                shl (cfield c 8 0x1) 10 OR shl (cfield c 7 0x1) 6 OR shl (cfield c 6 0x1) 7 OR
                shl (cfield c 2 0x1) 5 OR shl (cfield c 3 0x7) 1
      in if imm AND 0x800 \<noteq> 0 then imm - 0x1000 else imm)"

definition c_branch_offset :: "u16 \<Rightarrow> u32" where
  "c_branch_offset c =
     (let imm = shl (cfield c 12 0x1) 8 OR shl (cfield c 6 0x1) 7 OR shl (cfield c 5 0x1) 6 OR
                shl (cfield c 2 0x1) 5 OR shl (cfield c 11 0x1) 4 OR shl (cfield c 10 0x1) 3 OR
                shl (cfield c 4 0x1) 2 OR shl (cfield c 3 0x1) 1
      in if imm AND 0x100 \<noteq> 0 then imm - 0x200 else imm)"

definition c_imm6 :: "u16 \<Rightarrow> u32" where
  "c_imm6 c = sext6 (shl (cfield c 12 0x1) 5 OR cfield c 2 0x1F)"

definition c_lui_imm :: "u16 \<Rightarrow> u32" where
  "c_lui_imm c = shl (sext6 (shl (cfield c 12 0x1) 5 OR cfield c 2 0x1F)) 12"

definition c_shamt :: "u16 \<Rightarrow> u32" where
  "c_shamt c = shl (cfield c 12 0x1) 5 OR cfield c 2 0x1F"

section \<open>Execution\<close>

text \<open>\<open>g_state.pc -= 2; return 0\<close>, and the reserved encodings.\<close>

definition c_next :: "emu \<Rightarrow> bool \<times> emu" where
  "c_next s = (False, s\<lparr>pc := pc s - 2\<rparr>)"

definition c_jump :: "u32 \<Rightarrow> emu \<Rightarrow> bool \<times> emu" where
  "c_jump target s = (False, s\<lparr>pc := target - 4\<rparr>)"

definition c_illegal :: "u16 \<Rightarrow> emu \<Rightarrow> bool \<times> emu" where
  "c_illegal c s = (True, raise_illegal (ucast c) s)"

text \<open>
  The loads and stores run the full-size instruction and step over two bytes unless it moved
  \<open>pc\<close>; the value they return is the comparison after the step.
\<close>

definition c_access :: "(emu \<Rightarrow> emu) \<Rightarrow> emu \<Rightarrow> bool \<times> emu" where
  "c_access ins s =
     (let saved = pc s;
          s = ins s;
          s = (if pc s = saved then s\<lparr>pc := pc s - 2\<rparr> else s)
      in (pc s \<noteq> saved, s))"

definition exec_c_q0 :: "u16 \<Rightarrow> u32 \<Rightarrow> emu \<Rightarrow> bool \<times> emu" where
  "exec_c_q0 c f3 s =
     (let rs1p = 8 + cfield c 7 0x7;
          rdp = 8 + cfield c 2 0x7;
          rs2p = 8 + cfield c 2 0x7
      in if f3 = 0 then
           let nzuimm = c_addi4spn_imm c
           in if nzuimm = 0 then c_illegal c s
              else c_next (reg_write rdp (reg_read 2 s + nzuimm) s)
         else if f3 = 1 then c_access (insf_fld (c_ls_uimm c) rs1p rdp) s
         else if f3 = 3 then c_access (insf_flw (c_ls_uimm c) rs1p rdp) s
         else if f3 = 2 then c_access (insi_i_lw (c_ls_uimm c) rs1p rdp) s
         else if f3 = 6 then c_access (insi_s_sw (c_ls_uimm c) rs2p rs1p) s
         else if f3 = 5 then c_access (insf_fsd (c_ls_uimm c) rs1p rs2p) s
         else if f3 = 7 then c_access (insf_fsw (c_ls_uimm c) rs1p rs2p) s
         else c_illegal c s)"

definition exec_c_alu :: "u16 \<Rightarrow> emu \<Rightarrow> bool \<times> emu" where
  "exec_c_alu c s =
     (let funct2 = cfield c 10 0x3;
          rdp = 8 + cfield c 7 0x7;
          rs2p = 8 + cfield c 2 0x7
      in if funct2 \<le> 1 then
           let shamt = c_shamt c; val = reg_read rdp s
           in if shamt = 0 then c_illegal c s
              else if funct2 = 0 then c_next (reg_write rdp (shr val (unat (shamt AND 0x1F))) s)
              else c_next (reg_write rdp (sar val (unat (shamt AND 0x1F))) s)
         else if funct2 = 2 then c_next (reg_write rdp (reg_read rdp s AND c_imm6 c) s)
         else
           let alu = cfield c 5 0x3; rs1v = reg_read rdp s; rs2v = reg_read rs2p s
           in c_next (reg_write rdp
                (if alu = 0 then rs1v - rs2v
                 else if alu = 1 then rs1v XOR rs2v
                 else if alu = 2 then rs1v OR rs2v
                 else rs1v AND rs2v) s))"

definition exec_c_q1 :: "u16 \<Rightarrow> u32 \<Rightarrow> emu \<Rightarrow> bool \<times> emu" where
  "exec_c_q1 c f3 s =
     (let rd = cfield c 7 0x1F
      in if f3 = 0 then c_next (reg_write rd (reg_read rd s + c_imm6 c) s)
         else if f3 = 1 then
           let s = reg_write 1 (pc s + 2) s in c_jump (pc s + c_jal_offset c) s
         else if f3 = 2 then c_next (reg_write rd (c_imm6 c) s)
         else if f3 = 3 then
           if rd = 2 then c_next (reg_write 2 (reg_read 2 s + c_addi16sp_imm c) s)
           else if rd \<noteq> 0 then c_next (reg_write rd (c_lui_imm c) s)
           else c_illegal c s
         else if f3 = 4 then exec_c_alu c s
         else if f3 = 5 then c_jump (pc s + c_jal_offset c) s
         else if f3 = 6 \<or> f3 = 7 then
           let rs1p = 8 + cfield c 7 0x7; v = reg_read rs1p s; off = c_branch_offset c
           in if f3 = 6 \<and> v = 0 \<or> f3 = 7 \<and> v \<noteq> 0 then c_jump (pc s + off) s else c_next s
         else c_illegal c s)"

definition exec_c_jump :: "u16 \<Rightarrow> emu \<Rightarrow> bool \<times> emu" where
  "exec_c_jump c s =
     (let rs1 = cfield c 7 0x1F; rs2 = cfield c 2 0x1F
      in if cfield c 12 0x1 = 0 then
           if rs2 = 0 then
             if rs1 = 0 then c_next s
             else
               let (bad, s) = raise_if_misaligned_fetch (reg_read rs1 s) s
               in if bad then (True, s) else c_jump (reg_read rs1 s) s
           else c_next (reg_write rs1 (reg_read rs2 s) s)
         else
           if rs1 = 0 then (True, raise_exception CAUSE_BREAKPOINT 0 s)
           else if rs2 = 0 then
             let (bad, s) = raise_if_misaligned_fetch (reg_read rs1 s) s
             in if bad then (True, s)
                else let s = reg_write 1 (pc s + 2) s in c_jump (reg_read rs1 s) s
           else c_next (reg_write rs1 (reg_read rs1 s + reg_read rs2 s) s))"

definition exec_c_q2 :: "u16 \<Rightarrow> u32 \<Rightarrow> emu \<Rightarrow> bool \<times> emu" where
  "exec_c_q2 c f3 s =
     (let rd = cfield c 7 0x1F
      in if f3 = 0 then
           let shamt = c_shamt c
           in if shamt = 0 then c_illegal c s
              else c_next (reg_write rd (shl (reg_read rd s) (unat (shamt AND 0x1F))) s)
         else if f3 = 2 then
           if rd = 0 then c_illegal c s else c_access (insi_i_lw (c_lwsp_uimm c) 2 rd) s
         else if f3 = 4 then exec_c_jump c s
         else if f3 = 6 then c_access (insi_s_sw (c_swsp_uimm c) (cfield c 2 0x1F) 2) s
         else c_illegal c s)"

definition exec_c_insn :: "u16 \<Rightarrow> emu \<Rightarrow> bool \<times> emu" where
  "exec_c_insn c s =
     (let q = cfield c 0 0x3; f3 = cfield c 13 0x7
      in if q = 0 then exec_c_q0 c f3 s
         else if q = 1 then exec_c_q1 c f3 s
         else exec_c_q2 c f3 s)"

section \<open>The machine invariant\<close>

lemma emu_inv_c_parts [inv_rules]:
  assumes "emu_inv s"
  shows "emu_inv (snd (c_next s))" "emu_inv (snd (c_jump a s))" "emu_inv (snd (c_illegal c s))"
    "emu_inv (ins s) \<Longrightarrow> emu_inv (snd (c_access ins s))"
  using assms by (simp_all add: c_next_def c_jump_def c_illegal_def c_access_def Let_def inv_rules)

lemma emu_inv_exec_c [inv_rules]: "emu_inv s \<Longrightarrow> emu_inv (snd (exec_c_insn c s))"
  by (simp add: exec_c_insn_def exec_c_q0_def exec_c_q1_def exec_c_q2_def exec_c_alu_def exec_c_jump_def
      Let_def case_prod_unfold inv_rules)

section \<open>Immediates against the encoding tables\<close>

text \<open>
  The immediate of an encoding table: \<open>(dst, src)\<close> says that bit \<open>src\<close> of the instruction is bit \<open>dst\<close>
  of the immediate. The signed variant extends its first entry.
\<close>

definition gather :: "(nat \<times> nat) list \<Rightarrow> u16 \<Rightarrow> u32" where
  "gather tab c = foldr (\<lambda>(dst, src) w. w OR shl (of_bool (bit c src)) dst) tab 0"

definition gather_signed :: "(nat \<times> nat) list \<Rightarrow> u16 \<Rightarrow> u32" where
  "gather_signed tab c = gather tab c OR (if bit c (snd (hd tab)) then NOT (mask (fst (hd tab))) else 0)"

lemma bit_cfield: "bit (cfield c lo m) n \<longleftrightarrow> bit c (lo + n) \<and> bit m n"
  by (auto simp: cfield_def bit_simps dest: bit_imp_le_length)

lemma sub_is_or:
  fixes x m k :: u32
  assumes "x AND m = 0" "m = - k"
  shows "x - k = x OR m"
  using disjunctive_add_eq_or [OF assms(1)] assms(2) by simp

lemma sext6_bits: "sext6 v = (v AND 0x3F) OR (if bit v 5 then 0xFFFFFFC0 else 0)"
proof -
  have "v AND 0x3F \<ge> 0x20 \<longleftrightarrow> bit v 5"
  proof -
    have "unat (v AND 0x3F) = unat v mod 2 ^ Suc 5" using low_unat [of v 6] by (simp add: mask_eq_exp_minus_1)
    then show ?thesis using high_half [of 5 "unat v"] bit_unsigned_iff [where ?'a = nat, of v 5]
      by (simp add: word_le_nat_alt)
  qed
  moreover have "(v AND 0x3F) - 0x40 = (v AND 0x3F) OR 0xFFFFFFC0"
    by (rule sub_is_or) (simp_all add: and.assoc)
  ultimately show ?thesis by (simp add: sext6_def Let_def)
qed

lemma sext10_bits: "sext10 v = (v AND 0x3FF) OR (if bit v 9 then 0xFFFFFC00 else 0)"
proof -
  have "v AND 0x3FF \<ge> 0x200 \<longleftrightarrow> bit v 9"
  proof -
    have "unat (v AND 0x3FF) = unat v mod 2 ^ Suc 9" using low_unat [of v 10] by (simp add: mask_eq_exp_minus_1)
    then show ?thesis using high_half [of 9 "unat v"] bit_unsigned_iff [where ?'a = nat, of v 9]
      by (simp add: word_le_nat_alt)
  qed
  moreover have "(v AND 0x3FF) - 0x400 = (v AND 0x3FF) OR 0xFFFFFC00"
    by (rule sub_is_or) (simp_all add: and.assoc)
  ultimately show ?thesis by (simp add: sext10_def Let_def)
qed

lemma bit_times_2: "bit (x * 2) n \<longleftrightarrow> 0 < n \<and> n < 32 \<and> bit x (n - 1)" for x :: u32
  using bit_double_iff [of x n] by (auto simp: mult.commute)

lemmas table_simps = gather_def gather_signed_def word32_bits bit_simps bit_cfield bit_times_2

lemma plain_tables:
  "c_addi4spn_imm c = gather [(5, 12), (4, 11), (9, 10), (8, 9), (7, 8), (6, 7), (2, 6), (3, 5)] c"
  "c_ls_uimm c = gather [(5, 12), (4, 11), (3, 10), (2, 6), (6, 5)] c"
  "c_lwsp_uimm c = gather [(5, 12), (4, 6), (3, 5), (2, 4), (7, 3), (6, 2)] c"
  "c_swsp_uimm c = gather [(5, 12), (4, 11), (3, 10), (2, 9), (7, 8), (6, 7)] c"
  "c_shamt c = gather [(5, 12), (4, 6), (3, 5), (2, 4), (1, 3), (0, 2)] c"
  by (simp_all add: c_addi4spn_imm_def c_ls_uimm_def c_lwsp_uimm_def c_swsp_uimm_def c_shamt_def table_simps
      del: add_2_eq_Suc add_2_eq_Suc')

lemma signed_tables:
  "c_imm6 c = gather_signed [(5, 12), (4, 6), (3, 5), (2, 4), (1, 3), (0, 2)] c"
  "c_lui_imm c = gather_signed [(17, 12), (16, 6), (15, 5), (14, 4), (13, 3), (12, 2)] c"
  "c_addi16sp_imm c = gather_signed [(9, 12), (4, 6), (6, 5), (8, 4), (7, 3), (5, 2)] c"
  by (simp_all add: c_imm6_def c_lui_imm_def c_addi16sp_imm_def sext6_bits sext10_bits table_simps
      del: add_2_eq_Suc add_2_eq_Suc')

lemma offset_tables:
  "c_jal_offset c = gather_signed [(11, 12), (4, 11), (9, 10), (8, 9), (10, 8), (6, 7), (7, 6), (3, 5), (2, 4), (1, 3), (5, 2)] c"
  "c_branch_offset c = gather_signed [(8, 12), (4, 11), (3, 10), (7, 6), (6, 5), (2, 4), (1, 3), (5, 2)] c"
proof -
  define j where "j = shl (cfield c 12 0x1) 11 OR shl (cfield c 11 0x1) 4 OR shl (cfield c 9 0x3) 8 OR
                shl (cfield c 8 0x1) 10 OR shl (cfield c 7 0x1) 6 OR shl (cfield c 6 0x1) 7 OR
                shl (cfield c 2 0x1) 5 OR shl (cfield c 3 0x7) 1"
  have "j AND 0xFFFFF000 = 0" by (simp add: j_def table_simps del: add_2_eq_Suc add_2_eq_Suc')
  then have "j - 0x1000 = j OR 0xFFFFF000" by (rule sub_is_or) simp
  then have "c_jal_offset c = j OR (if bit j 11 then 0xFFFFF000 else 0)"
    unfolding c_jal_offset_def Let_def j_def [symmetric] by (simp add: flag_simps)
  then show "c_jal_offset c = gather_signed [(11, 12), (4, 11), (9, 10), (8, 9), (10, 8), (6, 7), (7, 6), (3, 5), (2, 4), (1, 3), (5, 2)] c"
    by (simp add: j_def table_simps del: add_2_eq_Suc add_2_eq_Suc')
next
  define b where "b = shl (cfield c 12 0x1) 8 OR shl (cfield c 6 0x1) 7 OR shl (cfield c 5 0x1) 6 OR
                shl (cfield c 2 0x1) 5 OR shl (cfield c 11 0x1) 4 OR shl (cfield c 10 0x1) 3 OR
                shl (cfield c 4 0x1) 2 OR shl (cfield c 3 0x1) 1"
  have "b AND 0xFFFFFE00 = 0" by (simp add: b_def table_simps del: add_2_eq_Suc add_2_eq_Suc')
  then have "b - 0x200 = b OR 0xFFFFFE00" by (rule sub_is_or) simp
  then have "c_branch_offset c = b OR (if bit b 8 then 0xFFFFFE00 else 0)"
    unfolding c_branch_offset_def Let_def b_def [symmetric] by (simp add: flag_simps)
  then show "c_branch_offset c = gather_signed [(8, 12), (4, 11), (3, 10), (7, 6), (6, 5), (2, 4), (1, 3), (5, 2)] c"
    by (simp add: b_def table_simps del: add_2_eq_Suc add_2_eq_Suc')
qed

text \<open>
  The scattered immediates of the compressed formats are reassembled as the encoding tables of the
  C extension say (\<open>(dst, src)\<close>: instruction bit src is immediate bit dst), zero- or sign-extended, in all
  ten immediate formats.
\<close>

theorem c_immediates_follow_tables:
  "c_addi4spn_imm c = gather [(5, 12), (4, 11), (9, 10), (8, 9), (7, 8), (6, 7), (2, 6), (3, 5)] c \<and>
   c_ls_uimm c = gather [(5, 12), (4, 11), (3, 10), (2, 6), (6, 5)] c \<and>
   c_lwsp_uimm c = gather [(5, 12), (4, 6), (3, 5), (2, 4), (7, 3), (6, 2)] c \<and>
   c_swsp_uimm c = gather [(5, 12), (4, 11), (3, 10), (2, 9), (7, 8), (6, 7)] c \<and>
   c_shamt c = gather [(5, 12), (4, 6), (3, 5), (2, 4), (1, 3), (0, 2)] c \<and>
   c_imm6 c = gather_signed [(5, 12), (4, 6), (3, 5), (2, 4), (1, 3), (0, 2)] c \<and>
   c_lui_imm c = gather_signed [(17, 12), (16, 6), (15, 5), (14, 4), (13, 3), (12, 2)] c \<and>
   c_addi16sp_imm c = gather_signed [(9, 12), (4, 6), (6, 5), (8, 4), (7, 3), (5, 2)] c \<and>
   c_jal_offset c =
     gather_signed [(11, 12), (4, 11), (9, 10), (8, 9), (10, 8), (6, 7), (7, 6), (3, 5), (2, 4), (1, 3), (5, 2)] c \<and>
   c_branch_offset c = gather_signed [(8, 12), (4, 11), (3, 10), (7, 6), (6, 5), (2, 4), (1, 3), (5, 2)] c"
  by (intro conjI plain_tables signed_tables offset_tables)

section \<open>Expansion\<close>

text \<open>
  The base instruction a compressed one stands for, as the C extension's expansion table gives it: an integer
  computation, a load or store, a conditional branch (with its condition), a jump (whether it links, and
  the alignment its target must have), or a breakpoint. Registers of three bits are x8 to x15.
\<close>

datatype expansion =
    Computes "emu \<Rightarrow> emu" | Accesses "emu \<Rightarrow> emu" | Branches "emu \<Rightarrow> bool" "emu \<Rightarrow> emu"
  | Jumps bool "emu \<Rightarrow> bool" "emu \<Rightarrow> emu" | Breaks "emu \<Rightarrow> emu"

definition expand_q0 :: "u16 \<Rightarrow> u32 \<Rightarrow> expansion option" where
  "expand_q0 c f3 =
     (let rs1p = 8 + cfield c 7 0x7; rdp = 8 + cfield c 2 0x7
      in if f3 = 0 then
           (if c_addi4spn_imm c \<noteq> 0 then Some (Computes (insi_i_addi (c_addi4spn_imm c) 2 rdp)) else None)
         else if f3 = 2 then Some (Accesses (insi_i_lw (c_ls_uimm c) rs1p rdp))
         else if f3 = 6 then Some (Accesses (insi_s_sw (c_ls_uimm c) rdp rs1p))
         else None)"

definition expand_alu :: "u16 \<Rightarrow> expansion option" where
  "expand_alu c =
     (let f2 = cfield c 10 0x3; alu = cfield c 5 0x3; rdp = 8 + cfield c 7 0x7; rs2p = 8 + cfield c 2 0x7
      in if f2 = 0 then (if c_shamt c \<noteq> 0 then Some (Computes (insi_i_srli (c_shamt c) rdp rdp)) else None)
         else if f2 = 1 then (if c_shamt c \<noteq> 0 then Some (Computes (insi_i_srai (c_shamt c) rdp rdp)) else None)
         else if f2 = 2 then Some (Computes (insi_i_andi (c_imm6 c) rdp rdp))
         else if alu = 0 then Some (Computes (insi_r_sub rs2p rdp rdp))
         else if alu = 1 then Some (Computes (insi_r_xor rs2p rdp rdp))
         else if alu = 2 then Some (Computes (insi_r_or rs2p rdp rdp))
         else Some (Computes (insi_r_and rs2p rdp rdp)))"

definition expand_q1 :: "u16 \<Rightarrow> u32 \<Rightarrow> expansion option" where
  "expand_q1 c f3 =
     (let rd = cfield c 7 0x1F
      in if f3 = 0 then Some (Computes (insi_i_addi (c_imm6 c) rd rd))
         else if f3 = 1 then Some (Jumps True (\<lambda>_. True) (insi_j_jal (c_jal_offset c) 0))
         else if f3 = 2 then Some (Computes (insi_i_addi (c_imm6 c) 0 rd))
         else if f3 = 3 then
           (if rd = 2 then Some (Computes (insi_i_addi (c_addi16sp_imm c) 2 2))
            else if rd \<noteq> 0 then Some (Computes (insi_u_lui (c_lui_imm c) rd))
            else None)
         else if f3 = 4 then expand_alu c
         else if f3 = 5 then Some (Jumps False (\<lambda>_. True) (insi_j_jal (c_jal_offset c) 0))
         else if f3 = 6 then
           Some (Branches (\<lambda>s. reg_read (8 + cfield c 7 0x7) s = 0) (insi_b_beq (c_branch_offset c) 0 (8 + cfield c 7 0x7)))
         else if f3 = 7 then
           Some (Branches (\<lambda>s. reg_read (8 + cfield c 7 0x7) s \<noteq> 0) (insi_b_bne (c_branch_offset c) 0 (8 + cfield c 7 0x7)))
         else None)"

definition expand_q2 :: "u16 \<Rightarrow> u32 \<Rightarrow> expansion option" where
  "expand_q2 c f3 =
     (let rd = cfield c 7 0x1F; rs2 = cfield c 2 0x1F
      in if f3 = 0 then (if c_shamt c \<noteq> 0 then Some (Computes (insi_i_slli (c_shamt c) rd rd)) else None)
         else if f3 = 2 then (if rd \<noteq> 0 then Some (Accesses (insi_i_lw (c_lwsp_uimm c) 2 rd)) else None)
         else if f3 = 4 then
           (if rs2 = 0 then
              if rd = 0 then (if cfield c 12 0x1 = 0 then None else Some (Breaks insi_i_ebreak))
              else if cfield c 12 0x1 = 1 \<and> rd = 1 then None
              else Some (Jumps (cfield c 12 0x1 = 1) (\<lambda>s. even (reg_read rd s)) (insi_i_jalr 0 rd 0))
            else if cfield c 12 0x1 = 0 then Some (Computes (insi_r_add rs2 0 rd))
            else if rd \<noteq> 0 then Some (Computes (insi_r_add rs2 rd rd))
            else None)
         else if f3 = 6 then Some (Accesses (insi_s_sw (c_swsp_uimm c) rs2 2))
         else None)"

definition c_expansion :: "u16 \<Rightarrow> expansion option" where
  "c_expansion c =
     (let f3 = cfield c 13 0x7
      in if cfield c 0 0x3 = 0 then expand_q0 c f3
         else if cfield c 0 0x3 = 1 then expand_q1 c f3
         else expand_q2 c f3)"

lemma cfield_cases:
  "cfield c n 3 = 0 \<or> cfield c n 3 = 1 \<or> cfield c n 3 = 2 \<or> cfield c n 3 = 3"
  unfolding cfield_def by (rule and_3_cases)

lemma cfield_1_cases: "cfield c n 1 = 0 \<or> cfield c n 1 = 1"
  using cfield_cases [of c n] by (auto simp: cfield_def word32_bits bit_simps)

text \<open>
  What an expansion predicts of \<open>exec_c_insn\<close>. The link of a compressed call is two bytes on; a branch that
  is not taken steps over two bytes.
\<close>

definition predicts :: "expansion \<Rightarrow> emu \<Rightarrow> bool \<times> emu \<Rightarrow> bool" where
  "predicts x s r = (case x of
       Computes f \<Rightarrow> r = (False, (f s)\<lparr>pc := pc s - 2\<rparr>)
     | Accesses f \<Rightarrow> snd r = (if pc (f s) = pc s then (f s)\<lparr>pc := pc s - 2\<rparr> else f s)
     | Branches cond f \<Rightarrow> r = (False, if cond s then f s else s\<lparr>pc := pc s - 2\<rparr>)
     | Jumps link ok f \<Rightarrow> ok s \<longrightarrow> r = (False, if link then reg_write 1 (pc s + 2) (f s) else f s)
     | Breaks f \<Rightarrow> r = (True, f s))"

lemma predicts_computes: "f s = reg_write rd v s \<Longrightarrow> predicts (Computes f) s (c_next (reg_write rd v s))"
  by (simp add: predicts_def c_next_def)

lemma predicts_accesses: "predicts (Accesses f) s (c_access f s)"
  by (simp add: predicts_def c_access_def Let_def)

lemmas base_ops = insi_i_addi_def insi_u_lui_def insi_i_srli_def insi_i_srai_def insi_i_andi_def insi_i_slli_def
  insi_r_sub_def insi_r_xor_def insi_r_or_def insi_r_and_def insi_r_add_def

lemma expansion_q0: "expand_q0 c f3 = Some x \<Longrightarrow> predicts x s (exec_c_q0 c f3 s)"
  by (auto simp: expand_q0_def exec_c_q0_def Let_def predicts_accesses base_ops intro: predicts_computes split: if_splits)

lemma expansion_alu: "expand_alu c = Some x \<Longrightarrow> predicts x s (exec_c_alu c s)"
proof -
  have "\<not> (2 :: u32) \<le> 1" "\<not> (3 :: u32) \<le> 1" by (simp_all add: word_le_nat_alt)
  then show "expand_alu c = Some x \<Longrightarrow> predicts x s (exec_c_alu c s)"
    using cfield_cases [of c 10]
    by (auto simp: expand_alu_def exec_c_alu_def Let_def base_ops intro!: predicts_computes split: if_splits)
qed

text \<open>Offsets are even, so an even \<open>pc\<close> stays even and no transfer traps.\<close>

lemma offsets_even: "even (c_jal_offset c)" "even (c_branch_offset c)"
  by (simp_all add: c_jal_offset_def c_branch_offset_def Let_def even_or_iff)

lemma and_1_even: "(x AND 1 = 0) \<longleftrightarrow> even (x :: u32)"
  by (simp add: and_one_eq even_iff_mod_2_eq_zero)

lemma aligned_target: "misa_c_enabled s \<Longrightarrow> even a \<Longrightarrow> raise_if_misaligned_fetch a s = (False, s)"
  by (simp add: raise_if_misaligned_fetch_def and_1_even)

lemma reg_write_pc: "(reg_write i d s)\<lparr>pc := a\<rparr> = reg_write i d (s\<lparr>pc := a\<rparr>)"
  by (simp add: reg_write_def)

lemma expansion_q1:
  assumes "misa_c_enabled s" "even (pc s)" "expand_q1 c f3 = Some x"
  shows "predicts x s (exec_c_q1 c f3 s)"
proof -
  have t: "raise_if_misaligned_fetch (pc s + c_jal_offset c) s = (False, s)"
    "raise_if_misaligned_fetch (pc s + c_branch_offset c) s = (False, s)"
    using assms(1,2) offsets_even [of c] by (simp_all add: aligned_target)
  have "insi_j_jal (c_jal_offset c) 0 s = s\<lparr>pc := pc s + c_jal_offset c - 4\<rparr>"
    using t by (simp add: insi_j_jal_def Let_def) (simp add: reg_write_def)
  moreover have "take_branch (c_branch_offset c) s = s\<lparr>pc := pc s + c_branch_offset c - 4\<rparr>"
    using t by (simp add: take_branch_def Let_def)
  ultimately show ?thesis using assms(3)
    by (auto simp: expand_q1_def exec_c_q1_def Let_def base_ops c_jump_def insi_b_beq_def insi_b_bne_def reg_write_pc
        predicts_def [of "Branches _ _"] predicts_def [of "Jumps _ _ _"] c_next_def [of s] expansion_alu
        intro!: predicts_computes split: if_splits)
qed

lemma even_clear_bit_0:
  assumes "even (x :: u32)"
  shows "x AND - 2 = x"
proof -
  have "x AND NOT 1 = x" by (rule bit_word_eqI) (use assms in \<open>auto simp: bit_simps bit_0\<close>)
  then show ?thesis by simp
qed

lemma predicts_jr:
  assumes "misa_c_enabled s" "even (reg_read rs1 s) \<Longrightarrow> link \<Longrightarrow> rs1 \<noteq> 1"
  shows "predicts (Jumps link (\<lambda>s. even (reg_read rs1 s)) (insi_i_jalr 0 rs1 0)) s
    (case raise_if_misaligned_fetch (reg_read rs1 s) s of (bad, s) \<Rightarrow>
       if bad then (True, s)
       else c_jump (reg_read rs1 (if link then reg_write 1 (pc s + 2) s else s)) (if link then reg_write 1 (pc s + 2) s else s))"
proof -
  have "insi_i_jalr 0 rs1 0 s = s\<lparr>pc := reg_read rs1 s - 4\<rparr>" if "even (reg_read rs1 s)"
    using that assms(1) by (simp add: insi_i_jalr_def even_clear_bit_0 aligned_target Let_def reg_write_def)
  then show ?thesis using assms
    by (auto simp: predicts_def aligned_target c_jump_def reg_write_pc reg_read_write)
qed

lemma expansion_q2:
  assumes "misa_c_enabled s" "expand_q2 c f3 = Some x"
  shows "predicts x s (exec_c_q2 c f3 s)"
proof (cases "f3 = 4 \<and> cfield c 2 0x1F = 0 \<and> cfield c 7 0x1F \<noteq> 0")
  case True
  with assms predicts_jr [OF assms(1), of "cfield c 7 0x1F" False, unfolded if_False]
    predicts_jr [OF assms(1), of "cfield c 7 0x1F" True, unfolded if_True]
  show ?thesis using cfield_1_cases [of c 12] unfolding expand_q2_def exec_c_q2_def exec_c_jump_def Let_def
    by (auto split: if_splits)
next
  case False
  then show ?thesis using assms(2)
    by (auto simp: expand_q2_def exec_c_q2_def exec_c_jump_def Let_def predicts_accesses base_ops
        predicts_def [of "Breaks _"] insi_i_ebreak_def intro!: predicts_computes split: if_splits)
qed

text \<open>
  C8. A compressed integer instruction does what its expansion does and steps over two bytes instead of
  four: its effect on registers and memory is that of the base instruction; for a load or store
  that traps, \<open>pc\<close> is where the trap put it. A branch is taken when the base branch is, and to the
  same target; a jump goes where the base jump goes and links to the next halfword, through an even
  register other than x1 (see theorem \<open>c_jalr_through_ra\<close>).
\<close>

theorem c_insn_is_expansion:
  assumes "c_expansion c = Some x" and "misa_c_enabled s" "even (pc s)"
  shows "predicts x s (exec_c_insn c s)"
  using assms by (simp add: c_expansion_def exec_c_insn_def Let_def expansion_q0 expansion_q1 expansion_q2 split: if_splits)

theorem c_insn_is_expansion_witness:
  "predicts (Computes (insi_i_addi (- 1) 10 10)) (reset_state 0) (exec_c_insn 0x157D (reset_state 0)) \<and>
   predicts (Branches (\<lambda>s. reg_read 8 s = 0) (insi_b_beq 4 0 8)) (reset_state 0) (exec_c_insn 0xC011 (reset_state 0))"
proof -
  have c: "misa_c_enabled (reset_state 0)" by (simp add: misa_c_enabled_def csr_init_at)
  have "c_expansion 0x157D = Some (Computes (insi_i_addi (- 1) 10 10))"
    by (simp add: c_expansion_def expand_q1_def Let_def cfield_def c_imm6_def sext6_def)
  moreover have "c_expansion 0xC011 = Some (Branches (\<lambda>s. reg_read 8 s = 0) (insi_b_beq 4 0 8))"
    by (simp add: c_expansion_def expand_q1_def Let_def cfield_def c_branch_offset_def)
  ultimately show ?thesis using c_insn_is_expansion [OF _ c] by simp
qed

section \<open>Register jumps\<close>

text \<open>
  C.JALR with x1 as its operand does not call through it: the link is written to x1 before the
  target is read from it, so the jump goes to the next instruction, wherever x1 pointed.
\<close>

theorem c_jalr_through_ra:
  assumes "misa_c_enabled s" and "reg_read 1 s AND 1 = 0"
  shows "exec_c_insn 0x9082 s = (False, (reg_write 1 (pc s + 2) s)\<lparr>pc := pc s - 2\<rparr>)"
proof -
  have "raise_if_misaligned_fetch (reg_read 1 s) s = (False, s)"
    using assms by (simp add: raise_if_misaligned_fetch_def)
  then show ?thesis
    by (simp add: exec_c_insn_def exec_c_q2_def exec_c_jump_def Let_def cfield_def c_jump_def reg_read_write)
qed

theorem c_jalr_through_ra_witness:
  "pc (snd (exec_c_insn 0x9082 (reg_write 1 0x80001000 (reset_state 0x80000000)))) + 4 = 0x80000002"
proof -
  let ?s = "reg_write 1 0x80001000 (reset_state 0x80000000)"
  have "misa_c_enabled ?s" "reg_read 1 ?s AND 1 = 0"
    by (simp_all add: misa_c_enabled_def csr_init_at reg_read_write)
  from c_jalr_through_ra [OF this] show ?thesis by simp
qed

end
