(* ===== verification/M_Ext.thy ===== *)
theory M_Ext
  imports Trap "HOL-Library.Signed_Division"
begin

text \<open>
  Multiplication and division of src/src/extension/m_extension.c and the conditional moves of
  src/include/extension/zicond_extension.h. \<open>int32_t\<close> values are 32-bit words read with \<open>sint\<close>; the
  64-bit products are 64-bit words; C's division truncates, as \<open>sdiv\<close> and \<open>smod\<close> of
  \<open>int\<close> do.
\<close>

definition insm_r_mul :: "u32 \<Rightarrow> u32 \<Rightarrow> u32 \<Rightarrow> emu \<Rightarrow> emu" where
  "insm_r_mul rs2 rs1 rd s = (let v1 = reg_read rs1 s; v2 = reg_read rs2 s in reg_write rd (v1 * v2) s)"

definition insm_r_mulh :: "u32 \<Rightarrow> u32 \<Rightarrow> u32 \<Rightarrow> emu \<Rightarrow> emu" where
  "insm_r_mulh rs2 rs1 rd s =
     (let v1 = reg_read rs1 s; v2 = reg_read rs2 s; result = (scast v1 * scast v2 :: u64)
      in reg_write rd (ucast (sar result 32)) s)"

definition insm_r_mulsu :: "u32 \<Rightarrow> u32 \<Rightarrow> u32 \<Rightarrow> emu \<Rightarrow> emu" where
  "insm_r_mulsu rs2 rs1 rd s =
     (let v1 = reg_read rs1 s; v2 = reg_read rs2 s; result = (scast v1 * ucast v2 :: u64)
      in reg_write rd (ucast (sar result 32)) s)"

definition insm_r_mulu :: "u32 \<Rightarrow> u32 \<Rightarrow> u32 \<Rightarrow> emu \<Rightarrow> emu" where
  "insm_r_mulu rs2 rs1 rd s =
     (let v1 = reg_read rs1 s; v2 = reg_read rs2 s; result = (ucast v1 * ucast v2 :: u64)
      in reg_write rd (ucast (shr result 32)) s)"

abbreviation INT32_MIN :: u32 where "INT32_MIN \<equiv> 0x80000000"

definition insm_r_div :: "u32 \<Rightarrow> u32 \<Rightarrow> u32 \<Rightarrow> emu \<Rightarrow> emu" where
  "insm_r_div rs2 rs1 rd s =
     (let v1 = reg_read rs1 s; v2 = reg_read rs2 s
      in if v2 = 0 then reg_write rd 0xFFFFFFFF s
         else if v1 = INT32_MIN \<and> v2 = -1 then reg_write rd INT32_MIN s
         else reg_write rd (word_of_int (sint v1 sdiv sint v2)) s)"

definition insm_r_divu :: "u32 \<Rightarrow> u32 \<Rightarrow> u32 \<Rightarrow> emu \<Rightarrow> emu" where
  "insm_r_divu rs2 rs1 rd s =
     (let v1 = reg_read rs1 s; v2 = reg_read rs2 s
      in if v2 = 0 then reg_write rd 0xFFFFFFFF s else reg_write rd (v1 div v2) s)"

definition insm_r_rem :: "u32 \<Rightarrow> u32 \<Rightarrow> u32 \<Rightarrow> emu \<Rightarrow> emu" where
  "insm_r_rem rs2 rs1 rd s =
     (let v1 = reg_read rs1 s; v2 = reg_read rs2 s
      in if v2 = 0 then reg_write rd v1 s
         else if v1 = INT32_MIN \<and> v2 = -1 then reg_write rd 0 s
         else reg_write rd (word_of_int (sint v1 smod sint v2)) s)"

definition insm_r_remu :: "u32 \<Rightarrow> u32 \<Rightarrow> u32 \<Rightarrow> emu \<Rightarrow> emu" where
  "insm_r_remu rs2 rs1 rd s =
     (let v1 = reg_read rs1 s; v2 = reg_read rs2 s
      in if v2 = 0 then reg_write rd v1 s else reg_write rd (v1 mod v2) s)"

definition ins_zicond_czero_eqz :: "u32 \<Rightarrow> u32 \<Rightarrow> u32 \<Rightarrow> emu \<Rightarrow> emu" where
  "ins_zicond_czero_eqz rs1 rs2 rd s =
     (let val1 = reg_read rs1 s; val2 = reg_read rs2 s
      in if val2 = 0 then reg_write rd 0 s else reg_write rd val1 s)"

definition ins_zicond_czero_nez :: "u32 \<Rightarrow> u32 \<Rightarrow> u32 \<Rightarrow> emu \<Rightarrow> emu" where
  "ins_zicond_czero_nez rs1 rs2 rd s =
     (let val1 = reg_read rs1 s; val2 = reg_read rs2 s
      in if val2 \<noteq> 0 then reg_write rd 0 s else reg_write rd val1 s)"

lemma emu_inv_m [inv_rules]:
  assumes "emu_inv s"
  shows "emu_inv (insm_r_mul a b c s)" "emu_inv (insm_r_mulh a b c s)" "emu_inv (insm_r_mulsu a b c s)"
    "emu_inv (insm_r_mulu a b c s)" "emu_inv (insm_r_div a b c s)" "emu_inv (insm_r_divu a b c s)"
    "emu_inv (insm_r_rem a b c s)" "emu_inv (insm_r_remu a b c s)"
    "emu_inv (ins_zicond_czero_eqz a b c s)" "emu_inv (ins_zicond_czero_nez a b c s)"
  using assms by (simp_all add: insm_r_mul_def insm_r_mulh_def insm_r_mulsu_def insm_r_mulu_def
      insm_r_div_def insm_r_divu_def insm_r_rem_def insm_r_remu_def ins_zicond_czero_eqz_def
      ins_zicond_czero_nez_def Let_def inv_rules)

section \<open>Multiplication\<close>

lemma sint_trunc: "sint (ucast (z :: u64) :: u32) = signed_take_bit 31 (sint z)"
proof -
  have "(ucast z :: u32) = word_of_int (sint z)"
    by (rule bit_word_eqI) (simp add: bit_simps)
  then show ?thesis by (simp only: sint_sbintrunc') simp
qed

lemma sint32_bounds: "- (2 ^ 31) \<le> sint (x :: u32)" "sint (x :: u32) < 2 ^ 31"
  using sint_range_size [of x] by (simp_all add: word_size)

lemma uint32_bounds: "0 \<le> uint (x :: u32)" "uint (x :: u32) < 2 ^ 32"
  using uint_lt2p [of x] by simp_all

lemma high_word:
  assumes "sint (w :: u64) = p" "- (2 ^ 63) \<le> p" "p < 2 ^ 63"
  shows "sint (ucast (sar w 32) :: u32) = p div 2 ^ 32"
proof -
  have "sint (sar w 32) = p div 2 ^ 32"
    by (simp add: sint_signed_drop_bit_eq assms(1) drop_bit_eq_div)
  moreover have "- (2 ^ 31) \<le> p div 2 ^ 32" "p div 2 ^ 32 < 2 ^ 31" using assms(2,3) by simp_all
  ultimately show ?thesis by (simp add: sint_trunc signed_take_bit_int_eq_self)
qed

lemma product_bounds:
  assumes "- m \<le> a" "a < m" "- n \<le> b" "b < n" "0 < m" "0 < (n :: int)"
  shows "\<bar>a * b\<bar> \<le> m * n"
proof -
  have "\<bar>a\<bar> \<le> m" "\<bar>b\<bar> \<le> n" using assms by auto
  then show ?thesis unfolding abs_mult by (rule mult_mono) (use assms in auto)
qed

lemma mulh_exact: "sint (ucast (sar (scast (x::u32) * scast (y::u32) :: u64) 32) :: u32) = (sint x * sint y) div 2 ^ 32"
proof (rule high_word)
  have b: "\<bar>sint x * sint y\<bar> \<le> 2 ^ 31 * 2 ^ 31"
    by (rule product_bounds) (use sint32_bounds in auto)
  have "sint (scast x * scast y :: u64) = signed_take_bit 63 (sint x * sint y)"
    by (simp add: sint_word_mult sint_up_scast is_up)
  then show "sint (scast x * scast y :: u64) = sint x * sint y"
    using b by (simp add: signed_take_bit_int_eq_self abs_le_iff)
qed (use product_bounds [of "2 ^ 31" "sint x" "2 ^ 31" "sint y"] sint32_bounds in \<open>auto simp: abs_le_iff\<close>)

lemma mulsu_bounds:
  "- (2 ^ 63) \<le> sint (x::u32) * uint (y::u32)" "sint (x::u32) * uint (y::u32) < 2 ^ 63"
proof -
  have "sint x * uint y \<le> (2 ^ 31 - 1) * uint y"
    using sint32_bounds [of x] uint32_bounds [of y] by (intro mult_right_mono) auto
  also have "\<dots> < 2 ^ 63" using uint32_bounds [of y] by simp
  finally show "sint x * uint y < 2 ^ 63" .
  have "- (2 ^ 31) * uint y \<le> sint x * uint y"
    using sint32_bounds [of x] uint32_bounds [of y] by (intro mult_right_mono) auto
  moreover have "- (2 ^ 63) \<le> - (2 ^ 31) * uint y" using uint32_bounds [of y] by simp
  ultimately show "- (2 ^ 63) \<le> sint x * uint y" by simp
qed

lemma mulsu_exact: "sint (ucast (sar (scast (x::u32) * ucast (y::u32) :: u64) 32) :: u32) = (sint x * uint y) div 2 ^ 32"
proof (rule high_word)
  have u: "sint (ucast y :: u64) = uint y"
    using signed_take_bit_int_eq_self [of 63 "uint y"] uint32_bounds [of y]
    by (simp add: sint_uint unsigned_ucast_eq take_bit_int_eq_self)
  have "sint (scast x * ucast y :: u64) = signed_take_bit 63 (sint x * uint y)"
    by (simp add: sint_word_mult sint_up_scast is_up u)
  then show "sint (scast x * ucast y :: u64) = sint x * uint y"
    using mulsu_bounds [of x y] by (simp add: signed_take_bit_int_eq_self)
qed (use mulsu_bounds [of x y] in simp_all)

lemma mulu_exact: "uint (ucast (shr (ucast (x::u32) * ucast (y::u32) :: u64) 32) :: u32) = (uint x * uint y) div 2 ^ 32"
proof -
  have "uint x * uint y \<le> (2 ^ 32 - 1) * (2 ^ 32 - 1)"
    using uint32_bounds [of x] uint32_bounds [of y] by (intro mult_mono) auto
  then have lt: "uint x * uint y < 2 ^ 64" by simp
  have nn: "0 \<le> uint x * uint y" by simp
  have "uint (ucast x * ucast y :: u64) = uint x * uint y"
    using lt nn uint32_bounds [of x] uint32_bounds [of y]
    by (simp add: uint_word_ariths unsigned_ucast_eq take_bit_int_eq_self)
  then have "uint (shr (ucast x * ucast y :: u64) 32) = (uint x * uint y) div 2 ^ 32"
    by (simp add: drop_bit_eq_div uint_div_distrib)
  moreover have "(uint x * uint y) div 2 ^ 32 < 2 ^ 32" using lt by simp
  moreover have "0 \<le> (uint x * uint y) div 2 ^ 32" using nn by (simp add: pos_imp_zdiv_nonneg_iff)
  ultimately show ?thesis by (simp add: unsigned_ucast_eq take_bit_int_eq_self)
qed

text \<open>
  The high-word multiplications are the upper halves of the exact products: signed by
  signed, signed by unsigned and unsigned by unsigned, \<open>mul\<close> gives the lower half and the other instruction the
  upper half of the 64-bit product of the operands.
\<close>

theorem mul_high_low_exact:
  fixes s :: emu
  assumes "rd \<noteq> 0" and "x = reg_read rs1 s" and "y = reg_read rs2 s"
  shows "sint (reg_read rd (insm_r_mulh rs2 rs1 rd s)) = (sint x * sint y) div 2 ^ 32 \<and>
         sint (reg_read rd (insm_r_mulsu rs2 rs1 rd s)) = (sint x * uint y) div 2 ^ 32 \<and>
         uint (reg_read rd (insm_r_mulu rs2 rs1 rd s)) = (uint x * uint y) div 2 ^ 32 \<and>
         uint (reg_read rd (insm_r_mul rs2 rs1 rd s)) = (uint x * uint y) mod 2 ^ 32"
  unfolding assms(2,3) using assms(1) mulh_exact [of "reg_read rs1 s" "reg_read rs2 s"]
    mulsu_exact [of "reg_read rs1 s" "reg_read rs2 s"] mulu_exact [of "reg_read rs1 s" "reg_read rs2 s"]
  by (simp add: insm_r_mul_def insm_r_mulh_def insm_r_mulsu_def insm_r_mulu_def Let_def reg_read_write
      uint_word_ariths)

theorem mul_high_low_exact_witness:
  "sint (reg_read 5 (insm_r_mulh 6 7 5 (reg_write 6 0xFFFFFFFF (reg_write 7 3 (reset_state 0))))) = -1"
  using mul_high_low_exact [of 5 _ 7 "reg_write 6 0xFFFFFFFF (reg_write 7 3 (reset_state 0))" _ 6, OF _ refl refl]
  by (simp add: reg_read_write)


section \<open>Division\<close>

lemma word_of_sint: "word_of_int (sint x) = x" for x :: u32
  by simp

lemma signed_div_identity:
  "word_of_int (sint x sdiv sint y) * y + word_of_int (sint x smod sint y) = x" for x y :: u32
proof -
  have "word_of_int (sint x sdiv sint y) * y + word_of_int (sint x smod sint y) =
      (word_of_int (sint x sdiv sint y * sint y + sint x smod sint y) :: u32)"
    by (simp only: wi_hom_add [symmetric] wi_hom_mult [symmetric] word_of_sint)
  also have "\<dots> = x" by (simp only: sdiv_mult_smod_eq word_of_sint)
  finally show ?thesis .
qed

lemma sint_signed_rem:
  assumes "y \<noteq> (0 :: u32)"
  shows "sint (word_of_int (sint x smod sint y) :: u32) = sint x smod sint y"
proof -
  have ne: "sint y \<noteq> 0" using assms word_of_sint [of y] by fastforce
  have "- (2 ^ 31) \<le> sint x smod sint y" "sint x smod sint y < 2 ^ 31"
    using smod_int_range [OF ne, of "sint x"] sint32_bounds [of y] by auto
  then show ?thesis using signed_take_bit_int_eq_self [of 31 "sint x smod sint y"] by (simp only: sint_sbintrunc') simp
qed

lemma rem_props:
  assumes "b \<noteq> (0 :: int)"
  shows "\<bar>a smod b\<bar> < \<bar>b\<bar>" "0 \<le> a \<longrightarrow> 0 \<le> a smod b" "a \<le> 0 \<longrightarrow> a smod b \<le> 0"
  using smod_int_range [OF assms, of a] by (auto simp: smod_int_alt_def sgn_if)

text \<open>
  C34. The division contract of the M extension, for every pair of operands: signed and
  unsigned, dividend = quotient times divisor + remainder as 32-bit words, also for the two
  special cases, division by zero (quotient all ones, remainder the dividend) and overflow; and
  for a non-zero divisor the remainder is smaller in magnitude and has the dividend's sign.
\<close>

theorem division_contract:
  fixes s :: emu
  assumes "rd \<noteq> 0" and "x = reg_read rs1 s" and "y = reg_read rs2 s"
    and "q = reg_read rd (insm_r_div rs2 rs1 rd s)" and "r = reg_read rd (insm_r_rem rs2 rs1 rd s)"
    and "qu = reg_read rd (insm_r_divu rs2 rs1 rd s)" and "ru = reg_read rd (insm_r_remu rs2 rs1 rd s)"
  shows "q * y + r = x \<and> qu * y + ru = x \<and>
         (y = 0 \<longrightarrow> q = -1 \<and> qu = -1 \<and> r = x \<and> ru = x) \<and>
         (y \<noteq> 0 \<longrightarrow> \<bar>sint r\<bar> < \<bar>sint y\<bar> \<and> (0 \<le> sint x \<longrightarrow> 0 \<le> sint r) \<and> (sint x \<le> 0 \<longrightarrow> sint r \<le> 0) \<and> ru < y)"
proof (cases "y = 0 \<or> x = INT32_MIN \<and> y = -1")
  case True
  then have "q = (if y = 0 then -1 else INT32_MIN)" "r = (if y = 0 then x else 0)"
    using assms(1) by (auto simp: assms(2-5) insm_r_div_def insm_r_rem_def Let_def reg_read_write)
  moreover have "qu = (if y = 0 then -1 else x div y)" "ru = (if y = 0 then x else x mod y)"
    using assms(1) by (auto simp: assms(2,3,6,7) insm_r_divu_def insm_r_remu_def Let_def reg_read_write)
  ultimately show ?thesis using True by (auto simp: word_mod_less_divisor word_gt_0)
next
  case False
  then have q: "q = word_of_int (sint x sdiv sint y)" "r = word_of_int (sint x smod sint y)"
    using assms(1) by (auto simp: assms(2-5) insm_r_div_def insm_r_rem_def Let_def reg_read_write)
  moreover have "qu = x div y" "ru = x mod y"
    using assms(1) False by (auto simp: assms(2,3,6,7) insm_r_divu_def insm_r_remu_def Let_def reg_read_write)
  moreover have "sint y \<noteq> 0" using False word_of_sint [of y] by fastforce
  ultimately show ?thesis
    using False signed_div_identity [of x y] sint_signed_rem [of y x] rem_props [of "sint y" "sint x"]
    by (simp add: word_mod_less_divisor word_gt_0 word_mod_div_equality)
qed

theorem division_contract_witness:
  "reg_read 5 (insm_r_div 6 7 5 (reset_state 0)) = -1"
  using division_contract [of 5 _ 7 "reset_state 0" _ 6, OF _ refl refl refl refl refl refl]
  by (simp add: reg_read_def)

end
