(* ===== verification/A_Ext.thy ===== *)
theory A_Ext
  imports Mmu
begin

text \<open>
  Atomics of src/include/extension/a_extension.h. A reservation is an entry of the hash table
  \<open>mmu_flags\<close> at the word address, with bit 0 set. \<open>alloc_ok\<close> is the result of the allocation
  \<open>hashmap_put\<close> may make. A misaligned address ends the emulator (\<open>fatal\<close>).
\<close>

section \<open>Reservations\<close>

definition get_reservation_key :: "u32 \<Rightarrow> u32" where
  "get_reservation_key addr = addr AND NOT 3"

definition get_reserve_status :: "u32 \<Rightarrow> emu \<Rightarrow> bool" where
  "get_reserve_status addr s =
     (case hashmap_get (mmu_flags s) (get_reservation_key addr) of
        None \<Rightarrow> False | Some v \<Rightarrow> v AND 1 \<noteq> 0)"

definition set_reserve_status :: "bool \<Rightarrow> u32 \<Rightarrow> emu \<Rightarrow> emu" where
  "set_reserve_status alloc_ok addr s =
     (let k = get_reservation_key addr;
          v = (case hashmap_get (mmu_flags s) k of None \<Rightarrow> 0 | Some v \<Rightarrow> v);
          v = v OR 1
      in s\<lparr>mmu_flags := hashmap_put alloc_ok (mmu_flags s) k v\<rparr>)"

definition clear_reserve_status :: "bool \<Rightarrow> u32 \<Rightarrow> emu \<Rightarrow> emu" where
  "clear_reserve_status alloc_ok addr s =
     (let k = get_reservation_key addr
      in case hashmap_get (mmu_flags s) k of
           None \<Rightarrow> s
         | Some v \<Rightarrow>
             let v = v AND NOT 1
             in if v = 0 then s\<lparr>mmu_flags := snd (hashmap_remove (mmu_flags s) k)\<rparr>
                else s\<lparr>mmu_flags := hashmap_put alloc_ok (mmu_flags s) k v\<rparr>)"

section \<open>Instructions\<close>

definition insa_r_lr_w :: "bool \<Rightarrow> u32 \<Rightarrow> u32 \<Rightarrow> emu \<Rightarrow> emu res" where
  "insa_r_lr_w alloc_ok rs1 rd s =
     (let addr = reg_read rs1 s
      in if addr AND 3 \<noteq> 0 then Inl ''LR.W misaligned address''
         else
           let (v, s) = mmu_read32_unsigned addr s;
               s = reg_write rd v s
           in Inr (set_reserve_status alloc_ok addr s))"

definition insa_r_sc_w :: "bool \<Rightarrow> u32 \<Rightarrow> u32 \<Rightarrow> u32 \<Rightarrow> emu \<Rightarrow> emu res" where
  "insa_r_sc_w alloc_ok rs1 rs2 rd s =
     (let addr = reg_read rs1 s; val = reg_read rs2 s
      in if addr AND 3 \<noteq> 0 then Inl ''SC.W misaligned address''
         else if get_reserve_status addr s then
           let s = mmu_write32 addr val s;
               s = reg_write rd 0 s
           in Inr (clear_reserve_status alloc_ok addr s)
         else Inr (reg_write rd 1 s))"

text \<open>The body the nine read-modify-write instructions share: they differ in the new value and the message.\<close>

definition amo_w :: "string \<Rightarrow> (u32 \<Rightarrow> u32 \<Rightarrow> u32) \<Rightarrow> u32 \<Rightarrow> u32 \<Rightarrow> u32 \<Rightarrow> emu \<Rightarrow> emu res" where
  "amo_w msg new rs1 rs2 rd s =
     (let addr = reg_read rs1 s; val = reg_read rs2 s
      in if addr AND 3 \<noteq> 0 then Inl msg
         else
           let (old_value, s) = mmu_read32_unsigned addr s;
               s = mmu_write32 addr (new old_value val) s
           in Inr (reg_write rd old_value s))"

definition insa_r_amoswap_w :: "u32 \<Rightarrow> u32 \<Rightarrow> u32 \<Rightarrow> emu \<Rightarrow> emu res" where
  "insa_r_amoswap_w = amo_w ''AMOSWAP.W misaligned address'' (\<lambda>old v. v)"

definition insa_r_amoadd_w :: "u32 \<Rightarrow> u32 \<Rightarrow> u32 \<Rightarrow> emu \<Rightarrow> emu res" where
  "insa_r_amoadd_w = amo_w ''AMOADD.W misaligned address'' (\<lambda>old v. old + v)"

definition insa_r_amoand_w :: "u32 \<Rightarrow> u32 \<Rightarrow> u32 \<Rightarrow> emu \<Rightarrow> emu res" where
  "insa_r_amoand_w = amo_w ''AMOAND.W misaligned address'' (\<lambda>old v. old AND v)"

definition insa_r_amoor_w :: "u32 \<Rightarrow> u32 \<Rightarrow> u32 \<Rightarrow> emu \<Rightarrow> emu res" where
  "insa_r_amoor_w = amo_w ''AMOOR.W misaligned address'' (\<lambda>old v. old OR v)"

definition insa_r_amoxor_w :: "u32 \<Rightarrow> u32 \<Rightarrow> u32 \<Rightarrow> emu \<Rightarrow> emu res" where
  "insa_r_amoxor_w = amo_w ''AMOXOR.W misaligned address'' (\<lambda>old v. old XOR v)"

definition insa_r_amomax_w :: "u32 \<Rightarrow> u32 \<Rightarrow> u32 \<Rightarrow> emu \<Rightarrow> emu res" where
  "insa_r_amomax_w = amo_w ''AMOMAX.W misaligned address'' (\<lambda>old v. if v <s old then old else v)"

definition insa_r_amomin_w :: "u32 \<Rightarrow> u32 \<Rightarrow> u32 \<Rightarrow> emu \<Rightarrow> emu res" where
  "insa_r_amomin_w = amo_w ''AMOMIN.W misaligned address'' (\<lambda>old v. if old <s v then old else v)"

definition insa_r_amomaxu_w :: "u32 \<Rightarrow> u32 \<Rightarrow> u32 \<Rightarrow> emu \<Rightarrow> emu res" where
  "insa_r_amomaxu_w = amo_w ''AMOMAXU.W misaligned address'' (\<lambda>old v. if old > v then old else v)"

definition insa_r_amominu_w :: "u32 \<Rightarrow> u32 \<Rightarrow> u32 \<Rightarrow> emu \<Rightarrow> emu res" where
  "insa_r_amominu_w = amo_w ''AMOMINU.W misaligned address'' (\<lambda>old v. if old < v then old else v)"

section \<open>The machine invariant\<close>

lemma emu_inv_flags: "emu_inv s \<Longrightarrow> hm_inv h \<Longrightarrow> emu_inv (s\<lparr>mmu_flags := h\<rparr>)"
  by (simp add: emu_inv_def)

lemma emu_inv_hm: "emu_inv s \<Longrightarrow> hm_inv (mmu_flags s)"
  by (simp add: emu_inv_def)

lemma emu_inv_set_reserve [inv_rules]: "emu_inv s \<Longrightarrow> emu_inv (set_reserve_status True a s)"
  by (simp add: set_reserve_status_def Let_def emu_inv_flags emu_inv_hm hashmap_put_correct)

lemma emu_inv_clear_reserve [inv_rules]: "emu_inv s \<Longrightarrow> emu_inv (clear_reserve_status True a s)"
  by (simp add: clear_reserve_status_def Let_def emu_inv_flags emu_inv_hm hashmap_put_correct
      hashmap_remove_correct split: option.split)

lemma keeps_inv_amo: "emu_inv s \<Longrightarrow> keeps_inv (amo_w msg f rs1 rs2 rd s)"
  by (simp add: amo_w_def Let_def case_prod_unfold inv_rules)

lemma keeps_inv_atomics [inv_rules]:
  assumes "emu_inv s"
  shows "keeps_inv (insa_r_lr_w True a b s)" "keeps_inv (insa_r_sc_w True a b c s)"
    "keeps_inv (insa_r_amoswap_w a b c s)" "keeps_inv (insa_r_amoadd_w a b c s)"
    "keeps_inv (insa_r_amoand_w a b c s)" "keeps_inv (insa_r_amoor_w a b c s)"
    "keeps_inv (insa_r_amoxor_w a b c s)" "keeps_inv (insa_r_amomax_w a b c s)"
    "keeps_inv (insa_r_amomin_w a b c s)" "keeps_inv (insa_r_amomaxu_w a b c s)"
    "keeps_inv (insa_r_amominu_w a b c s)"
  using assms by (simp_all add: insa_r_lr_w_def insa_r_sc_w_def insa_r_amoswap_w_def insa_r_amoadd_w_def
      insa_r_amoand_w_def insa_r_amoor_w_def insa_r_amoxor_w_def insa_r_amomax_w_def insa_r_amomin_w_def
      insa_r_amomaxu_w_def insa_r_amominu_w_def keeps_inv_amo Let_def case_prod_unfold inv_rules)

section \<open>Read-modify-write\<close>

text \<open>The instructions and the functions they should compute, on signed and unsigned integers.\<close>

definition amo_spec :: "((u32 \<Rightarrow> u32 \<Rightarrow> u32 \<Rightarrow> emu \<Rightarrow> emu res) \<times> (u32 \<Rightarrow> u32 \<Rightarrow> u32 \<Rightarrow> bool)) set" where
  "amo_spec =
    {(insa_r_amoswap_w, \<lambda>old v new. new = v),
     (insa_r_amoadd_w, \<lambda>old v new. uint new = (uint old + uint v) mod 2 ^ 32),
     (insa_r_amoand_w, \<lambda>old v new. \<forall>n. bit new n = (bit old n \<and> bit v n)),
     (insa_r_amoor_w, \<lambda>old v new. \<forall>n. bit new n = (bit old n \<or> bit v n)),
     (insa_r_amoxor_w, \<lambda>old v new. \<forall>n. bit new n = (bit old n \<noteq> bit v n)),
     (insa_r_amomax_w, \<lambda>old v new. sint new = max (sint old) (sint v)),
     (insa_r_amomin_w, \<lambda>old v new. sint new = min (sint old) (sint v)),
     (insa_r_amomaxu_w, \<lambda>old v new. uint new = max (uint old) (uint v)),
     (insa_r_amominu_w, \<lambda>old v new. uint new = min (uint old) (uint v))}"

lemma clear_reservation_alpha:
  assumes "hm_inv (mmu_flags s)"
  shows "hm_alpha (mmu_flags (mem_clear_reservation a s)) = (hm_alpha (mmu_flags s))(a AND NOT 3 := None)"
  using assms hm_alpha_card [OF assms] by (auto simp: mem_clear_reservation_def hashmap_remove_correct)

lemma reg_read_frame [simp]:
  "reg_read i (s\<lparr>main_memory := f\<rparr>) = reg_read i s" "reg_read i (s\<lparr>mmu_flags := h\<rparr>) = reg_read i s"
  "reg_read i (mem_clear_reservation a s) = reg_read i s"
  by (simp_all add: reg_read_def)

lemma amo_w_bare:
  assumes "bare s" "ram32 (reg_read rs1 s)" "reg_read rs1 s AND 3 = 0"
  shows "amo_w msg f rs1 rs2 rd s =
    (let a = reg_read rs1 s; old = load_le 4 a (main_memory s)
     in Inr (reg_write rd old ((mem_clear_reservation a s)\<lparr>main_memory :=
          store_le 4 a (f old (reg_read rs2 s)) (main_memory s)\<rparr>)))"
  using assms by (simp add: amo_w_def Let_def read32_bare write32_bare)

text \<open>Two states that agree on everything an AMO at \<open>a\<close> with result \<open>new\<close> may not touch.\<close>

definition amo_effect :: "u32 \<Rightarrow> u32 \<Rightarrow> u32 \<Rightarrow> emu \<Rightarrow> emu \<Rightarrow> bool" where
  "amo_effect rd a new s t \<longleftrightarrow>
     reg_read rd t = load_le 4 a (main_memory s) \<and>
     load_le 4 a (main_memory t) = new \<and>
     (\<forall>b. 4 \<le> unat (b - a) \<longrightarrow> main_memory t b = main_memory s b) \<and>
     (\<forall>i. i \<noteq> rd \<longrightarrow> reg_read i t = reg_read i s) \<and>
     hm_alpha (mmu_flags t) = (hm_alpha (mmu_flags s))(a := None)"

lemma aligned_key: "a AND 3 = 0 \<Longrightarrow> a AND NOT 3 = a" for a :: u32
  by (simp add: word32_bits bit_simps)

lemma amo_w_effect:
  assumes "emu_inv s" and "bare s" and "rd \<noteq> 0" and "ram32 (reg_read rs1 s)" and "reg_read rs1 s AND 3 = 0"
  shows "\<exists>t. amo_w msg f rs1 rs2 rd s = Inr t \<and>
    amo_effect rd (reg_read rs1 s) (f (load_le 4 (reg_read rs1 s) (main_memory s)) (reg_read rs2 s)) s t"
proof -
  note res = clear_reservation_alpha [OF emu_inv_hm [OF assms(1)], of "reg_read rs1 s", unfolded aligned_key [OF assms(5)]]
  show ?thesis
    unfolding amo_w_bare [OF assms(2,4,5)] Let_def amo_effect_def
    using assms(3) res by (simp add: reg_read_write load_store_le store_le_apply)
qed

lemma max_min_values:
  "sint (if v <s x then x else v) = max (sint x) (sint v)"
  "sint (if x <s v then x else v) = min (sint x) (sint v)"
  "uint (if x > v then x else v) = max (uint x) (uint v)"
  "uint (if x < v then x else v) = min (uint x) (uint v)" for x v :: u32
  by (auto simp: word_sless_alt word_less_def)

lemma amo_spec_cases:
  assumes "(ins, spec) \<in> amo_spec"
  shows "\<exists>msg f. ins = amo_w msg f \<and> (\<forall>x v. spec x v (f x v))"
proof -
  have ok: "\<exists>m g. amo_w msg f = amo_w m g \<and> (\<forall>x v. sp x v (g x v))" if "\<forall>x v. sp x v (f x v)" for msg f sp
    using that by blast
  show ?thesis
    using assms unfolding amo_spec_def insa_r_amoswap_w_def insa_r_amoadd_w_def insa_r_amoand_w_def
      insa_r_amoor_w_def insa_r_amoxor_w_def insa_r_amomax_w_def insa_r_amomin_w_def insa_r_amomaxu_w_def
      insa_r_amominu_w_def
    by (elim insertE emptyE Pair_inject; hypsubst; intro ok allI; simp add: max_min_values bit_simps uint_word_ariths)
qed

text \<open>
  C17. Every AMO is an atomic read-modify-write: on an aligned word of RAM with paging off, the old
  word goes to rd, the new word is the operation's function of the old word and rs2 (on
  exact signed or unsigned values), no other byte and no other register changes, and the
  reservation of the word is dropped.
\<close>

theorem amo_correct:
  assumes "(ins, spec) \<in> amo_spec" and "emu_inv s" and "bare s" and "rd \<noteq> 0"
    and "ram32 (reg_read rs1 s)" and "reg_read rs1 s AND 3 = 0"
  shows "\<exists>t new. ins rs1 rs2 rd s = Inr t \<and> amo_effect rd (reg_read rs1 s) new s t \<and>
    spec (load_le 4 (reg_read rs1 s) (main_memory s)) (reg_read rs2 s) new"
proof -
  obtain msg f where "ins = amo_w msg f" and "\<forall>x v. spec x v (f x v)"
    using amo_spec_cases [OF assms(1)] by blast
  then show ?thesis using amo_w_effect [OF assms(2-6), of msg f rs2] by blast
qed

text \<open>A reset machine with an address in x1 and an operand in x2.\<close>

definition atomics_demo :: emu where
  "atomics_demo = reg_write 2 5 (reg_write 1 0x80000000 (reset_state 0))"

lemma atomics_demo_facts:
  "emu_inv atomics_demo" "bare atomics_demo" "reg_read 1 atomics_demo = 0x80000000" "reg_read 2 atomics_demo = 5"
  "ram32 0x80000000"
  unfolding atomics_demo_def
  by (intro inv_rules emu_inv_reset)
    (simp_all add: reg_read_write ram32_def in_clint_def in_uart_def in_plic_def)

theorem amo_correct_witness:
  "\<exists>t new. insa_r_amomax_w 1 2 3 atomics_demo = Inr t \<and> amo_effect 3 0x80000000 new atomics_demo t \<and>
     sint new = max (sint (load_le 4 0x80000000 (main_memory atomics_demo) :: u32)) 5"
proof -
  have m: "(insa_r_amomax_w, \<lambda>old v new. sint new = max (sint old) (sint v)) \<in> amo_spec"
    by (simp add: amo_spec_def)
  show ?thesis
    using amo_correct [OF m atomics_demo_facts(1,2), of 3 1 2] by (simp add: atomics_demo_facts)
qed

section \<open>Load-reserved and store-conditional\<close>

lemma set_reserve_alpha:
  assumes "hm_inv (mmu_flags s)"
  shows "\<exists>v. bit v 0 \<and> hm_alpha (mmu_flags (set_reserve_status True a s)) = (hm_alpha (mmu_flags s))(a AND NOT 3 \<mapsto> v)"
proof -
  let ?v = "case hashmap_get (mmu_flags s) (a AND NOT 3) of None \<Rightarrow> 0 | Some v \<Rightarrow> v"
  have "hm_alpha (mmu_flags (set_reserve_status True a s)) = (hm_alpha (mmu_flags s))(a AND NOT 3 \<mapsto> ?v OR 1)"
    using assms by (simp add: set_reserve_status_def Let_def hashmap_put_correct get_reservation_key_def)
  moreover have "bit (?v OR 1) 0" by (simp add: bit_simps)
  ultimately show ?thesis by blast
qed

lemma get_reserve_alpha:
  "hm_inv (mmu_flags s) \<Longrightarrow> get_reserve_status a s \<longleftrightarrow>
     (\<exists>v. hm_alpha (mmu_flags s) (a AND NOT 3) = Some v \<and> bit v 0)"
  by (auto simp: get_reserve_status_def hashmap_get_correct get_reservation_key_def flag_simps split: option.split)

lemma set_reserve_frame [simp]:
  "main_memory (set_reserve_status ok a s) = main_memory s" "reg_read i (set_reserve_status ok a s) = reg_read i s"
  "bare (set_reserve_status ok a s) = bare s"
  by (simp_all add: set_reserve_status_def Let_def)

lemma clear_reserve_frame [simp]:
  "main_memory (clear_reserve_status ok a s) = main_memory s" "reg_read i (clear_reserve_status ok a s) = reg_read i s"
  "bare (clear_reserve_status ok a s) = bare s"
  by (simp_all add: clear_reserve_status_def Let_def split: option.split)

lemma lr_bare:
  assumes "bare s" "ram32 (reg_read rs1 s)" "reg_read rs1 s AND 3 = 0"
  shows "insa_r_lr_w ok rs1 rd s =
    Inr (set_reserve_status ok (reg_read rs1 s) (reg_write rd (load_le 4 (reg_read rs1 s) (main_memory s)) s))"
  using assms by (simp add: insa_r_lr_w_def Let_def read32_bare)

text \<open>
  The stored word is what the address holds afterwards, and the reservation is gone: the store
  itself removes it, so the \<open>clear_reserve_status\<close> that follows finds nothing.
\<close>

lemma sc_succeeds:
  assumes "emu_inv s" "bare s" "ram32 (reg_read rs1 s)" "reg_read rs1 s AND 3 = 0" "get_reserve_status (reg_read rs1 s) s"
  shows "insa_r_sc_w ok rs1 rs2 rd s = Inr (reg_write rd 0 ((mem_clear_reservation (reg_read rs1 s) s)
     \<lparr>main_memory := store_le 4 (reg_read rs1 s) (reg_read rs2 s) (main_memory s)\<rparr>))"
proof -
  have hm: "hm_inv (mmu_flags (mem_clear_reservation (reg_read rs1 s) s))"
    using assms(1) by (intro emu_inv_hm inv_rules)
  have "hashmap_get (mmu_flags (mem_clear_reservation (reg_read rs1 s) s)) (reg_read rs1 s AND NOT 3) = None"
    unfolding hashmap_get_correct [OF hm] clear_reservation_alpha [OF emu_inv_hm [OF assms(1)]] by simp
  then show ?thesis using assms(2-5)
    by (simp add: insa_r_sc_w_def Let_def write32_bare clear_reserve_status_def get_reservation_key_def)
qed

lemma sc_fails:
  assumes "reg_read rs1 s AND 3 = 0" "\<not> get_reserve_status (reg_read rs1 s) s"
  shows "insa_r_sc_w ok rs1 rs2 rd s = Inr (reg_write rd 1 s)"
  using assms by (simp add: insa_r_sc_w_def Let_def)

text \<open>
  C16. Load-reserved and store-conditional: after LR.W the next SC.W to the word stores rs2 and
  returns 0 whatever happened before the LR.W; a second SC.W without a new LR.W returns 1 and
  changes nothing but rd.
\<close>

theorem lr_sc_pair:
  assumes "emu_inv s" and "bare s" and "a = reg_read rs1 s" and "ram32 a" and "a AND 3 = 0"
    and "rd \<noteq> 0" and "rs1 \<noteq> rd"
  shows "\<exists>t u. insa_r_lr_w True rs1 rd s = Inr t \<and> reg_read rd t = load_le 4 a (main_memory s) \<and>
    insa_r_sc_w True rs1 rs2 rd t = Inr u \<and> reg_read rd u = 0 \<and>
    load_le 4 a (main_memory u) = reg_read rs2 t \<and> insa_r_sc_w True rs1 rs2 rd u = Inr (reg_write rd 1 u)"
proof -
  define t where "t = set_reserve_status True a (reg_write rd (load_le 4 a (main_memory s)) s)"
  define u where "u = reg_write rd 0 ((mem_clear_reservation a t)
     \<lparr>main_memory := store_le 4 a (reg_read rs2 t) (main_memory t)\<rparr>)"
  have inv: "emu_inv t" "emu_inv u" unfolding t_def u_def using assms(1) by (intro inv_rules; simp)+
  have a: "reg_read rs1 t = a" "reg_read rs1 u = a" using assms(3,7) by (simp_all add: t_def u_def reg_read_write)
  have res: "get_reserve_status a t"
    using set_reserve_alpha [of "reg_write rd (load_le 4 a (main_memory s)) s" a] emu_inv_hm [OF assms(1)] inv(1)
    by (auto simp: get_reserve_alpha emu_inv_hm t_def)
  have nores: "\<not> get_reserve_status a u"
    using clear_reservation_alpha [OF emu_inv_hm [OF inv(1)], of a]
    unfolding get_reserve_alpha [OF emu_inv_hm [OF inv(2)]] by (simp add: u_def)
  have b: "bare t" using assms(2) by (simp add: t_def)
  have "insa_r_lr_w True rs1 rd s = Inr t" using assms lr_bare [of s rs1 True rd] by (simp add: t_def)
  moreover have "insa_r_sc_w True rs1 rs2 rd t = Inr u"
    using sc_succeeds [OF inv(1) b, of rs1 True rs2 rd] assms(4,5) res by (simp add: a u_def)
  moreover have "insa_r_sc_w True rs1 rs2 rd u = Inr (reg_write rd 1 u)"
    using sc_fails [of rs1 u True rs2 rd] assms(5) nores by (simp add: a)
  ultimately show ?thesis using assms(6)
    by (intro exI [of _ t] exI [of _ u]) (simp add: t_def u_def reg_read_write load_store_le)
qed

theorem lr_sc_pair_witness:
  "\<exists>t u. insa_r_lr_w True 1 3 atomics_demo = Inr t \<and> insa_r_sc_w True 1 2 3 t = Inr u \<and> reg_read 3 u = 0 \<and>
     insa_r_sc_w True 1 2 3 u = Inr (reg_write 3 1 u)"
  using lr_sc_pair [OF atomics_demo_facts(1,2) refl, of 1 3 2] by (auto simp: atomics_demo_facts)

text \<open>
  Reservations accumulate: the architecture lets a hart hold one reservation, which the latest
  LR.W replaces, but here an LR.W on another word leaves the first one in place, so that an SC.W to
  the first word still succeeds after it.
\<close>

theorem lr_keeps_older_reservation:
  assumes "emu_inv s" and "bare s" and "ram32 (reg_read ra s)" and "reg_read ra s AND 3 = 0"
    and "ram32 (reg_read rb s)" and "reg_read rb s AND 3 = 0" and "rd \<noteq> 0" and "rd \<noteq> ra" and "rd \<noteq> rb"
  shows "\<exists>t u v. insa_r_lr_w True ra rd s = Inr t \<and> insa_r_lr_w True rb rd t = Inr u \<and>
    insa_r_sc_w True ra rs2 rd u = Inr v \<and> reg_read rd v = 0 \<and>
    load_le 4 (reg_read ra s) (main_memory v) = reg_read rs2 u"
proof -
  let ?a = "reg_read ra s" and ?b = "reg_read rb s"
  define t where "t = set_reserve_status True ?a (reg_write rd (load_le 4 ?a (main_memory s)) s)"
  define u where "u = set_reserve_status True ?b (reg_write rd (load_le 4 ?b (main_memory t)) t)"
  have inv: "emu_inv t" "emu_inv u" unfolding t_def u_def using assms(1) by (intro inv_rules; simp)+
  have r: "reg_read ra u = ?a" "reg_read rb t = ?b" and b: "bare t" "bare u"
    using assms(2,8,9) by (simp_all add: t_def u_def reg_read_write)
  have "get_reserve_status ?a u"
    using set_reserve_alpha [of "reg_write rd (load_le 4 ?a (main_memory s)) s" ?a]
      set_reserve_alpha [of "reg_write rd (load_le 4 ?b (main_memory t)) t" ?b] emu_inv_hm [OF assms(1)] inv
    by (auto simp: get_reserve_alpha emu_inv_hm u_def t_def)
  then have "insa_r_sc_w True ra rs2 rd u = Inr (reg_write rd 0 ((mem_clear_reservation ?a u)
     \<lparr>main_memory := store_le 4 ?a (reg_read rs2 u) (main_memory u)\<rparr>))"
    using sc_succeeds [OF inv(2) b(2), of ra True rs2 rd] assms(3,4) by (simp add: r)
  moreover have "insa_r_lr_w True ra rd s = Inr t" "insa_r_lr_w True rb rd t = Inr u"
    using assms lr_bare [of s ra True rd] lr_bare [of t rb True rd] b by (simp_all add: r t_def u_def reg_read_write)
  ultimately show ?thesis using assms(7) by (simp add: reg_read_write load_store_le)
qed

theorem lr_keeps_older_reservation_witness:
  "\<exists>t u v. insa_r_lr_w True 1 3 (reg_write 4 0x80000010 atomics_demo) = Inr t \<and>
     insa_r_lr_w True 4 3 t = Inr u \<and> insa_r_sc_w True 1 2 3 u = Inr v \<and> reg_read 3 v = 0"
proof -
  let ?s = "reg_write 4 0x80000010 atomics_demo"
  have "emu_inv ?s" "bare ?s" "ram32 0x80000010"
    using atomics_demo_facts(1,2) by (simp_all add: inv_rules ram32_def in_clint_def in_uart_def in_plic_def)
  then show ?thesis
    using lr_keeps_older_reservation [of ?s 1 4 3 2] by (auto simp: reg_read_write atomics_demo_facts)
qed

section \<open>Faulting accesses\<close>

lemma drop_reservations_frame [simp]:
  "main_memory (drop_reservations s) = main_memory s" "csr_val c (drop_reservations s) = csr_val c s"
  "gpr (drop_reservations s) = gpr s" "csr_wf (drop_reservations s) = csr_wf s"
  "privilege (drop_reservations s) = privilege s" "pc (drop_reservations s) = pc s"
  by (simp_all add: drop_reservations_def)

lemma machine_mode_is_physical:
  "csr_wf t \<Longrightarrow> privilege t = PRV_MACHINE \<Longrightarrow> \<not> bit (csr_val CSR_MSTATUS t) 17 \<Longrightarrow>
     mmu_translate a MMU_STORE t = (Some a, t)"
  by (simp add: mmu_translate_def Let_def mmu_effective_dpriv_def mmu_vm_active_def csr_reads flag_simps)

text \<open>
  An AMO goes on after its load faults: when the load page fault is taken in machine mode, the
  store that follows runs with machine privilege and so without translation, and overwrites the
  physical memory at the faulting virtual address with the value the program chose.
\<close>

theorem amo_after_fault_writes_physical:
  assumes "emu_inv s" and "a = reg_read rs1 s" and "ram32 a" and "a AND 3 = 0"
    and "mmu_translate a MMU_LOAD s = (None, raise_exception CAUSE_LOAD_PAGE_FAULT a s)"
    and "\<not> delegated (csr_val CSR_MEDELEG s) CAUSE_LOAD_PAGE_FAULT s" and "\<not> bit (csr_val CSR_MSTATUS s) 17"
  shows "\<exists>t. insa_r_amoswap_w rs1 rs2 rd s = Inr t \<and>
    main_memory t = store_le 4 a (reg_read rs2 s) (main_memory s) \<and>
    csr_val CSR_MCAUSE t = CAUSE_LOAD_PAGE_FAULT \<and> privilege t = PRV_MACHINE"
proof -
  define t where "t = raise_exception CAUSE_LOAD_PAGE_FAULT a s"
  have t: "t = raise_machine_exception CAUSE_LOAD_PAGE_FAULT a (pc s) (drop_reservations s)"
    unfolding t_def by (rule raise_exception_machine [OF assms(1,6)])
  note wf = emu_inv_wf [OF assms(1)]
  have wft: "csr_wf t" unfolding t_def using assms(1) by (intro emu_inv_wf inv_rules)
  have "privilege s \<le> PRV_MACHINE" using assms(1) by (simp add: emu_inv_def)
  from m_entry_bits(4) [OF this, of "csr_val CSR_MSTATUS s"]
  have mprv: "\<not> bit (m_entry (privilege s) (csr_val CSR_MSTATUS s) AND mstatus_writable) 17"
    using assms(7) by (auto dest!: arg_cong [where f = "\<lambda>x. bit x 17"] simp: bit_simps)
  have facts: "privilege t = PRV_MACHINE" "main_memory t = main_memory s" "csr_val CSR_MCAUSE t = CAUSE_LOAD_PAGE_FAULT"
    "\<not> bit (csr_val CSR_MSTATUS t) 17"
    using mprv wf by (simp_all add: t trap_eqs csr_val_set)
  have "mmu_read32_unsigned a s = (0, t)" by (simp add: mmu_read32_unsigned_def mmu_load_def assms(5) t_def)
  moreover have "mmu_write32 a v t = (mem_clear_reservation a t)\<lparr>main_memory := store_le 4 a v (main_memory t)\<rparr>" for v
    using machine_mode_is_physical [OF wft facts(1,4)] by (simp add: mmu_write32_def mmu_store_def write32_ram assms(3))
  ultimately show ?thesis using assms(4) facts
    by (simp add: insa_r_amoswap_w_def amo_w_def Let_def assms(2) [symmetric] csr_val_def)
qed

text \<open>Supervisor mode with the root table at 0x80000000 empty at the entry of 0x80400000, which x1 holds.\<close>

lemma paging_demo_unmapped:
  "mmu_translate 0x80400000 MMU_LOAD (reg_write 2 7 (reg_write 1 0x80400000 paging_demo)) =
     (None, raise_exception CAUSE_LOAD_PAGE_FAULT 0x80400000 (reg_write 2 7 (reg_write 1 0x80400000 paging_demo)))"
proof -
  let ?s = "reg_write 2 7 (reg_write 1 0x80400000 paging_demo)"
  have ep: "mmu_effective_dpriv ?s = PRV_SUPERVISOR"
    using paging_demo_walk(5) by (simp add: mmu_effective_dpriv_def csr_reads paging_demo_walk)
  have "mem_read32_unsigned 0x80000804 ?s = (0, ?s)"
    by (simp add: read32_ram ram32_def in_clint_def in_uart_def in_plic_def paging_demo_def load_le_def store_le_apply
        upt_rec)
  then show ?thesis
    using paging_demo_walk(5) by (simp add: mmu_translate_def Let_def ep mmu_vm_active_def mmu_satp_mode_def
        mmu_satp_root_ppn_def csr_reads paging_demo_walk mmu_fault_def)
qed

theorem amo_after_fault_writes_physical_witness:
  "\<exists>t. insa_r_amoswap_w 1 2 3 (reg_write 2 7 (reg_write 1 0x80400000 paging_demo)) = Inr t \<and>
     load_le 4 0x80400000 (main_memory t) = (7 :: u32)"
proof -
  let ?s = "reg_write 2 7 (reg_write 1 0x80400000 paging_demo)"
  have "emu_inv paging_demo" 
    unfolding paging_demo_def emu_inv_mem by (simp add: inv_rules emu_inv_reset)
  then have inv: "emu_inv ?s" by (intro inv_rules)
  have "\<not> delegated (csr_val CSR_MEDELEG ?s) CAUSE_LOAD_PAGE_FAULT ?s"
    by (simp add: delegated_def paging_demo_def csr_val_set csr_init_at)
  then show ?thesis
    using amo_after_fault_writes_physical [OF inv, of "0x80400000" 1 2 3] paging_demo_unmapped
    by (auto simp: reg_read_write paging_demo_walk load_store_le ram32_def in_clint_def in_uart_def in_plic_def)
qed

end
