(* ===== verification/Exec.thy ===== *)
theory Exec
  imports C_Ext M_Ext A_Ext
begin

text \<open>
  Instruction dispatch, src/src/exec.c. Each major opcode's arm of the \<open>switch\<close> is a definition of its
  own. \<open>alloc_ok\<close> is the result of an allocation a reservation may need and \<open>sf\<close> is SoftFloat. Most
  invalid encodings end the emulator (\<open>fatal\<close>); only unknown opcodes and a few others raise the
  illegal-instruction exception.
\<close>

section \<open>Immediates\<close>

definition imm_i :: "u32 \<Rightarrow> u32" where
  "imm_i ins = sign_extend_12 (shr ins 20 AND 0xFFF)"

definition imm_s :: "u32 \<Rightarrow> u32" where
  "imm_s ins = sign_extend_12 (shl (shr ins 25 AND 0x7F) 5 OR (shr ins 7 AND 0x1F))"

definition imm_b :: "u32 \<Rightarrow> u32" where
  "imm_b ins =
     sign_extend_13 (shl (shr ins 31 AND 0x1) 12 OR shl (shr ins 25 AND 0x3F) 5 OR
                     shl (shr ins 8 AND 0xF) 1 OR shl (shr ins 7 AND 0x1) 11)"

definition imm_j :: "u32 \<Rightarrow> u32" where
  "imm_j ins =
     sign_extend_21 (shl (shr ins 31 AND 0x1) 20 OR shl (shr ins 21 AND 0x3FF) 1 OR
                     shl (shr ins 20 AND 0x1) 11 OR shl (shr ins 12 AND 0xFF) 12)"

definition imm_u :: "u32 \<Rightarrow> u32" where
  "imm_u ins = ins AND 0xFFFFF000"

section \<open>The opcodes\<close>

definition ins_zifencei_zifencei :: "emu \<Rightarrow> emu" where "ins_zifencei_zifencei s = s"

definition m_ins_optable :: "u32 \<Rightarrow> u32 \<Rightarrow> u32 \<Rightarrow> u32 \<Rightarrow> emu \<Rightarrow> emu" where
  "m_ins_optable funct3 =
     (if funct3 = 0 then insm_r_mul
      else if funct3 = 1 then insm_r_mulh
      else if funct3 = 2 then insm_r_mulsu
      else if funct3 = 3 then insm_r_mulu
      else if funct3 = 4 then insm_r_div
      else if funct3 = 5 then insm_r_divu
      else if funct3 = 6 then insm_r_rem
      else insm_r_remu)"

definition exec_op :: "u32 \<Rightarrow> emu \<Rightarrow> emu res" where
  "exec_op ins s =
     (let funct3 = get_funct3 ins; funct7 = get_funct7 ins; rs1 = get_rs1 ins; rs2 = get_rs2 ins; rd = get_rd ins
      in if funct7 = 1 then Inr (m_ins_optable funct3 rs2 rs1 rd s)
         else if funct7 = 7 then
           if funct3 = 5 then Inr (ins_zicond_czero_eqz rs1 rs2 rd s)
           else if funct3 = 7 then Inr (ins_zicond_czero_nez rs1 rs2 rd s)
           else Inl ''invalid ZICOND funct3''
         else if funct3 = 0 then
           if funct7 = 0 then Inr (insi_r_add rs2 rs1 rd s)
           else if funct7 = 0x20 then Inr (insi_r_sub rs2 rs1 rd s)
           else Inl ''invalid R-type funct7''
         else if funct3 = 1 then
           if funct7 = 0 then Inr (insi_r_sll rs2 rs1 rd s) else Inl ''invalid R-type funct7''
         else if funct3 = 2 then
           if funct7 = 0 then Inr (insi_r_slt rs2 rs1 rd s) else Inl ''invalid R-type funct7''
         else if funct3 = 3 then
           if funct7 = 0 then Inr (insi_r_sltu rs2 rs1 rd s) else Inl ''invalid R-type funct7''
         else if funct3 = 4 then
           if funct7 = 0 then Inr (insi_r_xor rs2 rs1 rd s) else Inl ''invalid R-type funct7''
         else if funct3 = 5 then
           if funct7 = 0 then Inr (insi_r_srl rs2 rs1 rd s)
           else if funct7 = 0x20 then Inr (insi_r_sra rs2 rs1 rd s)
           else Inl ''invalid R-type funct7''
         else if funct3 = 6 then
           if funct7 = 0 then Inr (insi_r_or rs2 rs1 rd s) else Inl ''invalid R-type funct7''
         else if funct3 = 7 then
           if funct7 = 0 then Inr (insi_r_and rs2 rs1 rd s) else Inl ''invalid R-type funct7''
         else Inl ''invalid R-type funct3'')"

definition exec_op_imm :: "u32 \<Rightarrow> emu \<Rightarrow> emu res" where
  "exec_op_imm ins s =
     (let funct3 = get_funct3 ins; funct7 = get_funct7 ins; rs1 = get_rs1 ins; rd = get_rd ins;
          imm = imm_i ins; shamt = imm AND 0x1F
      in if funct3 = 0 then Inr (insi_i_addi imm rs1 rd s)
         else if funct3 = 1 then
           if funct7 \<noteq> 0 then Inr (raise_exception CAUSE_ILLEGAL_INSTRUCTION ins s)
           else Inr (insi_i_slli shamt rs1 rd s)
         else if funct3 = 2 then Inr (insi_i_slti imm rs1 rd s)
         else if funct3 = 3 then Inr (insi_i_sltiu imm rs1 rd s)
         else if funct3 = 4 then Inr (insi_i_xori imm rs1 rd s)
         else if funct3 = 5 then
           if funct7 = 0 then Inr (insi_i_srli shamt rs1 rd s)
           else if funct7 = 0x20 then Inr (insi_i_srai shamt rs1 rd s)
           else Inl ''invalid SRLI/SRAI funct7''
         else if funct3 = 6 then Inr (insi_i_ori imm rs1 rd s)
         else if funct3 = 7 then Inr (insi_i_andi imm rs1 rd s)
         else Inl ''invalid I-type funct3'')"

definition exec_load :: "u32 \<Rightarrow> emu \<Rightarrow> emu res" where
  "exec_load ins s =
     (let funct3 = get_funct3 ins; rs1 = get_rs1 ins; rd = get_rd ins; imm = imm_i ins
      in if funct3 = 0 then Inr (insi_i_lb imm rs1 rd s)
         else if funct3 = 1 then Inr (insi_i_lh imm rs1 rd s)
         else if funct3 = 2 then Inr (insi_i_lw imm rs1 rd s)
         else if funct3 = 4 then Inr (insi_i_lbu imm rs1 rd s)
         else if funct3 = 5 then Inr (insi_i_lhu imm rs1 rd s)
         else Inl ''invalid load instruction'')"

definition exec_store :: "u32 \<Rightarrow> emu \<Rightarrow> emu res" where
  "exec_store ins s =
     (let funct3 = get_funct3 ins; rs1 = get_rs1 ins; rs2 = get_rs2 ins; imm = imm_s ins
      in if funct3 = 0 then Inr (insi_s_sb imm rs2 rs1 s)
         else if funct3 = 1 then Inr (insi_s_sh imm rs2 rs1 s)
         else if funct3 = 2 then Inr (insi_s_sw imm rs2 rs1 s)
         else Inl ''invalid store instruction'')"

definition exec_load_fp :: "u32 \<Rightarrow> emu \<Rightarrow> emu res" where
  "exec_load_fp ins s =
     (let funct3 = get_funct3 ins; rs1 = get_rs1 ins; rd = get_rd ins; imm = imm_i ins
      in if fpu_fs_off s then Inr (raise_exception CAUSE_ILLEGAL_INSTRUCTION ins s)
         else if funct3 = 1 then Inr (insf_flh imm rs1 rd s)
         else if funct3 = 2 then Inr (insf_flw imm rs1 rd s)
         else if funct3 = 3 then Inr (insf_fld imm rs1 rd s)
         else if funct3 = 4 then Inr (insf_flq imm rs1 rd s)
         else Inl ''invalid FP load instruction'')"

definition exec_store_fp :: "u32 \<Rightarrow> emu \<Rightarrow> emu res" where
  "exec_store_fp ins s =
     (let funct3 = get_funct3 ins; rs1 = get_rs1 ins; rs2 = get_rs2 ins; imm = imm_s ins
      in if fpu_fs_off s then Inr (raise_exception CAUSE_ILLEGAL_INSTRUCTION ins s)
         else if funct3 = 1 then Inr (insf_fsh imm rs1 rs2 s)
         else if funct3 = 2 then Inr (insf_fsw imm rs1 rs2 s)
         else if funct3 = 3 then Inr (insf_fsd imm rs1 rs2 s)
         else if funct3 = 4 then Inr (insf_fsq imm rs1 rs2 s)
         else Inl ''invalid FP store instruction'')"

definition exec_fma :: "softfloat \<Rightarrow> u32 \<Rightarrow> u32 \<Rightarrow> emu \<Rightarrow> emu res" where
  "exec_fma sf ins subop s =
     (if fpu_fs_off s then Inr (raise_exception CAUSE_ILLEGAL_INSTRUCTION ins s)
      else insf_r_fma sf ins subop s)"

definition exec_op_fp :: "softfloat \<Rightarrow> u32 \<Rightarrow> emu \<Rightarrow> emu res" where
  "exec_op_fp sf ins s =
     (if fpu_fs_off s then Inr (raise_exception CAUSE_ILLEGAL_INSTRUCTION ins s)
      else insf_r_fpop sf ins s)"

definition exec_amo :: "bool \<Rightarrow> u32 \<Rightarrow> emu \<Rightarrow> emu res" where
  "exec_amo alloc_ok ins s =
     (let funct3 = get_funct3 ins; rs1 = get_rs1 ins; rs2 = get_rs2 ins; rd = get_rd ins
      in if funct3 = 2 then
           let funct5 = shr ins 27 AND 0x1F
           in if funct5 = 0x00 then insa_r_amoadd_w rs1 rs2 rd s
              else if funct5 = 0x01 then insa_r_amoswap_w rs1 rs2 rd s
              else if funct5 = 0x02 then insa_r_lr_w alloc_ok rs1 rd s
              else if funct5 = 0x03 then insa_r_sc_w alloc_ok rs1 rs2 rd s
              else if funct5 = 0x04 then insa_r_amoxor_w rs1 rs2 rd s
              else if funct5 = 0x08 then insa_r_amoor_w rs1 rs2 rd s
              else if funct5 = 0x0C then insa_r_amoand_w rs1 rs2 rd s
              else if funct5 = 0x10 then insa_r_amomin_w rs1 rs2 rd s
              else if funct5 = 0x14 then insa_r_amomax_w rs1 rs2 rd s
              else if funct5 = 0x18 then insa_r_amominu_w rs1 rs2 rd s
              else if funct5 = 0x1C then insa_r_amomaxu_w rs1 rs2 rd s
              else Inl ''invalid atomic instruction''
         else Inl ''invalid atomic instruction'')"

definition exec_branch :: "u32 \<Rightarrow> emu \<Rightarrow> emu res" where
  "exec_branch ins s =
     (let funct3 = get_funct3 ins; rs1 = get_rs1 ins; rs2 = get_rs2 ins; imm = imm_b ins
      in if funct3 = 0 then Inr (insi_b_beq imm rs2 rs1 s)
         else if funct3 = 1 then Inr (insi_b_bne imm rs2 rs1 s)
         else if funct3 = 4 then Inr (insi_b_blt imm rs2 rs1 s)
         else if funct3 = 5 then Inr (insi_b_bge imm rs2 rs1 s)
         else if funct3 = 6 then Inr (insi_b_bltu imm rs2 rs1 s)
         else if funct3 = 7 then Inr (insi_b_bgeu imm rs2 rs1 s)
         else Inl ''invalid branch instruction'')"

definition exec_system :: "u32 \<Rightarrow> emu \<Rightarrow> emu res" where
  "exec_system ins s =
     (let funct3 = get_funct3 ins; funct7 = get_funct7 ins;
          imm = shr ins 20 AND 0xFFF; csr = shr ins 20 AND 0xFFF;
          rs1 = shr ins 15 AND 0x1F; rd = shr ins 7 AND 0x1F
      in if funct3 = 0 then
           if rs1 = 0 \<and> rd = 0 then
             if imm = 0x000 then Inr (insi_i_ecall s)
             else if imm = 0x001 then Inr (insi_i_ebreak s)
             else if imm = 0x102 then Inr (ins_sret s)
             else if imm = 0x302 then Inr (ins_mret s)
             else if imm = 0x702 then Inr (ins_mnret s)
             else if imm = 0x104 then Inr (ins_sctrclr s)
             else if imm = 0x105 then Inr (ins_wfi s)
             else if funct7 = 9 then Inr (ins_sfence_vma s)
             else Inl ''illegal system instruction''
           else if funct7 = 9 then
             if rd \<noteq> 0 then Inl ''sfence.vma: rd must be 0'' else Inr (ins_sfence_vma s)
           else Inl ''illegal system instruction''
         else if funct3 = 1 then Inr (ins_zicsr_csrrw rs1 rd csr ins s)
         else if funct3 = 2 then Inr (ins_zicsr_csrrs rs1 rd csr ins s)
         else if funct3 = 3 then Inr (ins_zicsr_csrrc rs1 rd csr ins s)
         else if funct3 = 5 then Inr (ins_zicsr_csrrwi rs1 rd csr ins s)
         else if funct3 = 6 then Inr (ins_zicsr_csrrsi rs1 rd csr ins s)
         else if funct3 = 7 then Inr (ins_zicsr_csrrci rs1 rd csr ins s)
         else Inl ''unsupported CSR instruction'')"

definition exec_fence :: "u32 \<Rightarrow> emu \<Rightarrow> emu res" where
  "exec_fence ins s =
     (let funct3 = get_funct3 ins
      in if funct3 = 0 then Inr (ins_fence s)
         else if funct3 = 1 then Inr (ins_zifencei_zifencei s)
         else Inl ''illegal fence instruction'')"

section \<open>Dispatch\<close>

definition exec_switch :: "bool \<Rightarrow> softfloat \<Rightarrow> u32 \<Rightarrow> emu \<Rightarrow> emu res" where
  "exec_switch alloc_ok sf ins s =
     (let opcode = get_opcode ins; rs1 = get_rs1 ins; rd = get_rd ins
      in if opcode = 0x33 then exec_op ins s
         else if opcode = 0x13 then exec_op_imm ins s
         else if opcode = 0x03 then exec_load ins s
         else if opcode = 0x23 then exec_store ins s
         else if opcode = 0x07 then exec_load_fp ins s
         else if opcode = 0x27 then exec_store_fp ins s
         else if opcode = 0x43 then exec_fma sf ins 0 s
         else if opcode = 0x47 then exec_fma sf ins 1 s
         else if opcode = 0x4B then exec_fma sf ins 2 s
         else if opcode = 0x4F then exec_fma sf ins 3 s
         else if opcode = 0x53 then exec_op_fp sf ins s
         else if opcode = 0x2F then exec_amo alloc_ok ins s
         else if opcode = 0x63 then exec_branch ins s
         else if opcode = 0x6F then Inr (insi_j_jal (imm_j ins) rd s)
         else if opcode = 0x37 then Inr (insi_u_lui (imm_u ins) rd s)
         else if opcode = 0x17 then Inr (insi_u_auipc (imm_u ins) rd s)
         else if opcode = 0x67 then Inr (insi_i_jalr (imm_i ins) rs1 rd s)
         else if opcode = 0x73 then exec_system ins s
         else if opcode = 0x0F then exec_fence ins s
         else Inr (raise_illegal ins s))"

definition exec :: "bool \<Rightarrow> softfloat \<Rightarrow> u32 \<Rightarrow> emu \<Rightarrow> emu res" where
  "exec alloc_ok sf ins s =
     (if pc s AND (if misa_c_enabled s then 1 else 3) \<noteq> 0
      then Inr (raise_exception_pc CAUSE_MISALIGNED_FETCH (pc s) (g_prev_ins_pc s) s)
      else if misa_c_enabled s \<and> get_opcode ins AND 3 \<noteq> 3
      then Inr (snd (exec_c_insn (ucast (ins AND 0xFFFF)) s))
      else exec_switch alloc_ok sf ins s)"

section \<open>The machine invariant\<close>

lemma keeps_inv_groups [inv_rules]:
  assumes "emu_inv s"
  shows "keeps_inv (exec_op ins s)" "keeps_inv (exec_op_imm ins s)" "keeps_inv (exec_load ins s)"
    "keeps_inv (exec_store ins s)" "keeps_inv (exec_load_fp ins s)" "keeps_inv (exec_store_fp ins s)"
    "keeps_inv (exec_fma sf ins subop s)" "keeps_inv (exec_op_fp sf ins s)" "keeps_inv (exec_branch ins s)"
    "keeps_inv (exec_system ins s)" "keeps_inv (exec_fence ins s)" "keeps_inv (exec_amo True ins s)"
  using assms by (simp_all add: exec_op_def exec_op_imm_def exec_load_def exec_store_def exec_load_fp_def exec_store_fp_def
      exec_fma_def exec_op_fp_def exec_branch_def exec_system_def exec_fence_def exec_amo_def m_ins_optable_def
      ins_zifencei_zifencei_def ins_mnret_def ins_sctrclr_def ins_wfi_def Let_def inv_rules)

lemma keeps_inv_exec [inv_rules]: "emu_inv s \<Longrightarrow> keeps_inv (exec True sf ins s)"
  by (simp add: exec_def exec_switch_def Let_def inv_rules)

section \<open>Decoding inverts the assembler\<close>

text \<open>The instruction formats of the base ISA, as an assembler lays them out.\<close>

definition enc_i :: "u32 \<Rightarrow> u32 \<Rightarrow> u32 \<Rightarrow> u32 \<Rightarrow> u32 \<Rightarrow> u32" where
  "enc_i op f3 rd rs1 imm = op OR shl rd 7 OR shl f3 12 OR shl rs1 15 OR shl (imm AND 0xFFF) 20"

definition enc_s :: "u32 \<Rightarrow> u32 \<Rightarrow> u32 \<Rightarrow> u32 \<Rightarrow> u32 \<Rightarrow> u32" where
  "enc_s op f3 rs1 rs2 imm =
     op OR shl (imm AND 0x1F) 7 OR shl f3 12 OR shl rs1 15 OR shl rs2 20 OR shl (shr imm 5 AND 0x7F) 25"

definition enc_b :: "u32 \<Rightarrow> u32 \<Rightarrow> u32 \<Rightarrow> u32 \<Rightarrow> u32 \<Rightarrow> u32" where
  "enc_b op f3 rs1 rs2 off =
     op OR shl (shr off 11 AND 1) 7 OR shl (shr off 1 AND 0xF) 8 OR shl f3 12 OR shl rs1 15 OR shl rs2 20 OR
     shl (shr off 5 AND 0x3F) 25 OR shl (shr off 12 AND 1) 31"

definition enc_u :: "u32 \<Rightarrow> u32 \<Rightarrow> u32 \<Rightarrow> u32" where
  "enc_u op rd imm = op OR shl rd 7 OR (imm AND 0xFFFFF000)"

definition enc_j :: "u32 \<Rightarrow> u32 \<Rightarrow> u32 \<Rightarrow> u32" where
  "enc_j op rd off =
     op OR shl rd 7 OR shl (shr off 12 AND 0xFF) 12 OR shl (shr off 11 AND 1) 20 OR
     shl (shr off 1 AND 0x3FF) 21 OR shl (shr off 20 AND 1) 31"

lemma small_bits:
  fixes x :: u32
  assumes "x < 2 ^ k" "k \<le> n" "k < 32"
  shows "\<not> bit x n"
proof -
  have "unat (of_nat (2 ^ k) :: u32) = 2 ^ k"
    using assms(3) power_strict_increasing [of k 32 "2 :: nat"] by (simp add: unat_of_nat del: of_nat_power)
  then have "unat x < 2 ^ k" using assms(1) by (simp add: word_less_nat_alt)
  then have "take_bit k (unat x) = unat x" by (rule take_bit_nat_eq_self)
  then have "\<not> bit (unat x) n" using assms(2) bit_take_bit_iff [of k "unat x" n] by simp
  then show ?thesis by (simp add: bit_unsigned_iff)
qed

lemma signed_bits: "signed_take_bit k x = x \<Longrightarrow> k < n \<Longrightarrow> n < 32 \<Longrightarrow> bit x n = bit x k" for x :: u32
  using bit_signed_take_bit_iff [of k x n] by (simp add: min_def)

text \<open>The bits of a 5-bit register number and of an immediate that fits its format.\<close>

lemma reg_bits: "r < 32 \<Longrightarrow> 5 \<le> n \<Longrightarrow> \<not> bit r n" for r :: u32
  using small_bits [of r 5 n] by simp

lemma field_simps:
  assumes "op < 128" "f3 < 8" "rd < 32" "rs1 < 32" "rs2 < 32"
  shows "get_opcode (enc_i op f3 rd rs1 imm) = op" "get_funct3 (enc_i op f3 rd rs1 imm) = f3"
    "get_rd (enc_i op f3 rd rs1 imm) = rd" "get_rs1 (enc_i op f3 rd rs1 imm) = rs1"
    "get_opcode (enc_s op f3 rs1 rs2 imm) = op" "get_funct3 (enc_s op f3 rs1 rs2 imm) = f3"
    "get_rs1 (enc_s op f3 rs1 rs2 imm) = rs1" "get_rs2 (enc_s op f3 rs1 rs2 imm) = rs2"
    "get_opcode (enc_b op f3 rs1 rs2 imm) = op" "get_funct3 (enc_b op f3 rs1 rs2 imm) = f3"
    "get_rs1 (enc_b op f3 rs1 rs2 imm) = rs1" "get_rs2 (enc_b op f3 rs1 rs2 imm) = rs2"
    "get_opcode (enc_u op rd imm) = op" "get_rd (enc_u op rd imm) = rd"
    "get_opcode (enc_j op rd imm) = op" "get_rd (enc_j op rd imm) = rd"
  using assms(1,2) reg_bits [OF assms(3)] reg_bits [OF assms(4)] reg_bits [OF assms(5)]
    small_bits [of op 7] small_bits [of f3 3]
  by (simp_all add: get_opcode_def get_funct3_def get_rd_def get_rs1_def get_rs2_def
      enc_i_def enc_s_def enc_b_def enc_u_def enc_j_def word32_bits bit_simps)

lemma sign_extend_bits:
  "sign_extend_12 x = x OR (if bit x 11 then 0xFFFFF000 else 0)"
  "sign_extend_13 x = x OR (if bit x 12 then 0xFFFFE000 else 0)"
  "sign_extend_21 x = x OR (if bit x 20 then 0xFFE00000 else 0)"
  by (simp_all add: sign_extend_12_def sign_extend_13_def sign_extend_21_def flag_simps)

lemma imm_simps:
  assumes "op < 128" "f3 < 8" "rd < 32" "rs1 < 32" "rs2 < 32"
  shows "signed_take_bit 11 imm = imm \<Longrightarrow> imm_i (enc_i op f3 rd rs1 imm) = imm"
    "signed_take_bit 11 imm = imm \<Longrightarrow> imm_s (enc_s op f3 rs1 rs2 imm) = imm"
    "signed_take_bit 12 imm = imm \<Longrightarrow> \<not> bit imm 0 \<Longrightarrow> imm_b (enc_b op f3 rs1 rs2 imm) = imm"
    "imm AND 0xFFF = 0 \<Longrightarrow> imm_u (enc_u op rd imm) = imm"
    "signed_take_bit 20 imm = imm \<Longrightarrow> \<not> bit imm 0 \<Longrightarrow> imm_j (enc_j op rd imm) = imm"
proof -
  note small = reg_bits [OF assms(3)] reg_bits [OF assms(4)] reg_bits [OF assms(5)]
    small_bits [of op 7] small_bits [of f3 3] assms(1,2)
  note code = imm_i_def imm_s_def imm_b_def imm_u_def imm_j_def sign_extend_bits
    enc_i_def enc_s_def enc_b_def enc_u_def enc_j_def
  show "imm_i (enc_i op f3 rd rs1 imm) = imm" "imm_s (enc_s op f3 rs1 rs2 imm) = imm" if "signed_take_bit 11 imm = imm"
    using small signed_bits [OF that] by (simp_all add: code word32_bits bit_simps bit_times_2)
  show "imm_b (enc_b op f3 rs1 rs2 imm) = imm" if "signed_take_bit 12 imm = imm" "\<not> bit imm 0"
    using small signed_bits [OF that(1)] that(2)
    by (simp add: code word32_bits bit_simps bit_times_2 numeral_2_eq_2 [symmetric]
        del: add_2_eq_Suc add_2_eq_Suc')
  show "imm_u (enc_u op rd imm) = imm" if "imm AND 0xFFF = 0"
    using small that by (simp add: code word32_bits bit_simps)
  show "imm_j (enc_j op rd imm) = imm" if "signed_take_bit 20 imm = imm" "\<not> bit imm 0"
    using small signed_bits [OF that(1)] that(2)
    by (simp add: code word32_bits bit_simps bit_times_2 numeral_2_eq_2 [symmetric]
        del: add_2_eq_Suc add_2_eq_Suc')
qed

lemma signed_range: "signed_take_bit k x = x" if "- (2 ^ k) \<le> sint x" "sint x < 2 ^ k" "k < 31" for x :: u32
proof -
  have "sint (signed_take_bit k x) = signed_take_bit k (sint x)"
    using that(3) by (intro bit_eqI) (auto simp: bit_simps bit_signed_iff min_def not_less)
  also have "\<dots> = sint x" using that(1,2) by (rule signed_take_bit_int_eq_self)
  finally show ?thesis by (simp add: signed_word_eqI)
qed

text \<open>
  Decoding inverts assembling: an instruction laid out by the base formats I, S, B, U and J runs as
  that instruction with exactly the registers and the signed immediate it was assembled from: 12-bit
  immediates, 13-bit even branch offsets, 21-bit even jump offsets, upper immediates.
\<close>

theorem decode_inverts_assembler:
  assumes "rd < 32" and "rs1 < 32" and "rs2 < 32" and "- 2048 \<le> sint imm" and "sint imm < 2048"
    and "- 4096 \<le> sint off" and "sint off < 4096" and "even off"
    and "- 1048576 \<le> sint jump" and "sint jump < 1048576" and "even jump" and "upper AND 0xFFF = 0"
  shows "exec_switch ok sf (enc_i 0x13 0 rd rs1 imm) s = Inr (insi_i_addi imm rs1 rd s) \<and>
    exec_switch ok sf (enc_i 0x03 2 rd rs1 imm) s = Inr (insi_i_lw imm rs1 rd s) \<and>
    exec_switch ok sf (enc_i 0x67 0 rd rs1 imm) s = Inr (insi_i_jalr imm rs1 rd s) \<and>
    exec_switch ok sf (enc_s 0x23 2 rs1 rs2 imm) s = Inr (insi_s_sw imm rs2 rs1 s) \<and>
    exec_switch ok sf (enc_b 0x63 0 rs1 rs2 off) s = Inr (insi_b_beq off rs2 rs1 s) \<and>
    exec_switch ok sf (enc_u 0x37 rd upper) s = Inr (insi_u_lui upper rd s) \<and>
    exec_switch ok sf (enc_j 0x6F rd jump) s = Inr (insi_j_jal jump rd s)"
proof -
  have f: "(0x13 :: u32) < 128" "(0x03 :: u32) < 128" "(0x67 :: u32) < 128" "(0x23 :: u32) < 128" "(0x63 :: u32) < 128"
    "(0x37 :: u32) < 128" "(0x6F :: u32) < 128" "(0 :: u32) < 8" "(2 :: u32) < 8" by simp_all
  have i: "signed_take_bit 11 imm = imm" "signed_take_bit 12 off = off" "signed_take_bit 20 jump = jump"
    using assms(4-7,9,10) by (simp_all add: signed_range)
  have e: "\<not> bit off 0" "\<not> bit jump 0" using assms(8,11) by (simp_all add: bit_0)
  show ?thesis
    using field_simps [OF f(1,8) assms(1-3)] field_simps [OF f(2,9) assms(1-3)] field_simps [OF f(3,8) assms(1-3)]
      field_simps [OF f(4,9) assms(1-3)] field_simps [OF f(5,8) assms(1-3)] field_simps [OF f(6,8) assms(1-3)]
      field_simps [OF f(7,8) assms(1-3)]
      imm_simps(1) [OF f(1,8) assms(1-3) i(1)] imm_simps(1) [OF f(2,9) assms(1-3) i(1)]
      imm_simps(1) [OF f(3,8) assms(1-3) i(1)] imm_simps(2) [OF f(4,9) assms(1-3) i(1)]
      imm_simps(3) [OF f(5,8) assms(1-3) i(2) e(1)] imm_simps(4) [OF f(6,8) assms(1-3,12)]
      imm_simps(5) [OF f(7,8) assms(1-3) i(3) e(2)]
    by (simp add: exec_switch_def exec_op_imm_def exec_load_def exec_store_def exec_branch_def Let_def)
qed

theorem decode_inverts_assembler_witness:
  "exec_switch True order_softfloat (enc_b 0x63 0 1 2 (- 4)) (reset_state 0) = Inr (insi_b_beq (- 4) 2 1 (reset_state 0))"
  using decode_inverts_assembler [of 1 1 2 0 "- 4" 0 0 True order_softfloat "reset_state 0"] by simp

end
