(* ===== verification/Libc.thy ===== *)
theory Libc
  imports Prelude
begin

text \<open>
  The text functions of the C library that the debugger, the disassembler, the logger and the
  command line use: \<open>printf\<close> conversions, \<open>sscanf\<close> and \<open>strtoul\<close> on numbers, \<open>strtok\<close>, \<open>fgets\<close>,
  \<open>strcasecmp\<close>. A C string is a list of characters without its terminator. \<open>int\<close> is 32 bits
  and \<open>long\<close> 64. The decimal text of a floating-point number is a parameter.

  The locale \<open>numeral\<close> is the contract between a printed number and its reader, and is interpreted
  on the pairs the program relies on.
\<close>

section \<open>Characters\<close>

abbreviation NL :: char where "NL \<equiv> CHR 0x0A"

definition isspace :: "char \<Rightarrow> bool" where
  "isspace c \<longleftrightarrow> c \<in> {CHR '' '', CHR 0x09, NL, CHR 0x0B, CHR 0x0C, CHR 0x0D}"

definition tolower :: "char \<Rightarrow> char" where
  "tolower c = (let n = of_char c :: nat in if 65 \<le> n \<and> n \<le> 90 then char_of (n + 32) else c)"

definition strcaseeq :: "string \<Rightarrow> string \<Rightarrow> bool" where
  "strcaseeq s t \<longleftrightarrow> map tolower s = map tolower t"

definition digit_value :: "char \<Rightarrow> nat option" where
  "digit_value c =
     (let n = of_char c
      in if 48 \<le> n \<and> n \<le> 57 then Some (n - 48)
         else if 97 \<le> n \<and> n \<le> 122 then Some (n - 87)
         else if 65 \<le> n \<and> n \<le> 90 then Some (n - 55)
         else None)"

definition is_digit :: "nat \<Rightarrow> char \<Rightarrow> bool" where
  "is_digit b c = (case digit_value c of Some d \<Rightarrow> d < b | None \<Rightarrow> False)"

definition digit_char :: "nat \<Rightarrow> char" where
  "digit_char d = char_of (if d < 10 then 48 + d else 87 + d)"

section \<open>Printing\<close>

fun digits :: "nat \<Rightarrow> nat \<Rightarrow> string" where
  "digits b n = (if n < b \<or> b < 2 then [digit_char n] else digits b (n div b) @ [digit_char (n mod b)])"

declare digits.simps [simp del]

definition decimal :: "int \<Rightarrow> string" where
  "decimal i = (if i < 0 then CHR ''-'' # digits 10 (nat (- i)) else digits 10 (nat i))"

definition pad_left :: "char \<Rightarrow> nat \<Rightarrow> string \<Rightarrow> string" where
  "pad_left c w s = replicate (w - length s) c @ s"

text \<open>
  The arguments of \<open>printf\<close>: a string, a 32-bit integer (read as the conversion says), a 64-bit one, a
  \<open>size_t\<close>, a character, a \<open>double\<close>. A conversion is the characters between the percent sign and its
  letter; of its flags the program uses a leading zero on integers.
\<close>

datatype c_arg = AStr string | AInt u32 | ALong u64 | ASize nat | AChar char | ADouble u64

type_synonym double_text = "string \<Rightarrow> u64 \<Rightarrow> string"

fun show_arg :: "char \<Rightarrow> c_arg \<Rightarrow> string" where
  "show_arg c (AStr s) = s"
| "show_arg c (AChar x) = [x]"
| "show_arg c (AInt w) =
     (if c = CHR ''d'' then decimal (sint w) else if c = CHR ''x'' then digits 16 (unat w) else digits 10 (unat w))"
| "show_arg c (ALong w) = (if c = CHR ''x'' then digits 16 (unat w) else digits 10 (unat w))"
| "show_arg c (ASize n) = digits 10 n"
| "show_arg c (ADouble w) = []"

text \<open>Numbers in a text.\<close>

fun scan_digits :: "nat \<Rightarrow> nat \<Rightarrow> string \<Rightarrow> nat \<times> string" where
  "scan_digits b acc [] = (acc, [])"
| "scan_digits b acc (c # cs) =
     (if is_digit b c then scan_digits b (acc * b + the (digit_value c)) cs else (acc, c # cs))"

definition convert :: "double_text \<Rightarrow> string \<Rightarrow> char \<Rightarrow> c_arg \<Rightarrow> string" where
  "convert dt spec c a =
     (case a of
        ADouble w \<Rightarrow> dt (spec @ [c]) w
      | _ \<Rightarrow> pad_left (if spec \<noteq> [] \<and> hd spec = CHR ''0'' then CHR ''0'' else CHR '' '')
              (fst (scan_digits 10 0 spec)) (show_arg c a))"

fun format_run :: "double_text \<Rightarrow> string option \<Rightarrow> string \<Rightarrow> c_arg list \<Rightarrow> string" where
  "format_run dt spec [] args = []"
| "format_run dt None (c # cs) args =
     (if c = CHR ''%'' then format_run dt (Some []) cs args else c # format_run dt None cs args)"
| "format_run dt (Some spec) (c # cs) args =
     (if c \<in> set ''sduxcfg'' then
        (case args of a # args \<Rightarrow> convert dt spec c a @ format_run dt None cs args | [] \<Rightarrow> [])
      else format_run dt (Some (spec @ [c])) cs args)"

definition sprintf :: "double_text \<Rightarrow> string \<Rightarrow> c_arg list \<Rightarrow> string" where
  "sprintf dt fmt args = format_run dt None fmt args"

section \<open>Scanning\<close>

definition scan_sign :: "string \<Rightarrow> bool \<times> string" where
  "scan_sign s =
     (case s of
        c # cs \<Rightarrow> if c = CHR ''-'' then (True, cs) else if c = CHR ''+'' then (False, cs) else (False, s)
      | [] \<Rightarrow> (False, []))"

definition has_prefix :: "char \<Rightarrow> string \<Rightarrow> bool" where
  "has_prefix x s \<longleftrightarrow> length s \<ge> 2 \<and> s ! 0 = CHR ''0'' \<and> tolower (s ! 1) = x"

definition starts_digit :: "nat \<Rightarrow> string \<Rightarrow> bool" where
  "starts_digit b s \<longleftrightarrow> s \<noteq> [] \<and> is_digit b (hd s)"

text \<open>
  An integer conversion of \<open>scanf\<close>: white space, a sign, for base 16 an optional prefix, and the longest run of
  digits, of which there must be one. The result is the sign, the value and what follows.
\<close>

definition scan_number :: "nat \<Rightarrow> string \<Rightarrow> (bool \<times> nat \<times> string) option" where
  "scan_number b s =
     (let (neg, s) = scan_sign (dropWhile isspace s);
          s = (if b = 16 \<and> has_prefix (CHR ''x'') s then drop 2 s else s)
      in if starts_digit b s then let (n, rest) = scan_digits b 0 s in Some (neg, n, rest) else None)"

text \<open>\<open>unsigned long\<close> and \<open>long\<close> saturate; a minus sign negates.\<close>

definition to_ulong :: "bool \<Rightarrow> nat \<Rightarrow> u64" where
  "to_ulong neg n = (if n > 0xFFFFFFFFFFFFFFFF then - 1 else if neg then - of_nat n else of_nat n)"

definition to_long :: "bool \<Rightarrow> nat \<Rightarrow> u64" where
  "to_long neg n =
     (if neg then if n > 0x8000000000000000 then 0x8000000000000000 else - of_nat n
      else if n > 0x7FFFFFFFFFFFFFFF then 0x7FFFFFFFFFFFFFFF else of_nat n)"

text \<open>The conversions \<open>%x\<close> to a \<open>uint32_t\<close>, \<open>%d\<close> to an \<open>int\<close> and \<open>%llx\<close> to a \<open>uint64_t\<close>.\<close>

definition sscanf_x :: "string \<Rightarrow> (u32 \<times> string) option" where
  "sscanf_x s = map_option (\<lambda>(neg, n, rest). (ucast (to_ulong neg n), rest)) (scan_number 16 s)"

definition sscanf_d :: "string \<Rightarrow> (u32 \<times> string) option" where
  "sscanf_d s = map_option (\<lambda>(neg, n, rest). (ucast (to_long neg n), rest)) (scan_number 10 s)"

definition sscanf_llx :: "string \<Rightarrow> (u64 \<times> string) option" where
  "sscanf_llx s = map_option (\<lambda>(neg, n, rest). (to_ulong neg n, rest)) (scan_number 16 s)"

text \<open>
  \<open>strtoul(s, &endptr, 0)\<close> of C23: the prefix chooses the base, and a prefix without digits is the
  number zero. \<open>None\<close> is \<open>endptr == s\<close>; otherwise the second component is the string at \<open>endptr\<close>.
\<close>

definition strtoul_base :: "string \<Rightarrow> nat \<times> string" where
  "strtoul_base s =
     (if has_prefix (CHR ''x'') s \<and> starts_digit 16 (drop 2 s) then (16, drop 2 s)
      else if has_prefix (CHR ''b'') s \<and> starts_digit 2 (drop 2 s) then (2, drop 2 s)
      else if s \<noteq> [] \<and> hd s = CHR ''0'' then (8, s)
      else (10, s))"

definition strtoul :: "string \<Rightarrow> (u64 \<times> string) option" where
  "strtoul s =
     (let (neg, s) = scan_sign (dropWhile isspace s);
          (b, s) = strtoul_base s
      in if starts_digit b s then let (n, rest) = scan_digits b 0 s in Some (to_ulong neg n, rest) else None)"

section \<open>Strings\<close>

definition is_delim :: "char \<Rightarrow> bool" where
  "is_delim c \<longleftrightarrow> c \<in> {CHR '' '', CHR 0x09, NL}"

text \<open>\<open>strtok\<close> with the delimiters space, tab and newline: the next token and what is left to scan.\<close>

definition strtok :: "string \<Rightarrow> (string \<times> string) option" where
  "strtok s =
     (let t = dropWhile is_delim s
      in if t = [] then None
         else Some (takeWhile (\<lambda>c. \<not> is_delim c) t, drop 1 (dropWhile (\<lambda>c. \<not> is_delim c) t)))"

text \<open>\<open>fgets\<close>: a line of at most \<open>n\<close> characters with its newline, and the rest of the stream.\<close>

fun read_line :: "nat \<Rightarrow> string \<Rightarrow> string \<times> string" where
  "read_line 0 s = ([], s)"
| "read_line (Suc n) [] = ([], [])"
| "read_line (Suc n) (c # cs) =
     (if c = NL then ([c], cs) else let (l, r) = read_line n cs in (c # l, r))"

definition fgets :: "nat \<Rightarrow> string \<Rightarrow> (string \<times> string) option" where
  "fgets bound s = (if s = [] then None else Some (read_line (bound - 1) s))"

definition c_str :: "string \<Rightarrow> string" where
  "c_str s = takeWhile (\<lambda>c. c \<noteq> CHR 0x00) s"

text \<open>\<open>strrchr\<close>: the string before the last occurrence of a character and the one after it.\<close>

definition strrchr :: "char \<Rightarrow> string \<Rightarrow> (string \<times> string) option" where
  "strrchr x s =
     (if x \<in> set s then
        Some (rev (drop 1 (dropWhile (\<lambda>c. c \<noteq> x) (rev s))), rev (takeWhile (\<lambda>c. c \<noteq> x) (rev s)))
      else None)"

section \<open>Digits\<close>

lemma char_code: "n < 256 \<Longrightarrow> (of_char (char_of n) :: nat) = n"
  by simp

lemma digit_value_char: "d < 36 \<Longrightarrow> digit_value (digit_char d) = Some d"
proof -
  assume d: "d < 36"
  have e: "of_char (digit_char d) = (if d < 10 then 48 + d else 87 + d)"
    using d unfolding digit_char_def by (intro char_code) simp
  show ?thesis using d unfolding digit_value_def e Let_def by simp
qed

lemma digit_char_eval:
  "digit_char 0 = CHR ''0''" "digit_char (Suc 0) = CHR ''1''" "digit_char 1 = CHR ''1''" "digit_char 2 = CHR ''2''" "digit_char 3 = CHR ''3''"
  "digit_char 4 = CHR ''4''" "digit_char 5 = CHR ''5''" "digit_char 6 = CHR ''6''" "digit_char 7 = CHR ''7''"
  "digit_char 8 = CHR ''8''" "digit_char 9 = CHR ''9''" "digit_char 10 = CHR ''a''" "digit_char 11 = CHR ''b''"
  "digit_char 12 = CHR ''c''" "digit_char 13 = CHR ''d''" "digit_char 14 = CHR ''e''" "digit_char 15 = CHR ''f''"
  by (simp_all add: digit_char_def char_of_def bit_simps)

lemmas digits_eval = digits.simps digit_char_eval

lemma is_digit_char: "d < 36 \<Longrightarrow> is_digit b (digit_char d) \<longleftrightarrow> d < b"
  by (simp add: is_digit_def digit_value_char)

lemma digit_char_inj: "d < 36 \<Longrightarrow> e < 36 \<Longrightarrow> digit_char d = digit_char e \<longleftrightarrow> d = e"
  by (metis digit_value_char option.inject)

lemma digits_not_Nil [simp]: "digits b n \<noteq> []"
  by (subst digits.simps) simp

lemma set_digits: "2 \<le> b \<Longrightarrow> set (digits b n) \<subseteq> digit_char ` {..<b}"
proof (induction b n rule: digits.induct)
  case (1 b n)
  then show ?case by (subst digits.simps) auto
qed

lemma digits_are_digits: "2 \<le> b \<Longrightarrow> b \<le> 36 \<Longrightarrow> c \<in> set (digits b n) \<Longrightarrow> is_digit b c"
  using set_digits [of b n] by (auto simp: is_digit_char)

lemma scan_digits_stop: "\<not> starts_digit b s \<Longrightarrow> scan_digits b acc s = (acc, s)"
  by (cases s) (auto simp: starts_digit_def)

lemma scan_digits_append:
  "\<forall>c\<in>set ds. is_digit b c \<Longrightarrow> \<not> starts_digit b rest \<Longrightarrow>
     scan_digits b acc (ds @ rest) = (fst (scan_digits b acc ds), rest)"
  by (induction ds arbitrary: acc) (simp_all add: scan_digits_stop)

lemma scan_digits_snoc:
  "\<forall>c\<in>set ds. is_digit b c \<Longrightarrow> d < 36 \<Longrightarrow> d < b \<Longrightarrow>
     fst (scan_digits b acc (ds @ [digit_char d])) = fst (scan_digits b acc ds) * b + d"
  by (induction ds arbitrary: acc) (simp_all add: is_digit_char digit_value_char)

lemma scan_digits_digits: "2 \<le> b \<Longrightarrow> b \<le> 36 \<Longrightarrow> fst (scan_digits b 0 (digits b n)) = n"
proof (induction b n rule: digits.induct)
  case (1 b n)
  show ?case
  proof (cases "n < b")
    case True
    with 1 show ?thesis by (subst digits.simps) (simp add: is_digit_char digit_value_char)
  next
    case False
    with 1 have "fst (scan_digits b 0 (digits b (n div b) @ [digit_char (n mod b)])) = n div b * b + n mod b"
      using mod_less_divisor [of b n] by (subst scan_digits_snoc) (auto simp: digits_are_digits simp del: mod_less_divisor)
    with False 1 show ?thesis by (subst digits.simps) simp
  qed
qed

lemma scan_zeros: "2 \<le> b \<Longrightarrow> scan_digits b 0 (replicate k (CHR ''0'') @ s) = scan_digits b 0 s"
  by (induction k) (simp_all add: is_digit_def digit_value_def)

lemma digits_inj: "2 \<le> b \<Longrightarrow> b \<le> 36 \<Longrightarrow> digits b m = digits b n \<longleftrightarrow> m = n"
  by (metis scan_digits_digits)

lemma length_digits: "2 \<le> b \<Longrightarrow> n < b ^ Suc k \<Longrightarrow> length (digits b n) \<le> Suc k"
proof (induction k arbitrary: n)
  case 0
  then show ?case by (simp add: digits.simps [of b n])
next
  case (Suc k)
  then have "n div b < b ^ Suc k" by (metis less_mult_imp_div_less power_Suc2)
  then have l: "length (digits b (n div b)) \<le> Suc k" using Suc by blast
  show ?case
  proof (cases "n < b")
    case False
    then have "digits b n = digits b (n div b) @ [digit_char (n mod b)]" using Suc.prems(1) by (subst digits.simps) simp
    with l show ?thesis by simp
  qed (subst digits.simps, simp)
qed
lemma length_hex: "length (digits 16 (unat (w :: u32))) \<le> 8"
  using length_digits [of 16 "unat w" 7] unsigned_less [of w] by simp


section \<open>Formats\<close>

lemma sprintf_Nil [simp]: "sprintf dt [] args = []"
  by (simp add: sprintf_def)

lemma sprintf_char [simp]: "c \<noteq> CHR ''%'' \<Longrightarrow> sprintf dt (c # cs) args = c # sprintf dt cs args"
  by (simp add: sprintf_def)

lemma sprintf_plain [simp]:
  "c \<in> set ''sduxcfg'' \<Longrightarrow> sprintf dt (CHR ''%'' # c # cs) (a # args) = convert dt [] c a @ sprintf dt cs args"
  by (simp add: sprintf_def)

lemma sprintf_spec1 [simp]:
  "m \<notin> set ''sduxcfg'' \<Longrightarrow> c \<in> set ''sduxcfg'' \<Longrightarrow>
     sprintf dt (CHR ''%'' # m # c # cs) (a # args) = convert dt [m] c a @ sprintf dt cs args"
  by (simp add: sprintf_def)

lemma sprintf_spec2 [simp]:
  "m \<notin> set ''sduxcfg'' \<Longrightarrow> n \<notin> set ''sduxcfg'' \<Longrightarrow> c \<in> set ''sduxcfg'' \<Longrightarrow>
     sprintf dt (CHR ''%'' # m # n # c # cs) (a # args) = convert dt [m, n] c a @ sprintf dt cs args"
  by (simp add: sprintf_def)

lemma pad_left_0 [simp]: "pad_left c 0 s = s"
  by (simp add: pad_left_def)

lemma convert_plain [simp]:
  "convert dt [] c (AStr s) = s" "convert dt [] c (AChar x) = [x]"
  "convert dt [] (CHR ''d'') (AInt w) = decimal (sint w)" "convert dt [] (CHR ''u'') (AInt w) = digits 10 (unat w)"
  "convert dt [] (CHR ''x'') (AInt w) = digits 16 (unat w)" "convert dt [] (CHR ''u'') (ASize n) = digits 10 n"
  by (simp_all add: convert_def)

lemma convert_hex [simp]:
  "convert dt ''08'' (CHR ''x'') (AInt w) = pad_left (CHR ''0'') 8 (digits 16 (unat w))"
  "convert dt ''04'' (CHR ''x'') (AInt w) = pad_left (CHR ''0'') 4 (digits 16 (unat w))"
  "convert dt ''03'' (CHR ''x'') (AInt w) = pad_left (CHR ''0'') 3 (digits 16 (unat w))"
  "convert dt ''02'' (CHR ''x'') (AInt w) = pad_left (CHR ''0'') 2 (digits 16 (unat w))"
  by (simp_all add: convert_def is_digit_def digit_value_def) (simp_all add: eval_nat_numeral)

lemmas sprintf_simps = sprintf_Nil sprintf_char sprintf_plain sprintf_spec1 sprintf_spec2 convert_plain convert_hex

section \<open>Reading back a number\<close>

text \<open>
  The contract between a format of numbers and its scanner: the scanner reads a printed number
  back, whatever follows it that is not a digit, and no number starts or goes on with white space.
\<close>

locale numeral =
  fixes show_num :: "'a \<Rightarrow> string" and scan_num :: "string \<Rightarrow> ('a \<times> string) option" and stop :: "char \<Rightarrow> bool"
  assumes scan_show: "rest = [] \<or> stop (hd rest) \<Longrightarrow> scan_num (show_num x @ rest) = Some (x, rest)"
    and show_no_space: "c \<in> set (show_num x) \<Longrightarrow> \<not> isspace c"
    and show_nonempty: "show_num x \<noteq> []"
begin

lemma scan_show_all: "scan_num (show_num x) = Some (x, [])"
  using scan_show [of "[]" x] by simp

lemma show_inj: "show_num x = show_num y \<Longrightarrow> x = y"
  by (metis scan_show_all option.inject prod.inject)

lemma show_prefix_inj:
  assumes "show_num x @ r = show_num y @ t" "r = [] \<or> stop (hd r)" "t = [] \<or> stop (hd t)"
  shows "x = y \<and> r = t"
  by (metis scan_show assms option.inject prod.inject)

lemma strtok_show:
  assumes "rest = [] \<or> is_delim (hd rest)"
  shows "strtok (show_num x @ rest) = Some (show_num x, drop 1 rest)"
proof -
  have d: "\<not> is_delim c" if "c \<in> set (show_num x)" for c
    using show_no_space [OF that] by (auto simp: is_delim_def isspace_def)
  then have "dropWhile is_delim (show_num x @ rest) = show_num x @ rest"
    using show_nonempty [of x] by (cases "show_num x") auto
  moreover have "takeWhile (\<lambda>c. \<not> is_delim c) (show_num x @ rest) = show_num x"
    "dropWhile (\<lambda>c. \<not> is_delim c) (show_num x @ rest) = rest"
    using assms d by (auto simp: takeWhile_append dropWhile_append takeWhile_eq_Nil_iff) (cases rest; auto)+
  ultimately show ?thesis using show_nonempty [of x] by (simp add: strtok_def)
qed

end

lemma digit_not_space: "is_digit b c \<Longrightarrow> \<not> isspace c \<and> c \<noteq> CHR ''-'' \<and> c \<noteq> CHR ''+''"
  by (auto simp: is_digit_def isspace_def digit_value_def)

lemma scan_sign_digit: "starts_digit b s \<Longrightarrow> scan_sign (dropWhile isspace s) = (False, s)"
  by (cases s) (use digit_not_space [of b "hd s"] in \<open>auto simp: starts_digit_def scan_sign_def\<close>)

text \<open>The digits of a number, possibly after zeros, and what a scanner makes of them.\<close>

lemma padded_digits:
  assumes "2 \<le> b" "b \<le> 36" "ds = replicate k (CHR ''0'') @ digits b n"
  shows "\<And>c. c \<in> set ds \<Longrightarrow> is_digit b c" "starts_digit b (ds @ rest)" "ds \<noteq> []"
    "\<not> starts_digit b rest \<Longrightarrow> scan_digits b 0 (ds @ rest) = (n, rest)"
proof -
  have z: "is_digit b (CHR ''0'')" using assms(1) by (simp add: is_digit_def digit_value_def)
  then show d: "\<And>c. c \<in> set ds \<Longrightarrow> is_digit b c" using assms digits_are_digits [of b] by auto
  show ne: "ds \<noteq> []" using assms(3) by simp
  then show "starts_digit b (ds @ rest)" using d by (simp add: starts_digit_def)
  show "\<not> starts_digit b rest \<Longrightarrow> scan_digits b 0 (ds @ rest) = (n, rest)"
    using d assms by (simp add: scan_digits_append scan_zeros scan_digits_digits)
qed

lemma scan_number_digits:
  assumes "2 \<le> b" "b \<le> 36" "ds = replicate k (CHR ''0'') @ digits b n" "\<not> starts_digit b rest"
    and "\<not> (b = 16 \<and> has_prefix (CHR ''x'') (ds @ rest))"
  shows "scan_number b (ds @ rest) = Some (False, n, rest)"
  using padded_digits(2,4) [OF assms(1-3), of rest] assms(4,5)
  by (cases "b = 16") (simp_all add: scan_number_def scan_sign_digit)

lemma tolower_x: "tolower c = CHR ''x'' \<Longrightarrow> \<not> is_digit 16 c"
proof -
  assume t: "tolower c = CHR ''x''"
  have "(of_char c :: nat) = 120 \<or> (of_char c :: nat) = 88"
  proof (cases "65 \<le> (of_char c :: nat) \<and> (of_char c :: nat) \<le> 90")
    case True
    then have "(of_char (char_of (of_char c + 32 :: nat)) :: nat) = of_char c + 32" by (intro char_code) simp
    moreover have "(of_char (CHR ''x'') :: nat) = 120" by simp
    moreover have "char_of (of_char c + 32 :: nat) = CHR ''x''" using t True by (simp add: tolower_def Let_def)
    ultimately have "of_char c + 32 = (120 :: nat)" by metis
    then show ?thesis by simp
  next
    case False
    then show ?thesis using t by (simp add: tolower_def Let_def split: if_splits)
  qed
  then show "\<not> is_digit 16 c" by (auto simp: is_digit_def digit_value_def)
qed

definition hex_stop :: "char \<Rightarrow> bool" where
  "hex_stop c \<longleftrightarrow> \<not> is_digit 16 c \<and> tolower c \<noteq> CHR ''x''"

definition dec_stop :: "char \<Rightarrow> bool" where
  "dec_stop c \<longleftrightarrow> \<not> is_digit 10 c"

lemma no_prefix:
  assumes "\<And>c. c \<in> set ds \<Longrightarrow> is_digit 16 c" "ds \<noteq> []" "rest = [] \<or> hex_stop (hd rest)"
  shows "\<not> has_prefix (CHR ''x'') (ds @ rest)"
proof
  assume p: "has_prefix (CHR ''x'') (ds @ rest)"
  then have len: "2 \<le> length (ds @ rest)" and x: "tolower ((ds @ rest) ! 1) = CHR ''x''"
    by (simp_all add: has_prefix_def)
  show False
  proof (cases "1 < length ds")
    case True
    then show False using x assms(1) [of "ds ! 1"] tolower_x by (simp add: nth_append)
  next
    case False
    then have "length ds = 1" using assms(2) by (cases ds) auto
    then have "(ds @ rest) ! 1 = hd rest" "rest \<noteq> []" using len by (cases rest; auto simp: nth_append)+
    then show False using x assms(3) by (auto simp: hex_stop_def)
  qed
qed

lemma not_starts_digit: "rest = [] \<or> hex_stop (hd rest) \<Longrightarrow> \<not> starts_digit 16 rest"
  "rest = [] \<or> dec_stop (hd rest) \<Longrightarrow> \<not> starts_digit 10 rest"
  by (auto simp: starts_digit_def hex_stop_def dec_stop_def)

lemma scan_number_hex:
  assumes "rest = [] \<or> hex_stop (hd rest)" "ds = replicate k (CHR ''0'') @ digits 16 n"
  shows "scan_number 16 (ds @ rest) = Some (False, n, rest)"
  by (rule scan_number_digits [where k = k])
    (use assms no_prefix [OF padded_digits(1,3) [OF _ _ assms(2)], of rest] not_starts_digit(1) in auto)

lemma scan_number_0x:
  assumes "rest = [] \<or> hex_stop (hd rest)" "ds = replicate k (CHR ''0'') @ digits 16 n"
  shows "scan_number 16 (''0x'' @ ds @ rest) = Some (False, n, rest)"
proof -
  have "has_prefix (CHR ''x'') (''0x'' @ ds @ rest)" by (simp add: has_prefix_def tolower_def)
  moreover have "scan_sign (dropWhile isspace (''0x'' @ ds @ rest)) = (False, ''0x'' @ ds @ rest)"
    by (simp add: scan_sign_def isspace_def)
  ultimately show ?thesis
    using padded_digits(2,4) [OF _ _ assms(2), of rest] not_starts_digit(1) [OF assms(1)]
    by (simp add: scan_number_def)
qed

lemma to_ulong_unat: "ucast (to_ulong False (unat (w :: u32))) = w"
proof -
  have "ucast (ucast w :: u64) = w" by (rule bit_word_eqI) (simp add: bit_simps)
  moreover have "unat w < 2 ^ LENGTH(32)" by (rule unsigned_less)
  ultimately show ?thesis by (simp add: to_ulong_def)
qed

definition show_x :: "u32 \<Rightarrow> string" where "show_x w = digits 16 (unat w)"

definition show_08x :: "u32 \<Rightarrow> string" where "show_08x w = pad_left (CHR ''0'') 8 (digits 16 (unat w))"

definition show_0x :: "u32 \<Rightarrow> string" where "show_0x w = ''0x'' @ digits 16 (unat w)"

definition show_0x8 :: "u32 \<Rightarrow> string" where "show_0x8 w = ''0x'' @ pad_left (CHR ''0'') 8 (digits 16 (unat w))"

definition show_d :: "u32 \<Rightarrow> string" where "show_d w = decimal (sint w)"

lemma padded_no_space: "c \<in> set (replicate k (CHR ''0'') @ digits 16 n) \<Longrightarrow> \<not> isspace c"
  using padded_digits(1) [OF _ _ refl, of 16 c k n] digit_not_space by auto

interpretation hex: numeral show_x sscanf_x hex_stop
proof
  fix rest :: string and x :: u32 and c
  show "rest = [] \<or> hex_stop (hd rest) \<Longrightarrow> sscanf_x (show_x x @ rest) = Some (x, rest)"
    using scan_number_hex [of rest _ 0 "unat x"] by (simp add: sscanf_x_def show_x_def to_ulong_unat)
  show "c \<in> set (show_x x) \<Longrightarrow> \<not> isspace c" using padded_no_space [of c 0] by (simp add: show_x_def)
qed (simp add: show_x_def)

interpretation hex8: numeral show_08x sscanf_x hex_stop
proof
  fix rest :: string and x :: u32 and c
  show "rest = [] \<or> hex_stop (hd rest) \<Longrightarrow> sscanf_x (show_08x x @ rest) = Some (x, rest)"
    using scan_number_hex [OF _ refl, of rest _ "unat x"]
    by (simp only: sscanf_x_def show_08x_def pad_left_def option.map prod.case to_ulong_unat)
  show "c \<in> set (show_08x x) \<Longrightarrow> \<not> isspace c" by (simp only: show_08x_def pad_left_def padded_no_space not_False_eq_True)
qed (simp add: show_08x_def pad_left_def)

interpretation hex0x: numeral show_0x sscanf_x hex_stop
proof
  fix rest :: string and x :: u32 and c
  show "rest = [] \<or> hex_stop (hd rest) \<Longrightarrow> sscanf_x (show_0x x @ rest) = Some (x, rest)"
    using scan_number_0x [of rest _ 0 "unat x"] by (simp add: sscanf_x_def show_0x_def to_ulong_unat)
  show "c \<in> set (show_0x x) \<Longrightarrow> \<not> isspace c"
    using padded_no_space [of c 0] by (auto simp: show_0x_def isspace_def)
qed (simp add: show_0x_def)

interpretation hex0x8: numeral show_0x8 sscanf_x hex_stop
proof
  fix rest :: string and x :: u32 and c
  show "rest = [] \<or> hex_stop (hd rest) \<Longrightarrow> sscanf_x (show_0x8 x @ rest) = Some (x, rest)"
    using scan_number_0x [OF _ refl, of rest _ "unat x"]
    by (simp only: sscanf_x_def show_0x8_def pad_left_def append_assoc option.map prod.case to_ulong_unat)
  show "c \<in> set (show_0x8 x) \<Longrightarrow> \<not> isspace c"
    using hex8.show_no_space [of c x] by (auto simp: show_0x8_def show_08x_def isspace_def)
qed (simp add: show_0x8_def)

lemma to_long_int:
  assumes "\<bar>sint (w :: u32)\<bar> = int n"
  shows "ucast (to_long (sint w < 0) n) = w"
proof -
  have "ucast (of_int (sint w) :: u64) = (of_int (sint w) :: u32)"
    by (rule bit_word_eqI) (simp add: bit_simps)
  moreover have "- (2 ^ 31) \<le> sint w" "sint w < 2 ^ 31" using sint_range_size [of w] by (simp_all add: word_size)
  then have "int n \<le> 2 ^ 31" using assms by linarith
  then have "n \<le> 2 ^ 31" by simp
  moreover have "to_long (sint w < 0) n = of_int (sint w)"
  proof (cases "sint w < 0")
    case True
    with assms have "of_int (sint w) = (- of_nat n :: u64)" by (metis abs_of_neg minus_minus of_int_minus of_int_of_nat_eq)
    with True \<open>n \<le> 2 ^ 31\<close> show ?thesis by (simp add: to_long_def)
  next
    case False
    with assms have "of_int (sint w) = (of_nat n :: u64)" by (metis abs_of_nonneg linorder_not_less of_int_of_nat_eq)
    with False \<open>n \<le> 2 ^ 31\<close> show ?thesis by (simp add: to_long_def)
  qed
  ultimately show ?thesis by simp
qed

interpretation dec: numeral show_d sscanf_d dec_stop
proof
  fix rest :: string and x :: u32 and c
  have d: "digits 10 n = replicate 0 (CHR ''0'') @ digits 10 n" for n by simp
  show "sscanf_d (show_d x @ rest) = Some (x, rest)" if "rest = [] \<or> dec_stop (hd rest)"
  proof (cases "sint x < 0")
    case True
    then have "scan_number 10 (show_d x @ rest) = Some (True, nat (- sint x), rest)"
      using padded_digits(2,4) [OF _ _ d, where rest = rest] not_starts_digit(2) [OF that]
      by (simp add: scan_number_def show_d_def decimal_def scan_sign_def isspace_def)
    with True show ?thesis using to_long_int [of x "nat (- sint x)"] by (simp add: sscanf_d_def)
  next
    case False
    then have "scan_number 10 (show_d x @ rest) = Some (False, nat (sint x), rest)"
      using scan_number_digits [OF _ _ d not_starts_digit(2) [OF that]] by (simp add: show_d_def decimal_def)
    with False show ?thesis using to_long_int [of x "nat (sint x)"] by (simp add: sscanf_d_def)
  qed
  show "c \<in> set (show_d x) \<Longrightarrow> \<not> isspace c"
    using padded_digits(1) [OF _ _ d] digit_not_space
    by (auto simp: show_d_def decimal_def isspace_def split: if_splits)
qed (simp add: show_d_def decimal_def)

end
