(* ===== verification/Disasm.thy ===== *)
theory Disasm
  imports Libc Machine Base_Insn
begin

text \<open>
  The disassembler of the built-in debugger, src/src/disasm.c: one definition per arm of its \<open>switch\<close> over
  opcodes, each the text that \<open>sprintf\<close> leaves in \<open>disasm_buf\<close>. The address that branch targets are relative
  to is the hart's \<open>pc\<close>. Three arms of the floating-point group take a mnemonic from an array with an unchecked
  index; where the index is past its end the result is \<open>None\<close>. The field accessors and sign extensions
  that disasm.c repeats are those of \<open>Machine\<close> and \<open>Base_Insn\<close>.
\<close>

section \<open>Names\<close>

definition fmt :: "string \<Rightarrow> c_arg list \<Rightarrow> string" where
  "fmt = sprintf (\<lambda>_ _. [])"

definition reg_names :: "string list" where
  "reg_names =
     [''zero'', ''ra'', ''sp'', ''gp'', ''tp'', ''t0'', ''t1'', ''t2'', ''s0'', ''s1'', ''a0'',
      ''a1'', ''a2'', ''a3'', ''a4'', ''a5'', ''a6'', ''a7'', ''s2'', ''s3'', ''s4'', ''s5'',
      ''s6'', ''s7'', ''s8'', ''s9'', ''s10'', ''s11'', ''t3'', ''t4'', ''t5'', ''t6'']"

definition reg_name :: "u32 \<Rightarrow> string" where
  "reg_name i = (if i < 32 then reg_names ! unat i else ''?'')"

definition freg_names :: "string list" where
  "freg_names =
     [''f0'', ''f1'', ''f2'', ''f3'', ''f4'', ''f5'', ''f6'', ''f7'', ''f8'', ''f9'', ''f10'',
      ''f11'', ''f12'', ''f13'', ''f14'', ''f15'', ''f16'', ''f17'', ''f18'', ''f19'', ''f20'', ''f21'',
      ''f22'', ''f23'', ''f24'', ''f25'', ''f26'', ''f27'', ''f28'', ''f29'', ''f30'', ''f31'']"

definition freg_name :: "u32 \<Rightarrow> string" where
  "freg_name i = (if i < 32 then freg_names ! unat i else ''?'')"

definition rm_name :: "u32 \<Rightarrow> string" where
  "rm_name rm =
     (if rm < 5 then [''rne'', ''rtz'', ''rdn'', ''rup'', ''rmm'', ''dyn'', ''dyn'', ''dyn''] ! unat rm else ''?'')"

definition fmt_name :: "u32 \<Rightarrow> string" where
  "fmt_name f = (if f = 0 then ''s'' else if f = 1 then ''d'' else if f = 2 then ''h'' else ''?'')"

definition get_funct5 :: "u32 \<Rightarrow> u32" where "get_funct5 ins = shr ins 27 AND 0x1F"

definition unknown :: "u32 \<Rightarrow> string" where
  "unknown ins = fmt ''unknown (0x%08x)'' [AInt ins]"

section \<open>The arms of the switch\<close>

definition disasm_load_fp :: "u32 \<Rightarrow> string" where
  "disasm_load_fp ins =
     (let funct3 = get_funct3 ins; rs1 = get_rs1 ins; rd = get_rd ins; imm = sign_extend_12 (shr ins 20 AND 0xFFF)
      in if funct3 = 1 then fmt ''flh %s, %d(%s)'' [AStr (freg_name rd), AInt imm, AStr (reg_name rs1)]
         else if funct3 = 2 then fmt ''flw %s, %d(%s)'' [AStr (freg_name rd), AInt imm, AStr (reg_name rs1)]
         else if funct3 = 3 then fmt ''fld %s, %d(%s)'' [AStr (freg_name rd), AInt imm, AStr (reg_name rs1)]
         else if funct3 = 4 then fmt ''flq %s, %d(%s)'' [AStr (freg_name rd), AInt imm, AStr (reg_name rs1)]
         else unknown ins)"

definition disasm_store_fp :: "u32 \<Rightarrow> string" where
  "disasm_store_fp ins =
     (let funct3 = get_funct3 ins; rs1 = get_rs1 ins; rs2 = get_rs2 ins;
          imm = sign_extend_12 (shl (shr ins 25 AND 0x7F) 5 OR (shr ins 7 AND 0x1F))
      in if funct3 = 1 then fmt ''fsh %s, %d(%s)'' [AStr (freg_name rs2), AInt imm, AStr (reg_name rs1)]
         else if funct3 = 2 then fmt ''fsw %s, %d(%s)'' [AStr (freg_name rs2), AInt imm, AStr (reg_name rs1)]
         else if funct3 = 3 then fmt ''fsd %s, %d(%s)'' [AStr (freg_name rs2), AInt imm, AStr (reg_name rs1)]
         else if funct3 = 4 then fmt ''fsq %s, %d(%s)'' [AStr (freg_name rs2), AInt imm, AStr (reg_name rs1)]
         else unknown ins)"

definition disasm_fma :: "u32 \<Rightarrow> string" where
  "disasm_fma ins =
     (let opcode = get_opcode ins; rs1 = get_rs1 ins; rs2 = get_rs2 ins; rd = get_rd ins;
          f = shr ins 25 AND 3; rs3 = shr ins 27 AND 0x1F; rm = shr ins 12 AND 7;
          mnemonic = (if opcode = 0x43 then ''fmadd'' else if opcode = 0x47 then ''fmsub''
                      else if opcode = 0x4B then ''fnmsub'' else if opcode = 0x4F then ''fnmadd'' else ''?'')
      in fmt ''%s.%s %s, %s, %s, %s, %s''
           [AStr mnemonic, AStr (fmt_name f), AStr (freg_name rd), AStr (freg_name rs1), AStr (freg_name rs2),
            AStr (freg_name rs3), AStr (rm_name rm)])"

text \<open>\<open>subop[funct3]\<close>: a read past the end of the array is undefined.\<close>

definition pick :: "string list \<Rightarrow> u32 \<Rightarrow> string option" where
  "pick names i = (if unat i < length names then Some (names ! unat i) else None)"

definition cvt_kind :: "u32 \<Rightarrow> string" where
  "cvt_kind rs2 = [''w'', ''wu'', ''l'', ''lu''] ! unat (rs2 AND 3)"

definition disasm_op_fp :: "u32 \<Rightarrow> string option" where
  "disasm_op_fp ins =
     (let funct3 = get_funct3 ins; rs1 = get_rs1 ins; rs2 = get_rs2 ins; rd = get_rd ins;
          op = shr ins 27 AND 0x1F; f = shr ins 25 AND 3; rm = shr ins 12 AND 7;
          arith = (\<lambda>form. Some (fmt form [AStr (fmt_name f), AStr (freg_name rd), AStr (freg_name rs1),
                                        AStr (freg_name rs2), AStr (rm_name rm)]));
          by_name = (\<lambda>names dest. map_option (\<lambda>m. fmt ''%s.%s %s, %s, %s''
                       [AStr m, AStr (fmt_name f), AStr dest, AStr (freg_name rs1), AStr (freg_name rs2)]) (pick names funct3))
      in if op = 0 then arith ''fadd.%s %s, %s, %s, %s''
         else if op = 1 then arith ''fsub.%s %s, %s, %s, %s''
         else if op = 2 then arith ''fmul.%s %s, %s, %s, %s''
         else if op = 3 then arith ''fdiv.%s %s, %s, %s, %s''
         else if op = 4 then by_name [''fsgnj'', ''fsgnjn'', ''fsgnjx''] (freg_name rd)
         else if op = 5 then by_name [''fmin'', ''fmax''] (freg_name rd)
         else if op = 11 then
           Some (fmt ''fsqrt.%s %s, %s, %s'' [AStr (fmt_name f), AStr (freg_name rd), AStr (freg_name rs1), AStr (rm_name rm)])
         else if op = 20 then by_name [''feq'', ''flt'', ''fle''] (reg_name rd)
         else if op = 28 then
           if funct3 = 0 then Some (fmt ''fmv.x.%s %s, %s'' [AStr (fmt_name f), AStr (reg_name rd), AStr (freg_name rs1)])
           else if funct3 = 1 then Some (fmt ''fclass.%s %s, %s'' [AStr (fmt_name f), AStr (reg_name rd), AStr (freg_name rs1)])
           else Some (unknown ins)
         else if op = 30 then Some (fmt ''fmv.%s.x %s, %s'' [AStr (fmt_name f), AStr (freg_name rd), AStr (reg_name rs1)])
         else if op = 24 then
           Some (fmt ''fcvt.%s.%s %s, %s, %s''
             [AStr (cvt_kind rs2), AStr (fmt_name f), AStr (reg_name rd), AStr (freg_name rs1), AStr (rm_name rm)])
         else if op = 26 then
           Some (fmt ''fcvt.%s.%s %s, %s, %s''
             [AStr (fmt_name f), AStr (cvt_kind rs2), AStr (freg_name rd), AStr (reg_name rs1), AStr (rm_name rm)])
         else if op = 8 then
           Some (fmt ''fcvt.%s.%s %s, %s, %s''
             [AStr (fmt_name f), AStr (fmt_name rs2), AStr (freg_name rd), AStr (freg_name rs1), AStr (rm_name rm)])
         else Some (unknown ins))"

definition disasm_m :: "u32 \<Rightarrow> string" where
  "disasm_m ins =
     (let funct3 = get_funct3 ins;
          mnemonic = (if funct3 = 0 then ''mul'' else if funct3 = 1 then ''mulh'' else if funct3 = 2 then ''mulsu''
                      else if funct3 = 3 then ''mulu'' else if funct3 = 4 then ''div'' else if funct3 = 5 then ''divu''
                      else if funct3 = 6 then ''rem'' else ''remu'')
      in fmt ''%s %s, %s, %s'' [AStr mnemonic, AStr (reg_name (get_rd ins)), AStr (reg_name (get_rs1 ins)),
           AStr (reg_name (get_rs2 ins))])"

definition disasm_op :: "u32 \<Rightarrow> string" where
  "disasm_op ins =
     (let funct3 = get_funct3 ins; funct7 = get_funct7 ins; rs1 = get_rs1 ins; rs2 = get_rs2 ins; rd = get_rd ins
      in if funct7 = 1 then disasm_m ins
         else if funct7 = 7 then
           if funct3 = 5 then fmt ''czero_eqz %s, %s'' [AStr (reg_name rd), AStr (reg_name rs1)]
           else if funct3 = 7 then fmt ''czero_nez %s, %s'' [AStr (reg_name rd), AStr (reg_name rs1)]
           else unknown ins
         else if funct3 = 0 then
           if funct7 = 0 then fmt ''add %s, %s, %s'' [AStr (reg_name rd), AStr (reg_name rs1), AStr (reg_name rs2)]
           else if funct7 = 0x20 then fmt ''sub %s, %s, %s'' [AStr (reg_name rd), AStr (reg_name rs1), AStr (reg_name rs2)]
           else unknown ins
         else if funct3 = 1 then
           if funct7 = 0 then fmt ''sll %s, %s, %s'' [AStr (reg_name rd), AStr (reg_name rs1), AStr (reg_name rs2)]
           else unknown ins
         else if funct3 = 2 then
           if funct7 = 0 then fmt ''slt %s, %s, %s'' [AStr (reg_name rd), AStr (reg_name rs1), AStr (reg_name rs2)]
           else unknown ins
         else if funct3 = 3 then
           if funct7 = 0 then fmt ''sltu %s, %s, %s'' [AStr (reg_name rd), AStr (reg_name rs1), AStr (reg_name rs2)]
           else unknown ins
         else if funct3 = 4 then
           if funct7 = 0 then fmt ''xor %s, %s, %s'' [AStr (reg_name rd), AStr (reg_name rs1), AStr (reg_name rs2)]
           else unknown ins
         else if funct3 = 5 then
           if funct7 = 0 then fmt ''srl %s, %s, %s'' [AStr (reg_name rd), AStr (reg_name rs1), AStr (reg_name rs2)]
           else if funct7 = 0x20 then fmt ''sra %s, %s, %s'' [AStr (reg_name rd), AStr (reg_name rs1), AStr (reg_name rs2)]
           else unknown ins
         else if funct3 = 6 then
           if funct7 = 0 then fmt ''or %s, %s, %s'' [AStr (reg_name rd), AStr (reg_name rs1), AStr (reg_name rs2)]
           else unknown ins
         else if funct3 = 7 then
           if funct7 = 0 then fmt ''and %s, %s, %s'' [AStr (reg_name rd), AStr (reg_name rs1), AStr (reg_name rs2)]
           else unknown ins
         else unknown ins)"

definition disasm_op_imm :: "u32 \<Rightarrow> string" where
  "disasm_op_imm ins =
     (let funct3 = get_funct3 ins; funct7 = get_funct7 ins; rs1 = get_rs1 ins; rd = get_rd ins;
          imm = sign_extend_12 (shr ins 20 AND 0xFFF); shamt = imm AND 0x1F
      in if funct3 = 0 then fmt ''addi %s, %s, %d'' [AStr (reg_name rd), AStr (reg_name rs1), AInt imm]
         else if funct3 = 1 then fmt ''slli %s, %s, %d'' [AStr (reg_name rd), AStr (reg_name rs1), AInt shamt]
         else if funct3 = 2 then fmt ''slti %s, %s, %d'' [AStr (reg_name rd), AStr (reg_name rs1), AInt imm]
         else if funct3 = 3 then fmt ''sltiu %s, %s, %d'' [AStr (reg_name rd), AStr (reg_name rs1), AInt imm]
         else if funct3 = 4 then fmt ''xori %s, %s, %d'' [AStr (reg_name rd), AStr (reg_name rs1), AInt imm]
         else if funct3 = 5 then 
           if funct7 = 0 then fmt ''srli %s, %s, %d'' [AStr (reg_name rd), AStr (reg_name rs1), AInt shamt]
           else if funct7 = 0x20 then fmt ''srai %s, %s, %d'' [AStr (reg_name rd), AStr (reg_name rs1), AInt shamt]
           else unknown ins
         else if funct3 = 6 then fmt ''ori %s, %s, %d'' [AStr (reg_name rd), AStr (reg_name rs1), AInt imm]
         else if funct3 = 7 then fmt ''andi %s, %s, %d'' [AStr (reg_name rd), AStr (reg_name rs1), AInt imm]
         else unknown ins)"

definition disasm_load :: "u32 \<Rightarrow> string" where
  "disasm_load ins =
     (let funct3 = get_funct3 ins; rs1 = get_rs1 ins; rd = get_rd ins; imm = sign_extend_12 (shr ins 20 AND 0xFFF)
      in if funct3 = 0 then fmt ''lb %s, %d(%s)'' [AStr (reg_name rd), AInt imm, AStr (reg_name rs1)]
         else if funct3 = 1 then fmt ''lh %s, %d(%s)'' [AStr (reg_name rd), AInt imm, AStr (reg_name rs1)]
         else if funct3 = 2 then fmt ''lw %s, %d(%s)'' [AStr (reg_name rd), AInt imm, AStr (reg_name rs1)]
         else if funct3 = 4 then fmt ''lbu %s, %d(%s)'' [AStr (reg_name rd), AInt imm, AStr (reg_name rs1)]
         else if funct3 = 5 then fmt ''lhu %s, %d(%s)'' [AStr (reg_name rd), AInt imm, AStr (reg_name rs1)]
         else unknown ins)"

definition disasm_store :: "u32 \<Rightarrow> string" where
  "disasm_store ins =
     (let funct3 = get_funct3 ins; rs1 = get_rs1 ins; rs2 = get_rs2 ins;
          imm = sign_extend_12 (shl (shr ins 25 AND 0x7F) 5 OR (shr ins 7 AND 0x1F))
      in if funct3 = 0 then fmt ''sb %s, %d(%s)'' [AStr (reg_name rs2), AInt imm, AStr (reg_name rs1)]
         else if funct3 = 1 then fmt ''sh %s, %d(%s)'' [AStr (reg_name rs2), AInt imm, AStr (reg_name rs1)]
         else if funct3 = 2 then fmt ''sw %s, %d(%s)'' [AStr (reg_name rs2), AInt imm, AStr (reg_name rs1)]
         else unknown ins)"

definition disasm_branch :: "u32 \<Rightarrow> u32 \<Rightarrow> string" where
  "disasm_branch at ins =
     (let funct3 = get_funct3 ins; rs1 = get_rs1 ins; rs2 = get_rs2 ins;
          imm = sign_extend_13 (shl (shr ins 31 AND 0x1) 12 OR shl (shr ins 25 AND 0x3F) 5 OR
                                shl (shr ins 8 AND 0xF) 1 OR shl (shr ins 7 AND 0x1) 11)
      in if funct3 = 0 then fmt ''beq %s, %s, 0x%x'' [AStr (reg_name rs1), AStr (reg_name rs2), AInt (at + imm)]
         else if funct3 = 1 then fmt ''bne %s, %s, 0x%x'' [AStr (reg_name rs1), AStr (reg_name rs2), AInt (at + imm)]
         else if funct3 = 4 then fmt ''blt %s, %s, 0x%x'' [AStr (reg_name rs1), AStr (reg_name rs2), AInt (at + imm)]
         else if funct3 = 5 then fmt ''bge %s, %s, 0x%x'' [AStr (reg_name rs1), AStr (reg_name rs2), AInt (at + imm)]
         else if funct3 = 6 then fmt ''bltu %s, %s, 0x%x'' [AStr (reg_name rs1), AStr (reg_name rs2), AInt (at + imm)]
         else if funct3 = 7 then fmt ''bgeu %s, %s, 0x%x'' [AStr (reg_name rs1), AStr (reg_name rs2), AInt (at + imm)]
         else unknown ins)"

definition disasm_jal :: "u32 \<Rightarrow> u32 \<Rightarrow> string" where
  "disasm_jal at ins =
     (let imm = sign_extend_21 (shl (shr ins 31 AND 0x1) 20 OR shl (shr ins 21 AND 0x3FF) 1 OR
                                shl (shr ins 20 AND 0x1) 11 OR shl (shr ins 12 AND 0xFF) 12)
      in fmt ''jal %s, 0x%x'' [AStr (reg_name (get_rd ins)), AInt (at + imm)])"

definition disasm_lui :: "u32 \<Rightarrow> string" where
  "disasm_lui ins = fmt ''lui %s, 0x%x'' [AStr (reg_name (get_rd ins)), AInt (ins AND 0xFFFFF000)]"

definition disasm_auipc :: "u32 \<Rightarrow> string" where
  "disasm_auipc ins = fmt ''auipc %s, 0x%x'' [AStr (reg_name (get_rd ins)), AInt (ins AND 0xFFFFF000)]"

definition disasm_jalr :: "u32 \<Rightarrow> string" where
  "disasm_jalr ins =
     fmt ''jalr %s, %s, %d'' [AStr (reg_name (get_rd ins)), AStr (reg_name (get_rs1 ins)),
                              AInt (sign_extend_12 (shr ins 20 AND 0xFFF))]"

definition amo_name :: "u32 \<Rightarrow> string option" where
  "amo_name funct5 =
     (if funct5 = 0x00 then Some ''amoadd.w'' else if funct5 = 0x01 then Some ''amoswap.w''
      else if funct5 = 0x02 then Some ''lr.w'' else if funct5 = 0x03 then Some ''sc.w''
      else if funct5 = 0x04 then Some ''amoxor.w'' else if funct5 = 0x08 then Some ''amoor.w''
      else if funct5 = 0x0C then Some ''amoand.w'' else if funct5 = 0x10 then Some ''amomin.w''
      else if funct5 = 0x14 then Some ''amomax.w'' else if funct5 = 0x18 then Some ''amomin_u.w''
      else if funct5 = 0x1C then Some ''amomax_u.w'' else None)"

definition disasm_amo :: "u32 \<Rightarrow> string" where
  "disasm_amo ins =
     (let funct3 = get_funct3 ins; funct5 = get_funct5 ins; rs1 = get_rs1 ins; rs2 = get_rs2 ins; rd = get_rd ins
      in if funct3 = 2 then
           (case amo_name funct5 of
              None \<Rightarrow> unknown ins
            | Some mnemonic \<Rightarrow>
                if funct5 = 2 then fmt ''%s %s, (%s)'' [AStr mnemonic, AStr (reg_name rd), AStr (reg_name rs1)]
                else fmt ''%s %s, %s, (%s)''
                       [AStr mnemonic, AStr (reg_name rd), AStr (reg_name rs2), AStr (reg_name rs1)])
         else unknown ins)"

definition disasm_priv :: "u32 \<Rightarrow> string" where
  "disasm_priv ins =
     (let rs1 = get_rs1 ins; rd = get_rd ins; imm = shr ins 20 AND 0xFFF
      in if rs1 = 0 \<and> rd = 0 then
           if imm = 0x000 then fmt ''ecall'' []
           else if imm = 0x001 then fmt ''ebreak'' []
           else if imm = 0x102 then fmt ''sret'' []
           else if imm = 0x302 then fmt ''mret'' []
           else if imm = 0x702 then fmt ''mnret'' []
           else if imm = 0x104 then fmt ''sctrclr'' []
           else if imm = 0x105 then fmt ''wfi'' []
           else if imm = 0x009 then fmt ''sfence.vma'' []
           else unknown ins
         else if imm = 0x009 then
           if rs1 = 0 \<and> rd = 0 then fmt ''sfence.vma'' []
           else if rs1 \<noteq> 0 \<and> rd = 0 then fmt ''sfence.vma %s'' [AStr (reg_name rs1)]
           else if rs1 = 0 \<and> rd \<noteq> 0 then fmt ''sfence.vma , %s'' [AStr (reg_name rd)]
           else fmt ''sfence.vma %s, %s'' [AStr (reg_name rs1), AStr (reg_name rd)]
         else unknown ins)"

definition disasm_system :: "u32 \<Rightarrow> string" where
  "disasm_system ins =
     (let funct3 = get_funct3 ins; rs1 = get_rs1 ins; rd = get_rd ins; csr = shr ins 20 AND 0xFFF
      in if funct3 = 0 then disasm_priv ins
         else if funct3 = 1 then fmt ''csrrw %s, %s, 0x%03x'' [AStr (reg_name rd), AStr (reg_name rs1), AInt csr]
         else if funct3 = 2 then fmt ''csrrs %s, %s, 0x%03x'' [AStr (reg_name rd), AStr (reg_name rs1), AInt csr]
         else if funct3 = 3 then fmt ''csrrc %s, %s, 0x%03x'' [AStr (reg_name rd), AStr (reg_name rs1), AInt csr]
         else if funct3 = 5 then fmt ''csrrwi %s, %d, 0x%03x'' [AStr (reg_name rd), AInt rs1, AInt csr]
         else if funct3 = 6 then fmt ''csrrsi %s, %d, 0x%03x'' [AStr (reg_name rd), AInt rs1, AInt csr]
         else if funct3 = 7 then fmt ''csrrci %s, %d, 0x%03x'' [AStr (reg_name rd), AInt rs1, AInt csr]
         else unknown ins)"

definition disasm_fence :: "u32 \<Rightarrow> string" where
  "disasm_fence ins =
     (let funct3 = get_funct3 ins
      in if funct3 = 0 then fmt ''fence'' [] else if funct3 = 1 then fmt ''fence.i'' [] else unknown ins)"

section \<open>The disassembler\<close>

definition disasm :: "u32 \<Rightarrow> u32 \<Rightarrow> string option" where
  "disasm at ins =
     (let opcode = get_opcode ins
      in if opcode AND 3 \<noteq> 3 then Some (fmt ''c.<unknown> (0x%04x)'' [AInt (ins AND 0xFFFF)])
         else if opcode = 0x07 then Some (disasm_load_fp ins)
         else if opcode = 0x27 then Some (disasm_store_fp ins)
         else if opcode = 0x43 \<or> opcode = 0x47 \<or> opcode = 0x4B \<or> opcode = 0x4F then Some (disasm_fma ins)
         else if opcode = 0x53 then disasm_op_fp ins
         else if opcode = 0x33 then Some (disasm_op ins)
         else if opcode = 0x13 then Some (disasm_op_imm ins)
         else if opcode = 0x03 then Some (disasm_load ins)
         else if opcode = 0x23 then Some (disasm_store ins)
         else if opcode = 0x63 then Some (disasm_branch at ins)
         else if opcode = 0x6F then Some (disasm_jal at ins)
         else if opcode = 0x37 then Some (disasm_lui ins)
         else if opcode = 0x17 then Some (disasm_auipc ins)
         else if opcode = 0x67 then Some (disasm_jalr ins)
         else if opcode = 0x2F then Some (disasm_amo ins)
         else if opcode = 0x73 then Some (disasm_system ins)
         else if opcode = 0x0F then Some (disasm_fence ins)
         else Some (unknown ins))"

end
