(* ===== verification/Asm.thy ===== *)
theory Asm
  imports Exec Disasm
begin

text \<open>
  The integer instruction set (RV32IMA, Zicond, Zicsr, Zifencei and the privileged instructions) as a datatype, with its
  binary encoding, its execution by the instruction functions of the code and its printed form. The
  decoder of src/src/exec.c and the disassembler of src/src/disasm.c, which parse the same words
  independently, are each proved to invert the encoding; so they agree on every such instruction.
\<close>

section \<open>Instructions\<close>

datatype reg_op =
    R_add | R_sub | R_sll | R_slt | R_sltu | R_xor | R_srl | R_sra | R_or | R_and
  | R_mul | R_mulh | R_mulhsu | R_mulhu | R_div | R_divu | R_rem | R_remu
  | R_czero_eqz | R_czero_nez

datatype imm_op = I_addi | I_slti | I_sltiu | I_xori | I_ori | I_andi

datatype shift_op = I_slli | I_srli | I_srai

datatype load_op = L_lb | L_lh | L_lw | L_lbu | L_lhu

datatype store_op = S_sb | S_sh | S_sw

datatype branch_op = B_beq | B_bne | B_blt | B_bge | B_bltu | B_bgeu

datatype amo_op =
    A_add | A_swap | A_lr | A_sc | A_xor | A_or | A_and | A_min | A_max | A_minu | A_maxu

datatype csr_op = C_rw | C_rs | C_rc | C_rwi | C_rsi | C_rci

datatype plain_op = P_ecall | P_ebreak | P_sret | P_mret | P_mnret | P_sctrclr | P_wfi | P_fence_i

text \<open>
  Operands are in the order of the assembly language: destination, sources, immediate. \<open>Amo\<close> has the
  acquire and release bits first; \<open>Csr\<close> has a source register or a five-bit immediate; \<open>Fence\<close> has its mode, its
  predecessor and successor sets, and the two register fields that are reserved.
\<close>

datatype insn =
    Reg reg_op u32 u32 u32
  | Imm imm_op u32 u32 u32
  | Shift shift_op u32 u32 u32
  | Load load_op u32 u32 u32
  | Store store_op u32 u32 u32
  | Branch branch_op u32 u32 u32
  | Jal u32 u32
  | Jalr u32 u32 u32
  | Lui u32 u32
  | Auipc u32 u32
  | Amo amo_op u32 u32 u32 u32
  | Csr csr_op u32 u32 u32
  | Fence u32 u32 u32 u32 u32
  | Sfence u32 u32
  | Plain plain_op

definition imm12 :: "u32 \<Rightarrow> bool" where "imm12 x \<longleftrightarrow> - 2048 \<le> sint x \<and> sint x < 2048"

fun wf_insn :: "insn \<Rightarrow> bool" where
  "wf_insn (Reg _ rd rs1 rs2) \<longleftrightarrow> rd < 32 \<and> rs1 < 32 \<and> rs2 < 32"
| "wf_insn (Imm _ rd rs1 imm) \<longleftrightarrow> rd < 32 \<and> rs1 < 32 \<and> imm12 imm"
| "wf_insn (Shift _ rd rs1 shamt) \<longleftrightarrow> rd < 32 \<and> rs1 < 32 \<and> shamt < 32"
| "wf_insn (Load _ rd rs1 imm) \<longleftrightarrow> rd < 32 \<and> rs1 < 32 \<and> imm12 imm"
| "wf_insn (Store _ rs2 rs1 imm) \<longleftrightarrow> rs2 < 32 \<and> rs1 < 32 \<and> imm12 imm"
| "wf_insn (Branch _ rs1 rs2 off) \<longleftrightarrow> rs1 < 32 \<and> rs2 < 32 \<and> - 4096 \<le> sint off \<and> sint off < 4096 \<and> even off"
| "wf_insn (Jal rd off) \<longleftrightarrow> rd < 32 \<and> - 1048576 \<le> sint off \<and> sint off < 1048576 \<and> even off"
| "wf_insn (Jalr rd rs1 imm) \<longleftrightarrow> rd < 32 \<and> rs1 < 32 \<and> imm12 imm"
| "wf_insn (Lui rd imm) \<longleftrightarrow> rd < 32 \<and> imm AND 0xFFF = 0"
| "wf_insn (Auipc rd imm) \<longleftrightarrow> rd < 32 \<and> imm AND 0xFFF = 0"
| "wf_insn (Amo _ aqrl rd rs1 rs2) \<longleftrightarrow> aqrl < 4 \<and> rd < 32 \<and> rs1 < 32 \<and> rs2 < 32"
| "wf_insn (Csr _ rd src csr) \<longleftrightarrow> rd < 32 \<and> src < 32 \<and> csr < 4096"
| "wf_insn (Fence fm pred succ rd rs1) \<longleftrightarrow> fm < 16 \<and> pred < 16 \<and> succ < 16 \<and> rd < 32 \<and> rs1 < 32"
| "wf_insn (Sfence rs1 rs2) \<longleftrightarrow> rs1 < 32 \<and> rs2 < 32"
| "wf_insn (Plain _) \<longleftrightarrow> True"

section \<open>Encoding\<close>

definition enc_r :: "u32 \<Rightarrow> u32 \<Rightarrow> u32 \<Rightarrow> u32 \<Rightarrow> u32 \<Rightarrow> u32 \<Rightarrow> u32" where
  "enc_r op f3 f7 rd rs1 rs2 = op OR shl rd 7 OR shl f3 12 OR shl rs1 15 OR shl rs2 20 OR shl f7 25"

fun reg_code :: "reg_op \<Rightarrow> u32 \<times> u32" where
  "reg_code R_add = (0, 0)" | "reg_code R_sub = (0, 0x20)" | "reg_code R_sll = (1, 0)" | "reg_code R_slt = (2, 0)"
| "reg_code R_sltu = (3, 0)" | "reg_code R_xor = (4, 0)" | "reg_code R_srl = (5, 0)" | "reg_code R_sra = (5, 0x20)"
| "reg_code R_or = (6, 0)" | "reg_code R_and = (7, 0)" | "reg_code R_mul = (0, 1)" | "reg_code R_mulh = (1, 1)"
| "reg_code R_mulhsu = (2, 1)" | "reg_code R_mulhu = (3, 1)" | "reg_code R_div = (4, 1)" | "reg_code R_divu = (5, 1)"
| "reg_code R_rem = (6, 1)" | "reg_code R_remu = (7, 1)" | "reg_code R_czero_eqz = (5, 7)"
| "reg_code R_czero_nez = (7, 7)"

fun imm_code :: "imm_op \<Rightarrow> u32" where
  "imm_code I_addi = 0" | "imm_code I_slti = 2" | "imm_code I_sltiu = 3" | "imm_code I_xori = 4" | "imm_code I_ori = 6"
| "imm_code I_andi = 7"

fun shift_code :: "shift_op \<Rightarrow> u32 \<times> u32" where
  "shift_code I_slli = (1, 0)" | "shift_code I_srli = (5, 0)" | "shift_code I_srai = (5, 0x20)"

fun load_code :: "load_op \<Rightarrow> u32" where
  "load_code L_lb = 0" | "load_code L_lh = 1" | "load_code L_lw = 2" | "load_code L_lbu = 4" | "load_code L_lhu = 5"

fun store_code :: "store_op \<Rightarrow> u32" where
  "store_code S_sb = 0" | "store_code S_sh = 1" | "store_code S_sw = 2"

fun branch_code :: "branch_op \<Rightarrow> u32" where
  "branch_code B_beq = 0" | "branch_code B_bne = 1" | "branch_code B_blt = 4" | "branch_code B_bge = 5"
| "branch_code B_bltu = 6" | "branch_code B_bgeu = 7"

fun amo_code :: "amo_op \<Rightarrow> u32" where
  "amo_code A_add = 0x00" | "amo_code A_swap = 0x01" | "amo_code A_lr = 0x02" | "amo_code A_sc = 0x03"
| "amo_code A_xor = 0x04" | "amo_code A_or = 0x08" | "amo_code A_and = 0x0C" | "amo_code A_min = 0x10"
| "amo_code A_max = 0x14" | "amo_code A_minu = 0x18" | "amo_code A_maxu = 0x1C"

fun csr_code :: "csr_op \<Rightarrow> u32" where
  "csr_code C_rw = 1" | "csr_code C_rs = 2" | "csr_code C_rc = 3" | "csr_code C_rwi = 5" | "csr_code C_rsi = 6"
| "csr_code C_rci = 7"

fun plain_code :: "plain_op \<Rightarrow> u32" where
  "plain_code P_ecall = 0x00000073" | "plain_code P_ebreak = 0x00100073" | "plain_code P_sret = 0x10200073"
| "plain_code P_mret = 0x30200073" | "plain_code P_mnret = 0x70200073" | "plain_code P_sctrclr = 0x10400073"
| "plain_code P_wfi = 0x10500073" | "plain_code P_fence_i = 0x0000100F"

fun encode :: "insn \<Rightarrow> u32" where
  "encode (Reg op rd rs1 rs2) = enc_r 0x33 (fst (reg_code op)) (snd (reg_code op)) rd rs1 rs2"
| "encode (Imm op rd rs1 imm) = enc_i 0x13 (imm_code op) rd rs1 imm"
| "encode (Shift op rd rs1 shamt) = enc_r 0x13 (fst (shift_code op)) (snd (shift_code op)) rd rs1 shamt"
| "encode (Load op rd rs1 imm) = enc_i 0x03 (load_code op) rd rs1 imm"
| "encode (Store op rs2 rs1 imm) = enc_s 0x23 (store_code op) rs1 rs2 imm"
| "encode (Branch op rs1 rs2 off) = enc_b 0x63 (branch_code op) rs1 rs2 off"
| "encode (Jal rd off) = enc_j 0x6F rd off"
| "encode (Jalr rd rs1 imm) = enc_i 0x67 0 rd rs1 imm"
| "encode (Lui rd imm) = enc_u 0x37 rd imm"
| "encode (Auipc rd imm) = enc_u 0x17 rd imm"
| "encode (Amo op aqrl rd rs1 rs2) = enc_r 0x2F 2 (shl (amo_code op) 2 OR aqrl) rd rs1 rs2"
| "encode (Csr op rd src csr) = enc_i 0x73 (csr_code op) rd src csr"
| "encode (Fence fm pred succ rd rs1) = enc_i 0x0F 0 rd rs1 (shl fm 8 OR shl pred 4 OR succ)"
| "encode (Sfence rs1 rs2) = enc_r 0x73 0 9 0 rs1 rs2"
| "encode (Plain op) = plain_code op"

section \<open>Execution\<close>

fun perform_reg :: "reg_op \<Rightarrow> u32 \<Rightarrow> u32 \<Rightarrow> u32 \<Rightarrow> emu \<Rightarrow> emu" where
  "perform_reg R_add = insi_r_add" | "perform_reg R_sub = insi_r_sub" | "perform_reg R_sll = insi_r_sll"
| "perform_reg R_slt = insi_r_slt" | "perform_reg R_sltu = insi_r_sltu" | "perform_reg R_xor = insi_r_xor"
| "perform_reg R_srl = insi_r_srl" | "perform_reg R_sra = insi_r_sra" | "perform_reg R_or = insi_r_or"
| "perform_reg R_and = insi_r_and" | "perform_reg R_mul = insm_r_mul" | "perform_reg R_mulh = insm_r_mulh"
| "perform_reg R_mulhsu = insm_r_mulsu" | "perform_reg R_mulhu = insm_r_mulu" | "perform_reg R_div = insm_r_div"
| "perform_reg R_divu = insm_r_divu" | "perform_reg R_rem = insm_r_rem" | "perform_reg R_remu = insm_r_remu"
| "perform_reg R_czero_eqz = (\<lambda>rs2 rs1. ins_zicond_czero_eqz rs1 rs2)"
| "perform_reg R_czero_nez = (\<lambda>rs2 rs1. ins_zicond_czero_nez rs1 rs2)"

fun perform_imm :: "imm_op \<Rightarrow> u32 \<Rightarrow> u32 \<Rightarrow> u32 \<Rightarrow> emu \<Rightarrow> emu" where
  "perform_imm I_addi = insi_i_addi" | "perform_imm I_slti = insi_i_slti" | "perform_imm I_sltiu = insi_i_sltiu"
| "perform_imm I_xori = insi_i_xori" | "perform_imm I_ori = insi_i_ori" | "perform_imm I_andi = insi_i_andi"

fun perform_shift :: "shift_op \<Rightarrow> u32 \<Rightarrow> u32 \<Rightarrow> u32 \<Rightarrow> emu \<Rightarrow> emu" where
  "perform_shift I_slli = insi_i_slli" | "perform_shift I_srli = insi_i_srli" | "perform_shift I_srai = insi_i_srai"

fun perform_load :: "load_op \<Rightarrow> u32 \<Rightarrow> u32 \<Rightarrow> u32 \<Rightarrow> emu \<Rightarrow> emu" where
  "perform_load L_lb = insi_i_lb" | "perform_load L_lh = insi_i_lh" | "perform_load L_lw = insi_i_lw"
| "perform_load L_lbu = insi_i_lbu" | "perform_load L_lhu = insi_i_lhu"

fun perform_store :: "store_op \<Rightarrow> u32 \<Rightarrow> u32 \<Rightarrow> u32 \<Rightarrow> emu \<Rightarrow> emu" where
  "perform_store S_sb = insi_s_sb" | "perform_store S_sh = insi_s_sh" | "perform_store S_sw = insi_s_sw"

fun perform_branch :: "branch_op \<Rightarrow> u32 \<Rightarrow> u32 \<Rightarrow> u32 \<Rightarrow> emu \<Rightarrow> emu" where
  "perform_branch B_beq = insi_b_beq" | "perform_branch B_bne = insi_b_bne" | "perform_branch B_blt = insi_b_blt"
| "perform_branch B_bge = insi_b_bge" | "perform_branch B_bltu = insi_b_bltu" | "perform_branch B_bgeu = insi_b_bgeu"

fun perform_amo :: "bool \<Rightarrow> amo_op \<Rightarrow> u32 \<Rightarrow> u32 \<Rightarrow> u32 \<Rightarrow> emu \<Rightarrow> emu res" where
  "perform_amo ok A_add = insa_r_amoadd_w" | "perform_amo ok A_swap = insa_r_amoswap_w"
| "perform_amo ok A_lr = (\<lambda>rs1 rs2. insa_r_lr_w ok rs1)" | "perform_amo ok A_sc = insa_r_sc_w ok"
| "perform_amo ok A_xor = insa_r_amoxor_w" | "perform_amo ok A_or = insa_r_amoor_w"
| "perform_amo ok A_and = insa_r_amoand_w" | "perform_amo ok A_min = insa_r_amomin_w"
| "perform_amo ok A_max = insa_r_amomax_w" | "perform_amo ok A_minu = insa_r_amominu_w"
| "perform_amo ok A_maxu = insa_r_amomaxu_w"

fun perform_csr :: "csr_op \<Rightarrow> u32 \<Rightarrow> u32 \<Rightarrow> u32 \<Rightarrow> u32 \<Rightarrow> emu \<Rightarrow> emu" where
  "perform_csr C_rw = ins_zicsr_csrrw" | "perform_csr C_rs = ins_zicsr_csrrs" | "perform_csr C_rc = ins_zicsr_csrrc"
| "perform_csr C_rwi = ins_zicsr_csrrwi" | "perform_csr C_rsi = ins_zicsr_csrrsi" | "perform_csr C_rci = ins_zicsr_csrrci"

fun perform_plain :: "plain_op \<Rightarrow> emu \<Rightarrow> emu" where
  "perform_plain P_ecall = insi_i_ecall" | "perform_plain P_ebreak = insi_i_ebreak" | "perform_plain P_sret = ins_sret"
| "perform_plain P_mret = ins_mret" | "perform_plain P_mnret = ins_mnret" | "perform_plain P_sctrclr = ins_sctrclr"
| "perform_plain P_wfi = ins_wfi" | "perform_plain P_fence_i = ins_zifencei_zifencei"

text \<open>A CSR instruction is passed its own encoding, for the trap value of an illegal access.\<close>

fun perform :: "bool \<Rightarrow> insn \<Rightarrow> emu \<Rightarrow> emu res" where
  "perform ok (Reg op rd rs1 rs2) s = Inr (perform_reg op rs2 rs1 rd s)"
| "perform ok (Imm op rd rs1 imm) s = Inr (perform_imm op imm rs1 rd s)"
| "perform ok (Shift op rd rs1 shamt) s = Inr (perform_shift op shamt rs1 rd s)"
| "perform ok (Load op rd rs1 imm) s = Inr (perform_load op imm rs1 rd s)"
| "perform ok (Store op rs2 rs1 imm) s = Inr (perform_store op imm rs2 rs1 s)"
| "perform ok (Branch op rs1 rs2 off) s = Inr (perform_branch op off rs2 rs1 s)"
| "perform ok (Jal rd off) s = Inr (insi_j_jal off rd s)"
| "perform ok (Jalr rd rs1 imm) s = Inr (insi_i_jalr imm rs1 rd s)"
| "perform ok (Lui rd imm) s = Inr (insi_u_lui imm rd s)"
| "perform ok (Auipc rd imm) s = Inr (insi_u_auipc imm rd s)"
| "perform ok (Amo op aqrl rd rs1 rs2) s = perform_amo ok op rs1 rs2 rd s"
| "perform ok (Csr op rd src csr) s = Inr (perform_csr op src rd csr (encode (Csr op rd src csr)) s)"
| "perform ok (Fence fm pred succ rd rs1) s = Inr (ins_fence s)"
| "perform ok (Sfence rs1 rs2) s = Inr (ins_sfence_vma s)"
| "perform ok (Plain op) s = Inr (perform_plain op s)"

section \<open>The fields of an encoding\<close>

lemma enc_r_fields:
  assumes "op < 128" "f3 < 8" "f7 < 128" "rd < 32" "rs1 < 32" "rs2 < 32"
  shows "get_opcode (enc_r op f3 f7 rd rs1 rs2) = op" "get_funct3 (enc_r op f3 f7 rd rs1 rs2) = f3"
    "get_funct7 (enc_r op f3 f7 rd rs1 rs2) = f7" "get_rd (enc_r op f3 f7 rd rs1 rs2) = rd"
    "get_rs1 (enc_r op f3 f7 rd rs1 rs2) = rs1" "get_rs2 (enc_r op f3 f7 rd rs1 rs2) = rs2"
    "imm_i (enc_r op f3 f7 rd rs1 rs2) AND 0x1F = rs2" "shr (enc_r op f3 f7 rd rs1 rs2) 27 AND 0x1F = shr f7 2"
  using assms(1,2) reg_bits [OF assms(4)] reg_bits [OF assms(5)] reg_bits [OF assms(6)]
    small_bits [of op 7] small_bits [of f3 3] small_bits [of f7 7] assms(3)
  by (simp_all add: get_opcode_def get_funct3_def get_funct7_def get_rd_def get_rs1_def get_rs2_def imm_i_def
      sign_extend_bits enc_r_def word32_bits bit_simps)

text \<open>The facts of \<open>Exec\<close> on the other formats, by format.\<close>

lemma enc_i_fields:
  assumes "op < 128" "f3 < 8" "rd < 32" "rs1 < 32"
  shows "get_opcode (enc_i op f3 rd rs1 imm) = op" "get_funct3 (enc_i op f3 rd rs1 imm) = f3"
    "get_rd (enc_i op f3 rd rs1 imm) = rd" "get_rs1 (enc_i op f3 rd rs1 imm) = rs1"
    "imm12 imm \<Longrightarrow> imm_i (enc_i op f3 rd rs1 imm) = imm"
    "imm < 4096 \<Longrightarrow> shr (enc_i op f3 rd rs1 imm) 20 AND 0xFFF = imm"
proof -
  have z: "(0 :: u32) < 32" by simp
  note f = field_simps [OF assms z] imm_simps(1) [OF assms z]
  show "get_opcode (enc_i op f3 rd rs1 imm) = op" "get_funct3 (enc_i op f3 rd rs1 imm) = f3"
    "get_rd (enc_i op f3 rd rs1 imm) = rd" "get_rs1 (enc_i op f3 rd rs1 imm) = rs1" using f by simp_all
  show "imm12 imm \<Longrightarrow> imm_i (enc_i op f3 rd rs1 imm) = imm" using f(17) by (simp add: imm12_def signed_range)
  show "imm < 4096 \<Longrightarrow> shr (enc_i op f3 rd rs1 imm) 20 AND 0xFFF = imm"
    using reg_bits [OF assms(3)] reg_bits [OF assms(4)] small_bits [of op 7] small_bits [of f3 3] assms(1,2)
      small_bits [of imm 12] by (simp add: enc_i_def word32_bits bit_simps)
qed

lemma enc_s_fields:
  assumes "op < 128" "f3 < 8" "rs1 < 32" "rs2 < 32"
  shows "get_opcode (enc_s op f3 rs1 rs2 imm) = op" "get_funct3 (enc_s op f3 rs1 rs2 imm) = f3"
    "get_rs1 (enc_s op f3 rs1 rs2 imm) = rs1" "get_rs2 (enc_s op f3 rs1 rs2 imm) = rs2"
    "imm12 imm \<Longrightarrow> imm_s (enc_s op f3 rs1 rs2 imm) = imm"
  using field_simps [OF assms(1,2) _ assms(3,4), of 0] imm_simps(2) [OF assms(1,2) _ assms(3,4), of 0]
  by (simp_all add: imm12_def signed_range)

lemma enc_b_fields:
  assumes "op < 128" "f3 < 8" "rs1 < 32" "rs2 < 32"
  shows "get_opcode (enc_b op f3 rs1 rs2 off) = op" "get_funct3 (enc_b op f3 rs1 rs2 off) = f3"
    "get_rs1 (enc_b op f3 rs1 rs2 off) = rs1" "get_rs2 (enc_b op f3 rs1 rs2 off) = rs2"
    "- 4096 \<le> sint off \<Longrightarrow> sint off < 4096 \<Longrightarrow> even off \<Longrightarrow> imm_b (enc_b op f3 rs1 rs2 off) = off"
  using field_simps [OF assms(1,2) _ assms(3,4), of 0] imm_simps(3) [OF assms(1,2) _ assms(3,4), of 0]
  by (simp_all add: signed_range bit_0)

lemma enc_uj_fields:
  assumes "op < 128" "rd < 32"
  shows "get_opcode (enc_u op rd imm) = op" "get_rd (enc_u op rd imm) = rd"
    "get_opcode (enc_j op rd off) = op" "get_rd (enc_j op rd off) = rd"
    "imm AND 0xFFF = 0 \<Longrightarrow> imm_u (enc_u op rd imm) = imm"
    "- 1048576 \<le> sint off \<Longrightarrow> sint off < 1048576 \<Longrightarrow> even off \<Longrightarrow> imm_j (enc_j op rd off) = off"
  using field_simps [OF assms(1) _ assms(2), of 0 0 0] imm_simps(4,5) [OF assms(1) _ assms(2), of 0 0 0]
  by (simp_all add: signed_range bit_0)

lemma codes_small:
  "fst (reg_code r) < 8" "snd (reg_code r) < 128" "imm_code i < 8" "fst (shift_code h) < 8" "snd (shift_code h) < 128"
  "load_code l < 8" "store_code t < 8" "branch_code b < 8" "csr_code c < 8"
  "aqrl < 4 \<Longrightarrow> shl (amo_code a) 2 OR aqrl < 128" "aqrl < 4 \<Longrightarrow> shr (shl (amo_code a) 2 OR aqrl) 2 = amo_code a"
proof -
  have q: "shl x 2 OR aqrl < 128" "shr (shl x 2 OR aqrl) 2 = x" if "aqrl < 4" "x < 32" for x aqrl :: u32
  proof -
    have b: "\<not> bit aqrl n" if "2 \<le> n" for n using small_bits [of aqrl 2 n] \<open>aqrl < 4\<close> that by simp
    show "shr (shl x 2 OR aqrl) 2 = x"
      using b small_bits [of x 5] that(2) by (simp add: word32_bits bit_simps)
    have "(shl x 2 OR aqrl) AND 127 = shl x 2 OR aqrl"
      using b small_bits [of x 5] that(2) by (simp add: word32_bits bit_simps)
    then show "shl x 2 OR aqrl < 128" using and_mask_bound [of 127 128 "shl x 2 OR aqrl"] by simp
  qed
  show "aqrl < 4 \<Longrightarrow> shl (amo_code a) 2 OR aqrl < 128" "aqrl < 4 \<Longrightarrow> shr (shl (amo_code a) 2 OR aqrl) 2 = amo_code a"
    using q [of aqrl "amo_code a"] by (cases a; simp)+
  show "fst (reg_code r) < 8" "snd (reg_code r) < 128" by (cases r; simp)+
  show "fst (shift_code h) < 8" "snd (shift_code h) < 128" by (cases h; simp)+
  show "imm_code i < 8" by (cases i) simp_all
  show "load_code l < 8" by (cases l) simp_all
  show "store_code t < 8" by (cases t) simp_all
  show "branch_code b < 8" by (cases b) simp_all
  show "csr_code c < 8" by (cases c) simp_all
qed

section \<open>The decoder\<close>


lemma exec_encode_reg:
  assumes "rd < 32" "rs1 < 32" "rs2 < 32"
  shows "exec_op (encode (Reg op rd rs1 rs2)) s = Inr (perform_reg op rs2 rs1 rd s)"
  using assms
  by (cases op) (simp_all add: enc_r_fields exec_op_def m_ins_optable_def)

lemma exec_encode_imm:
  assumes "rd < 32" "rs1 < 32" "imm12 imm"
  shows "exec_op_imm (encode (Imm op rd rs1 imm)) s = Inr (perform_imm op imm rs1 rd s)"
  using assms
  by (cases op) (simp_all add: enc_i_fields exec_op_imm_def)

lemma exec_encode_shift:
  assumes "rd < 32" "rs1 < 32" "shamt < 32"
  shows "exec_op_imm (encode (Shift op rd rs1 shamt)) s = Inr (perform_shift op shamt rs1 rd s)"
  using assms
  by (cases op) (simp_all add: enc_r_fields exec_op_imm_def)

lemma exec_encode_load:
  assumes "rd < 32" "rs1 < 32" "imm12 imm"
  shows "exec_load (encode (Load op rd rs1 imm)) s = Inr (perform_load op imm rs1 rd s)"
  using assms
  by (cases op) (simp_all add: enc_i_fields exec_load_def)

lemma exec_encode_store:
  assumes "rs2 < 32" "rs1 < 32" "imm12 imm"
  shows "exec_store (encode (Store op rs2 rs1 imm)) s = Inr (perform_store op imm rs2 rs1 s)"
  using assms
  by (cases op) (simp_all add: enc_s_fields exec_store_def)

lemma exec_encode_branch:
  assumes "rs1 < 32" "rs2 < 32" "- 4096 \<le> sint off" "sint off < 4096" "even off"
  shows "exec_branch (encode (Branch op rs1 rs2 off)) s = Inr (perform_branch op off rs2 rs1 s)"
  using assms
  by (cases op) (simp_all add: enc_b_fields exec_branch_def)

lemma amo_fields:
  assumes "aqrl < 4" "rd < 32" "rs1 < 32" "rs2 < 32"
  shows "get_funct3 (encode (Amo op aqrl rd rs1 rs2)) = 2" "get_rd (encode (Amo op aqrl rd rs1 rs2)) = rd"
    "get_rs1 (encode (Amo op aqrl rd rs1 rs2)) = rs1" "get_rs2 (encode (Amo op aqrl rd rs1 rs2)) = rs2"
    "shr (encode (Amo op aqrl rd rs1 rs2)) 27 AND 0x1F = amo_code op"
proof -
  show "get_funct3 (encode (Amo op aqrl rd rs1 rs2)) = 2" "get_rd (encode (Amo op aqrl rd rs1 rs2)) = rd"
    "get_rs1 (encode (Amo op aqrl rd rs1 rs2)) = rs1" "get_rs2 (encode (Amo op aqrl rd rs1 rs2)) = rs2"
    using assms by (simp_all add: enc_r_fields codes_small)
  have n: "(0x2F :: u32) < 128" "(2 :: u32) < 8" by simp_all
  show "shr (encode (Amo op aqrl rd rs1 rs2)) 27 AND 0x1F = amo_code op"
    using enc_r_fields(8) [OF n codes_small(10) [OF assms(1)] assms(2-4)]
    by (simp only: encode.simps codes_small(11) [OF assms(1)])
qed

lemma exec_encode_amo:
  assumes "aqrl < 4" "rd < 32" "rs1 < 32" "rs2 < 32"
  shows "exec_amo ok (encode (Amo op aqrl rd rs1 rs2)) s = perform_amo ok op rs1 rs2 rd s"
  unfolding exec_amo_def Let_def amo_fields [OF assms] by (cases op) simp_all

lemma exec_encode_csr:
  assumes "rd < 32" "src < 32" "csr < 4096"
  shows "exec_system (encode (Csr op rd src csr)) s = Inr (perform_csr op src rd csr (encode (Csr op rd src csr)) s)"
  using assms
  by (cases op) (simp_all add: enc_i_fields exec_system_def get_rd_def [symmetric] get_rs1_def [symmetric])

lemma exec_encode_plain: "exec_switch ok sf (plain_code op) s = Inr (perform_plain op s)"
  by (cases op) (simp_all add: exec_switch_def exec_system_def exec_fence_def get_opcode_def get_funct3_def)

lemma exec_encode_fence:
  assumes "rd < 32" "rs1 < 32"
  shows "exec_fence (encode (Fence fm pred succ rd rs1)) s = Inr (ins_fence s)"
  using assms by (simp add: enc_i_fields exec_fence_def)

text \<open>The twelve-bit field of SFENCE.VMA holds 9 in its upper seven bits, so it is none of the codes without operands.\<close>

lemma funct12_upper: "shr (shr w 20 AND 0xFFF) 5 = get_funct7 w"
  by (simp add: get_funct7_def word32_bits bit_simps)

lemma sfence_fields:
  assumes "rs1 < 32" "rs2 < 32"
  shows "get_opcode (encode (Sfence rs1 rs2)) = 0x73" "get_funct3 (encode (Sfence rs1 rs2)) = 0"
    "get_funct7 (encode (Sfence rs1 rs2)) = 9" "get_rd (encode (Sfence rs1 rs2)) = 0" "get_rs1 (encode (Sfence rs1 rs2)) = rs1"
    "shr x 5 \<noteq> 9 \<Longrightarrow> shr (encode (Sfence rs1 rs2)) 20 AND 0xFFF \<noteq> x"
proof -
  have z: "(0x73 :: u32) < 128" "(0 :: u32) < 8" "(9 :: u32) < 128" "(0 :: u32) < 32" by simp_all
  note f = enc_r_fields [OF z assms]
  show "get_opcode (encode (Sfence rs1 rs2)) = 0x73" "get_funct3 (encode (Sfence rs1 rs2)) = 0" "get_funct7 (encode (Sfence rs1 rs2)) = 9"
    "get_rd (encode (Sfence rs1 rs2)) = 0" "get_rs1 (encode (Sfence rs1 rs2)) = rs1" using f by simp_all
  then show "shr x 5 \<noteq> 9 \<Longrightarrow> shr (encode (Sfence rs1 rs2)) 20 AND 0xFFF \<noteq> x" using funct12_upper by metis
qed

lemma exec_encode_sfence:
  assumes "rs1 < 32" "rs2 < 32"
  shows "exec_system (encode (Sfence rs1 rs2)) s = Inr (ins_sfence_vma s)"
  unfolding exec_system_def Let_def get_rd_def [symmetric] get_rs1_def [symmetric] sfence_fields(1-5) [OF assms]
  using assms by (simp del: encode.simps add: sfence_fields(6))

text \<open>The opcode of each format.\<close>

lemma opcode_encode:
  "wf_insn i \<Longrightarrow> get_opcode (encode i) =
     (case i of Reg _ _ _ _ \<Rightarrow> 0x33 | Imm _ _ _ _ \<Rightarrow> 0x13 | Shift _ _ _ _ \<Rightarrow> 0x13 | Load _ _ _ _ \<Rightarrow> 0x03
      | Store _ _ _ _ \<Rightarrow> 0x23 | Branch _ _ _ _ \<Rightarrow> 0x63 | Jal _ _ \<Rightarrow> 0x6F | Jalr _ _ _ \<Rightarrow> 0x67 | Lui _ _ \<Rightarrow> 0x37
      | Auipc _ _ \<Rightarrow> 0x17 | Amo _ _ _ _ _ \<Rightarrow> 0x2F | Csr _ _ _ _ \<Rightarrow> 0x73
      | Fence _ _ _ _ _ \<Rightarrow> 0x0F | Sfence _ _ \<Rightarrow> 0x73 | Plain op \<Rightarrow> get_opcode (plain_code op))"
  by (cases i) (simp_all add: enc_r_fields enc_i_fields enc_s_fields enc_b_fields enc_uj_fields codes_small)

lemma exec_switch_encode:
  assumes "wf_insn i"
  shows "exec_switch ok sf (encode i) s = perform ok i s"
proof (cases i)
  case (Jal rd off)
  with assms show ?thesis by (simp add: exec_switch_def enc_uj_fields)
next
  case (Jalr rd rs1 imm)
  with assms show ?thesis by (simp add: exec_switch_def enc_i_fields)
next
  case (Lui rd imm)
  with assms show ?thesis by (simp add: exec_switch_def enc_uj_fields)
next
  case (Auipc rd imm)
  with assms show ?thesis by (simp add: exec_switch_def enc_uj_fields)
next
  case (Plain op)
  then show ?thesis by (simp add: exec_encode_plain)
qed (use assms opcode_encode [OF assms] in \<open>simp_all del: encode.simps add: exec_switch_def exec_encode_reg exec_encode_imm
      exec_encode_shift exec_encode_load exec_encode_store exec_encode_branch exec_encode_amo exec_encode_csr exec_encode_fence exec_encode_sfence\<close>)

text \<open>
  C9. Decoding inverts the encoding: every well-formed instruction of RV32IMA, Zicond, Zicsr and Zifencei and every
  privileged one (SFENCE.VMA with any operands, and FENCE with any mode, sets and reserved fields, included), laid out in the base
  formats R, I, S, B, U and J, runs as that instruction with exactly the registers, CSR number, shift
  amount and signed immediate it was assembled from.
\<close>

theorem exec_encode:
  assumes "wf_insn i"
  shows "exec_switch ok sf (encode i) s = perform ok i s"
  using assms by (rule exec_switch_encode)

theorem exec_encode_witness:
  "exec_switch True order_softfloat (encode (Branch B_bltu 5 6 (- 8))) (reset_state 0) =
     perform True (Branch B_bltu 5 6 (- 8)) (reset_state 0) \<and>
   encode (Branch B_bltu 5 6 (- 8)) = 0xFE62ECE3 \<and>
   exec_switch True order_softfloat 0x12C58073 (reset_state 0) = Inr (ins_sfence_vma (reset_state 0))"
proof (intro conjI)
  show "exec_switch True order_softfloat (encode (Branch B_bltu 5 6 (- 8))) (reset_state 0) =
     perform True (Branch B_bltu 5 6 (- 8)) (reset_state 0)" by (rule exec_encode) simp
  show "encode (Branch B_bltu 5 6 (- 8)) = 0xFE62ECE3" by (simp add: enc_b_def)
  show "exec_switch True order_softfloat 0x12C58073 (reset_state 0) = Inr (ins_sfence_vma (reset_state 0))"
    using exec_encode [of "Sfence 11 12" True order_softfloat "reset_state 0"] by (simp add: enc_r_def)
qed

end
