(* ===== verification/Listing.thy ===== *)
theory Listing
  imports Asm
begin

text \<open>
  The assembly text of an instruction, and what the disassembler of src/src/disasm.c makes of an encoded one:
  exactly which instructions it prints as the assembly language has them, what it prints of the others, and that two different
  instructions never look the same.
\<close>

section \<open>The assembly text of an instruction\<close>

text \<open>
  The assembly language of the architecture: its mnemonics, with the ordering suffixes of the atomics, and its order of the
  operands. Branch and jump targets are absolute, CSR numbers hexadecimal; the upper immediates are written without their twelve
  zero bits; a fence of everything against everything is plain \<open>fence\<close>.
\<close>

fun reg_mn :: "reg_op \<Rightarrow> string" where
  "reg_mn R_add = ''add''" | "reg_mn R_sub = ''sub''" | "reg_mn R_sll = ''sll''" | "reg_mn R_slt = ''slt''"
| "reg_mn R_sltu = ''sltu''" | "reg_mn R_xor = ''xor''" | "reg_mn R_srl = ''srl''" | "reg_mn R_sra = ''sra''"
| "reg_mn R_or = ''or''" | "reg_mn R_and = ''and''" | "reg_mn R_mul = ''mul''" | "reg_mn R_mulh = ''mulh''"
| "reg_mn R_mulhsu = ''mulhsu''" | "reg_mn R_mulhu = ''mulhu''" | "reg_mn R_div = ''div''" | "reg_mn R_divu = ''divu''"
| "reg_mn R_rem = ''rem''" | "reg_mn R_remu = ''remu''" | "reg_mn R_czero_eqz = ''czero.eqz''"
| "reg_mn R_czero_nez = ''czero.nez''"

fun imm_mn :: "imm_op \<Rightarrow> string" where
  "imm_mn I_addi = ''addi''" | "imm_mn I_slti = ''slti''" | "imm_mn I_sltiu = ''sltiu''" | "imm_mn I_xori = ''xori''"
| "imm_mn I_ori = ''ori''" | "imm_mn I_andi = ''andi''"

fun shift_mn :: "shift_op \<Rightarrow> string" where
  "shift_mn I_slli = ''slli''" | "shift_mn I_srli = ''srli''" | "shift_mn I_srai = ''srai''"

fun load_mn :: "load_op \<Rightarrow> string" where
  "load_mn L_lb = ''lb''" | "load_mn L_lh = ''lh''" | "load_mn L_lw = ''lw''" | "load_mn L_lbu = ''lbu''"
| "load_mn L_lhu = ''lhu''"

fun store_mn :: "store_op \<Rightarrow> string" where
  "store_mn S_sb = ''sb''" | "store_mn S_sh = ''sh''" | "store_mn S_sw = ''sw''"

fun branch_mn :: "branch_op \<Rightarrow> string" where
  "branch_mn B_beq = ''beq''" | "branch_mn B_bne = ''bne''" | "branch_mn B_blt = ''blt''" | "branch_mn B_bge = ''bge''"
| "branch_mn B_bltu = ''bltu''" | "branch_mn B_bgeu = ''bgeu''"

fun amo_mn :: "amo_op \<Rightarrow> string" where
  "amo_mn A_add = ''amoadd.w''" | "amo_mn A_swap = ''amoswap.w''" | "amo_mn A_lr = ''lr.w''" | "amo_mn A_sc = ''sc.w''"
| "amo_mn A_xor = ''amoxor.w''" | "amo_mn A_or = ''amoor.w''" | "amo_mn A_and = ''amoand.w''"
| "amo_mn A_min = ''amomin.w''" | "amo_mn A_max = ''amomax.w''" | "amo_mn A_minu = ''amominu.w''"
| "amo_mn A_maxu = ''amomaxu.w''"

fun csr_mn :: "csr_op \<Rightarrow> string" where
  "csr_mn C_rw = ''csrrw''" | "csr_mn C_rs = ''csrrs''" | "csr_mn C_rc = ''csrrc''" | "csr_mn C_rwi = ''csrrwi''"
| "csr_mn C_rsi = ''csrrsi''" | "csr_mn C_rci = ''csrrci''"

fun plain_mn :: "plain_op \<Rightarrow> string" where
  "plain_mn P_ecall = ''ecall''" | "plain_mn P_ebreak = ''ebreak''" | "plain_mn P_sret = ''sret''"
| "plain_mn P_mret = ''mret''" | "plain_mn P_mnret = ''mnret''" | "plain_mn P_sctrclr = ''sctrclr''" | "plain_mn P_wfi = ''wfi''"
| "plain_mn P_fence_i = ''fence.i''"

definition order_suffix :: "u32 \<Rightarrow> string" where
  "order_suffix aqrl = (if aqrl = 0 then [] else if aqrl = 1 then ''.rl'' else if aqrl = 2 then ''.aq'' else ''.aqrl'')"

definition fence_set :: "u32 \<Rightarrow> string" where
  "fence_set b =
     (if b = 0 then ''0''
      else (if bit b 3 then ''i'' else []) @ (if bit b 2 then ''o'' else []) @ (if bit b 1 then ''r'' else []) @
        (if bit b 0 then ''w'' else []))"

definition is_tso :: "u32 \<Rightarrow> u32 \<Rightarrow> u32 \<Rightarrow> bool" where
  "is_tso fm pred succ \<longleftrightarrow> fm = 8 \<and> pred = 3 \<and> succ = 3"

text \<open>A memory operand, and a CSR address in three hexadecimal digits.\<close>

definition mem_operand :: "u32 \<Rightarrow> u32 \<Rightarrow> string" where
  "mem_operand imm r = show_d imm @ ''('' @ reg_name r @ '')''"

definition addr_operand :: "u32 \<Rightarrow> string" where
  "addr_operand r = ''('' @ reg_name r @ '')''"

definition csr_operand :: "u32 \<Rightarrow> string" where
  "csr_operand c = ''0x'' @ pad_left (CHR ''0'') 3 (digits 16 (unat c))"

definition csr_source :: "csr_op \<Rightarrow> u32 \<Rightarrow> string" where
  "csr_source op x = (if op = C_rwi \<or> op = C_rsi \<or> op = C_rci then show_d x else reg_name x)"

fun mnemonic :: "insn \<Rightarrow> string" where
  "mnemonic (Reg op _ _ _) = reg_mn op"
| "mnemonic (Imm op _ _ _) = imm_mn op"
| "mnemonic (Shift op _ _ _) = shift_mn op"
| "mnemonic (Load op _ _ _) = load_mn op"
| "mnemonic (Store op _ _ _) = store_mn op"
| "mnemonic (Branch op _ _ _) = branch_mn op"
| "mnemonic (Jal _ _) = ''jal''"
| "mnemonic (Jalr _ _ _) = ''jalr''"
| "mnemonic (Lui _ _) = ''lui''"
| "mnemonic (Auipc _ _) = ''auipc''"
| "mnemonic (Amo op aqrl _ _ _) = amo_mn op @ order_suffix aqrl"
| "mnemonic (Csr op _ _ _) = csr_mn op"
| "mnemonic (Fence fm pred succ _ _) = (if is_tso fm pred succ then ''fence.tso'' else ''fence'')"
| "mnemonic (Sfence _ _) = ''sfence.vma''"
| "mnemonic (Plain op) = plain_mn op"

fun operands :: "u32 \<Rightarrow> insn \<Rightarrow> string list" where
  "operands at (Reg _ rd rs1 rs2) = [reg_name rd, reg_name rs1, reg_name rs2]"
| "operands at (Imm _ rd rs1 imm) = [reg_name rd, reg_name rs1, show_d imm]"
| "operands at (Shift _ rd rs1 shamt) = [reg_name rd, reg_name rs1, show_d shamt]"
| "operands at (Load _ rd rs1 imm) = [reg_name rd, mem_operand imm rs1]"
| "operands at (Store _ rs2 rs1 imm) = [reg_name rs2, mem_operand imm rs1]"
| "operands at (Branch _ rs1 rs2 off) = [reg_name rs1, reg_name rs2, show_0x (at + off)]"
| "operands at (Jal rd off) = [reg_name rd, show_0x (at + off)]"
| "operands at (Jalr rd rs1 imm) = [reg_name rd, reg_name rs1, show_d imm]"
| "operands at (Lui rd imm) = [reg_name rd, show_0x (shr imm 12)]"
| "operands at (Auipc rd imm) = [reg_name rd, show_0x (shr imm 12)]"
| "operands at (Amo op _ rd rs1 rs2) =
     (if op = A_lr then [reg_name rd, addr_operand rs1] else [reg_name rd, reg_name rs2, addr_operand rs1])"
| "operands at (Csr op rd src csr) = [reg_name rd, csr_operand csr, csr_source op src]"
| "operands at (Fence fm pred succ _ _) =
     (if is_tso fm pred succ \<or> pred = 15 \<and> succ = 15 then [] else [fence_set pred, fence_set succ])"
| "operands at (Sfence rs1 rs2) = [reg_name rs1, reg_name rs2]"
| "operands at (Plain _) = []"

fun commas :: "string list \<Rightarrow> string" where
  "commas [] = []"
| "commas (x # xs) = x @ (if xs = [] then [] else '', '' @ commas xs)"

definition line_text :: "string \<Rightarrow> string list \<Rightarrow> string" where
  "line_text name ops = name @ (if ops = [] then [] else '' '' @ commas ops)"

definition listing :: "u32 \<Rightarrow> insn \<Rightarrow> string" where
  "listing at i = line_text (mnemonic i) (operands at i)"

section \<open>What the disassembler prints\<close>

text \<open>
  Where it departs from the assembly language: the names of four register operations and of two atomics; the ordering bits of the
  atomics, which it drops; the second source of the conditional zeros, which it drops; the operands of the CSR instructions, whose
  CSR comes last; the upper immediates, whose zero bits it prints; the sets of a fence, which it drops; and SFENCE.VMA,
  which it shows as unknown.
\<close>

fun misprinted :: "insn \<Rightarrow> bool" where
  "misprinted (Reg op _ _ _) \<longleftrightarrow> op = R_mulhsu \<or> op = R_mulhu \<or> op = R_czero_eqz \<or> op = R_czero_nez"
| "misprinted (Amo op aqrl _ _ _) \<longleftrightarrow> op = A_minu \<or> op = A_maxu \<or> aqrl \<noteq> 0"
| "misprinted (Csr _ _ _ _) \<longleftrightarrow> True"
| "misprinted (Lui _ imm) \<longleftrightarrow> imm \<noteq> 0"
| "misprinted (Auipc _ imm) \<longleftrightarrow> imm \<noteq> 0"
| "misprinted (Fence _ pred succ _ _) \<longleftrightarrow> pred \<noteq> 15 \<or> succ \<noteq> 15"
| "misprinted (Sfence _ _) \<longleftrightarrow> True"
| "misprinted _ \<longleftrightarrow> False"

definition shown_reg :: "reg_op \<Rightarrow> string" where
  "shown_reg op =
     (if op = R_mulhsu then ''mulsu'' else if op = R_mulhu then ''mulu'' else if op = R_czero_eqz then ''czero_eqz''
      else if op = R_czero_nez then ''czero_nez'' else reg_mn op)"

definition shown_amo :: "amo_op \<Rightarrow> string" where
  "shown_amo op = (if op = A_minu then ''amomin_u.w'' else if op = A_maxu then ''amomax_u.w'' else amo_mn op)"

fun shown_name :: "insn \<Rightarrow> string" where
  "shown_name (Reg op _ _ _) = shown_reg op"
| "shown_name (Amo op _ _ _ _) = shown_amo op"
| "shown_name (Fence _ _ _ _ _) = ''fence''"
| "shown_name (Sfence _ _) = ''unknown''"
| "shown_name i = mnemonic i"

fun shown_ops :: "u32 \<Rightarrow> insn \<Rightarrow> string list" where
  "shown_ops at (Reg op rd rs1 rs2) =
     (if op = R_czero_eqz \<or> op = R_czero_nez then [reg_name rd, reg_name rs1] else [reg_name rd, reg_name rs1, reg_name rs2])"
| "shown_ops at (Lui rd imm) = [reg_name rd, show_0x imm]"
| "shown_ops at (Auipc rd imm) = [reg_name rd, show_0x imm]"
| "shown_ops at (Csr op rd src csr) = [reg_name rd, csr_source op src, csr_operand csr]"
| "shown_ops at (Fence _ _ _ _ _) = []"
| "shown_ops at (Sfence rs1 rs2) = [''('' @ show_0x8 (encode (Sfence rs1 rs2)) @ '')'']"
| "shown_ops at i = operands at i"

definition shown :: "u32 \<Rightarrow> insn \<Rightarrow> string" where
  "shown at i = line_text (shown_name i) (shown_ops at i)"

lemmas text_defs = fmt_def shown_def line_text_def shown_reg_def shown_amo_def mem_operand_def addr_operand_def csr_operand_def csr_source_def show_d_def show_0x_def

text \<open>The disassembler's immediates are those of the decoder.\<close>

lemmas disasm_op_imm_imm = disasm_op_imm_def [folded imm_i_def]
lemmas disasm_load_imm = disasm_load_def [folded imm_i_def]
lemmas disasm_jalr_imm = disasm_jalr_def [folded imm_i_def]
lemmas disasm_store_imm = disasm_store_def [folded imm_s_def]
lemmas disasm_branch_imm = disasm_branch_def [folded imm_b_def]
lemmas disasm_jal_imm = disasm_jal_def [folded imm_j_def]
lemmas disasm_lui_imm = disasm_lui_def [folded imm_u_def]
lemmas disasm_auipc_imm = disasm_auipc_def [folded imm_u_def]

lemma disasm_encode_reg:
  assumes "rd < 32" "rs1 < 32" "rs2 < 32"
  shows "disasm_op (encode (Reg op rd rs1 rs2)) = shown at (Reg op rd rs1 rs2)"
  using assms by (cases op) (simp_all add: enc_r_fields disasm_op_def disasm_m_def text_defs)

lemma disasm_encode_imm:
  assumes "rd < 32" "rs1 < 32" "imm12 imm"
  shows "disasm_op_imm (encode (Imm op rd rs1 imm)) = shown at (Imm op rd rs1 imm)"
  using assms by (cases op) (simp_all add: enc_i_fields disasm_op_imm_imm text_defs)

lemma disasm_encode_shift:
  assumes "rd < 32" "rs1 < 32" "shamt < 32"
  shows "disasm_op_imm (encode (Shift op rd rs1 shamt)) = shown at (Shift op rd rs1 shamt)"
  using assms by (cases op) (simp_all add: enc_r_fields disasm_op_imm_imm text_defs)

lemma disasm_encode_load:
  assumes "rd < 32" "rs1 < 32" "imm12 imm"
  shows "disasm_load (encode (Load op rd rs1 imm)) = shown at (Load op rd rs1 imm)"
  using assms by (cases op) (simp_all add: enc_i_fields disasm_load_imm text_defs)

lemma disasm_encode_store:
  assumes "rs2 < 32" "rs1 < 32" "imm12 imm"
  shows "disasm_store (encode (Store op rs2 rs1 imm)) = shown at (Store op rs2 rs1 imm)"
  using assms by (cases op) (simp_all add: enc_s_fields disasm_store_imm text_defs)

lemma disasm_encode_branch:
  assumes "rs1 < 32" "rs2 < 32" "- 4096 \<le> sint off" "sint off < 4096" "even off"
  shows "disasm_branch at (encode (Branch op rs1 rs2 off)) = shown at (Branch op rs1 rs2 off)"
  using assms by (cases op) (simp_all add: enc_b_fields disasm_branch_imm text_defs)

lemma disasm_encode_amo:
  assumes "aqrl < 4" "rd < 32" "rs1 < 32" "rs2 < 32"
  shows "disasm_amo (encode (Amo op aqrl rd rs1 rs2)) = shown at (Amo op aqrl rd rs1 rs2)"
proof -
  have f: "get_funct3 (encode (Amo op aqrl rd rs1 rs2)) = 2" "get_rd (encode (Amo op aqrl rd rs1 rs2)) = rd"
    "get_rs1 (encode (Amo op aqrl rd rs1 rs2)) = rs1" "get_rs2 (encode (Amo op aqrl rd rs1 rs2)) = rs2"
    "get_funct5 (encode (Amo op aqrl rd rs1 rs2)) = amo_code op"
    using amo_fields [OF assms] by (simp_all only: get_funct5_def)
  show ?thesis unfolding disasm_amo_def Let_def f by (cases op) (simp_all add: amo_name_def text_defs)
qed

lemma disasm_encode_csr:
  assumes "rd < 32" "src < 32" "csr < 4096"
  shows "disasm_system (encode (Csr op rd src csr)) = shown at (Csr op rd src csr)"
  using assms by (cases op) (simp_all add: enc_i_fields disasm_system_def text_defs)

lemma disasm_encode_fence: "rd < 32 \<Longrightarrow> rs1 < 32 \<Longrightarrow>
    disasm_fence (encode (Fence fm pred succ rd rs1)) = shown at (Fence fm pred succ rd rs1)"
  by (simp add: enc_i_fields disasm_fence_def text_defs)

lemma disasm_encode_sfence:
  assumes "rs1 < 32" "rs2 < 32"
  shows "disasm_system (encode (Sfence rs1 rs2)) = shown at (Sfence rs1 rs2)"
proof -
  have "unknown w = ''unknown ('' @ show_0x8 w @ '')''" for w
    by (simp add: unknown_def fmt_def show_0x8_def)
  then have "shown at (Sfence rs1 rs2) = unknown (encode (Sfence rs1 rs2))"
    by (simp add: shown_def line_text_def del: encode.simps)
  then show ?thesis using assms
    by (simp del: encode.simps add: disasm_system_def disasm_priv_def Let_def sfence_fields)
qed

lemma disasm_encode_plain: "disasm at (plain_code op) = Some (shown at (Plain op))"
  by (cases op) (simp_all add: disasm_def disasm_system_def disasm_priv_def disasm_fence_def get_opcode_def get_funct3_def
      get_rs1_def get_rd_def text_defs)

lemma disasm_shown:
  assumes "wf_insn i"
  shows "disasm at (encode i) = Some (shown at i)"
proof (cases i)
  case (Jal rd off)
  with assms show ?thesis by (simp add: disasm_def disasm_jal_imm enc_uj_fields text_defs)
next
  case (Jalr rd rs1 imm)
  with assms show ?thesis by (simp add: disasm_def disasm_jalr_imm enc_i_fields text_defs)
next
  case (Lui rd imm)
  with assms show ?thesis by (simp add: disasm_def disasm_lui_imm enc_uj_fields text_defs)
next
  case (Auipc rd imm)
  with assms show ?thesis by (simp add: disasm_def disasm_auipc_imm enc_uj_fields text_defs)
next
  case (Plain op)
  then show ?thesis by (simp add: disasm_encode_plain)
qed (use assms opcode_encode [OF assms] in \<open>simp_all del: encode.simps add: disasm_def disasm_encode_reg [where at = at]
      disasm_encode_imm [where at = at] disasm_encode_shift [where at = at] disasm_encode_load [where at = at]
      disasm_encode_store [where at = at] disasm_encode_branch disasm_encode_amo [where at = at]
      disasm_encode_csr [where at = at] disasm_encode_fence [where at = at] disasm_encode_sfence [where at = at]\<close>)

section \<open>Reading a line back\<close>

text \<open>Operands are nonempty and free of commas.\<close>



lemma split_at_char:
  assumes "s @ x # t = s' @ x # t'" "x \<notin> set s" "x \<notin> set s'"
  shows "s = s' \<and> t = t'"
proof -
  have "takeWhile (\<lambda>c. c \<noteq> x) (s @ x # t) = s" "dropWhile (\<lambda>c. c \<noteq> x) (s @ x # t) = x # t"
    using assms(2) by (simp_all add: takeWhile_append dropWhile_append)
  moreover have "takeWhile (\<lambda>c. c \<noteq> x) (s' @ x # t') = s'" "dropWhile (\<lambda>c. c \<noteq> x) (s' @ x # t') = x # t'"
    using assms(3) by (simp_all add: takeWhile_append dropWhile_append)
  ultimately show ?thesis using assms(1) by (metis list.inject)
qed

lemma commas_inj:
  "commas xs = commas ys \<Longrightarrow> \<forall>x\<in>set xs \<union> set ys. x \<noteq> [] \<and> CHR '','' \<notin> set x \<Longrightarrow> xs = ys"
proof (induction xs arbitrary: ys)
  case Nil
  then show ?case by (cases ys) auto
next
  case (Cons x xs)
  then obtain y ys' where ys: "ys = y # ys'" by (cases ys) auto
  have c: "CHR '','' \<notin> set x" "CHR '','' \<notin> set y" using Cons.prems(2) ys by auto
  show ?case
  proof (cases "xs = [] \<or> ys' = []")
    case True
    have "xs = [] \<longleftrightarrow> ys' = []"
    proof
      assume "xs = []"
      then show "ys' = []" using Cons.prems(1) c ys by (auto split: if_splits)
    next
      assume "ys' = []"
      then have "CHR '','' \<notin> set (commas (x # xs))" using Cons.prems(1) c ys by simp
      then show "xs = []" by (auto split: if_splits)
    qed
    then show ?thesis using True Cons.prems(1) ys by simp
  next
    case False
    then have "x = y \<and> '' '' @ commas xs = '' '' @ commas ys'"
      using Cons.prems(1) c ys by (intro split_at_char [where x = "CHR '',''"]) simp_all
    then show ?thesis using Cons ys by auto
  qed
qed

lemma nth_distinct_inj:
  "distinct xs \<Longrightarrow> i < of_nat n \<Longrightarrow> j < of_nat n \<Longrightarrow> length xs = n \<Longrightarrow> n \<le> 32 \<Longrightarrow> xs ! unat i = xs ! unat j \<longleftrightarrow> i = (j :: u32)"
  by (auto simp: nth_eq_iff_index_eq word_less_nat_alt unat_of_nat intro: word_unat_eq_iff [THEN iffD2])

lemma reg_name_inj: "i < 32 \<Longrightarrow> j < 32 \<Longrightarrow> reg_name i = reg_name j \<longleftrightarrow> i = j"
proof -
  have "distinct reg_names" "length reg_names = 32" by (simp_all add: reg_names_def)
  then show "i < 32 \<Longrightarrow> j < 32 \<Longrightarrow> reg_name i = reg_name j \<longleftrightarrow> i = j"
    using nth_distinct_inj [of reg_names i 32 j] by (simp add: reg_name_def)
qed

lemma reg_name_chars:
  "reg_name i \<noteq> [] \<and> CHR '','' \<notin> set (reg_name i) \<and> CHR '' '' \<notin> set (reg_name i) \<and> CHR '')'' \<notin> set (reg_name i)"
proof -
  have "\<forall>x\<in>set reg_names. x \<noteq> [] \<and> CHR '','' \<notin> set x \<and> CHR '' '' \<notin> set x \<and> CHR '')'' \<notin> set x" "length reg_names = 32"
    by (simp_all add: reg_names_def)
  then show ?thesis by (simp add: reg_name_def word_less_nat_alt)
qed

text \<open>The numbers among the operands.\<close>

lemma digit_chars: "is_digit b c \<Longrightarrow> c \<noteq> CHR '','' \<and> c \<noteq> CHR '' ''"
  by (auto simp: is_digit_def digit_value_def)

lemma hex_digit_chars: "c \<in> set (digits 16 n) \<Longrightarrow> c \<noteq> CHR '','' \<and> c \<noteq> CHR '' ''"
  using digits_are_digits [of 16 c n] digit_chars by simp

lemma show_d_chars: "show_d x \<noteq> [] \<and> CHR '','' \<notin> set (show_d x)"
  using digits_are_digits [of 10] digit_chars by (auto simp: show_d_def decimal_def split: if_splits)

lemma show_0x_chars: "show_0x x \<noteq> [] \<and> CHR '','' \<notin> set (show_0x x)"
  using hex_digit_chars by (auto simp: show_0x_def)

lemma csr_operand_chars: "csr_operand x \<noteq> [] \<and> CHR '','' \<notin> set (csr_operand x)"
  using hex_digit_chars by (auto simp: csr_operand_def pad_left_def)

lemma mem_operand_chars: "mem_operand imm r \<noteq> [] \<and> CHR '','' \<notin> set (mem_operand imm r)"
  using show_d_chars [of imm] reg_name_chars [of r] by (simp add: mem_operand_def)

lemma fence_set_chars: "fence_set b \<noteq> [] \<and> CHR '','' \<notin> set (fence_set b)" if "b < 16"
proof -
  have "\<exists>n\<in>{0, 1, 2, 3}. bit b n" if "b \<noteq> 0"
  proof (rule ccontr)
    assume "\<not> ?thesis"
    then have "\<not> bit b n" for n using small_bits [of b 4 n] \<open>b < 16\<close> by (cases "n < 4") (auto simp: less_Suc_eq numeral_eq_Suc)
    then have "b = 0" by (intro bit_word_eqI) simp
    then show False using that by simp
  qed
  then show ?thesis by (auto simp: fence_set_def)
qed

lemma show_0x8_chars: "CHR '','' \<notin> set (show_0x8 x)"
  using hex_digit_chars by (auto simp: show_0x8_def pad_left_def)

lemma operands_chars: "wf_insn i \<Longrightarrow> \<forall>x\<in>set (operands at i). x \<noteq> [] \<and> CHR '','' \<notin> set x"
  using reg_name_chars show_d_chars show_0x_chars mem_operand_chars csr_operand_chars fence_set_chars
  by (cases i) (simp_all add: csr_source_def addr_operand_def)

lemma shown_ops_chars: "wf_insn i \<Longrightarrow> \<forall>x\<in>set (shown_ops at i). x \<noteq> [] \<and> CHR '','' \<notin> set x"
  using operands_chars [of i at] reg_name_chars show_0x_chars show_0x8_chars csr_operand_chars show_d_chars
  by (cases i) (simp_all del: encode.simps add: csr_source_def)

lemma mem_operand_inj:
  assumes "r < 32" "r' < 32"
  shows "mem_operand imm r = mem_operand imm' r' \<longleftrightarrow> imm = imm' \<and> r = r'"
proof
  assume e: "mem_operand imm r = mem_operand imm' r'"
  have s: "dec_stop (CHR ''('')" by (simp add: dec_stop_def is_digit_def digit_value_def)
  from e have "imm = imm' \<and> ''('' @ reg_name r @ '')'' = ''('' @ reg_name r' @ '')''"
    unfolding mem_operand_def by (rule dec.show_prefix_inj) (use s in simp_all)
  with assms show "imm = imm' \<and> r = r'" by (simp add: reg_name_inj)
qed simp

lemma csr_operand_inj: "csr_operand c = csr_operand d \<longleftrightarrow> c = d"
proof
  assume e: "csr_operand c = csr_operand d"
  have "scan_number 16 (csr_operand x) = Some (False, unat x, [])" for x
    using scan_number_0x [OF _ refl, of "[]" "3 - length (digits 16 (unat x))" "unat x"]
    by (simp add: csr_operand_def pad_left_def)
  from this [of c] this [of d] e show "c = d" by (metis option.inject prod.inject word_unat_eq_iff)
qed simp

lemma number_inj: "show_d x = show_d y \<longleftrightarrow> x = y" "show_0x x = show_0x y \<longleftrightarrow> x = y"
  using dec.show_inj hex0x.show_inj by blast+

lemma addr_operand_inj: "r < 32 \<Longrightarrow> r' < 32 \<Longrightarrow> addr_operand r = addr_operand r' \<longleftrightarrow> r = r'"
  by (simp add: addr_operand_def reg_name_inj)

lemma csr_source_inj: "x < 32 \<Longrightarrow> y < 32 \<Longrightarrow> csr_source op x = csr_source op y \<longleftrightarrow> x = y"
  by (simp add: csr_source_def reg_name_inj number_inj)

lemmas operand_inj = reg_name_inj mem_operand_inj csr_operand_inj number_inj addr_operand_inj csr_source_inj

text \<open>The mnemonics, one per kind of instruction.\<close>

datatype kind =
    K_reg reg_op | K_imm imm_op | K_shift shift_op | K_load load_op | K_store store_op | K_branch branch_op
  | K_jal | K_jalr | K_lui | K_auipc | K_amo amo_op | K_csr csr_op | K_fence | K_sfence | K_plain plain_op

fun kind_of :: "insn \<Rightarrow> kind" where
  "kind_of (Reg op _ _ _) = K_reg op" | "kind_of (Imm op _ _ _) = K_imm op" | "kind_of (Shift op _ _ _) = K_shift op"
| "kind_of (Load op _ _ _) = K_load op" | "kind_of (Store op _ _ _) = K_store op"
| "kind_of (Branch op _ _ _) = K_branch op" | "kind_of (Jal _ _) = K_jal" | "kind_of (Jalr _ _ _) = K_jalr"
| "kind_of (Lui _ _) = K_lui" | "kind_of (Auipc _ _) = K_auipc" | "kind_of (Amo op _ _ _ _) = K_amo op"
| "kind_of (Csr op _ _ _) = K_csr op" | "kind_of (Fence _ _ _ _ _) = K_fence" | "kind_of (Sfence _ _) = K_sfence"
| "kind_of (Plain op) = K_plain op"

fun kind_name :: "kind \<Rightarrow> string" where
  "kind_name (K_reg op) = shown_reg op" | "kind_name (K_imm op) = imm_mn op" | "kind_name (K_shift op) = shift_mn op"
| "kind_name (K_load op) = load_mn op" | "kind_name (K_store op) = store_mn op" | "kind_name (K_branch op) = branch_mn op"
| "kind_name K_jal = ''jal''" | "kind_name K_jalr = ''jalr''" | "kind_name K_lui = ''lui''" | "kind_name K_auipc = ''auipc''"
| "kind_name (K_amo op) = shown_amo op" | "kind_name (K_csr op) = csr_mn op" | "kind_name K_fence = ''fence''"
| "kind_name K_sfence = ''unknown''" | "kind_name (K_plain op) = plain_mn op"

definition all_kinds :: "kind list" where
  "all_kinds =
     map K_reg [R_add, R_sub, R_sll, R_slt, R_sltu, R_xor, R_srl, R_sra, R_or, R_and, R_mul, R_mulh, R_mulhsu, R_mulhu,
       R_div, R_divu, R_rem, R_remu, R_czero_eqz, R_czero_nez] @
     map K_imm [I_addi, I_slti, I_sltiu, I_xori, I_ori, I_andi] @ map K_shift [I_slli, I_srli, I_srai] @
     map K_load [L_lb, L_lh, L_lw, L_lbu, L_lhu] @ map K_store [S_sb, S_sh, S_sw] @
     map K_branch [B_beq, B_bne, B_blt, B_bge, B_bltu, B_bgeu] @ [K_jal, K_jalr, K_lui, K_auipc, K_fence, K_sfence] @
     map K_amo [A_add, A_swap, A_lr, A_sc, A_xor, A_or, A_and, A_min, A_max, A_minu, A_maxu] @
     map K_csr [C_rw, C_rs, C_rc, C_rwi, C_rsi, C_rci] @
     map K_plain [P_ecall, P_ebreak, P_sret, P_mret, P_mnret, P_sctrclr, P_wfi, P_fence_i]"

lemma all_kinds: "k \<in> set all_kinds"
proof (cases k)
  case (K_reg op) then show ?thesis by (cases op) (simp_all add: all_kinds_def)
next
  case (K_imm op) then show ?thesis by (cases op) (simp_all add: all_kinds_def)
next
  case (K_shift op) then show ?thesis by (cases op) (simp_all add: all_kinds_def)
next
  case (K_load op) then show ?thesis by (cases op) (simp_all add: all_kinds_def)
next
  case (K_store op) then show ?thesis by (cases op) (simp_all add: all_kinds_def)
next
  case (K_branch op) then show ?thesis by (cases op) (simp_all add: all_kinds_def)
next
  case (K_amo op) then show ?thesis by (cases op) (simp_all add: all_kinds_def)
next
  case (K_csr op) then show ?thesis by (cases op) (simp_all add: all_kinds_def)
next
  case (K_plain op) then show ?thesis by (cases op) (simp_all add: all_kinds_def)
qed (simp_all add: all_kinds_def)

lemma kind_names: "distinct (map kind_name all_kinds)" "\<forall>n\<in>set (map kind_name all_kinds). CHR '' '' \<notin> set n"
  by (simp_all add: all_kinds_def shown_reg_def shown_amo_def)

lemma kind_name_inj: "kind_name k = kind_name l \<longleftrightarrow> k = l"
  using kind_names(1) all_kinds by (auto simp: distinct_map dest: inj_onD)

lemma shown_name_kind: "shown_name i = kind_name (kind_of i)"
  by (cases i) simp_all

lemma name_no_space: "CHR '' '' \<notin> set (shown_name i)" "CHR '' '' \<notin> set (mnemonic i)"
proof -
  show n: "CHR '' '' \<notin> set (shown_name i)" for i
    using kind_names(2) all_kinds [of "kind_of i"] by (simp add: shown_name_kind)
  show "CHR '' '' \<notin> set (mnemonic i)"
  proof (cases i)
    case (Reg op rd rs1 rs2)
    then show ?thesis by (cases op) simp_all
  next
    case (Amo op aqrl rd rs1 rs2)
    then show ?thesis by (cases op) (simp_all add: order_suffix_def)
  qed (use n [of i] in simp_all)
qed

lemma no_operands: "shown_ops at i = [] \<longleftrightarrow> kind_of i = K_fence \<or> (\<exists>op. kind_of i = K_plain op)"
  by (cases i) simp_all

text \<open>A line is its name and its operands.\<close>

lemma line_text_inj:
  assumes "CHR '' '' \<notin> set n" "CHR '' '' \<notin> set m" "\<forall>x\<in>set xs \<union> set ys. x \<noteq> [] \<and> CHR '','' \<notin> set x"
  shows "line_text n xs = line_text m ys \<longleftrightarrow> n = m \<and> xs = ys"
proof
  assume e: "line_text n xs = line_text m ys"
  have tw: "takeWhile (\<lambda>c. c \<noteq> CHR '' '') (line_text k zs) = k" if "CHR '' '' \<notin> set k" for k zs
    using that by (auto simp: line_text_def takeWhile_append takeWhile_eq_all_conv)
  have n: "n = m" using tw [OF assms(1), of xs] tw [OF assms(2), of ys] e by simp
  have "xs = [] \<longleftrightarrow> ys = []" using e n by (auto simp: line_text_def split: if_splits)
  moreover have "xs = ys" if "xs \<noteq> []" "ys \<noteq> []"
    by (rule commas_inj) (use e n that assms(3) in \<open>simp_all add: line_text_def\<close>)
  ultimately show "n = m \<and> xs = ys" using n by blast
qed simp

lemma shown_split:
  assumes "shown at i = shown at j" "wf_insn i" "wf_insn j"
  shows "kind_of i = kind_of j \<and> shown_ops at i = shown_ops at j"
proof -
  have "shown_name i = shown_name j \<and> shown_ops at i = shown_ops at j"
    using assms(1) unfolding shown_def
    by (subst (asm) line_text_inj) (use name_no_space shown_ops_chars [OF assms(2)] shown_ops_chars [OF assms(3)] in blast)+
  then show ?thesis by (simp add: shown_name_kind kind_name_inj)
qed

section \<open>The disassembler against the assembly language\<close>

lemma csr_operands_differ: "csr_source op x \<noteq> csr_operand c"
proof -
  have "\<forall>n\<in>set reg_names. CHR ''x'' \<notin> set n" "length reg_names = 32" by (simp_all add: reg_names_def)
  then have "CHR ''x'' \<notin> set (reg_name x)" by (simp add: reg_name_def word_less_nat_alt)
  moreover have "CHR ''x'' \<notin> set (show_d x)"
    using digits_are_digits [of 10 "CHR ''x''"] by (auto simp: show_d_def decimal_def is_digit_def digit_value_def split: if_splits)
  moreover have "CHR ''x'' \<in> set (csr_operand c)" by (simp add: csr_operand_def)
  ultimately show ?thesis by (auto simp: csr_source_def)
qed

lemma upper_immediate: "imm = shr imm 12 \<longleftrightarrow> imm = 0" for imm :: u32
proof
  assume "imm = shr imm 12"
  then have "unat imm = unat imm div 4096" using unat_drop_bit_eq [of 12 imm] by (simp add: drop_bit_eq_div)
  then have "unat imm = 0" by (cases "unat imm = 0") (use div_less_dividend [of 4096 "unat imm"] in auto)
  then show "imm = 0" by (simp add: unsigned_eq_0_iff)
qed simp

lemma shown_listing: "wf_insn i \<Longrightarrow> shown at i = listing at i \<longleftrightarrow> \<not> misprinted i"
proof -
  assume wf: "wf_insn i"
  have "shown at i = listing at i \<longleftrightarrow> shown_name i = mnemonic i \<and> shown_ops at i = operands at i"
    unfolding shown_def listing_def
    by (rule line_text_inj) (use name_no_space shown_ops_chars [OF wf] operands_chars [OF wf] in blast)+
  also have "\<dots> \<longleftrightarrow> \<not> misprinted i"
  proof (cases i)
    case (Reg op rd rs1 rs2)
    then show ?thesis by (cases op) (simp_all add: shown_reg_def)
  next
    case (Amo op aqrl rd rs1 rs2)
    have "[] = order_suffix aqrl \<longleftrightarrow> aqrl = 0" "order_suffix aqrl = [] \<longleftrightarrow> aqrl = 0" by (simp_all add: order_suffix_def)
    with Amo show ?thesis by (cases op) (simp_all add: shown_amo_def)
  next
    case (Fence fm pred succ rd rs1)
    then show ?thesis by (auto simp: is_tso_def)
  qed (simp_all add: csr_operands_differ number_inj upper_immediate)
  finally show ?thesis .
qed

text \<open>
  C12. The disassembler inverts the encoding too: of every well-formed instruction of the sets of C9 but the misprinted ones it prints the text that
  the assembly language has for it, mnemonic and operands, with branch targets as absolute addresses. What it prints of the
  misprinted ones (the wrong or incomplete names, operands and orders of \<open>shown\<close>, SFENCE.VMA as unknown) is never that text.
  With C9, outside that list the text a debugger user reads is that of the instruction the emulator executes.
\<close>

theorem disasm_encode:
  assumes "wf_insn i"
  shows "disasm at (encode i) = Some (if misprinted i then shown at i else listing at i) \<and>
    (misprinted i \<longrightarrow> shown at i \<noteq> listing at i)"
  using disasm_shown [OF assms, of at] shown_listing [OF assms, of at] by simp

lemma demo_encoding: "encode (Branch B_bltu 5 6 (- 8)) = 0xFE62ECE3"
  by (simp add: enc_b_def)

lemma demo_shown: "shown 0x1000 (Branch B_bltu 5 6 (- 8)) = ''bltu t0, t1, 0xff8''"
  by (simp add: shown_def line_text_def show_0x_def reg_name_def reg_names_def digits_eval)

lemma disasm_demo: "disasm 0x1000 0xFE62ECE3 = Some ''bltu t0, t1, 0xff8''"
  using disasm_shown [of "Branch B_bltu 5 6 (- 8)" "0x1000"] by (simp only: demo_encoding demo_shown) simp

theorem disasm_encode_witness:
  "disasm 0x1000 0xFE62ECE3 = Some (listing 0x1000 (Branch B_bltu 5 6 (- 8))) \<and>
   disasm 0x1000 0x027322B3 \<noteq> Some (listing 0x1000 (Reg R_mulhsu 5 6 7)) \<and>
   listing 0x1000 (Branch B_bltu 5 6 (- 8)) = ''bltu t0, t1, 0xff8''"
proof (intro conjI)
  show "disasm 0x1000 0xFE62ECE3 = Some (listing 0x1000 (Branch B_bltu 5 6 (- 8)))"
    using disasm_encode [of "Branch B_bltu 5 6 (- 8)" "0x1000"] by (simp only: demo_encoding) simp
  have "encode (Reg R_mulhsu 5 6 7) = 0x027322B3" by (simp add: enc_r_def)
  then show "disasm 0x1000 0x027322B3 \<noteq> Some (listing 0x1000 (Reg R_mulhsu 5 6 7))"
    using disasm_encode [of "Reg R_mulhsu 5 6 7" "0x1000"] by simp
  show "listing 0x1000 (Branch B_bltu 5 6 (- 8)) = ''bltu t0, t1, 0xff8''"
    by (simp add: listing_def line_text_def show_0x_def reg_name_def reg_names_def digits_eval)
qed

section \<open>No two instructions look the same\<close>

text \<open>
  What the disassembler shows of an instruction: all of it but the acquire and release bits, the unused second
  source of LR.W, the second source of the conditional zeros, and the operands of FENCE and SFENCE.VMA.
\<close>

fun printed :: "insn \<Rightarrow> insn" where
  "printed (Amo op _ rd rs1 rs2) = Amo op 0 rd rs1 (if op = A_lr then 0 else rs2)"
| "printed (Reg op rd rs1 rs2) = Reg op rd rs1 (if op = R_czero_eqz \<or> op = R_czero_nez then 0 else rs2)"
| "printed (Imm op rd rs1 imm) = Imm op rd rs1 imm"
| "printed (Shift op rd rs1 shamt) = Shift op rd rs1 shamt"
| "printed (Load op rd rs1 imm) = Load op rd rs1 imm"
| "printed (Store op rs2 rs1 imm) = Store op rs2 rs1 imm"
| "printed (Branch op rs1 rs2 off) = Branch op rs1 rs2 off"
| "printed (Jal rd off) = Jal rd off"
| "printed (Jalr rd rs1 imm) = Jalr rd rs1 imm"
| "printed (Lui rd imm) = Lui rd imm"
| "printed (Auipc rd imm) = Auipc rd imm"
| "printed (Csr op rd src csr) = Csr op rd src csr"
| "printed (Fence _ _ _ _ _) = Fence 0 15 15 0 0"
| "printed (Sfence _ _) = Sfence 0 0"
| "printed (Plain op) = Plain op"

text \<open>An instruction of a given kind.\<close>

fun_cases kind_of_cases:
  "kind_of j = K_reg op" "kind_of j = K_imm op" "kind_of j = K_shift op" "kind_of j = K_load op" "kind_of j = K_store op"
  "kind_of j = K_branch op" "kind_of j = K_jal" "kind_of j = K_jalr" "kind_of j = K_lui" "kind_of j = K_auipc"
  "kind_of j = K_amo op" "kind_of j = K_csr op" "kind_of j = K_fence" "kind_of j = K_sfence" "kind_of j = K_plain op"

lemma shown_inj:
  assumes "wf_insn i" "wf_insn j" "shown at i = shown at j"
  shows "printed i = printed j"
proof -
  have "kind_of j = kind_of i" "shown_ops at j = shown_ops at i" using shown_split [OF assms(3,1,2)] by simp_all
  then show ?thesis using assms(1,2)
    by (induction i) (auto elim!: kind_of_cases simp: operand_inj split: if_splits)
qed

text \<open>
  The disassembly loses nothing: two well-formed instructions with the same text at the same address are the
  same instruction (up to the parts that are not printed).
\<close>

theorem disasm_injective:
  assumes "wf_insn i" and "wf_insn j" and "disasm at (encode i) = disasm at (encode j)"
  shows "printed i = printed j"
  by (rule shown_inj [OF assms(1,2), of at]) (metis assms disasm_shown option.inject)

theorem disasm_injective_witness: "disasm 0 (encode (Imm I_addi 1 2 3)) \<noteq> disasm 0 (encode (Imm I_addi 1 2 4))"
  using disasm_injective [of "Imm I_addi 1 2 3" "Imm I_addi 1 2 4" 0] by (auto simp: imm12_def)

section \<open>Where the disassembler is defined, and its buffer\<close>

lemma pick_None: "pick names i = None \<longleftrightarrow> length names \<le> unat i"
  by (simp add: pick_def not_less)

text \<open>
  The text of an instruction word is undefined exactly for the sign-injection, minimum/maximum and comparison
  encodings with a reserved function field: there the code reads a string pointer past the end of an
  array. A debugger that merely displays such a word has undefined behaviour.
\<close>

theorem disasm_undefined_iff:
  "disasm at ins = None \<longleftrightarrow> get_opcode ins = 0x53 \<and>
     (get_funct5 ins = 4 \<and> get_funct3 ins \<ge> 3 \<or> get_funct5 ins = 5 \<and> get_funct3 ins \<ge> 2 \<or>
      get_funct5 ins = 20 \<and> get_funct3 ins \<ge> 3)"
proof -
  have "disasm_op_fp ins = None \<longleftrightarrow>
     (get_funct5 ins = 4 \<and> get_funct3 ins \<ge> 3 \<or> get_funct5 ins = 5 \<and> get_funct3 ins \<ge> 2 \<or>
      get_funct5 ins = 20 \<and> get_funct3 ins \<ge> 3)"
    by (auto simp: disasm_op_fp_def Let_def pick_None get_funct5_def word_le_nat_alt)
  then show ?thesis by (auto simp: disasm_def Let_def)
qed

lemma length_reg_name: "length (reg_name r) \<le> 4"
proof -
  have "\<forall>x\<in>set reg_names. length x \<le> 4" "length reg_names = 32" by (simp_all add: reg_names_def)
  then show ?thesis by (simp add: reg_name_def word_less_nat_alt)
qed

lemma length_freg_name: "length (freg_name r) \<le> 3"
proof -
  have "\<forall>x\<in>set freg_names. length x \<le> 3" "length freg_names = 32" by (simp_all add: freg_names_def)
  then show ?thesis by (simp add: freg_name_def word_less_nat_alt)
qed

lemma length_decimal: "length (decimal (sint (w :: u32))) \<le> 11"
proof -
  have "nat \<bar>sint w\<bar> < 10 ^ Suc 9" using sint_range_size [of w] by (simp add: word_size) linarith
  then have "length (digits 10 (nat \<bar>sint w\<bar>)) \<le> 10" using length_digits [of 10 "nat \<bar>sint w\<bar>" 9] by simp
  then show ?thesis by (auto simp: decimal_def abs_if split: if_splits)
qed

lemma length_pad_hex: "k \<le> 8 \<Longrightarrow> length (pad_left c k (digits 16 (unat (w :: u32)))) \<le> 8"
  using length_hex [of w] by (simp add: pad_left_def)

text \<open>The length of a text, bounded piece by piece.\<close>

definition short :: "nat \<Rightarrow> string \<Rightarrow> bool" where "short k s \<longleftrightarrow> length s \<le> k"

named_theorems short_rules

lemma short_structure [short_rules]: "short k []" "1 \<le> k \<Longrightarrow> short (k - 1) s \<Longrightarrow> short k (c # s)"
  by (simp_all add: short_def)

lemma short_append: "short m s \<Longrightarrow> m \<le> k \<Longrightarrow> short (k - m) t \<Longrightarrow> short k (s @ t)"
  by (simp add: short_def)

lemma short_weaken: "short m s \<Longrightarrow> m \<le> k \<Longrightarrow> short k s"
  by (simp add: short_def)

lemma short_if [short_rules]: "short k s \<Longrightarrow> short k t \<Longrightarrow> short k (if b then s else t)"
  by simp

lemma short_literal_append [short_rules]:
  "short k u \<Longrightarrow> short k ([] @ u)" "short k (c # (s @ u)) \<Longrightarrow> short k ((c # s) @ u)"
  by simp_all

lemma short_if_append [short_rules]:
  "short k (s @ u) \<Longrightarrow> short k (t @ u) \<Longrightarrow> short k ((if b then s else t) @ u)"
  by simp

lemma short_names:
  "short 4 (reg_name r)" "short 3 (freg_name r)" "short 3 (rm_name rm)" "short 1 (fmt_name f)" "short 2 (cvt_kind rs2)"
proof -
  show "short 4 (reg_name r)" "short 3 (freg_name r)"
    by (simp_all add: short_def length_reg_name length_freg_name)
  show "short 1 (fmt_name f)" by (simp add: short_def fmt_name_def)
  show "short 3 (rm_name rm)" by (auto simp: short_def rm_name_def word_less_nat_alt nth_Cons split: nat.split)
  have "unat (rs2 AND 3) < 4" using and_mask_bound [of 3 4 rs2] by (simp add: word_less_nat_alt)
  then have "unat (rs2 AND 3) = 0 \<or> unat (rs2 AND 3) = 1 \<or> unat (rs2 AND 3) = 2 \<or> unat (rs2 AND 3) = 3" by linarith
  then show "short 2 (cvt_kind rs2)" by (auto simp: short_def cvt_kind_def)
qed

lemma short_numbers:
  "short 11 (decimal (sint (w :: u32)))" "short 8 (digits 16 (unat (w :: u32)))"
  "short 8 (pad_left c 8 (digits 16 (unat (w :: u32))))" "short 8 (pad_left c 4 (digits 16 (unat (w :: u32))))"
  "short 8 (pad_left c 3 (digits 16 (unat (w :: u32))))"
  by (simp_all add: short_def length_decimal length_hex length_pad_hex)

lemmas short_pieces [short_rules] = short_names [THEN short_append] short_names [THEN short_weaken]
  short_numbers [THEN short_append] short_numbers [THEN short_weaken]

lemma short_unknown [short_rules]: "short 63 (unknown ins)"
  by (simp add: unknown_def fmt_def, intro short_rules conjI impI) simp_all

lemma short_load_fp [short_rules]: "short 63 (disasm_load_fp ins)"
  by (simp add: disasm_load_fp_def fmt_def Let_def cong: if_cong split del: if_split, intro short_rules conjI impI) simp_all

lemma short_store_fp [short_rules]: "short 63 (disasm_store_fp ins)"
  by (simp add: disasm_store_fp_def fmt_def Let_def cong: if_cong split del: if_split, intro short_rules conjI impI) simp_all

lemma short_fma [short_rules]: "short 63 (disasm_fma ins)"
  by (simp add: disasm_fma_def fmt_def Let_def cong: if_cong split del: if_split, intro short_rules conjI impI) simp_all

lemma short_m [short_rules]: "short 63 (disasm_m ins)"
  by (simp add: disasm_m_def fmt_def Let_def cong: if_cong split del: if_split, intro short_rules conjI impI) simp_all

lemma short_load [short_rules]: "short 63 (disasm_load ins)"
  by (simp add: disasm_load_def fmt_def Let_def cong: if_cong split del: if_split, intro short_rules conjI impI) simp_all

lemma short_store [short_rules]: "short 63 (disasm_store ins)"
  by (simp add: disasm_store_def fmt_def Let_def cong: if_cong split del: if_split, intro short_rules conjI impI) simp_all

lemma short_jal [short_rules]: "short 63 (disasm_jal at ins)"
  by (simp add: disasm_jal_def fmt_def Let_def cong: if_cong split del: if_split, intro short_rules conjI impI) simp_all

lemma short_lui [short_rules]: "short 63 (disasm_lui ins)"
  by (simp add: disasm_lui_def fmt_def Let_def cong: if_cong split del: if_split, intro short_rules conjI impI) simp_all

lemma short_auipc [short_rules]: "short 63 (disasm_auipc ins)"
  by (simp add: disasm_auipc_def fmt_def Let_def cong: if_cong split del: if_split, intro short_rules conjI impI) simp_all

lemma short_jalr [short_rules]: "short 63 (disasm_jalr ins)"
  by (simp add: disasm_jalr_def fmt_def Let_def cong: if_cong split del: if_split, intro short_rules conjI impI) simp_all

lemma short_fence [short_rules]: "short 63 (disasm_fence ins)"
  by (simp add: disasm_fence_def fmt_def Let_def cong: if_cong split del: if_split, intro short_rules conjI impI) simp_all

lemma short_priv [short_rules]: "short 63 (disasm_priv ins)"
  by (simp add: disasm_priv_def fmt_def Let_def cong: if_cong split del: if_split, intro short_rules conjI impI) simp_all

lemma short_op_imm [short_rules]: "short 63 (disasm_op_imm ins)"
  by (simp add: disasm_op_imm_def fmt_def Let_def cong: if_cong split del: if_split, intro short_rules conjI impI) simp_all

lemma short_system [short_rules]: "short 63 (disasm_system ins)"
  by (simp add: disasm_system_def fmt_def Let_def cong: if_cong split del: if_split, intro short_rules conjI impI) simp_all

lemma short_branch [short_rules]: "short 63 (disasm_branch at ins)"
  by (simp add: disasm_branch_def fmt_def Let_def cong: if_cong split del: if_split, intro short_rules conjI impI) simp_all

lemma short_op [short_rules]: "short 63 (disasm_op ins)"
  by (simp add: disasm_op_def fmt_def Let_def cong: if_cong split del: if_split, intro short_rules conjI impI) simp_all


lemma short_amo_name: "amo_name f = Some m \<Longrightarrow> short 10 m"
  by (auto simp: amo_name_def short_def split: if_splits)

lemmas short_amo_append = short_amo_name [THEN short_append]

lemma short_amo [short_rules]: "short 63 (disasm_amo ins)"
  by (auto simp: disasm_amo_def fmt_def Let_def intro!: short_rules intro: short_amo_append split: option.split)

lemma short_op_fp: "disasm_op_fp ins = Some t \<Longrightarrow> short 63 t"
  by (auto simp: disasm_op_fp_def pick_def fmt_def Let_def nth_Cons split: if_splits nat.splits intro!: short_rules)

text \<open>
  The disassembler never overruns its buffer: the text of an instruction has at most 63 characters, and
  \<open>disasm_buf\<close> has room for 1024.
\<close>

theorem disasm_fits:
  assumes "disasm at ins = Some t"
  shows "length t \<le> 63"
proof -
  have "short 63 (fmt ''c.<unknown> (0x%04x)'' [AInt (ins AND 0xFFFF)])"
    by (simp add: fmt_def, intro short_rules conjI impI) simp_all
  with assms have "short 63 t" using short_op_fp [of ins t]
    by (auto simp: disasm_def Let_def intro: short_rules split: if_splits)
  then show ?thesis by (simp add: short_def)
qed

theorem disasm_fits_witness: "length ''bltu t0, t1, 0xff8'' \<le> 63"
  using disasm_fits [of "0x1000" "0xFE62ECE3"] disasm_demo by blast

section \<open>Where the disassembler and the decoder agree on what is not an instruction\<close>

lemma disasm_unknown_arms:
  "disasm_op ins = unknown ins \<longleftrightarrow> (\<exists>msg. exec_op ins s = Inl msg)"
  "disasm_load ins = unknown ins \<longleftrightarrow> (\<exists>msg. exec_load ins s = Inl msg)"
  "disasm_store ins = unknown ins \<longleftrightarrow> (\<exists>msg. exec_store ins s = Inl msg)"
  "disasm_branch at ins = unknown ins \<longleftrightarrow> (\<exists>msg. exec_branch ins s = Inl msg)"
  "disasm_fence ins = unknown ins \<longleftrightarrow> (\<exists>msg. exec_fence ins s = Inl msg)"
proof -
  note texts = fmt_def unknown_def Let_def
  show "disasm_op ins = unknown ins \<longleftrightarrow> (\<exists>msg. exec_op ins s = Inl msg)"
    by (simp add: disasm_op_def exec_op_def disasm_m_def texts)
  show "disasm_load ins = unknown ins \<longleftrightarrow> (\<exists>msg. exec_load ins s = Inl msg)"
    by (simp add: disasm_load_def exec_load_def texts)
  show "disasm_store ins = unknown ins \<longleftrightarrow> (\<exists>msg. exec_store ins s = Inl msg)"
    by (simp add: disasm_store_def exec_store_def texts)
  show "disasm_branch at ins = unknown ins \<longleftrightarrow> (\<exists>msg. exec_branch ins s = Inl msg)"
    by (simp add: disasm_branch_def exec_branch_def texts)
  show "disasm_fence ins = unknown ins \<longleftrightarrow> (\<exists>msg. exec_fence ins s = Inl msg)"
    by (simp add: disasm_fence_def exec_fence_def texts)
qed

text \<open>
  The disassembler is consistent with the decoder, as its comment asks: a word of the register,
  load, store, branch or fence group is shown as unknown exactly when the decoder refuses it with a fatal error.
\<close>

theorem disasm_unknown_iff_refused:
  assumes "get_opcode ins \<in> {0x33, 0x03, 0x23, 0x63, 0x0F}"
  shows "disasm at ins = Some (unknown ins) \<longleftrightarrow> (\<exists>msg. exec_switch ok sf ins s = Inl msg)"
  using assms by (auto simp: disasm_def exec_switch_def disasm_unknown_arms [where s = s])

theorem disasm_unknown_iff_refused_witness:
  "disasm 0 0xFFFFFFB3 = Some (unknown 0xFFFFFFB3) \<longleftrightarrow>
     (\<exists>msg. exec_switch True order_softfloat 0xFFFFFFB3 (reset_state 0) = Inl msg)"
  by (rule disasm_unknown_iff_refused) (simp add: get_opcode_def)

text \<open>
  It is not consistent everywhere: SFENCE.VMA, which the decoder executes, is shown as unknown, because
  the disassembler looks for 9 in the twelve-bit field where the instruction has it in the upper seven bits; and a
  shift with a reserved upper field, which traps, is shown as a valid SLLI.
\<close>

theorem disasm_sfence_unknown:
  "disasm at 0x12000073 = Some ''unknown (0x12000073)'' \<and>
   exec_switch ok sf 0x12000073 s = Inr (ins_sfence_vma s) \<and>
   disasm at 0x40101013 = Some ''slli zero, zero, 1'' \<and>
   exec_switch ok sf 0x40101013 s = Inr (raise_exception CAUSE_ILLEGAL_INSTRUCTION 0x40101013 s)"
proof -
  have "disasm at 0x12000073 = Some ''unknown (0x12000073)''"
    by (simp add: disasm_def disasm_system_def disasm_priv_def get_opcode_def get_funct3_def get_rs1_def get_rd_def
        unknown_def fmt_def pad_left_def digits_eval)
  moreover have "exec_switch ok sf 0x12000073 s = Inr (ins_sfence_vma s)"
    by (simp add: exec_switch_def exec_system_def get_opcode_def get_funct3_def get_funct7_def)
  moreover have "disasm at 0x40101013 = Some ''slli zero, zero, 1''"
    by (simp add: disasm_def disasm_op_imm_def get_opcode_def get_funct3_def get_rs1_def get_rd_def sign_extend_12_def
        fmt_def reg_name_def reg_names_def decimal_def digits_eval)
  moreover have "exec_switch ok sf 0x40101013 s = Inr (raise_exception CAUSE_ILLEGAL_INSTRUCTION 0x40101013 s)"
    by (simp add: exec_switch_def exec_op_imm_def get_opcode_def get_funct3_def get_funct7_def)
  ultimately show ?thesis by blast
qed

end
