(* ===== verification/Fdt.thy ===== *)
theory Fdt
  imports Trap "HOL-Library.Monad_Syntax"
begin

text \<open>
  The flattened device tree writer of src/src/device/fdt.c: the builder and its primitives, the property
  and node calls, \<open>fdt_serialize\<close>, and the machine description \<open>fdt_build_riscvemu\<close>. A handle
  is the builder itself and the null handle \<open>None\<close>; the output buffer is a function of the offset from
  \<open>b->buf\<close>.

  The specification is a reader of the format: a lexer of the structure block, which finds the
  property names in the strings block, and a parser of its tokens to a tree. The writer is correct when
  the reader gets back the tree the calls describe.
\<close>

section \<open>Bytes\<close>

definition be32 :: "u32 \<Rightarrow> u8 list" where
  "be32 v = [ucast (shr v 24), ucast (shr v 16 AND 0xFF), ucast (shr v 8 AND 0xFF), ucast (v AND 0xFF)]"

definition be64 :: "u64 \<Rightarrow> u8 list" where
  "be64 v = be32 (ucast (shr v 32)) @ be32 (ucast (v AND 0xFFFFFFFF))"

text \<open>\<open>memcpy\<close> to an offset, and the characters of a C string.\<close>

definition write_bytes :: "nat \<Rightarrow> u8 list \<Rightarrow> (nat \<Rightarrow> u8) \<Rightarrow> nat \<Rightarrow> u8" where
  "write_bytes off bs m = (\<lambda>i. if off \<le> i \<and> i < off + length bs then bs ! (i - off) else m i)"

definition chars :: "string \<Rightarrow> u8 list" where
  "chars = map of_char"

section \<open>The builder\<close>

abbreviation FDT_MAGIC :: u32 where "FDT_MAGIC \<equiv> 0xd00dfeed"
abbreviation FDT_VERSION :: u32 where "FDT_VERSION \<equiv> 17"
abbreviation FDT_LAST_COMP_VERSION :: u32 where "FDT_LAST_COMP_VERSION \<equiv> 16"
abbreviation FDT_BEGIN_NODE :: u32 where "FDT_BEGIN_NODE \<equiv> 1"
abbreviation FDT_END_NODE :: u32 where "FDT_END_NODE \<equiv> 2"
abbreviation FDT_PROP :: u32 where "FDT_PROP \<equiv> 3"
abbreviation FDT_NOP :: u32 where "FDT_NOP \<equiv> 4"
abbreviation FDT_END :: u32 where "FDT_END \<equiv> 9"
abbreviation FDT_HEADER_SIZE :: u32 where "FDT_HEADER_SIZE \<equiv> 40"
abbreviation FDT_STRUCT_MAX :: u32 where "FDT_STRUCT_MAX \<equiv> 4096"
abbreviation FDT_MAX_CELLS :: nat where "FDT_MAX_CELLS \<equiv> 4"
abbreviation FDT_MAX_BUF :: u32 where "FDT_MAX_BUF \<equiv> 16384"
abbreviation FDT_HART_BASE :: u32 where "FDT_HART_BASE \<equiv> 0"

record fdt_builder =
  buf :: "nat \<Rightarrow> u8"
  bufsize :: u32
  struct_off :: u32
  strings_off :: u32
  rsvmap_count :: u32
  fdt_depth :: int
  fdt_err :: bool

definition struct_base :: u32 where "struct_base = FDT_HEADER_SIZE + 16"

definition strings_base :: u32 where "strings_base = struct_base + FDT_STRUCT_MAX"

definition struct_word :: "u32 \<Rightarrow> fdt_builder \<Rightarrow> fdt_builder" where
  "struct_word w b = b\<lparr>buf := write_bytes (unat (struct_off b)) (be32 w) (buf b), struct_off := struct_off b + 4\<rparr>"

definition struct_bytes :: "u8 list \<Rightarrow> fdt_builder \<Rightarrow> fdt_builder" where
  "struct_bytes data b =
     b\<lparr>buf := write_bytes (unat (struct_off b)) data (buf b), struct_off := struct_off b + of_nat (length data)\<rparr>"

text \<open>The padding loop ends within three steps: the low bits of the cursor count up to zero.\<close>

lemma unat_and_3: "unat (x AND 3 :: u32) = unat x mod 4"
proof -
  have "x AND 3 = x mod 4" by (simp add: take_bit_eq_mask mask_eq_exp_minus_1 flip: take_bit_eq_mod [of 2, simplified])
  then show ?thesis by (simp add: unat_mod)
qed

lemma and_3_zero: "(x AND 3 = (0 :: u32)) \<longleftrightarrow> unat x mod 4 = 0"
  by (metis unat_and_3 unat_0 unat_eq_zero)

lemma unat_suc_mod_4: "unat (x + 1 :: u32) mod 4 = (unat x + 1) mod 4"
  by (simp add: unat_word_ariths mod_mod_cancel)

function struct_align :: "fdt_builder \<Rightarrow> fdt_builder" where
  "struct_align b =
     (if struct_off b AND 3 \<noteq> 0
      then struct_align (b\<lparr>buf := (buf b)(unat (struct_off b) := 0), struct_off := struct_off b + 1\<rparr>)
      else b)"
  by pat_completeness auto

termination
proof (relation "measure (\<lambda>b. (4 - unat (struct_off b) mod 4) mod 4)")
  fix b :: fdt_builder
  assume "struct_off b AND 3 \<noteq> 0"
  define k where "k = unat (struct_off b) mod 4"
  have "k < 4" "k \<noteq> 0" using \<open>struct_off b AND 3 \<noteq> 0\<close> by (simp_all add: k_def and_3_zero)
  then have "k = 1 \<or> k = 2 \<or> k = 3" by arith
  moreover have "unat (struct_off b + 1) mod 4 = (k + 1) mod 4"
    unfolding k_def by (simp only: unat_suc_mod_4 mod_add_left_eq)
  ultimately show "(b\<lparr>buf := (buf b)(unat (struct_off b) := 0), struct_off := struct_off b + 1\<rparr>, b)
      \<in> measure (\<lambda>b. (4 - unat (struct_off b) mod 4) mod 4)"
    by (auto simp: k_def [symmetric])
qed simp

declare struct_align.simps [simp del]

definition struct_string :: "string \<Rightarrow> fdt_builder \<Rightarrow> fdt_builder" where
  "struct_string s b =
     (let b = struct_bytes (chars s) b;
          b = b\<lparr>buf := (buf b)(unat (struct_off b) := 0), struct_off := struct_off b + 1\<rparr>
      in struct_align b)"

definition strings_intern :: "string \<Rightarrow> fdt_builder \<Rightarrow> u32 \<times> fdt_builder" where
  "strings_intern name b =
     (let rel = strings_off b - strings_base; n = of_nat (length name) + 1
      in (rel, b\<lparr>buf := write_bytes (unat (strings_off b)) (chars name @ [0]) (buf b),
                 strings_off := strings_off b + n\<rparr>))"

section \<open>The calls\<close>

definition fdt_builder_init :: "fdt_builder \<Rightarrow> fdt_builder" where
  "fdt_builder_init b =
     (let b = b\<lparr>struct_off := struct_base, strings_off := strings_base, fdt_depth := 0, fdt_err := False,
                rsvmap_count := 0\<rparr>;
          b = struct_word FDT_BEGIN_NODE b
      in struct_string [] b)"

definition fdt_node_push :: "string \<Rightarrow> fdt_builder \<Rightarrow> fdt_builder option" where
  "fdt_node_push name b =
     (if name = [] \<or> fdt_err b then None
      else let b = struct_word FDT_BEGIN_NODE b; b = struct_string name b
           in Some (b\<lparr>fdt_depth := fdt_depth b + 1\<rparr>))"

definition fdt_node_pop :: "fdt_builder \<Rightarrow> fdt_builder option" where
  "fdt_node_pop b =
     (if fdt_err b \<or> fdt_depth b = 0 then None
      else let b = struct_word FDT_END_NODE b in Some (b\<lparr>fdt_depth := fdt_depth b - 1\<rparr>))"

definition prop_begin :: "string \<Rightarrow> u32 \<Rightarrow> fdt_builder \<Rightarrow> fdt_builder option" where
  "prop_begin name len b =
     (if fdt_err b then None
      else let b = struct_word FDT_PROP b;
               b = struct_word len b;
               (nameoff, b) = strings_intern name b
           in Some (struct_word nameoff b))"

definition fdt_prop_word :: "string \<Rightarrow> u32 \<Rightarrow> u32 \<Rightarrow> u32 \<Rightarrow> u32 \<Rightarrow> fdt_builder \<Rightarrow> fdt_builder option" where
  "fdt_prop_word name v0 v1 v2 v3 b =
     do { b \<leftarrow> prop_begin name 16 b;
          Some (struct_bytes (be32 v0 @ be32 v1 @ be32 v2 @ be32 v3) b) }"

definition fdt_prop_ncells :: "string \<Rightarrow> u32 list \<Rightarrow> fdt_builder \<Rightarrow> fdt_builder option" where
  "fdt_prop_ncells name vals b =
     (let n = length vals
      in if n = 0 \<or> n > FDT_MAX_CELLS then None
         else do { b \<leftarrow> prop_begin name (of_nat n * 4) b;
                   Some (fold (\<lambda>v. struct_bytes (be32 v)) vals b) })"

definition fdt_prop_cells1 :: "string \<Rightarrow> u32 \<Rightarrow> fdt_builder \<Rightarrow> fdt_builder option" where
  "fdt_prop_cells1 name v0 = fdt_prop_ncells name [v0]"

definition fdt_prop_cells2 :: "string \<Rightarrow> u32 \<Rightarrow> u32 \<Rightarrow> fdt_builder \<Rightarrow> fdt_builder option" where
  "fdt_prop_cells2 name v0 v1 = fdt_prop_ncells name [v0, v1]"

definition fdt_prop_cells3 :: "string \<Rightarrow> u32 \<Rightarrow> u32 \<Rightarrow> u32 \<Rightarrow> fdt_builder \<Rightarrow> fdt_builder option" where
  "fdt_prop_cells3 name v0 v1 v2 = fdt_prop_ncells name [v0, v1, v2]"

definition fdt_prop_str :: "string \<Rightarrow> string \<Rightarrow> fdt_builder \<Rightarrow> fdt_builder option" where
  "fdt_prop_str name str b =
     do { b \<leftarrow> prop_begin name (of_nat (length str) + 1) b;
          Some (struct_align (struct_bytes (chars str @ [0]) b)) }"

definition fdt_prop_empty :: "string \<Rightarrow> fdt_builder \<Rightarrow> fdt_builder option" where
  "fdt_prop_empty name b = prop_begin name 0 b"

definition fdt_prop_bytes :: "string \<Rightarrow> u8 list \<Rightarrow> fdt_builder \<Rightarrow> fdt_builder option" where
  "fdt_prop_bytes name data b =
     do { b \<leftarrow> prop_begin name (of_nat (length data)) b;
          let b = (if of_nat (length data) \<noteq> (0 :: u32) then struct_bytes data b else b);
          Some (struct_align b) }"

definition fdt_prop_interrupt_parent :: "u32 \<Rightarrow> fdt_builder \<Rightarrow> fdt_builder option" where
  "fdt_prop_interrupt_parent phandle = fdt_prop_cells1 ''interrupt-parent'' phandle"

definition fdt_mark_enabled :: "fdt_builder \<Rightarrow> fdt_builder option" where
  "fdt_mark_enabled = fdt_prop_str ''status'' ''okay''"

section \<open>Serialisation\<close>

text \<open>The size returned (zero for failure) and the builder.\<close>

definition fdt_serialize :: "fdt_builder \<Rightarrow> nat \<times> fdt_builder" where
  "fdt_serialize b =
     (if fdt_err b \<or> fdt_depth b \<noteq> 0 then (0, b)
      else
        let b = struct_word FDT_END_NODE b;
            b = struct_align b;
            b = struct_word FDT_END b;
            off_struct = struct_base;
            off_strings = strings_base;
            struct_len = struct_off b - off_struct;
            strings_len = strings_off b - off_strings;
            totalsize = off_strings + strings_len
        in if totalsize > FDT_MAX_BUF then (0, b\<lparr>fdt_err := True\<rparr>)
           else
             let m = buf b;
                 m = write_bytes 0 (be32 FDT_MAGIC) m;
                 m = write_bytes 4 (be32 totalsize) m;
                 m = write_bytes 8 (be32 off_struct) m;
                 m = write_bytes 12 (be32 off_strings) m;
                 m = write_bytes 16 (be32 FDT_HEADER_SIZE) m;
                 m = write_bytes 20 (be32 FDT_VERSION) m;
                 m = write_bytes 24 (be32 FDT_LAST_COMP_VERSION) m;
                 m = write_bytes 28 (be32 FDT_HART_BASE) m;
                 m = write_bytes 32 (be32 strings_len) m;
                 m = write_bytes 36 (be32 struct_len) m;
                 m = write_bytes (unat FDT_HEADER_SIZE) (be64 0) m;
                 m = write_bytes (unat FDT_HEADER_SIZE + 8) (be64 0) m;
                 m = write_bytes (unat (struct_off b)) (replicate (unat off_strings - unat (struct_off b)) 0) m
             in (unat totalsize, b\<lparr>buf := m\<rparr>))"

section \<open>The machine description\<close>

abbreviation FDT_CPU_INTC_PHANDLE :: u32 where "FDT_CPU_INTC_PHANDLE \<equiv> 1"
abbreviation FDT_PLIC_PHANDLE :: u32 where "FDT_PLIC_PHANDLE \<equiv> 2"
abbreviation FDT_TIMEBASE_FREQ :: u32 where "FDT_TIMEBASE_FREQ \<equiv> 10000000"
abbreviation FDT_RAM_START :: u32 where "FDT_RAM_START \<equiv> 0x80000000"
abbreviation FDT_RAM_SIZE :: u32 where "FDT_RAM_SIZE \<equiv> 0x80000000"

definition fdt_build_clint :: "fdt_builder \<Rightarrow> fdt_builder option" where
  "fdt_build_clint h =
     do { h \<leftarrow> fdt_node_push ''clint@2000000'' h;
          h \<leftarrow> fdt_prop_str ''compatible'' ''sifive,clint0'' h;
          h \<leftarrow> fdt_prop_word ''reg'' 0 CLINT_BASE 0 CLINT_SIZE h;
          h \<leftarrow> fdt_prop_word ''interrupts-extended'' FDT_CPU_INTC_PHANDLE 3 FDT_CPU_INTC_PHANDLE 7 h;
          fdt_node_pop h }"

text \<open>A \<open>char\<close> array with embedded terminators, and the one the compiler appends.\<close>

definition char_array :: "string list \<Rightarrow> u8 list" where
  "char_array ss = concat (map (\<lambda>s. chars s @ [0]) ss) @ [0]"

definition plic_comp :: "u8 list" where
  "plic_comp = char_array [''sifive,plic-1.0.0'', ''riscv,plic0'']"

definition fdt_build_plic :: "fdt_builder \<Rightarrow> fdt_builder option" where
  "fdt_build_plic h =
     do { h \<leftarrow> fdt_node_push ''plic@c000000'' h;
          h \<leftarrow> fdt_prop_bytes ''compatible'' plic_comp h;
          h \<leftarrow> fdt_prop_word ''reg'' 0 PLIC_BASE 0 PLIC_SIZE h;
          h \<leftarrow> fdt_prop_cells1 ''#address-cells'' 0 h;
          h \<leftarrow> fdt_prop_cells1 ''#interrupt-cells'' 1 h;
          h \<leftarrow> fdt_prop_cells1 ''phandle'' FDT_PLIC_PHANDLE h;
          h \<leftarrow> fdt_prop_empty ''interrupt-controller'' h;
          h \<leftarrow> fdt_prop_cells1 ''riscv,ndev'' (of_nat PLIC_NDEV) h;
          h \<leftarrow> fdt_prop_word ''interrupts-extended'' FDT_CPU_INTC_PHANDLE 11 FDT_CPU_INTC_PHANDLE 9 h;
          fdt_node_pop h }"

definition fdt_build_uart :: "fdt_builder \<Rightarrow> fdt_builder option" where
  "fdt_build_uart h =
     do { h \<leftarrow> fdt_node_push ''uart@10000000'' h;
          h \<leftarrow> fdt_prop_str ''compatible'' ''ns16550a'' h;
          h \<leftarrow> fdt_prop_word ''reg'' 0 UART_BASE 0 UART_NREGS h;
          h \<leftarrow> fdt_prop_cells1 ''clock-frequency'' 3686400 h;
          h \<leftarrow> fdt_prop_cells1 ''current-speed'' 115200 h;
          h \<leftarrow> fdt_prop_cells1 ''reg-shift'' 0 h;
          h \<leftarrow> fdt_prop_cells1 ''reg-io-width'' 1 h;
          h \<leftarrow> fdt_prop_interrupt_parent FDT_PLIC_PHANDLE h;
          h \<leftarrow> fdt_prop_cells1 ''interrupts'' (of_nat UART_IRQ) h;
          fdt_node_pop h }"

definition fdt_chosen :: "u32 \<Rightarrow> u32 \<Rightarrow> fdt_builder \<Rightarrow> fdt_builder option" where
  "fdt_chosen initrd_start initrd_end h =
     do { h \<leftarrow> fdt_node_push ''chosen'' h;
          h \<leftarrow> fdt_prop_str ''stdout-path'' ''/soc/uart@10000000'' h;
          h \<leftarrow> fdt_prop_str ''bootargs'' ''earlycon console=ttyS0,115200n8 root=/dev/ram0 rw rdinit=/init'' h;
          h \<leftarrow> (if initrd_start \<noteq> 0 \<and> initrd_end \<noteq> 0 then
                 do { h \<leftarrow> fdt_prop_cells2 ''linux,initrd-start'' 0 initrd_start h;
                      fdt_prop_cells2 ''linux,initrd-end'' 0 initrd_end h }
               else Some h);
          fdt_node_pop h }"

definition isa_extensions :: "u8 list" where
  "isa_extensions =
     char_array [''i'', ''m'', ''a'', ''f'', ''d'', ''q'', ''c'', ''zicsr'', ''zifencei'', ''zicntr'', ''zicond'']"

definition fdt_cpus :: "fdt_builder \<Rightarrow> fdt_builder option" where
  "fdt_cpus h =
     do { h \<leftarrow> fdt_node_push ''cpus'' h;
          h \<leftarrow> fdt_prop_cells1 ''#address-cells'' 1 h;
          h \<leftarrow> fdt_prop_cells1 ''#size-cells'' 0 h;
          h \<leftarrow> fdt_prop_cells1 ''timebase-frequency'' FDT_TIMEBASE_FREQ h;
          h \<leftarrow> fdt_node_push ''cpu@0'' h;
          h \<leftarrow> fdt_prop_str ''device_type'' ''cpu'' h;
          h \<leftarrow> fdt_prop_cells1 ''reg'' FDT_HART_BASE h;
          h \<leftarrow> fdt_prop_str ''compatible'' ''riscv'' h;
          h \<leftarrow> fdt_prop_str ''mmu-type'' ''riscv,sv32'' h;
          h \<leftarrow> fdt_prop_str ''riscv,isa'' ''rv32imafdqc_zicsr_zifencei_zicond'' h;
          h \<leftarrow> fdt_prop_str ''riscv,isa-base'' ''rv32i'' h;
          h \<leftarrow> fdt_prop_bytes ''riscv,isa-extensions'' isa_extensions h;
          h \<leftarrow> fdt_node_push ''interrupt-controller'' h;
          h \<leftarrow> fdt_prop_cells1 ''phandle'' FDT_CPU_INTC_PHANDLE h;
          h \<leftarrow> fdt_prop_cells1 ''#interrupt-cells'' 1 h;
          h \<leftarrow> fdt_prop_str ''compatible'' ''riscv,cpu-intc'' h;
          h \<leftarrow> fdt_prop_empty ''interrupt-controller'' h;
          h \<leftarrow> fdt_node_pop h;
          h \<leftarrow> fdt_node_pop h;
          fdt_node_pop h }"

definition fdt_soc :: "fdt_builder \<Rightarrow> fdt_builder option" where
  "fdt_soc h =
     do { h \<leftarrow> fdt_node_push ''soc'' h;
          h \<leftarrow> fdt_prop_str ''compatible'' ''simple-bus'' h;
          h \<leftarrow> fdt_prop_cells1 ''#address-cells'' 2 h;
          h \<leftarrow> fdt_prop_cells1 ''#size-cells'' 2 h;
          h \<leftarrow> fdt_prop_empty ''ranges'' h;
          h \<leftarrow> fdt_build_clint h;
          h \<leftarrow> fdt_build_plic h;
          h \<leftarrow> fdt_build_uart h;
          fdt_node_pop h }"

definition fdt_describe :: "u32 \<Rightarrow> u32 \<Rightarrow> fdt_builder \<Rightarrow> fdt_builder option" where
  "fdt_describe initrd_start initrd_end h =
     do { h \<leftarrow> fdt_prop_cells1 ''#address-cells'' 2 h;
          h \<leftarrow> fdt_prop_cells1 ''#size-cells'' 2 h;
          h \<leftarrow> fdt_prop_str ''compatible'' ''riscvemu'' h;
          h \<leftarrow> fdt_prop_str ''model'' ''RISCVemu RV32 virt'' h;
          h \<leftarrow> fdt_chosen initrd_start initrd_end h;
          h \<leftarrow> fdt_node_push ''memory@80000000'' h;
          h \<leftarrow> fdt_prop_str ''device_type'' ''memory'' h;
          h \<leftarrow> fdt_prop_word ''reg'' 0 FDT_RAM_START 0 FDT_RAM_SIZE h;
          h \<leftarrow> fdt_node_pop h;
          h \<leftarrow> fdt_cpus h;
          fdt_soc h }"

text \<open>
  \<open>b.buf = g_state.main_memory + addr\<close>: the buffer is the memory from \<open>addr\<close> on. \<open>fdt_view\<close> reads it,
  \<open>fdt_unview\<close> puts it back; the memory ends at 4 GiB.
\<close>

definition fdt_view :: "u32 \<Rightarrow> (u32 \<Rightarrow> u8) \<Rightarrow> nat \<Rightarrow> u8" where
  "fdt_view addr m = (\<lambda>i. m (addr + of_nat i))"

definition fdt_unview :: "u32 \<Rightarrow> (nat \<Rightarrow> u8) \<Rightarrow> (u32 \<Rightarrow> u8) \<Rightarrow> u32 \<Rightarrow> u8" where
  "fdt_unview addr f m = (\<lambda>a. if addr \<le> a then f (unat a - unat addr) else m a)"

definition fdt_fresh :: "(nat \<Rightarrow> u8) \<Rightarrow> fdt_builder" where
  "fdt_fresh m = \<lparr>buf = m, bufsize = FDT_MAX_BUF, struct_off = 0, strings_off = 0, rsvmap_count = 0, fdt_depth = 0,
     fdt_err = False\<rparr>"

definition fdt_build_riscvemu :: "u32 \<Rightarrow> u32 \<Rightarrow> u32 \<Rightarrow> emu \<Rightarrow> nat \<times> emu" where
  "fdt_build_riscvemu addr initrd_start initrd_end s =
     (let b = fdt_fresh (fdt_view addr (main_memory s));
          b = fdt_builder_init b
      in case fdt_describe initrd_start initrd_end b of
           None \<Rightarrow> (0, s)
         | Some b \<Rightarrow>
             let (size, b) = fdt_serialize b
             in (size, s\<lparr>main_memory := fdt_unview addr (buf b) (main_memory s)\<rparr>))"

section \<open>Reading the format\<close>

datatype fdt_token = Begin_Node string | Prop string "u8 list" | End_Node

datatype fdt_node = Fdt_Node string "(string \<times> u8 list) list" "fdt_node list"

definition get32 :: "(nat \<Rightarrow> u8) \<Rightarrow> nat \<Rightarrow> u32" where
  "get32 m off = shl (ucast (m off)) 24 OR shl (ucast (m (off + 1))) 16 OR shl (ucast (m (off + 2))) 8 OR ucast (m (off + 3))"

definition align4 :: "nat \<Rightarrow> nat" where
  "align4 n = (n + 3) div 4 * 4"

text \<open>A NUL-terminated string of at most \<open>fuel\<close> characters.\<close>

fun read_string :: "nat \<Rightarrow> (nat \<Rightarrow> u8) \<Rightarrow> nat \<Rightarrow> string option" where
  "read_string 0 m off = (if m off = 0 then Some [] else None)"
| "read_string (Suc fuel) m off =
     (if m off = 0 then Some [] else map_option (Cons (char_of (unat (m off)))) (read_string fuel m (off + 1)))"

text \<open>The tokens of the structure block from \<open>off\<close> on, up to \<open>FDT_END\<close>.\<close>

fun lex_struct :: "nat \<Rightarrow> (nat \<Rightarrow> u8) \<Rightarrow> nat \<Rightarrow> nat \<Rightarrow> fdt_token list option" where
  "lex_struct 0 m strs off = None"
| "lex_struct (Suc fuel) m strs off =
     (let t = get32 m off
      in if t = FDT_BEGIN_NODE then
           do { name \<leftarrow> read_string (unat FDT_MAX_BUF) m (off + 4);
                map_option (Cons (Begin_Node name)) (lex_struct fuel m strs (align4 (off + 4 + length name + 1))) }
         else if t = FDT_PROP then
           do { name \<leftarrow> read_string (unat FDT_MAX_BUF) m (strs + unat (get32 m (off + 8)));
                let len = unat (get32 m (off + 4));
                map_option (Cons (Prop name (map m [off + 12..<off + 12 + len])))
                  (lex_struct fuel m strs (align4 (off + 12 + len))) }
         else if t = FDT_END_NODE then map_option (Cons End_Node) (lex_struct fuel m strs (off + 4))
         else if t = FDT_NOP then lex_struct fuel m strs (off + 4)
         else if t = FDT_END then Some []
         else None)"

text \<open>The tree the tokens describe; the stack holds the open nodes. Properties come before subnodes.\<close>

fun parse_tokens :: "fdt_token list \<Rightarrow> (string \<times> (string \<times> u8 list) list \<times> fdt_node list) list \<Rightarrow> fdt_node option" where
  "parse_tokens (Begin_Node n # ts) st = parse_tokens ts ((n, [], []) # st)"
| "parse_tokens (Prop n v # ts) ((k, ps, []) # st) = parse_tokens ts ((k, ps @ [(n, v)], []) # st)"
| "parse_tokens (End_Node # ts) ((k, ps, cs) # (k', ps', cs') # st) =
     parse_tokens ts ((k', ps', cs' @ [Fdt_Node k ps cs]) # st)"
| "parse_tokens [End_Node] [(k, ps, cs)] = Some (Fdt_Node k ps cs)"
| "parse_tokens _ _ = None"

text \<open>A reader of the whole blob: the header's magic number and versions, then the two blocks.\<close>

definition fdt_parse :: "(nat \<Rightarrow> u8) \<Rightarrow> fdt_node option" where
  "fdt_parse m =
     (if get32 m 0 = FDT_MAGIC \<and> get32 m 24 \<le> 17 \<and> 17 \<le> get32 m 20
      then do { ts \<leftarrow> lex_struct (unat FDT_MAX_BUF) m (unat (get32 m 12)) (unat (get32 m 8));
                parse_tokens ts [] }
      else None)"

fun flatten :: "fdt_node \<Rightarrow> fdt_token list" where
  "flatten (Fdt_Node n ps cs) = Begin_Node n # map (\<lambda>(k, v). Prop k v) ps @ concat (map flatten cs) @ [End_Node]"

lemma parse_props:
  "parse_tokens (map (\<lambda>(k, v). Prop k v) qs @ ts) ((n, ps, []) # st) = parse_tokens ts ((n, ps @ qs, []) # st)"
  by (induction qs arbitrary: ps) auto

lemma parse_flatten:
  "parse_tokens (flatten t @ ts) ((n, ps, cs) # st) = parse_tokens ts ((n, ps, cs @ [t]) # st)"
proof (induction t arbitrary: ts n ps cs st)
  case (Fdt_Node k qs ds)
  have "parse_tokens (concat (map flatten es) @ us) ((k, qs, es') # (n, ps, cs) # st) =
      parse_tokens us ((k, qs, es' @ es) # (n, ps, cs) # st)" if "set es \<subseteq> set ds" for es es' us
    using that by (induction es arbitrary: es') (simp_all add: Fdt_Node)
  then show ?case by (simp add: parse_props)
qed

lemma parse_flatten_root: "parse_tokens (flatten t) [] = Some t"
proof (cases t)
  case (Fdt_Node k qs ds)
  have "parse_tokens (concat (map flatten es) @ us) [(k, qs, es')] = parse_tokens us [(k, qs, es' @ es)]" for es es' us
    by (induction es arbitrary: es') (simp_all add: parse_flatten)
  then show ?thesis by (simp add: Fdt_Node parse_props)
qed

section \<open>Byte blocks\<close>

definition bytes_at :: "(nat \<Rightarrow> u8) \<Rightarrow> nat \<Rightarrow> u8 list \<Rightarrow> bool" where
  "bytes_at m off bs \<longleftrightarrow> (\<forall>i<length bs. m (off + i) = bs ! i)"

lemma bytes_at_append: "bytes_at m off (a @ b) \<longleftrightarrow> bytes_at m off a \<and> bytes_at m (off + length a) b"
proof
  assume ab: "bytes_at m off (a @ b)"
  show "bytes_at m off a \<and> bytes_at m (off + length a) b"
    unfolding bytes_at_def
  proof (intro conjI allI impI)
    show "m (off + i) = a ! i" if "i < length a" for i
      using ab that by (auto simp: bytes_at_def nth_append dest: spec [of _ i])
    show "m (off + length a + i) = b ! i" if "i < length b" for i
      using ab that by (auto simp: bytes_at_def nth_append add.assoc dest: spec [of _ "length a + i"])
  qed
next
  assume ab: "bytes_at m off a \<and> bytes_at m (off + length a) b"
  show "bytes_at m off (a @ b)"
    unfolding bytes_at_def
  proof (intro allI impI)
    fix i assume "i < length (a @ b)"
    then show "m (off + i) = (a @ b) ! i"
      using ab by (cases "i < length a") (auto simp: bytes_at_def nth_append dest: spec [of _ "i - length a"])
  qed
qed

lemma bytes_at_Cons: "bytes_at m off (x # b) \<longleftrightarrow> m off = x \<and> bytes_at m (off + 1) b"
  using bytes_at_append [of m off "[x]" b] by (simp add: bytes_at_def)

lemma bytes_at_Nil [simp]: "bytes_at m off []"
  by (simp add: bytes_at_def)

lemma bytes_at_write [simp]: "bytes_at (write_bytes off bs m) off bs"
  by (simp add: bytes_at_def write_bytes_def)

lemma bytes_at_frame:
  "bytes_at m off bs \<Longrightarrow> off + length bs \<le> p \<or> p + length cs \<le> off \<Longrightarrow> bytes_at (write_bytes p cs m) off bs"
  by (auto simp: bytes_at_def write_bytes_def)

lemma map_bytes_at: "bytes_at m off bs \<Longrightarrow> map m [off..<off + length bs] = bs"
  by (rule nth_equalityI) (auto simp: bytes_at_def)

lemma length_be32 [simp]: "length (be32 w) = 4" "length (be64 d) = 8" "length (chars s) = length s"
  by (simp_all add: be32_def be64_def chars_def)

lemma get32_be32:
  assumes "bytes_at m off (be32 w)"
  shows "get32 m off = w"
proof -
  have "m off = ucast (shr w 24)" "m (off + 1) = ucast (shr w 16 AND 0xFF)" "m (off + 2) = ucast (shr w 8 AND 0xFF)"
    "m (off + 3) = ucast (w AND 0xFF)"
    using assms by (simp_all add: be32_def bytes_at_Cons numeral_eq_Suc)
  then show ?thesis unfolding get32_def
    by (simp only:) (simp add: word32_bits bit_simps)
qed

lemma unat_of_char [simp]: "unat (of_char c :: u8) = of_char c"
  unfolding of_nat_of_char [where 'a = u8, symmetric] unat_of_nat by simp

lemma of_char_zero: "(of_char c = (0 :: u8)) \<longleftrightarrow> c = CHR 0x00"
  using unat_eq_zero [of "of_char c :: u8"] of_char_eq_iff [where 'a = nat, of c "CHR 0x00"]
  by (simp del: of_char_eq_iff)

lemma read_string_chars:
  assumes "bytes_at m off (chars s @ [0])" "CHR 0x00 \<notin> set s" "length s \<le> fuel"
  shows "read_string fuel m off = Some s"
  using assms
proof (induction s arbitrary: off fuel)
  case Nil
  then show ?case by (cases fuel) (simp_all add: chars_def bytes_at_Cons)
next
  case (Cons c s)
  then obtain f where f: "fuel = Suc f" by (cases fuel) auto
  then show ?case using Cons by (auto simp: chars_def bytes_at_Cons of_char_zero)
qed

section \<open>Every call appends one token\<close>

lemma write_bytes_Nil [simp]: "write_bytes off [] m = m"
  by (rule ext) (auto simp: write_bytes_def)

lemma write_bytes_append: "write_bytes (off + length x) y (write_bytes off x m) = write_bytes off (x @ y) m"
  by (rule ext) (auto simp: write_bytes_def nth_append)

lemma write_bytes_join: "q = p + length x \<Longrightarrow> write_bytes q y (write_bytes p x m) = write_bytes p (x @ y) m"
  by (simp add: write_bytes_append)

lemma write_bytes_commute:
  "p + length x \<le> q \<or> q + length y \<le> p \<Longrightarrow>
     write_bytes p x (write_bytes q y m) = write_bytes q y (write_bytes p x m)"
  by (rule ext) (auto simp: write_bytes_def)

lemma struct_bytes_Nil [simp]: "struct_bytes [] b = b"
  by (simp add: struct_bytes_def)

lemma struct_word_bytes: "struct_word w b = struct_bytes (be32 w) b"
  by (simp add: struct_word_def struct_bytes_def)

lemma unat_add_of_nat: "unat (x :: u32) + n < 2 ^ 32 \<Longrightarrow> unat (x + of_nat n) = unat x + n"
  by (simp add: unat_word_ariths unat_of_nat)

lemma struct_off_bytes:
  "unat (struct_off b) + length x < 2 ^ 32 \<Longrightarrow> unat (struct_off (struct_bytes x b)) = unat (struct_off b) + length x"
  by (simp add: struct_bytes_def unat_add_of_nat)

lemma struct_bytes_fields [simp]:
  "strings_off (struct_bytes x b) = strings_off b" "fdt_depth (struct_bytes x b) = fdt_depth b"
  "fdt_err (struct_bytes x b) = fdt_err b"
  by (simp_all add: struct_bytes_def)

lemma struct_bytes_append:
  "unat (struct_off b) + length x < 2 ^ 32 \<Longrightarrow> struct_bytes y (struct_bytes x b) = struct_bytes (x @ y) b"
  by (simp add: struct_bytes_def unat_add_of_nat write_bytes_append add.assoc)

lemma fun_upd_write: "f(off := v) = write_bytes off [v] f"
  by (rule ext) (simp add: write_bytes_def)

definition pad :: "nat \<Rightarrow> nat" where
  "pad n = align4 n - n"

lemma pad_cases: "pad n = (if n mod 4 = 0 then 0 else Suc (pad (Suc n)))"
  unfolding pad_def align4_def by (auto; presburger)

lemma struct_align_eq:
  "unat (struct_off b) + pad (unat (struct_off b)) < 2 ^ 32 \<Longrightarrow>
     struct_align b = struct_bytes (replicate (pad (unat (struct_off b))) 0) b"
proof (induction "pad (unat (struct_off b))" arbitrary: b)
  case 0
  then have "unat (struct_off b) mod 4 = 0" using pad_cases [of "unat (struct_off b)"] by (auto split: if_splits)
  then show ?case using 0 by (subst struct_align.simps) (simp add: and_3_zero)
next
  case (Suc k)
  let ?n = "unat (struct_off b)" and ?c = "struct_bytes [0] b"
  have mod: "?n mod 4 \<noteq> 0" and p: "pad ?n = Suc (pad (Suc ?n))"
    using Suc.hyps(2) pad_cases [of ?n] by (auto split: if_splits)
  have off: "unat (struct_off ?c) = Suc ?n" using Suc.prems p by (simp add: struct_off_bytes)
  have "struct_align b = struct_align ?c"
    using mod by (subst struct_align.simps) (simp add: and_3_zero struct_bytes_def fun_upd_write)
  also have "\<dots> = struct_bytes (replicate (pad (Suc ?n)) 0) ?c"
    using Suc.hyps(1) [of ?c] Suc.hyps(2) Suc.prems p off by simp
  also have "\<dots> = struct_bytes (0 # replicate (pad (Suc ?n)) 0) b"
    using Suc.prems p by (subst struct_bytes_append) simp_all
  finally show ?case by (simp add: p)
qed

lemma pad_aligned: "n mod 4 = 0 \<Longrightarrow> pad (n + k) = pad k"
proof -
  assume "n mod 4 = 0"
  then obtain q where "n = 4 * q" by (auto simp: mod_eq_0_iff_dvd)
  then show ?thesis by (simp add: pad_def align4_def add.assoc)
qed

lemma pad_less: "pad n < 4"
  unfolding pad_def align4_def by presburger

lemma align4_pad: "align4 n = n + pad n"
  unfolding pad_def align4_def by presburger

text \<open>The bytes of a token; a property's name is at \<open>nameoff\<close> of the strings block.\<close>

fun enc_token :: "u32 \<Rightarrow> fdt_token \<Rightarrow> u8 list" where
  "enc_token nameoff (Begin_Node n) = be32 FDT_BEGIN_NODE @ chars n @ [0] @ replicate (pad (length n + 1)) 0"
| "enc_token nameoff (Prop n v) =
     be32 FDT_PROP @ be32 (of_nat (length v)) @ be32 nameoff @ v @ replicate (pad (length v)) 0"
| "enc_token nameoff End_Node = be32 FDT_END_NODE"

abbreviation token_size :: "fdt_token \<Rightarrow> nat" where
  "token_size t \<equiv> length (enc_token 0 t)"

fun name_size :: "fdt_token \<Rightarrow> nat" where
  "name_size (Prop n v) = length n + 1"
| "name_size _ = 0"

lemma length_enc_token: "length (enc_token no t) = token_size t"
  by (cases t) simp_all

lemma pad_mod_4: "(k + pad k) mod 4 = 0"
  unfolding pad_def align4_def by presburger

lemma token_size_mod_4: "token_size t mod 4 = 0"
proof (cases t)
  case (Begin_Node n)
  then have "token_size t = 4 + (length n + 1 + pad (length n + 1))" by simp
  then show ?thesis by (simp only: mod_add_self1 pad_mod_4)
next
  case (Prop n v)
  then have "token_size t = 4 + (4 + (4 + (length v + pad (length v))))" by simp
  then show ?thesis by (simp only: mod_add_self1 pad_mod_4)
qed simp


text \<open>What a block of tokens looks like, up to \<open>se\<close> in the strings block.\<close>

fun name_at :: "(nat \<Rightarrow> u8) \<Rightarrow> nat \<Rightarrow> u32 \<Rightarrow> fdt_token \<Rightarrow> bool" where
  "name_at m se no (Prop n v) \<longleftrightarrow>
     4152 + unat no + length n + 1 \<le> se \<and> bytes_at m (4152 + unat no) (chars n @ [0])"
| "name_at m se no _ \<longleftrightarrow> True"

fun tokens_at :: "(nat \<Rightarrow> u8) \<Rightarrow> nat \<Rightarrow> nat \<Rightarrow> fdt_token list \<Rightarrow> bool" where
  "tokens_at m se off [] \<longleftrightarrow> True"
| "tokens_at m se off (t # ts) \<longleftrightarrow>
     (\<exists>no. bytes_at m off (enc_token no t) \<and> name_at m se no t) \<and> tokens_at m se (off + token_size t) ts"

definition tokens_size :: "fdt_token list \<Rightarrow> nat" where
  "tokens_size ts = (\<Sum>t\<leftarrow>ts. token_size t)"

definition names_size :: "fdt_token list \<Rightarrow> nat" where
  "names_size ts = (\<Sum>t\<leftarrow>ts. name_size t)"

lemma size_simps [simp]:
  "tokens_size [] = 0" "tokens_size (t # ts) = token_size t + tokens_size ts"
  "tokens_size (ts @ us) = tokens_size ts + tokens_size us"
  "names_size [] = 0" "names_size (t # ts) = name_size t + names_size ts"
  "names_size (ts @ us) = names_size ts + names_size us"
  by (simp_all add: tokens_size_def names_size_def)

lemma tokens_size_mod_4: "tokens_size ts mod 4 = 0"
proof (induction ts)
  case (Cons t ts)
  have "4 dvd token_size t" "4 dvd tokens_size ts"
    using Cons token_size_mod_4 [of t] by (blast intro: mod_0_imp_dvd)+
  then show ?case unfolding size_simps by (intro dvd_imp_mod_0 dvd_add)
qed simp

lemma bytes_at_cong:
  "bytes_at m off bs \<Longrightarrow> (\<And>i. off \<le> i \<Longrightarrow> i < off + length bs \<Longrightarrow> m' i = m i) \<Longrightarrow> bytes_at m' off bs"
  by (simp add: bytes_at_def)

lemma tokens_at_frame:
  assumes "tokens_at m se off ts" "se \<le> se'"
    and "\<And>i. off \<le> i \<and> i < off + tokens_size ts \<or> 4152 \<le> i \<and> i < se \<Longrightarrow> m' i = m i"
  shows "tokens_at m' se' off ts"
  using assms(1,3)
proof (induction ts arbitrary: off)
  case (Cons t ts)
  from Cons.prems(1) obtain no where no: "bytes_at m off (enc_token no t)" "name_at m se no t"
    and ts: "tokens_at m se (off + token_size t) ts" by auto
  have "bytes_at m' off (enc_token no t)"
    by (rule bytes_at_cong [OF no(1)], rule Cons.prems(2)) (simp add: length_enc_token [of no t])
  moreover have "name_at m' se' no t"
  proof (cases t)
    case (Prop n v)
    then have n: "bytes_at m (4152 + unat no) (chars n @ [0])" "4152 + unat no + length n + 1 \<le> se"
      using no(2) by simp_all
    have "bytes_at m' (4152 + unat no) (chars n @ [0])"
      by (rule bytes_at_cong [OF n(1)], rule Cons.prems(2)) (use n(2) in simp)
    then show ?thesis using Prop assms(2) n(2) by simp
  qed simp_all
  moreover have "tokens_at m' se' (off + token_size t) ts"
    by (rule Cons.IH [OF ts], rule Cons.prems(2)) auto
  ultimately show ?case by auto
qed simp

lemma tokens_at_append:
  "tokens_at m se off (ts @ us) \<longleftrightarrow> tokens_at m se off ts \<and> tokens_at m se (off + tokens_size ts) us"
  by (induction ts arbitrary: off) (auto simp: add.assoc)

section \<open>The builder holds the tokens written so far\<close>

definition fdt_holds :: "(nat \<Rightarrow> u8) \<Rightarrow> fdt_builder \<Rightarrow> fdt_token list \<Rightarrow> bool" where
  "fdt_holds m0 b ts \<longleftrightarrow> \<not> fdt_err b \<and> unat (struct_off b) = 56 + tokens_size ts \<and> tokens_size ts \<le> 4096 \<and>
     unat (strings_off b) = 4152 + names_size ts \<and> names_size ts \<le> 12232 \<and>
     tokens_at (buf b) (unat (strings_off b)) 56 ts \<and> (\<forall>i\<ge>unat (strings_off b). buf b i = m0 i)"

lemma bases: "struct_base = 56" "strings_base = 4152"
  by (simp_all add: struct_base_def strings_base_def)

lemma holds_struct:
  assumes "fdt_holds m0 b ts" "name_size t = 0" "tokens_size (ts @ [t]) \<le> 4096"
  shows "fdt_holds m0 (struct_bytes (enc_token 0 t) b) (ts @ [t])"
proof -
  let ?c = "struct_bytes (enc_token 0 t) b"
  have off: "unat (struct_off ?c) = 56 + tokens_size (ts @ [t])"
    using assms by (simp add: fdt_holds_def struct_off_bytes)
  have buf: "buf ?c = write_bytes (56 + tokens_size ts) (enc_token 0 t) (buf b)"
    using assms(1) by (simp add: fdt_holds_def struct_bytes_def)
  have "tokens_at (buf ?c) (unat (strings_off ?c)) 56 ts"
    using assms by (auto intro!: tokens_at_frame [of "buf b" "unat (strings_off b)"]
        simp: buf write_bytes_def fdt_holds_def)
  moreover have "name_at (buf ?c) (unat (strings_off ?c)) 0 t" using assms(2) by (cases t) simp_all
  ultimately have "tokens_at (buf ?c) (unat (strings_off ?c)) 56 (ts @ [t])"
    by (auto simp: tokens_at_append buf intro!: exI [of _ 0])
  moreover have "\<forall>i\<ge>unat (strings_off ?c). buf ?c i = m0 i"
    using assms by (simp add: buf write_bytes_def fdt_holds_def)
  ultimately show ?thesis using off assms by (simp add: fdt_holds_def)
qed

text \<open>A name goes to the strings block; writing it does not disturb the structure block.\<close>

lemma strings_intern_fields [simp]:
  "struct_off (snd (strings_intern n b)) = struct_off b" "fdt_depth (snd (strings_intern n b)) = fdt_depth b"
  "fdt_err (snd (strings_intern n b)) = fdt_err b" "fst (strings_intern n b) = strings_off b - strings_base"
  "strings_off (snd (strings_intern n b)) = strings_off b + of_nat (length n + 1)"
  by (simp_all add: strings_intern_def Let_def add.commute)

lemma strings_intern_bytes:
  assumes "unat (struct_off b) + length x \<le> unat (strings_off b)"
  shows "snd (strings_intern n (struct_bytes x b)) = struct_bytes x (snd (strings_intern n b))"
proof -
  have "write_bytes (unat (strings_off b)) (chars n @ [0]) (write_bytes (unat (struct_off b)) x (buf b)) =
      write_bytes (unat (struct_off b)) x (write_bytes (unat (strings_off b)) (chars n @ [0]) (buf b))"
    by (rule write_bytes_commute) (use assms in simp)
  then show ?thesis by (simp add: strings_intern_def struct_bytes_def Let_def)
qed

lemma prop_begin_eq:
  assumes "\<not> fdt_err b" "unat (struct_off b) + 12 \<le> unat (strings_off b)"
  shows "prop_begin n len b =
    Some (struct_bytes (be32 FDT_PROP @ be32 len @ be32 (strings_off b - strings_base)) (snd (strings_intern n b)))"
proof -
  have "unat (strings_off b) < 2 ^ 32" using unsigned_less [of "strings_off b"] by simp
  then have lt: "unat (struct_off b) + 12 < 2 ^ 32" using assms(2) by simp
  have "struct_word len (struct_word FDT_PROP b) = struct_bytes (be32 FDT_PROP @ be32 len) b"
    using lt by (simp add: struct_word_bytes struct_bytes_append)
  then show ?thesis using assms lt
    by (simp add: prop_begin_def Let_def case_prod_unfold strings_intern_bytes struct_word_bytes struct_bytes_append)
qed

lemma holds_prop:
  assumes "fdt_holds m0 b ts" "tokens_size (ts @ [Prop n v]) \<le> 4096" "names_size (ts @ [Prop n v]) \<le> 12232"
  shows "fdt_holds m0 (struct_bytes (enc_token (strings_off b - strings_base) (Prop n v)) (snd (strings_intern n b)))
    (ts @ [Prop n v])"
proof -
  let ?t = "Prop n v" and ?no = "strings_off b - strings_base"
  let ?c = "struct_bytes (enc_token ?no ?t) (snd (strings_intern n b))"
  note b = assms(1) [unfolded fdt_holds_def]
  have no: "unat ?no = names_size ts" using b assms(3) by (simp add: bases unat_sub word_le_nat_alt)
  have off: "unat (struct_off ?c) = 56 + tokens_size (ts @ [?t])"
    using b assms(2) by (simp add: struct_off_bytes)
  have strs: "unat (strings_off ?c) = 4152 + names_size (ts @ [?t])"
    using b assms(3) unat_add_of_nat [of "strings_off b" "length n + 1"] by simp
  have buf: "buf ?c = write_bytes (56 + tokens_size ts) (enc_token ?no ?t)
      (write_bytes (4152 + names_size ts) (chars n @ [0]) (buf b))"
    using b by (simp add: struct_bytes_def strings_intern_def Let_def)
  have "tokens_at (buf ?c) (unat (strings_off ?c)) 56 ts"
    unfolding buf strs using b assms(2) by (auto intro!: tokens_at_frame [of "buf b" "unat (strings_off b)"] simp: write_bytes_def)
  moreover have "bytes_at (buf ?c) (56 + tokens_size ts) (enc_token ?no ?t)" unfolding buf by (rule bytes_at_write)
  moreover have "bytes_at (buf ?c) (4152 + names_size ts) (chars n @ [0])"
    unfolding buf by (rule bytes_at_frame [OF bytes_at_write]) (use assms(2) in simp)
  then have "name_at (buf ?c) (unat (strings_off ?c)) ?no ?t" using no strs by simp
  ultimately have "tokens_at (buf ?c) (unat (strings_off ?c)) 56 (ts @ [?t])"
    unfolding tokens_at_append by auto
  moreover have "\<forall>i\<ge>unat (strings_off ?c). buf ?c i = m0 i"
    unfolding buf strs using b assms(2) by (simp add: write_bytes_def)
  ultimately show ?thesis using off strs b assms(2,3) by (simp add: fdt_holds_def)
qed

section \<open>The calls as tokens\<close>

text \<open>
  \<open>appends f k xs d\<close>: on a builder at depth at least \<open>k\<close> the call \<open>f\<close> succeeds, when there is room,
  appends the tokens \<open>xs\<close> and changes the depth by \<open>d\<close>.
\<close>

definition fits :: "fdt_token list \<Rightarrow> bool" where
  "fits ts \<longleftrightarrow> tokens_size ts \<le> 4096 \<and> names_size ts \<le> 12232"

definition appends :: "(fdt_builder \<Rightarrow> fdt_builder option) \<Rightarrow> int \<Rightarrow> fdt_token list \<Rightarrow> int \<Rightarrow> bool" where
  "appends f k xs d \<longleftrightarrow>
     (\<forall>m0 b ts. fdt_holds m0 b ts \<longrightarrow> fits (ts @ xs) \<longrightarrow> k \<le> fdt_depth b \<longrightarrow>
        (\<exists>b'. f b = Some b' \<and> fdt_holds m0 b' (ts @ xs) \<and> fdt_depth b' = fdt_depth b + d))"

lemma fits_append: "fits (ts @ us) \<Longrightarrow> fits ts"
  by (simp add: fits_def)

lemma appends_bind:
  assumes "appends f k xs d" "appends g (k + d) ys e"
  shows "appends (\<lambda>h. f h \<bind> g) k (xs @ ys) (d + e)"
  unfolding appends_def
proof (intro allI impI)
  fix m0 b ts assume b: "fdt_holds m0 b ts" "fits (ts @ xs @ ys)" "k \<le> fdt_depth b"
  then have "fits (ts @ xs)" using fits_append [of "ts @ xs" ys] by simp
  then obtain c where c: "f b = Some c" "fdt_holds m0 c (ts @ xs)" "fdt_depth c = fdt_depth b + d"
    using assms(1) b(1,3) unfolding appends_def by blast
  moreover have "fits ((ts @ xs) @ ys)" "k + d \<le> fdt_depth c" using b c by simp_all
  ultimately obtain c' where "g c = Some c'" "fdt_holds m0 c' ((ts @ xs) @ ys)" "fdt_depth c' = fdt_depth c + e"
    using assms(2) unfolding appends_def by blast
  with c show "\<exists>b'. f b \<bind> g = Some b' \<and> fdt_holds m0 b' (ts @ xs @ ys) \<and> fdt_depth b' = fdt_depth b + (d + e)"
    by simp
qed

lemma holds_no_wrap:
  assumes "fdt_holds m0 b ts" "fits (ts @ [t])"
  shows "unat (struct_off b) + token_size t < 2 ^ 32" "unat (struct_off b) + token_size t \<le> unat (strings_off b)"
    "unat (struct_off b) mod 4 = 0" "\<not> fdt_err b"
  using assms tokens_size_mod_4 [of ts] by (simp_all add: fdt_holds_def fits_def mod_add_eq [of 56, symmetric])

lemma holds_depth [simp]: "fdt_holds m0 (b\<lparr>fdt_depth := d\<rparr>) ts = fdt_holds m0 b ts"
  by (simp add: fdt_holds_def)

lemma struct_string_eq:
  assumes "unat (struct_off b) + length n + 1 + pad (length n + 1) < 2 ^ 32" "unat (struct_off b) mod 4 = 0"
  shows "struct_string n b = struct_bytes (chars n @ [0] @ replicate (pad (length n + 1)) 0) b"
proof -
  let ?c = "struct_bytes (chars n @ [0]) b"
  have "struct_bytes [0] (struct_bytes (chars n) b) = ?c" using assms(1) by (simp add: struct_bytes_append)
  moreover have "struct_bytes [0] d = d\<lparr>buf := (buf d)(unat (struct_off d) := 0), struct_off := struct_off d + 1\<rparr>" for d
    by (simp add: struct_bytes_def fun_upd_write)
  ultimately have s: "struct_string n b = struct_align ?c" by (simp add: struct_string_def)
  have off: "unat (struct_off ?c) = unat (struct_off b) + (length n + 1)" using assms(1) by (simp add: struct_off_bytes)
  have "struct_align ?c = struct_bytes (replicate (pad (length n + 1)) 0) ?c"
    using struct_align_eq [of ?c] assms by (simp only: off pad_aligned [OF assms(2)])
  also have "\<dots> = struct_bytes ((chars n @ [0]) @ replicate (pad (length n + 1)) 0) b"
    by (rule struct_bytes_append) (use assms(1) in simp)
  finally show ?thesis by (simp add: s)
qed

lemma appends_push: "n \<noteq> [] \<Longrightarrow> appends (fdt_node_push n) k [Begin_Node n] 1"
  unfolding appends_def
proof (intro allI impI)
  fix m0 b ts assume n: "n \<noteq> []" and b: "fdt_holds m0 b ts" "fits (ts @ [Begin_Node n])"
  note w = holds_no_wrap [OF b]
  let ?c = "struct_bytes (be32 FDT_BEGIN_NODE) b"
  have off: "unat (struct_off ?c) = unat (struct_off b) + 4" using w(1) by (simp add: struct_off_bytes)
  have "struct_string n ?c = struct_bytes (chars n @ [0] @ replicate (pad (length n + 1)) 0) ?c"
    by (rule struct_string_eq) (use w in \<open>simp_all add: off\<close>)
  also have "\<dots> = struct_bytes (enc_token 0 (Begin_Node n)) b"
    using w(1) by (simp add: struct_bytes_append)
  finally have "fdt_node_push n b =
      Some ((struct_bytes (enc_token 0 (Begin_Node n)) b)\<lparr>fdt_depth := fdt_depth b + 1\<rparr>)"
    using n w(4) by (simp add: fdt_node_push_def Let_def struct_word_bytes)
  then show "\<exists>b'. fdt_node_push n b = Some b' \<and> fdt_holds m0 b' (ts @ [Begin_Node n]) \<and> fdt_depth b' = fdt_depth b + 1"
    using holds_struct [OF b(1), of "Begin_Node n"] b(2) by (simp add: fits_def)
qed

lemma appends_pop: "1 \<le> k \<Longrightarrow> appends fdt_node_pop k [End_Node] (- 1)"
  unfolding appends_def
proof (intro allI impI)
  fix m0 b ts assume k: "1 \<le> k" "k \<le> fdt_depth b" and b: "fdt_holds m0 b ts" "fits (ts @ [End_Node])"
  have "fdt_node_pop b = Some ((struct_bytes (enc_token 0 End_Node) b)\<lparr>fdt_depth := fdt_depth b - 1\<rparr>)"
    using k holds_no_wrap(4) [OF b] by (simp add: fdt_node_pop_def struct_word_bytes)
  then show "\<exists>b'. fdt_node_pop b = Some b' \<and> fdt_holds m0 b' (ts @ [End_Node]) \<and> fdt_depth b' = fdt_depth b + - 1"
    using holds_struct [OF b(1), of End_Node] b(2) by (simp add: fits_def)
qed

text \<open>Every property call writes the header, the value and the padding.\<close>

lemma prop_value:
  assumes "fdt_holds m0 b ts" "fits (ts @ [Prop n v])" "prop_begin n (of_nat (length v)) b = Some c"
  shows "struct_align (struct_bytes v c) = struct_bytes (enc_token (strings_off b - strings_base) (Prop n v)) (snd (strings_intern n b))"
    "pad (length v) = 0 \<Longrightarrow> struct_align (struct_bytes v c) = struct_bytes v c"
proof -
  note w = holds_no_wrap [OF assms(1,2)]
  let ?b = "snd (strings_intern n b)" and ?no = "strings_off b - strings_base"
  let ?h = "be32 FDT_PROP @ be32 (of_nat (length v)) @ be32 ?no"
  have c: "c = struct_bytes ?h ?b" using assms(3) prop_begin_eq [of b n] w by simp
  have vc: "struct_bytes v c = struct_bytes (?h @ v) ?b" using w(1) by (simp add: c struct_bytes_append)
  have off: "unat (struct_off (struct_bytes v c)) = unat (struct_off b) + (12 + length v)"
    using w(1) by (simp add: vc struct_off_bytes)
  have p: "pad (12 + length v) = pad (length v)" using pad_aligned [of 12] by simp
  have "struct_align (struct_bytes v c) = struct_bytes (replicate (pad (length v)) 0) (struct_bytes v c)"
    using struct_align_eq [of "struct_bytes v c"] w(1) by (simp add: off pad_aligned [OF w(3)] p)
  then show "struct_align (struct_bytes v c) = struct_bytes (enc_token ?no (Prop n v)) ?b"
    "pad (length v) = 0 \<Longrightarrow> struct_align (struct_bytes v c) = struct_bytes v c"
    using w(1) by (simp_all add: vc struct_bytes_append)
qed

lemma appends_prop:
  assumes "\<And>m0 b ts c. fdt_holds m0 b ts \<Longrightarrow> fits (ts @ [Prop n v]) \<Longrightarrow> prop_begin n (of_nat (length v)) b = Some c \<Longrightarrow>
      f b = Some (struct_align (struct_bytes v c))"
  shows "appends f k [Prop n v] 0"
  unfolding appends_def
proof (intro allI impI)
  fix m0 b ts assume b: "fdt_holds m0 b ts" "fits (ts @ [Prop n v])"
  note w = holds_no_wrap [OF b]
  obtain c where c: "prop_begin n (of_nat (length v)) b = Some c" using prop_begin_eq [of b n] w by simp
  have "f b = Some (struct_bytes (enc_token (strings_off b - strings_base) (Prop n v)) (snd (strings_intern n b)))"
    using assms [OF b c] prop_value(1) [OF b c] by simp
  then show "\<exists>b'. f b = Some b' \<and> fdt_holds m0 b' (ts @ [Prop n v]) \<and> fdt_depth b' = fdt_depth b + 0"
    using holds_prop [OF b(1)] b(2) by (simp add: fits_def del: enc_token.simps)
qed

lemma fold_cells: "unat (struct_off b) + 4 * length vs < 2 ^ 32 \<Longrightarrow>
    fold (\<lambda>v. struct_bytes (be32 v)) vs b = struct_bytes (concat (map be32 vs)) b"
proof (induction vs arbitrary: b)
  case (Cons v vs)
  then have "fold (\<lambda>v. struct_bytes (be32 v)) vs (struct_bytes (be32 v) b) =
      struct_bytes (concat (map be32 vs)) (struct_bytes (be32 v) b)"
    by (simp add: struct_off_bytes)
  with Cons.prems show ?case by (simp add: struct_bytes_append)
qed simp

lemma length_cells [simp]: "length (concat (map be32 vs)) = 4 * length vs"
  by (induction vs) simp_all

lemma pad_cells [simp]: "pad (4 * n) = 0"
  unfolding pad_def align4_def by simp

lemma appends_bytes: "appends (fdt_prop_bytes n v) k [Prop n v] 0"
proof (rule appends_prop)
  fix m0 b ts c assume b: "fdt_holds m0 b ts" "fits (ts @ [Prop n v])" "prop_begin n (of_nat (length v)) b = Some c"
  then have "length v < 2 ^ 32" by (simp add: fits_def)
  then have "of_nat (length v) \<noteq> (0 :: u32) \<or> v = []" by (auto simp: word_of_nat_eq_0_iff dest: dvd_imp_le)
  then show "fdt_prop_bytes n v b = Some (struct_align (struct_bytes v c))" using b(3) by (auto simp: fdt_prop_bytes_def)
qed

lemma appends_str: "appends (fdt_prop_str n s) k [Prop n (chars s @ [0])] 0"
  by (rule appends_prop) (simp add: fdt_prop_str_def add.commute)

lemma appends_empty: "appends (fdt_prop_empty n) k [Prop n []] 0"
proof (rule appends_prop)
  fix m0 b ts c assume b: "fdt_holds m0 b ts" "fits (ts @ [Prop n []])" "prop_begin n (of_nat (length ([] :: u8 list))) b = Some c"
  then show "fdt_prop_empty n b = Some (struct_align (struct_bytes [] c))"
    using prop_value(2) [OF b] by (simp add: fdt_prop_empty_def pad_def align4_def)
qed

lemma appends_ncells:
  assumes "vs \<noteq> []" "length vs \<le> 4"
  shows "appends (fdt_prop_ncells n vs) k [Prop n (concat (map be32 vs))] 0"
proof (rule appends_prop)
  fix m0 b ts c assume b: "fdt_holds m0 b ts" "fits (ts @ [Prop n (concat (map be32 vs))])"
    "prop_begin n (of_nat (length (concat (map be32 vs)))) b = Some c"
  note w = holds_no_wrap [OF b(1,2)]
  have "c = struct_bytes (be32 FDT_PROP @ be32 (of_nat (4 * length vs)) @ be32 (strings_off b - strings_base))
      (snd (strings_intern n b))"
    using b(3) w prop_begin_eq [of b n] by simp
  then have "unat (struct_off c) + 4 * length vs < 2 ^ 32" using w(1) by (simp add: struct_off_bytes)
  moreover have "struct_align (struct_bytes (concat (map be32 vs)) c) = struct_bytes (concat (map be32 vs)) c"
    using prop_value(2) [OF b] by simp
  ultimately show "fdt_prop_ncells n vs b = Some (struct_align (struct_bytes (concat (map be32 vs)) c))"
    using b(3) assms by (simp add: fdt_prop_ncells_def fold_cells mult.commute)
qed

lemma appends_word: "appends (fdt_prop_word n v0 v1 v2 v3) k [Prop n (concat (map be32 [v0, v1, v2, v3]))] 0"
proof (rule appends_prop)
  let ?v = "concat (map be32 [v0, v1, v2, v3])"
  fix m0 b ts c assume b: "fdt_holds m0 b ts" "fits (ts @ [Prop n ?v])" "prop_begin n (of_nat (length ?v)) b = Some c"
  then show "fdt_prop_word n v0 v1 v2 v3 b = Some (struct_align (struct_bytes ?v c))"
    using prop_value(2) [OF b] pad_cells [of 4] by (simp add: fdt_prop_word_def)
qed

lemma appends_cells:
  "appends (fdt_prop_cells1 n v0) k [Prop n (be32 v0)] 0"
  "appends (fdt_prop_cells2 n v0 v1) k [Prop n (be32 v0 @ be32 v1)] 0"
  "appends (fdt_prop_cells3 n v0 v1 v2) k [Prop n (be32 v0 @ be32 v1 @ be32 v2)] 0"
  "appends (fdt_prop_interrupt_parent v0) k [Prop ''interrupt-parent'' (be32 v0)] 0"
  using appends_ncells [of "[v0]" n k] appends_ncells [of "[v0, v1]" n k] appends_ncells [of "[v0, v1, v2]" n k]
    appends_ncells [of "[v0]" "''interrupt-parent''" k]
  by (simp_all add: fdt_prop_cells1_def fdt_prop_cells2_def fdt_prop_cells3_def fdt_prop_interrupt_parent_def)

section \<open>The reader gets the tokens back\<close>

fun token_ok :: "fdt_token \<Rightarrow> bool" where
  "token_ok (Begin_Node n) \<longleftrightarrow> CHR 0x00 \<notin> set n"
| "token_ok (Prop n v) \<longleftrightarrow> CHR 0x00 \<notin> set n"
| "token_ok End_Node \<longleftrightarrow> True"

lemma lex_token:
  assumes "bytes_at m off (enc_token no t)" "name_at m se no t" "token_ok t" "off mod 4 = 0"
    "token_size t \<le> 4096" "se \<le> 16384"
  shows "lex_struct (Suc fuel) m 4152 off = map_option (Cons t) (lex_struct fuel m 4152 (off + token_size t))"
proof (cases t)
  case (Begin_Node n)
  then have "get32 m off = FDT_BEGIN_NODE" and n: "bytes_at m (off + 4) (chars n @ [0])"
    using assms(1) by (simp_all add: bytes_at_append bytes_at_Cons get32_be32 add.assoc)
  moreover have "read_string 16384 m (off + 4) = Some n"
    by (rule read_string_chars [OF n]) (use Begin_Node assms(3,5) in simp_all)
  moreover have "align4 (off + 4 + length n + 1) = off + token_size t"
    using Begin_Node assms(4) pad_aligned [of "off + 4" "length n + 1"] by (simp add: align4_pad)
  ultimately show ?thesis by (simp add: Begin_Node Let_def)
next
  case (Prop n v)
  have v: "bytes_at m (off + 12) v" and h: "get32 m off = FDT_PROP" "get32 m (off + 4) = of_nat (length v)" "get32 m (off + 8) = no"
    using assms(1) Prop by (simp_all add: bytes_at_append get32_be32 add.assoc)
  have len: "unat (of_nat (length v) :: u32) = length v" using assms(5) Prop by (simp add: unat_of_nat)
  have "read_string 16384 m (4152 + unat no) = Some n"
    by (rule read_string_chars) (use Prop assms(2,3,6) in simp_all)
  moreover have "align4 (off + 12 + length v) = off + token_size t"
  proof -
    have "(off + 12) mod 4 = 0" using assms(4) by presburger
    from pad_aligned [OF this, of "length v"] show ?thesis by (simp add: Prop align4_pad)
  qed
  ultimately show ?thesis using map_bytes_at [OF v] by (simp add: Prop Let_def h len)
next
  case End_Node
  then show ?thesis using assms(1) by (simp add: get32_be32)
qed

lemma lex_tokens:
  assumes "tokens_at m se off ts" "bytes_at m (off + tokens_size ts) (be32 FDT_END)" "\<forall>t\<in>set ts. token_ok t"
    "off mod 4 = 0" "tokens_size ts \<le> 4096" "se \<le> 16384" "length ts < fuel"
  shows "lex_struct fuel m 4152 off = Some ts"
  using assms(1-5,7)
proof (induction ts arbitrary: off fuel)
  case Nil
  then obtain f where "fuel = Suc f" by (cases fuel) auto
  then show ?case using Nil by (simp add: get32_be32 Let_def)
next
  case (Cons t ts)
  then obtain f where f: "fuel = Suc f" "length ts < f" by (cases fuel) auto
  obtain no where no: "bytes_at m off (enc_token no t)" "name_at m se no t" using Cons.prems(1) by auto
  have "(off + token_size t) mod 4 = 0"
    using Cons.prems(4) token_size_mod_4 [of t] by (metis add_0_right mod_add_eq mod_0)
  then have "lex_struct f m 4152 (off + token_size t) = Some ts"
    using Cons.prems f by (intro Cons.IH) (simp_all add: add.assoc)
  then show ?case using lex_token [OF no, of f] Cons.prems assms(6) f by simp
qed

section \<open>Round trip\<close>

lemma holds_init: "fdt_holds (buf b) (fdt_builder_init b) [Begin_Node []]" "fdt_depth (fdt_builder_init b) = 0"
proof -
  let ?b = "b\<lparr>struct_off := 56, strings_off := 4152, fdt_depth := 0, fdt_err := False, rsvmap_count := 0\<rparr>"
  have "struct_string [] (struct_bytes (be32 FDT_BEGIN_NODE) ?b) =
      struct_bytes (chars [] @ [0] @ replicate (pad (length ([] :: string) + 1)) 0) (struct_bytes (be32 FDT_BEGIN_NODE) ?b)"
    by (rule struct_string_eq) (simp_all add: struct_bytes_def pad_def align4_def)
  then have eq: "fdt_builder_init b = struct_bytes (enc_token 0 (Begin_Node [])) ?b"
    by (simp add: fdt_builder_init_def bases struct_word_bytes struct_bytes_append)
  have "fdt_holds (buf b) ?b []" by (simp add: fdt_holds_def)
  from holds_struct [OF this, of "Begin_Node []"]
  show "fdt_holds (buf b) (fdt_builder_init b) [Begin_Node []]" by (simp add: eq pad_def align4_def)
  show "fdt_depth (fdt_builder_init b) = 0" by (simp add: eq)
qed

lemma length_le_size: "length ts \<le> tokens_size ts"
proof -
  have *: "1 \<le> token_size t" for t by (cases t) simp_all
  show ?thesis
  proof (induction ts)
    case (Cons t ts)
    then show ?case using * [of t] by simp
  qed simp
qed

lemma serialize_parses:
  assumes b: "fdt_holds m0 b ts" and d: "fdt_depth b = 0" and ok: "\<forall>t\<in>set ts. token_ok t"
    and fit: "tokens_size ts + 8 \<le> 4096"
  obtains b' where "fdt_serialize b = (4152 + names_size ts, b')" "\<And>i. 4152 + names_size ts \<le> i \<Longrightarrow> buf b' i = m0 i"
    "\<And>m'. (\<And>i. i < 4152 + names_size ts \<Longrightarrow> m' i = buf b' i) \<Longrightarrow> fdt_parse m' = parse_tokens (ts @ [End_Node]) []"
proof -
  let ?ts = "ts @ [End_Node]" and ?n = "names_size ts"
  let ?c = "struct_bytes (enc_token 0 End_Node) b"
  let ?d = "struct_bytes (be32 FDT_END) ?c"
  have c: "fdt_holds m0 ?c ?ts" by (rule holds_struct [OF b]) (use fit in simp_all)
  note c' = c [unfolded fdt_holds_def]
  have m4: "unat (struct_off ?c) mod 4 = 0"
    using c' tokens_size_mod_4 [of ?ts] by (simp add: mod_add_eq [of 56, symmetric] del: size_simps)
  have al: "struct_align ?c = ?c" using m4 by (subst struct_align.simps) (simp add: and_3_zero)
  have off: "unat (struct_off ?d) = 60 + tokens_size ?ts" using c' by (simp add: struct_off_bytes)
  have strs: "unat (strings_off ?d) = 4152 + ?n" using c' by simp
  have len: "unat (strings_off ?d - strings_base) = ?n"
    using strs by (simp add: bases unat_sub word_le_nat_alt)
  have total: "unat (strings_base + (strings_off ?d - strings_base)) = 4152 + ?n" using strs by simp
  define hdr where "hdr = be32 FDT_MAGIC @ be32 (strings_off ?d) @ be32 56 @ be32 4152 @ be32 FDT_HEADER_SIZE @ be32 FDT_VERSION @
    be32 FDT_LAST_COMP_VERSION @ be32 FDT_HART_BASE @ be32 (strings_off ?d - 4152) @ be32 (struct_off ?d - 56) @
    be64 0 @ be64 0"
  define m where "m = write_bytes (60 + tokens_size ?ts) (replicate (4152 - (60 + tokens_size ?ts)) 0) (write_bytes 0 hdr (buf ?d))"
  have hdr: "length hdr = 56" by (simp add: hdr_def)
  have ser: "fdt_serialize b = (4152 + ?n, ?d\<lparr>buf := m\<rparr>)"
    using b d c' strs by (simp add: fdt_serialize_def fdt_holds_def Let_def struct_word_bytes al [simplified] off [simplified]
        m_def hdr_def bases write_bytes_join word_le_nat_alt linorder_not_less)
  have bufd: "buf ?d = write_bytes (56 + tokens_size ?ts) (be32 FDT_END) (buf ?c)"
    using c' by (simp add: struct_bytes_def [of "be32 FDT_END"])
  have toks: "tokens_at m (4152 + ?n) 56 ?ts"
    by (rule tokens_at_frame [of "buf ?c" "4152 + ?n"])
      (use c' fit in \<open>auto simp: m_def bufd [simplified] write_bytes_def hdr\<close>)
  have fin: "bytes_at m (56 + tokens_size ?ts) (be32 FDT_END)"
    unfolding m_def bufd by (intro bytes_at_frame bytes_at_write) (simp_all add: hdr)
  have head: "bytes_at m 0 hdr" unfolding m_def by (intro bytes_at_frame bytes_at_write) (simp add: hdr)
  have parse: "fdt_parse m' = parse_tokens ?ts []" if eq: "\<And>i. i < 4152 + ?n \<Longrightarrow> m' i = m i" for m'
  proof -
    have "lex_struct 16384 m' 4152 56 = Some ?ts"
    proof (rule lex_tokens)
      show "tokens_at m' (4152 + ?n) 56 ?ts" by (rule tokens_at_frame [OF toks]) (use eq fit in auto)
      show "bytes_at m' (56 + tokens_size ?ts) (be32 FDT_END)" by (rule bytes_at_cong [OF fin]) (use eq fit in simp)
      show "length ?ts < 16384" using length_le_size [of ts] fit by simp
    qed (use ok fit b in \<open>auto simp: fdt_holds_def\<close>)
    moreover have "bytes_at m' 0 hdr" by (rule bytes_at_cong [OF head]) (use eq hdr in simp)
    then have "get32 m' 0 = FDT_MAGIC" "get32 m' 8 = 56" "get32 m' 12 = 4152" "get32 m' 20 = FDT_VERSION"
      "get32 m' 24 = FDT_LAST_COMP_VERSION"
      by (simp_all add: hdr_def bytes_at_append get32_be32)
    ultimately show ?thesis by (simp add: fdt_parse_def)
  qed
  have "m i = m0 i" if "4152 + ?n \<le> i" for i
    using that fit b by (simp add: m_def bufd [simplified] write_bytes_def hdr) (simp add: struct_bytes_def write_bytes_def fdt_holds_def)
  with ser parse show thesis by (intro that [of "?d\<lparr>buf := m\<rparr>"]) auto
qed

text \<open>A client that writes a given tree.\<close>

fun emit_node :: "fdt_node \<Rightarrow> fdt_builder \<Rightarrow> fdt_builder option" where
  "emit_node (Fdt_Node n ps cs) h =
     do { h \<leftarrow> fdt_node_push n h;
          h \<leftarrow> fold (\<lambda>(k, v) r. r \<bind> fdt_prop_bytes k v) ps (Some h);
          h \<leftarrow> fold (\<lambda>c r. r \<bind> emit_node c) cs (Some h);
          fdt_node_pop h }"

definition emit_root :: "fdt_node \<Rightarrow> fdt_builder \<Rightarrow> fdt_builder option" where
  "emit_root t h =
     (case t of Fdt_Node _ ps cs \<Rightarrow>
        do { h \<leftarrow> fold (\<lambda>(k, v) r. r \<bind> fdt_prop_bytes k v) ps (Some h);
             fold (\<lambda>c r. r \<bind> emit_node c) cs (Some h) })"

text \<open>Names are C strings, and not empty for a subnode.\<close>

primrec node_name :: "fdt_node \<Rightarrow> string" where
  "node_name (Fdt_Node n ps cs) = n"

fun node_ok :: "fdt_node \<Rightarrow> bool" where
  "node_ok (Fdt_Node n ps cs) \<longleftrightarrow>
     CHR 0x00 \<notin> set n \<and> (\<forall>p\<in>set ps. CHR 0x00 \<notin> set (fst p)) \<and> (\<forall>c\<in>set cs. node_ok c \<and> node_name c \<noteq> [])"

lemma token_ok_flatten: "node_ok t \<Longrightarrow> u \<in> set (flatten t) \<Longrightarrow> token_ok u"
  by (induction t arbitrary: u) auto

lemma appends_nil: "appends Some k [] 0"
  by (simp add: appends_def)

lemma appends_fold:
  assumes "\<And>x. x \<in> set xs \<Longrightarrow> appends (f x) k (g x) 0"
  shows "appends (\<lambda>h. fold (\<lambda>x r. r \<bind> f x) xs (Some h)) k (concat (map g xs)) 0"
  using assms
proof (induction xs rule: rev_induct)
  case Nil
  then show ?case using appends_nil by simp
next
  case (snoc x xs)
  then show ?case using appends_bind [of "\<lambda>h. fold (\<lambda>x r. r \<bind> f x) xs (Some h)" k _ 0 "f x" _ 0] by simp
qed

lemma appends_eq: "appends f k xs d \<Longrightarrow> xs = ys \<Longrightarrow> d = e \<Longrightarrow> appends f k ys e"
  by simp

lemma appends_props:
  "appends (\<lambda>h. fold (\<lambda>(n, v) r. r \<bind> fdt_prop_bytes n v) ps (Some h)) k (map (\<lambda>(n, v). Prop n v) ps) 0"
proof -
  have "concat (map (\<lambda>(n, v). [Prop n v]) ps) = map (\<lambda>(n, v). Prop n v) ps" by (induction ps) auto
  moreover have "(\<lambda>(n, v) r. r \<bind> fdt_prop_bytes n v) = (\<lambda>p r. r \<bind> (case p of (n, v) \<Rightarrow> fdt_prop_bytes n v))"
    by (auto simp: fun_eq_iff)
  moreover have "appends (\<lambda>h. fold (\<lambda>p r. r \<bind> (case p of (n, v) \<Rightarrow> fdt_prop_bytes n v)) ps (Some h)) k
      (concat (map (\<lambda>(n, v). [Prop n v]) ps)) 0"
    by (rule appends_fold) (auto simp: appends_bytes)
  ultimately show ?thesis by simp
qed

lemma appends_emit: "node_ok t \<Longrightarrow> node_name t \<noteq> [] \<Longrightarrow> 0 \<le> k \<Longrightarrow> appends (emit_node t) k (flatten t) 0"
proof (induction t arbitrary: k)
  case (Fdt_Node n ps cs)
  have "appends (\<lambda>h. fold (\<lambda>c r. r \<bind> emit_node c) cs (Some h)) (k + 1) (concat (map flatten cs)) 0"
    by (rule appends_fold) (use Fdt_Node in simp)
  then have "appends (emit_node (Fdt_Node n ps cs)) k
      ([Begin_Node n] @ map (\<lambda>(n, v). Prop n v) ps @ concat (map flatten cs) @ [End_Node]) (1 + (0 + (0 + - 1)))"
    unfolding emit_node.simps by (intro appends_bind appends_push appends_props appends_pop) (use Fdt_Node.prems in simp_all)
  then show ?case by (simp del: emit_node.simps)
qed

text \<open>
  C19. The device tree writer is correct: whatever tree is written with the builder calls, as long as
  it fits the 4 KiB structure window and the 16 KiB buffer, the calls succeed, \<open>fdt_serialize\<close>
  returns the size of the blob, and a reader of the format gets exactly that tree back from it, at
  any place the blob's bytes are copied to; no byte of the buffer past the blob is written.
\<close>

theorem fdt_roundtrip:
  assumes "node_ok t" "node_name t = []" "tokens_size (flatten t) + 4 \<le> 4096" "names_size (flatten t) \<le> 12232"
  shows "\<exists>b b'. emit_root t (fdt_builder_init h) = Some b \<and> fdt_serialize b = (4152 + names_size (flatten t), b') \<and>
    fdt_parse (buf b') = Some t \<and> (\<forall>i \<ge> 4152 + names_size (flatten t). buf b' i = buf h i)"
proof -
  obtain ps cs where t: "t = Fdt_Node [] ps cs" using assms(2) by (cases t) simp
  let ?ts = "map (\<lambda>(n, v). Prop n v) ps @ concat (map flatten cs)"
  have "appends (\<lambda>h. fold (\<lambda>c r. r \<bind> emit_node c) cs (Some h)) 0 (concat (map flatten cs)) 0"
    by (rule appends_fold) (use t assms(1) in \<open>simp add: appends_emit\<close>)
  then have "appends (emit_root t) 0 ?ts (0 + 0)"
    unfolding emit_root_def t fdt_node.case by (intro appends_bind appends_props) simp
  moreover have "fits ([Begin_Node []] @ ?ts)" using assms(3,4) by (simp add: t fits_def)
  ultimately obtain b where b: "emit_root t (fdt_builder_init h) = Some b" "fdt_holds (buf h) b ([Begin_Node []] @ ?ts)"
    "fdt_depth b = 0"
    using holds_init [of h] unfolding appends_def by fastforce
  have fl: "([Begin_Node []] @ ?ts) @ [End_Node] = flatten t" by (simp add: t)
  have ns: "names_size ([Begin_Node []] @ ?ts) = names_size (flatten t)" by (simp add: t)
  have ok: "\<forall>u\<in>set ([Begin_Node []] @ ?ts). token_ok u" unfolding fl [symmetric]
    using token_ok_flatten [OF assms(1)] fl by (metis Un_iff set_append)
  have sz: "tokens_size ([Begin_Node []] @ ?ts) + 8 \<le> 4096" using assms(3) by (simp add: t)
  obtain b' where "fdt_serialize b = (4152 + names_size (flatten t), b')"
    "\<And>i. 4152 + names_size (flatten t) \<le> i \<Longrightarrow> buf b' i = buf h i" "fdt_parse (buf b') = parse_tokens (flatten t) []"
    using serialize_parses [OF b(2,3) ok sz] unfolding fl ns by metis
  then show ?thesis using b(1) parse_flatten_root [of t] by auto
qed

theorem fdt_roundtrip_witness:
  "\<exists>b b'. emit_root (Fdt_Node [] [(''model'', [1, 2])] [Fdt_Node ''cpus'' [] []])
       (fdt_builder_init (fdt_fresh (\<lambda>_. 0))) = Some b \<and> fdt_serialize b = (4158, b') \<and> fdt_parse (buf b') = Some (Fdt_Node [] [(''model'', [1, 2])] [Fdt_Node ''cpus'' [] []])"
  using fdt_roundtrip [of "Fdt_Node [] [(''model'', [1, 2])] [Fdt_Node ''cpus'' [] []]" "fdt_fresh (\<lambda>_. 0)"]
  by (auto simp: pad_def align4_def)

section \<open>The machine's tree\<close>

text \<open>The tree of the comment above \<open>fdt_build_riscvemu\<close>, as data.\<close>

definition cells :: "u32 list \<Rightarrow> u8 list" where "cells vs = concat (map be32 vs)"

definition cstr :: "string \<Rightarrow> u8 list" where "cstr s = chars s @ [0]"

text \<open>A list of strings: each with its terminator, and nothing after the last one.\<close>

definition string_list :: "string list \<Rightarrow> u8 list" where "string_list ss = concat (map cstr ss)"

definition clint_node :: fdt_node where
  "clint_node = Fdt_Node ''clint@2000000''
     [(''compatible'', cstr ''sifive,clint0''), (''reg'', cells [0, CLINT_BASE, 0, CLINT_SIZE]),
      (''interrupts-extended'', cells [1, 3, 1, 7])] []"

definition plic_node :: fdt_node where
  "plic_node = Fdt_Node ''plic@c000000''
     [(''compatible'', string_list [''sifive,plic-1.0.0'', ''riscv,plic0'']), (''reg'', cells [0, PLIC_BASE, 0, PLIC_SIZE]), (''#address-cells'', cells [0]),
      (''#interrupt-cells'', cells [1]), (''phandle'', cells [2]), (''interrupt-controller'', []),
      (''riscv,ndev'', cells [10]), (''interrupts-extended'', cells [1, 11, 1, 9])] []"

definition uart_node :: fdt_node where
  "uart_node = Fdt_Node ''uart@10000000''
     [(''compatible'', cstr ''ns16550a''), (''reg'', cells [0, UART_BASE, 0, UART_NREGS]),
      (''clock-frequency'', cells [3686400]), (''current-speed'', cells [115200]), (''reg-shift'', cells [0]),
      (''reg-io-width'', cells [1]), (''interrupt-parent'', cells [2]), (''interrupts'', cells [10])] []"

definition chosen_node :: "u32 \<Rightarrow> u32 \<Rightarrow> fdt_node" where
  "chosen_node initrd_start initrd_end = Fdt_Node ''chosen''
     ([(''stdout-path'', cstr ''/soc/uart@10000000''),
       (''bootargs'', cstr ''earlycon console=ttyS0,115200n8 root=/dev/ram0 rw rdinit=/init'')] @
      (if initrd_start \<noteq> 0 \<and> initrd_end \<noteq> 0
       then [(''linux,initrd-start'', cells [0, initrd_start]), (''linux,initrd-end'', cells [0, initrd_end])] else [])) []"

definition memory_node :: fdt_node where
  "memory_node = Fdt_Node ''memory@80000000''
     [(''device_type'', cstr ''memory''), (''reg'', cells [0, 0x80000000, 0, 0x80000000])] []"

definition intc_node :: fdt_node where
  "intc_node = Fdt_Node ''interrupt-controller''
     [(''phandle'', cells [1]), (''#interrupt-cells'', cells [1]), (''compatible'', cstr ''riscv,cpu-intc''),
      (''interrupt-controller'', [])] []"

definition cpus_node :: fdt_node where
  "cpus_node = Fdt_Node ''cpus''
     [(''#address-cells'', cells [1]), (''#size-cells'', cells [0]), (''timebase-frequency'', cells [10000000])]
     [Fdt_Node ''cpu@0''
        [(''device_type'', cstr ''cpu''), (''reg'', cells [0]), (''compatible'', cstr ''riscv''),
         (''mmu-type'', cstr ''riscv,sv32''), (''riscv,isa'', cstr ''rv32imafdqc_zicsr_zifencei_zicond''),
         (''riscv,isa-base'', cstr ''rv32i''),
         (''riscv,isa-extensions'', string_list [''i'', ''m'', ''a'', ''f'', ''d'', ''q'', ''c'', ''zicsr'', ''zifencei'',
            ''zicntr'', ''zicond''])] [intc_node]]"

definition soc_node :: fdt_node where
  "soc_node = Fdt_Node ''soc''
     [(''compatible'', cstr ''simple-bus''), (''#address-cells'', cells [2]), (''#size-cells'', cells [2]), (''ranges'', [])]
     [clint_node, plic_node, uart_node]"

definition intended_tree :: "u32 \<Rightarrow> u32 \<Rightarrow> fdt_node" where
  "intended_tree initrd_start initrd_end = Fdt_Node []
     [(''#address-cells'', cells [2]), (''#size-cells'', cells [2]), (''compatible'', cstr ''riscvemu''),
      (''model'', cstr ''RISCVemu RV32 virt'')]
     [chosen_node initrd_start initrd_end, memory_node, cpus_node, soc_node]"

text \<open>
  What the code makes of the two lists of several strings: it passes \<open>sizeof\<close> of an array whose literal ends in an explicit
  terminator, so the compiler's own terminator becomes an empty string at the end of the list. \<open>machine_tree\<close> is the tree
  in memory.
\<close>

definition listed :: "string \<Rightarrow> string \<Rightarrow> bool" where
  "listed node name \<longleftrightarrow>
     node = ''plic@c000000'' \<and> name = ''compatible'' \<or> node = ''cpu@0'' \<and> name = ''riscv,isa-extensions''"

fun with_empty_strings :: "fdt_node \<Rightarrow> fdt_node" where
  "with_empty_strings (Fdt_Node n props children) =
     Fdt_Node n (map (\<lambda>(name, v). (name, if listed n name then v @ cstr [] else v)) props) (map with_empty_strings children)"

definition machine_tree :: "u32 \<Rightarrow> u32 \<Rightarrow> fdt_node" where
  "machine_tree initrd_start initrd_end = with_empty_strings (intended_tree initrd_start initrd_end)"

lemmas node_defs = clint_node_def plic_node_def uart_node_def memory_node_def intc_node_def cpus_node_def
  soc_node_def cells_def cstr_def

lemma empty_strings:
  "string_list [''sifive,plic-1.0.0'', ''riscv,plic0''] @ cstr [] = plic_comp"
  "string_list [''i'', ''m'', ''a'', ''f'', ''d'', ''q'', ''c'', ''zicsr'', ''zifencei'', ''zicntr'', ''zicond''] @ cstr [] = isa_extensions"
  by (simp_all add: string_list_def cstr_def plic_comp_def isa_extensions_def char_array_def chars_def)

lemma plic_node_eq:
  "with_empty_strings plic_node = Fdt_Node ''plic@c000000''
     [(''compatible'', plic_comp), (''reg'', cells [0, PLIC_BASE, 0, PLIC_SIZE]), (''#address-cells'', cells [0]),
      (''#interrupt-cells'', cells [1]), (''phandle'', cells [2]), (''interrupt-controller'', []),
      (''riscv,ndev'', cells [10]), (''interrupts-extended'', cells [1, 11, 1, 9])] []"
  by (simp add: plic_node_def listed_def empty_strings)

lemma cpus_node_eq:
  "with_empty_strings cpus_node = Fdt_Node ''cpus''
     [(''#address-cells'', cells [1]), (''#size-cells'', cells [0]), (''timebase-frequency'', cells [10000000])]
     [Fdt_Node ''cpu@0''
        [(''device_type'', cstr ''cpu''), (''reg'', cells [0]), (''compatible'', cstr ''riscv''),
         (''mmu-type'', cstr ''riscv,sv32''), (''riscv,isa'', cstr ''rv32imafdqc_zicsr_zifencei_zicond''),
         (''riscv,isa-base'', cstr ''rv32i''), (''riscv,isa-extensions'', isa_extensions)] [intc_node]]"
  by (simp add: cpus_node_def intc_node_def listed_def empty_strings)

lemma machine_tree_eq:
  "machine_tree is ie = Fdt_Node []
     [(''#address-cells'', cells [2]), (''#size-cells'', cells [2]), (''compatible'', cstr ''riscvemu''),
      (''model'', cstr ''RISCVemu RV32 virt'')]
     [chosen_node is ie, memory_node, with_empty_strings cpus_node, with_empty_strings soc_node]"
  by (simp add: machine_tree_def intended_tree_def chosen_node_def memory_node_def listed_def)

lemmas appends_calls = appends_push appends_pop appends_str appends_word appends_bytes appends_empty appends_cells

lemma appends_clint: "0 \<le> k \<Longrightarrow> appends fdt_build_clint k (flatten clint_node) 0"
  unfolding fdt_build_clint_def
  by (rule appends_eq) (rule appends_bind appends_calls | simp add: node_defs)+

lemma appends_plic: "0 \<le> k \<Longrightarrow> appends fdt_build_plic k (flatten (with_empty_strings plic_node)) 0"
  unfolding fdt_build_plic_def
  by (rule appends_eq)
    (rule appends_bind appends_calls | simp add: plic_node_eq cells_def)+

lemma appends_uart: "0 \<le> k \<Longrightarrow> appends fdt_build_uart k (flatten uart_node) 0"
  unfolding fdt_build_uart_def
  by (rule appends_eq) (rule appends_bind appends_calls | simp add: node_defs)+

lemma appends_initrd:
  "appends (\<lambda>h. if c then f h else Some h) k (if c then xs else []) 0" if "appends f k xs 0"
  using that by (cases c) (simp_all add: appends_nil)

lemma appends_chosen: "0 \<le> k \<Longrightarrow> appends (fdt_chosen is ie) k (flatten (chosen_node is ie)) 0"
  unfolding fdt_chosen_def
  by (rule appends_eq)
    (rule appends_bind appends_calls appends_initrd [where xs = "[Prop ''linux,initrd-start'' (be32 0 @ be32 is),
        Prop ''linux,initrd-end'' (be32 0 @ be32 ie)]"] appends_eq [OF appends_bind [OF appends_cells(2) appends_cells(2)]] |
      simp add: chosen_node_def node_defs)+

lemma appends_cpus: "0 \<le> k \<Longrightarrow> appends fdt_cpus k (flatten (with_empty_strings cpus_node)) 0"
  unfolding fdt_cpus_def
  by (rule appends_eq)
    (rule appends_bind appends_calls | simp add: cpus_node_eq intc_node_def cells_def cstr_def)+

lemma soc_node_eq:
  "with_empty_strings soc_node = Fdt_Node ''soc''
     [(''compatible'', cstr ''simple-bus''), (''#address-cells'', cells [2]), (''#size-cells'', cells [2]), (''ranges'', [])]
     [clint_node, with_empty_strings plic_node, uart_node]"
  by (simp add: soc_node_def clint_node_def uart_node_def listed_def)

lemma appends_soc: "0 \<le> k \<Longrightarrow> appends fdt_soc k (flatten (with_empty_strings soc_node)) 0"
  unfolding fdt_soc_def
  by (rule appends_eq)
    (rule appends_bind appends_calls appends_clint appends_plic appends_uart | simp add: soc_node_eq cells_def cstr_def)+

lemma appends_describe:
  "appends (fdt_describe is ie) 0 (tl (butlast (flatten (machine_tree is ie)))) 0"
  unfolding fdt_describe_def
  by (rule appends_eq)
    (rule appends_bind appends_calls appends_chosen appends_cpus appends_soc |
      simp add: machine_tree_eq memory_node_def cells_def cstr_def butlast_append)+

lemma machine_tree_fits:
  "tokens_size (flatten (machine_tree is ie)) + 4 \<le> 4096" "names_size (flatten (machine_tree is ie)) \<le> 12232"
  "node_ok (machine_tree is ie)"
  by (auto simp: machine_tree_def intended_tree_def chosen_node_def node_defs string_list_def listed_def pad_def align4_def)

text \<open>The result does not depend on memory that is written to later, outside the blob.\<close>

lemma fdt_build_correct:
  obtains n m where "fdt_build_riscvemu addr is ie s = (n, s\<lparr>main_memory := m\<rparr>)" "0 < n" "n \<le> 16384"
    "\<And>a. a < addr \<or> unat addr + n \<le> unat a \<Longrightarrow> m a = main_memory s a"
    "\<And>m'. unat addr + n \<le> 2 ^ 32 \<Longrightarrow> (\<And>a. addr \<le> a \<Longrightarrow> unat a < unat addr + n \<Longrightarrow> m' a = m a) \<Longrightarrow>
       fdt_parse (fdt_view addr m') = Some (machine_tree is ie)"
proof -
  let ?t = "machine_tree is ie" and ?m = "fdt_view addr (main_memory s)"
  let ?xs = "tl (butlast (flatten ?t))" and ?n = "4152 + names_size (flatten ?t)"
  let ?ts = "[Begin_Node []] @ ?xs"
  have fl: "?ts @ [End_Node] = flatten ?t" by (simp add: machine_tree_eq butlast_append)
  have size: "tokens_size ?ts + token_size End_Node = tokens_size (flatten ?t)" "names_size ?ts = names_size (flatten ?t)"
    using arg_cong [OF fl, of tokens_size] arg_cong [OF fl, of names_size] by simp_all
  have "fits ?ts" using machine_tree_fits [of "is" ie] size by (simp add: fits_def)
  moreover have "fdt_holds ?m (fdt_builder_init (fdt_fresh ?m)) [Begin_Node []]"
    using holds_init(1) [of "fdt_fresh ?m"] by (simp add: fdt_fresh_def)
  ultimately obtain b where b: "fdt_describe is ie (fdt_builder_init (fdt_fresh ?m)) = Some b" "fdt_holds ?m b ?ts" "fdt_depth b = 0"
    using appends_describe [of "is" ie] holds_init(2) [of "fdt_fresh ?m"] unfolding appends_def by fastforce
  have ok: "\<forall>u\<in>set ?ts. token_ok u" using token_ok_flatten [OF machine_tree_fits(3)] fl by (metis Un_iff set_append)
  have sz: "tokens_size ?ts + 8 \<le> 4096" using machine_tree_fits(1) [of "is" ie] size by simp
  obtain b' where b': "fdt_serialize b = (?n, b')" "\<And>i. ?n \<le> i \<Longrightarrow> buf b' i = ?m i"
    "\<And>m'. (\<And>i. i < ?n \<Longrightarrow> m' i = buf b' i) \<Longrightarrow> fdt_parse m' = parse_tokens (flatten ?t) []"
    using serialize_parses [OF b(2,3) ok sz] unfolding fl size(2) by metis
  let ?u = "fdt_unview addr (buf b') (main_memory s)"
  have "fdt_build_riscvemu addr is ie s = (?n, s\<lparr>main_memory := ?u\<rparr>)"
    using b(1) b'(1) by (simp add: fdt_build_riscvemu_def)
  moreover have "fdt_parse (fdt_view addr m') = Some ?t"
    if "unat addr + ?n \<le> 2 ^ 32" "\<And>a. addr \<le> a \<Longrightarrow> unat a < unat addr + ?n \<Longrightarrow> m' a = ?u a" for m'
  proof -
    have "fdt_view addr m' i = buf b' i" if "i < ?n" for i
      using that \<open>unat addr + ?n \<le> 2 ^ 32\<close> \<open>\<And>a. addr \<le> a \<Longrightarrow> unat a < unat addr + ?n \<Longrightarrow> m' a = ?u a\<close> [of "addr + of_nat i"]
        unat_add_of_nat [of addr i] by (simp add: fdt_view_def fdt_unview_def word_le_nat_alt)
    then show ?thesis using b'(3) [of "fdt_view addr m'"] parse_flatten_root [of ?t] by simp
  qed
  moreover have "?u a = main_memory s a" if "a < addr \<or> unat addr + ?n \<le> unat a" for a
  proof (cases "a < addr")
    case False
    then have le: "unat addr \<le> unat a" by (simp add: word_less_nat_alt)
    then have "of_nat (unat a - unat addr) = a - addr" by (simp add: of_nat_diff)
    then have "?m (unat a - unat addr) = main_memory s a" by (simp add: fdt_view_def)
    then show ?thesis using False that b'(2) [of "unat a - unat addr"] by (auto simp: fdt_unview_def)
  qed (auto simp: fdt_unview_def)
  ultimately show thesis using machine_tree_fits(2) [of "is" ie] by (intro that [of ?n ?u]) auto
qed

text \<open>
  C20. The machine description: \<open>fdt_build_riscvemu\<close> always succeeds with at most 16 KiB, and what it leaves in
  RAM is a device tree blob a reader of the format parses to the machine's tree (the nodes and
  properties, with the emulated devices' addresses and interrupt numbers, and the initrd's bounds
  when there is one) with one flaw: the PLIC's \<open>compatible\<close> and the hart's \<open>riscv,isa-extensions\<close> each end with an
  empty string that the intended tree does not have. It changes no other byte of memory and nothing else of the machine.
\<close>

theorem fdt_machine_description:
  assumes "fdt_build_riscvemu addr is ie s = (n, s')" and "unat addr + n \<le> 2 ^ 32"
  shows "0 < n \<and> n \<le> 16384 \<and>
    fdt_parse (fdt_view addr (main_memory s')) = Some (with_empty_strings (intended_tree is ie)) \<and>
    s' = s\<lparr>main_memory := main_memory s'\<rparr> \<and>
    (\<forall>a. a < addr \<or> unat addr + n \<le> unat a \<longrightarrow> main_memory s' a = main_memory s a)"
  by (rule fdt_build_correct [of addr "is" ie s]) (use assms in \<open>auto simp: machine_tree_def\<close>)

theorem fdt_machine_description_witness:
  "fdt_parse (fdt_view 0x87f00000 (main_memory (snd (fdt_build_riscvemu 0x87f00000 0x82000000 0x82100000 (reset_state 0x80000000))))) =
     Some (with_empty_strings (intended_tree 0x82000000 0x82100000))"
proof (rule fdt_build_correct [of "0x87f00000" "0x82000000" "0x82100000" "reset_state 0x80000000"])
  fix n m
  assume "fdt_build_riscvemu 0x87f00000 0x82000000 0x82100000 (reset_state 0x80000000) = (n, (reset_state 0x80000000)\<lparr>main_memory := m\<rparr>)"
    and "n \<le> 16384"
  from fdt_machine_description [OF this(1)] this show ?thesis by simp
qed

end
