(* ===== verification/Boot.thy ===== *)
theory Boot
  imports Memory Fdt
begin

text \<open>
  What \<open>main\<close> of src/src/emu.c does between the command line and the run loop: the files are mapped
  (\<open>map_file\<close> of src/src/fmap.c), bounds- and overlap-checked and copied into the emulated RAM, the device tree
  is built, and the boot registers are set. A configuration is what the command line asks for, with the
  files as the host serves them; a failed check calls \<open>fatal\<close>, which ends the emulator.

  Sizes are \<open>size_t\<close> and the sums of an address and a size are taken in 64 bits: they are naturals here.
\<close>

section \<open>Files\<close>

record host_file =
  can_open :: bool
  fstat_ok :: bool
  mmap_ok :: bool
  contents :: "u8 list"

definition map_file :: "host_file \<Rightarrow> u8 list option" where
  "map_file f =
     (if \<not> can_open f then None
      else if \<not> fstat_ok f then None
      else if contents f = [] then None
      else if \<not> mmap_ok f then None
      else Some (contents f))"

section \<open>Staging\<close>

record boot_config =
  program :: host_file
  program_base :: u32
  initrd :: "(host_file \<times> u32) option"
  fdt_at :: "u32 option"
  extra_slots :: "(host_file \<times> u32) list"

abbreviation mem_limit :: nat where "mem_limit \<equiv> 0xFFFFF000"

text \<open>\<open>memcpy(g_state.main_memory + base, data, len)\<close>.\<close>

definition stage :: "u32 \<Rightarrow> u8 list \<Rightarrow> emu \<Rightarrow> emu" where
  "stage base data s =
     s\<lparr>main_memory := (\<lambda>a. if base \<le> a \<and> unat a < unat base + length data then data ! (unat a - unat base)
                          else main_memory s a)\<rparr>"

definition load_program :: "boot_config \<Rightarrow> emu \<Rightarrow> (nat \<times> emu) res" where
  "load_program cfg s =
     (case map_file (program cfg) of
        None \<Rightarrow> Inl ''failed to load program''
      | Some data \<Rightarrow>
          if unat (program_base cfg) + length data > mem_limit then Inl ''program too large for memory''
          else Inr (length data, stage (program_base cfg) data s))"

text \<open>The initrd's bytes with its start and end, before it is copied.\<close>

definition map_initrd :: "boot_config \<Rightarrow> (u8 list option \<times> u32 \<times> u32) res" where
  "map_initrd cfg =
     (case initrd cfg of
        None \<Rightarrow> Inr (None, 0, 0)
      | Some (file, initrd_addr) \<Rightarrow>
          (case map_file file of
             None \<Rightarrow> Inl ''failed to load --initrd file''
           | Some data \<Rightarrow>
               if length data > mem_limit \<or> unat initrd_addr > mem_limit - length data
               then Inl ''initrd too large for memory''
               else Inr (Some data, initrd_addr, initrd_addr + of_nat (length data))))"

text \<open>The device tree, with the boot registers a0 and a1; the result is its size.\<close>

definition place_fdt :: "boot_config \<Rightarrow> nat \<Rightarrow> u32 \<Rightarrow> u32 \<Rightarrow> emu \<Rightarrow> (nat \<times> emu) res" where
  "place_fdt cfg len initrd_start initrd_end s =
     (case fdt_at cfg of
        None \<Rightarrow> Inr (0, s)
      | Some fdt_addr \<Rightarrow>
          let (fdt_size, s) = fdt_build_riscvemu fdt_addr initrd_start initrd_end s
          in if fdt_size = 0 then Inl ''failed to build device tree''
             else if unat fdt_addr + fdt_size > mem_limit \<or> unat fdt_addr < unat (program_base cfg) + len
             then Inl ''device tree overlaps loaded program''
             else Inr (fdt_size, s\<lparr>gpr := (gpr s)(10 := 0, 11 := fdt_addr)\<rparr>))"

definition overlaps_fdt :: "boot_config \<Rightarrow> nat \<Rightarrow> nat \<Rightarrow> nat \<Rightarrow> bool" where
  "overlaps_fdt cfg fdt_size from to =
     (case fdt_at cfg of
        None \<Rightarrow> False
      | Some fdt_addr \<Rightarrow> from < unat fdt_addr + fdt_size \<and> unat fdt_addr < to)"

definition place_initrd :: "boot_config \<Rightarrow> nat \<Rightarrow> nat \<Rightarrow> u8 list option \<Rightarrow> u32 \<Rightarrow> u32 \<Rightarrow> emu \<Rightarrow> emu res" where
  "place_initrd cfg len fdt_size initrd_map initrd_start initrd_end s =
     (case initrd_map of
        None \<Rightarrow> Inr s
      | Some data \<Rightarrow>
          if overlaps_fdt cfg fdt_size (unat initrd_start) (unat initrd_end)
          then Inl ''initrd overlaps the device tree''
          else if unat initrd_start < unat (program_base cfg) + len \<and> program_base cfg < initrd_end
          then Inl ''initrd overlaps the loaded program''
          else Inr (stage initrd_start data s))"

fun place_extra :: "boot_config \<Rightarrow> nat \<Rightarrow> (host_file \<times> u32) list \<Rightarrow> emu \<Rightarrow> emu res" where
  "place_extra cfg fdt_size [] s = Inr s"
| "place_extra cfg fdt_size ((file, base) # slots) s =
     (case map_file file of
        None \<Rightarrow> Inl ''failed to load --load binary''
      | Some data \<Rightarrow>
          if unat base + length data > mem_limit then Inl ''extra binary too large for memory''
          else if overlaps_fdt cfg fdt_size (unat base) (unat base + length data)
          then Inl ''extra binary overlaps the device tree''
          else place_extra cfg fdt_size slots (stage base data s))"

definition boot :: "bool \<Rightarrow> boot_config \<Rightarrow> emu res" where
  "boot calloc_ok cfg =
     (case init_mem calloc_ok zero_state of Inl msg \<Rightarrow> Inl msg | Inr s \<Rightarrow>
      case load_program cfg s of Inl msg \<Rightarrow> Inl msg | Inr (len, s) \<Rightarrow>
      case map_initrd cfg of Inl msg \<Rightarrow> Inl msg | Inr (initrd_map, initrd_start, initrd_end) \<Rightarrow>
      case place_fdt cfg len initrd_start initrd_end s of Inl msg \<Rightarrow> Inl msg | Inr (fdt_size, s) \<Rightarrow>
      case place_initrd cfg len fdt_size initrd_map initrd_start initrd_end s of Inl msg \<Rightarrow> Inl msg | Inr s \<Rightarrow>
      case place_extra cfg fdt_size (extra_slots cfg) s of Inl msg \<Rightarrow> Inl msg | Inr s \<Rightarrow>
      Inr (start_at (program_base cfg) s))"

section \<open>What is in memory when the hart starts\<close>

definition in_range :: "u32 \<Rightarrow> nat \<Rightarrow> u32 \<Rightarrow> bool" where
  "in_range base len a \<longleftrightarrow> base \<le> a \<and> unat a < unat base + len"

definition image_at :: "(u32 \<Rightarrow> u8) \<Rightarrow> u32 \<Rightarrow> u8 list \<Rightarrow> bool" where
  "image_at m base data \<longleftrightarrow> (\<forall>a. in_range base (length data) a \<longrightarrow> m a = data ! (unat a - unat base))"

definition extras_clear :: "boot_config \<Rightarrow> u32 \<Rightarrow> nat \<Rightarrow> bool" where
  "extras_clear cfg base len \<longleftrightarrow>
     (\<forall>(file, b)\<in>set (extra_slots cfg). unat b + length (contents file) \<le> unat base \<or> unat base + len \<le> unat b)"

definition initrd_start :: "boot_config \<Rightarrow> u32" where
  "initrd_start cfg = (case initrd cfg of None \<Rightarrow> 0 | Some (file, a) \<Rightarrow> a)"

definition initrd_end :: "boot_config \<Rightarrow> u32" where
  "initrd_end cfg = (case initrd cfg of None \<Rightarrow> 0 | Some (file, a) \<Rightarrow> a + of_nat (length (contents file)))"

lemma map_file_SomeD: "map_file f = Some data \<Longrightarrow> data = contents f"
  by (auto simp: map_file_def split: if_splits)

lemma stage_outside: "\<not> in_range base (length data) a \<Longrightarrow> main_memory (stage base data s) a = main_memory s a"
  by (auto simp: stage_def in_range_def)

lemma stage_image: "image_at (main_memory (stage base data s)) base data"
  by (simp add: image_at_def stage_def in_range_def)

lemma stage_frame: "stage base data s = s\<lparr>main_memory := main_memory (stage base data s)\<rparr>"
  by (simp add: stage_def)

lemma in_range_disjoint:
  "in_range base len a \<Longrightarrow> unat b + n \<le> unat base \<or> unat base + len \<le> unat b \<Longrightarrow> \<not> in_range b n a"
  by (auto simp: in_range_def word_le_nat_alt)

lemma image_at_cong: "image_at m base data \<Longrightarrow> (\<And>a. in_range base (length data) a \<Longrightarrow> m' a = m a) \<Longrightarrow> image_at m' base data"
  by (simp add: image_at_def)

text \<open>The extra binaries stay off the device tree, and off what they do not overlap.\<close>

lemma place_extra_frame:
  assumes "place_extra cfg n slots s = Inr t"
  shows "(\<exists>m. t = s\<lparr>main_memory := m\<rparr>) \<and>
    (\<forall>a. (\<forall>p\<in>set slots. \<not> in_range (snd p) (length (contents (fst p))) a) \<longrightarrow> main_memory t a = main_memory s a) \<and>
    (\<forall>fdt a. fdt_at cfg = Some fdt \<longrightarrow> in_range fdt n a \<longrightarrow> main_memory t a = main_memory s a)"
  using assms
proof (induction cfg n slots s rule: place_extra.induct)
  case (1 cfg n s)
  have "\<exists>m. s = s\<lparr>main_memory := m\<rparr>" by (rule exI [of _ "main_memory s"]) simp
  then show ?case using 1 by simp
next
  case (2 cfg n f base slots s)
  let ?d = "contents f"
  have f: "map_file f = Some ?d" "\<not> overlaps_fdt cfg n (unat base) (unat base + length ?d)"
    and t: "place_extra cfg n slots (stage base ?d s) = Inr t"
    using "2.prems" by (auto dest: map_file_SomeD split: option.splits if_splits)
  have IH: "\<exists>m. t = (stage base ?d s)\<lparr>main_memory := m\<rparr>"
    "\<And>a. \<forall>p\<in>set slots. \<not> in_range (snd p) (length (contents (fst p))) a \<Longrightarrow> main_memory t a = main_memory (stage base ?d s) a"
    "\<And>fdt a. fdt_at cfg = Some fdt \<Longrightarrow> in_range fdt n a \<Longrightarrow> main_memory t a = main_memory (stage base ?d s) a"
    using "2.IH" [OF f(1) _ f(2) t] "2.prems" f by (auto split: if_splits)
  have "\<not> in_range base (length ?d) a" if "fdt_at cfg = Some fdt" "in_range fdt n a" for fdt a
    using that f(2) by (auto simp: overlaps_fdt_def in_range_def word_le_nat_alt)
  then show ?case using IH stage_outside [of base ?d] by (auto simp: stage_def)
qed

lemma init_mem_zero: "init_mem True zero_state = Inr zero_state"
  by (simp add: init_mem_def zero_state_def uart_init_def uart_update_irq_def uart_want_def)

lemma place_fdt_correct:
  assumes "place_fdt cfg len is ie s = Inr (n, t)"
  shows "fdt_at cfg = None \<Longrightarrow> t = s"
    "fdt_at cfg = Some fdt \<Longrightarrow> \<exists>m. t = s\<lparr>main_memory := m, gpr := (gpr s)(10 := 0, 11 := fdt)\<rparr>"
    "in_range (program_base cfg) len a \<Longrightarrow> main_memory t a = main_memory s a"
    "fdt_at cfg = Some fdt \<Longrightarrow> (\<And>a. in_range fdt n a \<Longrightarrow> m' a = main_memory t a) \<Longrightarrow>
       fdt_parse (fdt_view fdt m') = Some (machine_tree is ie)"
proof -
  show "fdt_at cfg = None \<Longrightarrow> t = s" using assms by (simp add: place_fdt_def)
  have *: "(\<exists>m. t = s\<lparr>main_memory := m, gpr := (gpr s)(10 := 0, 11 := fdt)\<rparr>) \<and>
      (in_range (program_base cfg) len a \<longrightarrow> main_memory t a = main_memory s a) \<and>
      ((\<forall>a. in_range fdt n a \<longrightarrow> m' a = main_memory t a) \<longrightarrow> fdt_parse (fdt_view fdt m') = Some (machine_tree is ie))"
    if "fdt_at cfg = Some fdt" for fdt
  proof (rule fdt_build_correct [of fdt "is" ie s])
    fix k m
    assume b: "fdt_build_riscvemu fdt is ie s = (k, s\<lparr>main_memory := m\<rparr>)"
      and out: "\<And>a. a < fdt \<or> unat fdt + k \<le> unat a \<Longrightarrow> m a = main_memory s a"
      and parse: "\<And>m'. unat fdt + k \<le> 2 ^ 32 \<Longrightarrow> (\<And>a. fdt \<le> a \<Longrightarrow> unat a < unat fdt + k \<Longrightarrow> m' a = m a) \<Longrightarrow>
        fdt_parse (fdt_view fdt m') = Some (machine_tree is ie)"
    have n: "n = k" "unat fdt + k \<le> mem_limit" "unat (program_base cfg) + len \<le> unat fdt"
      and t: "t = s\<lparr>main_memory := m, gpr := (gpr s)(10 := 0, 11 := fdt)\<rparr>"
      using assms that b by (auto simp: place_fdt_def split: if_splits)
    have "in_range (program_base cfg) len a \<longrightarrow> m a = main_memory s a"
      using out [of a] n(3) by (auto simp: in_range_def word_less_nat_alt)
    then show ?thesis using t n parse [of m'] by (auto simp: in_range_def)
  qed
  from this [of fdt] show "fdt_at cfg = Some fdt \<Longrightarrow> \<exists>m. t = s\<lparr>main_memory := m, gpr := (gpr s)(10 := 0, 11 := fdt)\<rparr>"
    "fdt_at cfg = Some fdt \<Longrightarrow> (\<And>a. in_range fdt n a \<Longrightarrow> m' a = main_memory t a) \<Longrightarrow>
       fdt_parse (fdt_view fdt m') = Some (machine_tree is ie)" by blast+
  show "in_range (program_base cfg) len a \<Longrightarrow> main_memory t a = main_memory s a"
    using * assms by (cases "fdt_at cfg") (auto simp: place_fdt_def)
qed

lemma place_initrd_correct:
  assumes "place_initrd cfg len n im is ie s = Inr t" and "\<forall>d. im = Some d \<longrightarrow> unat ie = unat is + length d"
  shows "\<exists>m. t = s\<lparr>main_memory := m\<rparr>" "im = Some d \<Longrightarrow> image_at (main_memory t) is d"
    "in_range (program_base cfg) len a \<Longrightarrow> main_memory t a = main_memory s a"
    "fdt_at cfg = Some fdt \<Longrightarrow> in_range fdt n a \<Longrightarrow> main_memory t a = main_memory s a"
proof -
  show "\<exists>m. t = s\<lparr>main_memory := m\<rparr>"
    using assms(1) exI [of "\<lambda>m. s = s\<lparr>main_memory := m\<rparr>" "main_memory s"]
    by (auto simp: place_initrd_def stage_def split: option.splits if_splits)
  show "im = Some d \<Longrightarrow> image_at (main_memory t) is d"
    using assms(1) stage_image by (auto simp: place_initrd_def split: if_splits)
  show "in_range (program_base cfg) len a \<Longrightarrow> main_memory t a = main_memory s a"
    using assms stage_outside [of "is" _ a s]
    by (auto simp: place_initrd_def in_range_def word_le_nat_alt word_less_nat_alt split: option.splits if_splits)
  show "fdt_at cfg = Some fdt \<Longrightarrow> in_range fdt n a \<Longrightarrow> main_memory t a = main_memory s a"
    using assms stage_outside [of "is" _ a s]
    by (auto simp: place_initrd_def overlaps_fdt_def in_range_def word_le_nat_alt word_less_nat_alt split: option.splits if_splits)
qed

text \<open>The state after staging: everything but memory and the two boot registers is as after \<open>init_mem\<close>.\<close>

lemma boot_stages:
  assumes "boot True cfg = Inr s"
  obtains m g where
    "s = start_at (program_base cfg) (zero_state\<lparr>main_memory := m, gpr := g\<rparr>)"
    "extras_clear cfg (program_base cfg) (length (contents (program cfg))) \<Longrightarrow> image_at m (program_base cfg) (contents (program cfg))"
    "\<And>f a. initrd cfg = Some (f, a) \<Longrightarrow> extras_clear cfg a (length (contents f)) \<Longrightarrow> image_at m a (contents f)"
    "fdt_at cfg = None \<Longrightarrow> g = gpr zero_state"
    "\<And>fdt. fdt_at cfg = Some fdt \<Longrightarrow> g = (gpr zero_state)(10 := 0, 11 := fdt) \<and>
       fdt_parse (fdt_view fdt m) = Some (machine_tree (initrd_start cfg) (initrd_end cfg))"
proof -
  let ?base = "program_base cfg" and ?prog = "contents (program cfg)"
  let ?is = "initrd_start cfg" and ?ie = "initrd_end cfg"
  let ?s1 = "stage ?base ?prog zero_state"
  have p: "load_program cfg zero_state = Inr (length ?prog, ?s1)" "unat ?base + length ?prog \<le> mem_limit"
    using assms unfolding boot_def init_mem_zero
    by (auto simp: load_program_def dest: map_file_SomeD split: option.splits if_splits)
  obtain im where im: "map_initrd cfg = Inr (im, ?is, ?ie)"
    "\<And>f a. initrd cfg = Some (f, a) \<Longrightarrow> im = Some (contents f) \<and> length (contents f) \<le> mem_limit \<and>
       unat a \<le> mem_limit - length (contents f)" "initrd cfg = None \<Longrightarrow> im = None"
    using assms unfolding boot_def init_mem_zero
    by (auto simp: map_initrd_def p initrd_start_def initrd_end_def dest: map_file_SomeD split: option.splits if_splits prod.splits)
  have "unat ?ie = unat ?is + length d" if "im = Some d" for d
  proof (cases "initrd cfg")
    case (Some q)
    then obtain f where "initrd cfg = Some (f, ?is)" "im = Some (contents f)" "length (contents f) \<le> mem_limit"
      "unat ?is \<le> mem_limit - length (contents f)" "?ie = ?is + of_nat (length (contents f))"
      using im(2) by (cases q) (auto simp: initrd_start_def initrd_end_def)
    then show ?thesis using that by (simp add: unat_add_of_nat)
  qed (use im(3) that in simp)
  then have ie: "\<forall>d. im = Some d \<longrightarrow> unat ?ie = unat ?is + length d" by blast
  obtain n s2 s3 s4 where s2: "place_fdt cfg (length ?prog) ?is ?ie ?s1 = Inr (n, s2)"
    and s3: "place_initrd cfg (length ?prog) n im ?is ?ie s2 = Inr s3"
    and s4: "place_extra cfg n (extra_slots cfg) s3 = Inr s4" and s: "s = start_at ?base s4"
    using assms unfolding boot_def init_mem_zero by (auto simp: p im split: sum.splits)
  note f2 = place_fdt_correct [OF s2] and f3 = place_initrd_correct [OF s3 ie] and f4 = place_extra_frame [OF s4]
  have extra: "main_memory s4 a = main_memory s3 a" if "extras_clear cfg b k" "in_range b k a" for a b k
    using f4 that in_range_disjoint [OF that(2)] by (fastforce simp: extras_clear_def)
  have "image_at (main_memory s4) ?base ?prog" if "extras_clear cfg ?base (length ?prog)"
    by (rule image_at_cong [OF stage_image [of ?base ?prog zero_state]]) (simp add: extra [OF that] f3(3) f2(3))
  moreover have "image_at (main_memory s4) a (contents f)"
    if "initrd cfg = Some (f, a)" "extras_clear cfg a (length (contents f))" for f a
  proof -
    have "?is = a" using that(1) by (simp add: initrd_start_def)
    then have "image_at (main_memory s3) a (contents f)" using f3(2) im(2) [OF that(1)] by simp
    then show ?thesis by (rule image_at_cong) (simp add: extra [OF that(2)])
  qed
  moreover have "gpr s4 = gpr s2" using f3(1) f4 by auto
  moreover have "s4 = zero_state\<lparr>main_memory := main_memory s4, gpr := gpr s4\<rparr>"
    using f2(1,2) f3(1) f4 by (cases "fdt_at cfg") (auto simp: stage_def)
  moreover have "fdt_parse (fdt_view fdt (main_memory s4)) = Some (machine_tree ?is ?ie)" if "fdt_at cfg = Some fdt" for fdt
    by (rule f2(4) [OF that]) (use f4 f3(4) [OF that] that in auto)
  ultimately show thesis using f2(1,2) s
    by (intro that [where m = "main_memory s4" and g = "gpr s4"]) (auto simp: stage_def)
qed

lemma start_at_staged:
  "start_at a (zero_state\<lparr>main_memory := m, gpr := g\<rparr>) = (reset_state a)\<lparr>main_memory := m, gpr := g\<rparr>"
  by (simp add: start_at_def reset_state_eq init_csr_table_def zero_state_def cong: if_cong)

lemma emu_inv_staged: "g 0 = 0 \<Longrightarrow> emu_inv ((reset_state a)\<lparr>main_memory := m, gpr := g\<rparr>)"
  using emu_inv_reset [of a] by (simp add: emu_inv_def csr_wf_def csr_val_def)

lemma boot_inv:
  assumes "boot True cfg = Inr s"
  shows "emu_inv s"
proof (rule boot_stages [OF assms])
  fix m g
  assume s: "s = start_at (program_base cfg) (zero_state\<lparr>main_memory := m, gpr := g\<rparr>)"
    and g: "fdt_at cfg = None \<Longrightarrow> g = gpr zero_state"
    "\<And>fdt. fdt_at cfg = Some fdt \<Longrightarrow> g = (gpr zero_state)(10 := 0, 11 := fdt) \<and>
       fdt_parse (fdt_view fdt m) = Some (machine_tree (initrd_start cfg) (initrd_end cfg))"
  have "g 0 = 0" using g by (cases "fdt_at cfg") (auto simp: zero_state_def)
  then show ?thesis unfolding s start_at_staged by (rule emu_inv_staged)
qed

text \<open>
  C18. The boot contract: when staging succeeds the hart starts in machine mode at the program's base address in a
  state of the machine invariant, with the program's bytes in memory there; the initrd's bytes are at
  its address; and when a device tree was asked for, a1 points to a blob that a reader of the format
  parses to the machine's tree (as C20 describes it) with the initrd's bounds, and a0 holds the hart id. The program and
  the initrd are intact unless an extra binary was placed over them, which is not checked for.
\<close>

theorem boot_contract:
  assumes "boot True cfg = Inr s"
  shows "emu_inv s \<and> pc s = program_base cfg \<and> privilege s = PRV_MACHINE \<and> \<not> terminated s \<and>
    (extras_clear cfg (program_base cfg) (length (contents (program cfg))) \<longrightarrow>
       image_at (main_memory s) (program_base cfg) (contents (program cfg))) \<and>
    (\<forall>f a. initrd cfg = Some (f, a) \<longrightarrow> extras_clear cfg a (length (contents f)) \<longrightarrow> image_at (main_memory s) a (contents f)) \<and>
    (\<forall>fdt. fdt_at cfg = Some fdt \<longrightarrow> gpr s 10 = 0 \<and> gpr s 11 = fdt \<and>
       fdt_parse (fdt_view fdt (main_memory s)) = Some (machine_tree (initrd_start cfg) (initrd_end cfg)))"
proof (rule boot_stages [OF assms])
  fix m g
  assume s: "s = start_at (program_base cfg) (zero_state\<lparr>main_memory := m, gpr := g\<rparr>)"
    and "extras_clear cfg (program_base cfg) (length (contents (program cfg))) \<Longrightarrow> image_at m (program_base cfg) (contents (program cfg))"
    and "\<And>f a. initrd cfg = Some (f, a) \<Longrightarrow> extras_clear cfg a (length (contents f)) \<Longrightarrow> image_at m a (contents f)"
    and "\<And>fdt. fdt_at cfg = Some fdt \<Longrightarrow> g = (gpr zero_state)(10 := 0, 11 := fdt) \<and>
       fdt_parse (fdt_view fdt m) = Some (machine_tree (initrd_start cfg) (initrd_end cfg))"
  moreover have "pc s = program_base cfg \<and> privilege s = PRV_MACHINE \<and> \<not> terminated s \<and> main_memory s = m \<and> gpr s = g"
    unfolding s start_at_staged by (simp add: reset_state_eq init_csr_table_def zero_state_def)
  ultimately show ?thesis using boot_inv [OF assms] by auto
qed

definition demo_file :: "u8 list \<Rightarrow> host_file" where
  "demo_file data = \<lparr>can_open = True, fstat_ok = True, mmap_ok = True, contents = data\<rparr>"

definition demo_config :: boot_config where
  "demo_config = \<lparr>program = demo_file [0x6F, 0, 0, 0], program_base = 0x80000000,
     initrd = Some (demo_file [1, 2], 0x82000000), fdt_at = Some 0x87f00000, extra_slots = [(demo_file [7], 0x80400000)]\<rparr>"

lemma demo_boots: "\<exists>s. boot True demo_config = Inr s"
proof -
  let ?s = "stage 0x80000000 [0x6F, 0, 0, 0] zero_state"
  have "\<exists>n t. place_fdt demo_config 4 0x82000000 0x82000002 ?s = Inr (n, t) \<and> n \<le> 16384"
    by (rule fdt_build_correct [of "0x87f00000" "0x82000000" "0x82000002" ?s])
      (auto simp: place_fdt_def demo_config_def)
  then obtain n t where fdt: "place_fdt demo_config 4 0x82000000 0x82000002 ?s = Inr (n, t)" "n \<le> 16384" by blast
  have prog: "load_program demo_config zero_state = Inr (4, ?s)"
    and img: "map_initrd demo_config = Inr (Some [1, 2], 0x82000000, 0x82000002)"
    and ini: "place_initrd demo_config 4 n (Some [1, 2]) 0x82000000 0x82000002 t = Inr (stage 0x82000000 [1, 2] t)"
    and ext: "place_extra demo_config n (extra_slots demo_config) u = Inr (stage 0x80400000 [7] u)" for u
    using fdt(2) by (simp_all add: load_program_def map_initrd_def place_initrd_def overlaps_fdt_def map_file_def
        demo_config_def demo_file_def)
  show ?thesis unfolding boot_def init_mem_zero by (simp add: prog img fdt(1) ini ext)
qed

theorem boot_contract_witness:
  "\<exists>s. boot True demo_config = Inr s \<and> pc s = 0x80000000 \<and> gpr s 11 = 0x87f00000 \<and>
     image_at (main_memory s) 0x80000000 [0x6F, 0, 0, 0] \<and> image_at (main_memory s) 0x82000000 [1, 2]"
proof -
  obtain s where "boot True demo_config = Inr s" using demo_boots by blast
  from boot_contract [OF this] this show ?thesis
    by (intro exI [of _ s]) (simp add: demo_config_def demo_file_def extras_clear_def)
qed

end
