(* ===== verification/Main_Loop.thy ===== *)
theory Main_Loop
  imports Exec
begin

text \<open>
  The run loop of src/src/emu.c, as it is built without the interactive debugger: the locals of
  \<open>main\<close> that live across iterations, one iteration as a function of the host's answers to the
  system calls it makes, and the loop over a sequence of them. The emulator's \<open>write_tohost\<close> spin
  detector is part of the iteration.
\<close>

section \<open>State\<close>

record run =
  hart :: emu
  input :: uart_input
  loop_window :: "u32 list"
  loop_window_pos :: u32
  spin_count :: int
  spin_armed :: bool
  last_fetch_pc :: u32
  spin_detect_active :: bool

definition run_start :: "bool \<Rightarrow> uart_input \<Rightarrow> emu \<Rightarrow> run" where
  "run_start fdt_enabled inp s =
     \<lparr>hart = s, input = inp, loop_window = replicate 8 0, loop_window_pos = 0, spin_count = 0,
      spin_armed = False, last_fetch_pc = 0, spin_detect_active = \<not> fdt_enabled\<rparr>"

section \<open>One iteration\<close>

text \<open>Fetch translation, fetch breakpoints and execution.\<close>

definition fetch_and_exec :: "bool \<Rightarrow> softfloat \<Rightarrow> u32 \<Rightarrow> emu \<Rightarrow> emu res" where
  "fetch_and_exec alloc_ok sf fetch_pc s =
     (case mmu_fetch_ok fetch_pc s of
        (None, s) \<Rightarrow> Inr s
      | (Some ins, s) \<Rightarrow>
          let (fired, s) = sdtrig_check_fetch_trigger fetch_pc s
          in if fired then Inr s else exec alloc_ok sf ins s)"

text \<open>\<open>pc += 4\<close>, the devices' clocks and the counters.\<close>

definition retire :: "emu \<Rightarrow> emu" where
  "retire s =
     (let s = s\<lparr>pc := pc s + 4\<rparr>;
          s = s\<lparr>clint_dev := clint_tick (clint_dev s)\<rparr>;
          (u, p) = uart_tick (uart_dev s) (plic_dev s);
          s = s\<lparr>uart_dev := u, plic_dev := p\<rparr>;
          s = s\<lparr>cycle := cycle s + 1\<rparr>
      in if instret_suppress_next s then s\<lparr>instret_suppress_next := False\<rparr>
         else s\<lparr>instret := instret s + 1\<rparr>)"

text \<open>Arming the spin detector at a trap, and the detector.\<close>

definition spin_arm :: "run \<Rightarrow> run" where
  "spin_arm r =
     (if spin_detect_active r \<and> just_trapped (hart r)
      then r\<lparr>hart := (hart r)\<lparr>just_trapped := False\<rparr>, spin_armed := True,
             loop_window := replicate 8 0, loop_window_pos := 0, spin_count := 0\<rparr>
      else r)"

definition spin_stop :: "emu \<Rightarrow> emu" where
  "spin_stop s =
     (let s = (if gpr s 3 = 1 then s\<lparr>gpr := (gpr s)(10 := 0)\<rparr> else s)
      in s\<lparr>gpr := (gpr s)(17 := 93), terminated := True\<rparr>)"

definition spin_detect :: "u32 \<Rightarrow> run \<Rightarrow> run" where
  "spin_detect fetch_pc r =
     (if spin_armed r \<and> spin_detect_active r then
        let seen = (fetch_pc \<in> set (loop_window r));
            r = r\<lparr>spin_count := (if seen then spin_count r + 1 else 0)\<rparr>;
            r = r\<lparr>loop_window := (loop_window r)[unat (loop_window_pos r) := fetch_pc]\<rparr>;
            r = r\<lparr>loop_window_pos := (loop_window_pos r + 1) mod 8\<rparr>
        in if spin_count r \<ge> 64 then r\<lparr>hart := spin_stop (hart r)\<rparr> else r
      else r)"

text \<open>
  \<open>uart_poll_input\<close> on the machine's devices; the body of the loop up to the counters
  (\<open>loop_exec\<close>), and with the spin detector. The result says whether the iteration left the loop by
  \<open>break\<close>.
\<close>

definition poll_input :: "host_env \<Rightarrow> run \<Rightarrow> bool \<times> run" where
  "poll_input env r =
     (let (quit, inp, u, p) = uart_poll_input env (input r) (uart_dev (hart r)) (plic_dev (hart r))
      in (quit, r\<lparr>input := inp, hart := (hart r)\<lparr>uart_dev := u, plic_dev := p\<rparr>\<rparr>))"

definition loop_exec :: "bool \<Rightarrow> softfloat \<Rightarrow> host_env \<Rightarrow> run \<Rightarrow> (bool \<times> run) res" where
  "loop_exec alloc_ok sf env r =
     (let r = r\<lparr>hart := check_and_handle_interrupts (hart r)\<rparr>;
          (quit, r) = poll_input env r
      in if quit then Inr (True, r\<lparr>input := uart_input_cleanup (input r)\<rparr>)
         else if pc (hart r) \<ge> MEM_SIZE then Inl ''PC out of bounds''
         else
           let fetch_pc = pc (hart r);
               r = r\<lparr>hart := (hart r)\<lparr>g_prev_ins_pc := last_fetch_pc r\<rparr>\<rparr>
           in case fetch_and_exec alloc_ok sf fetch_pc (hart r) of
                Inl msg \<Rightarrow> Inl msg
              | Inr s \<Rightarrow> Inr (False, r\<lparr>hart := retire s, last_fetch_pc := fetch_pc\<rparr>))"

definition loop_body :: "bool \<Rightarrow> softfloat \<Rightarrow> host_env \<Rightarrow> run \<Rightarrow> (bool \<times> run) res" where
  "loop_body alloc_ok sf env r =
     (case loop_exec alloc_ok sf env r of
        Inl msg \<Rightarrow> Inl msg
      | Inr (True, r) \<Rightarrow> Inr (True, r)
      | Inr (False, r) \<Rightarrow> Inr (False, spin_detect (last_fetch_pc r) (spin_arm r)))"

text \<open>
  The loop, over the host's answers in the successive iterations: it is still running when they
  are used up, it has stopped (with the terminal restored), or \<open>fatal\<close> has ended the emulator.
\<close>

datatype loop_result = Running run | Stopped run | Fatal string

fun main_loop :: "bool \<Rightarrow> softfloat \<Rightarrow> host_env list \<Rightarrow> run \<Rightarrow> loop_result" where
  "main_loop alloc_ok sf envs r =
     (if terminated (hart r) then Stopped (r\<lparr>input := uart_input_cleanup (input r)\<rparr>)
      else case envs of
        [] \<Rightarrow> Running r
      | env # envs \<Rightarrow>
          (case loop_body alloc_ok sf env r of
             Inl msg \<Rightarrow> Fatal msg
           | Inr (True, r) \<Rightarrow> Stopped (r\<lparr>input := uart_input_cleanup (input r)\<rparr>)
           | Inr (False, r) \<Rightarrow> main_loop alloc_ok sf envs r))"

declare main_loop.simps [simp del]

section \<open>The machine invariant\<close>

lemma plic_inv_receive: "plic_inv p \<Longrightarrow> plic_inv (snd (uart_receive c u p))"
  by (simp add: uart_receive_def Let_def plic_inv_update_irq)

lemma plic_inv_feed_bytes: "plic_inv p \<Longrightarrow> plic_inv (snd (snd (feed_bytes cs s u p)))"
proof (induction cs arbitrary: s u p)
  case (Cons c cs)
  have "plic_inv (snd (snd (case uart_receive c u p of (u, p) \<Rightarrow> feed_bytes cs s u p)))"
    by (simp add: case_prod_unfold Cons.IH plic_inv_receive Cons.prems)
  with Cons show ?case by (auto simp del: feed_bytes.simps(2) simp: feed_bytes.simps(2) [of c cs] split: list.split)
qed simp

lemma plic_inv_feed_batch: "plic_inv p \<Longrightarrow> plic_inv (snd (snd (feed_batch cs s u p)))"
  by (simp add: feed_batch_def Let_def case_prod_unfold plic_inv_feed_bytes plic_inv_receive)

lemma plic_inv_drain: "plic_inv p \<Longrightarrow> plic_inv (snd (snd (drain_input rs s u p)))"
proof (induction rs s u p rule: drain_input.induct)
  case (2 buf rs s u p)
  then show ?case using plic_inv_feed_batch [of p buf s u] by (auto split: prod.splits)
qed simp_all

lemma plic_inv_poll: "plic_inv p \<Longrightarrow> plic_inv (snd (snd (snd (uart_poll_input env s u p))))"
  by (simp add: uart_poll_input_def case_prod_unfold Let_def plic_inv_drain)

lemma emu_inv_poll:
  assumes "emu_inv (hart r)"
  shows "emu_inv (hart (snd (poll_input env r)))"
proof -
  have "uart_inv (uart_dev (hart r)) (plic_dev (hart r))" "plic_inv (plic_dev (hart r))"
    using assms by (simp_all add: emu_inv_def)
  then show ?thesis
    using uart_poll_input_inv [of "uart_dev (hart r)" "plic_dev (hart r)" env "input r"]
      plic_inv_poll [of "plic_dev (hart r)" env "input r" "uart_dev (hart r)"] assms
    by (simp add: poll_input_def case_prod_unfold Let_def emu_inv_devices)
qed

lemma emu_inv_counters [simp]:
  "emu_inv (s\<lparr>cycle := c\<rparr>) = emu_inv s" "emu_inv (s\<lparr>instret := c\<rparr>) = emu_inv s"
  "emu_inv (s\<lparr>instret_suppress_next := b\<rparr>) = emu_inv s" "emu_inv (s\<lparr>g_prev_ins_pc := a\<rparr>) = emu_inv s"
  by (simp_all add: emu_inv_def csr_wf_def csr_val_def)

lemma emu_inv_retire [inv_rules]:
  assumes "emu_inv s"
  shows "emu_inv (retire s)"
proof -
  have "uart_inv (uart_dev s) (plic_dev s)" "plic_inv (plic_dev s)"
    using assms by (simp_all add: emu_inv_def)
  then show ?thesis
    using uart_tick_inv [of "uart_dev s" "plic_dev s"] plic_inv_uart_tick [of "plic_dev s" "uart_dev s"] assms
    by (simp add: retire_def case_prod_unfold Let_def emu_inv_devices)
qed

lemma keeps_inv_fetch_exec [inv_rules]:
  assumes "emu_inv s"
  shows "keeps_inv (fetch_and_exec True sf a s)"
  using emu_inv_fetch [OF assms, of a]
  by (auto simp: fetch_and_exec_def case_prod_unfold Let_def inv_rules split: option.split)

lemma emu_inv_spin_stop [inv_rules]: "emu_inv s \<Longrightarrow> emu_inv (spin_stop s)"
  by (simp add: spin_stop_def Let_def emu_inv_def csr_wf_def csr_val_def)

definition loop_inv :: "run \<Rightarrow> bool" where
  "loop_inv r \<longleftrightarrow> emu_inv (hart r) \<and> length (loop_window r) = 8 \<and> loop_window_pos r < 8 \<and>
     0 \<le> spin_count r \<and> (spin_count r < 64 \<or> terminated (hart r)) \<and>
     (spin_armed r \<longrightarrow> spin_detect_active r)"

lemma loop_inv_start: "emu_inv s \<Longrightarrow> loop_inv (run_start fdt inp s)"
  by (simp add: loop_inv_def run_start_def)

lemma word_mod_8_less: "x mod 8 < (8 :: u32)"
  by (rule word_mod_less_divisor) simp

lemma loop_inv_arm: "loop_inv r \<Longrightarrow> loop_inv (spin_arm r)"
  by (simp add: loop_inv_def spin_arm_def)

lemma spin_stop_fields [simp]: "terminated (spin_stop s)" "gpr (spin_stop s) 17 = 93"
  by (simp_all add: spin_stop_def Let_def)

lemma loop_inv_detect:
  "loop_inv r \<Longrightarrow> loop_inv (spin_detect a r)"
  by (auto simp: loop_inv_def spin_detect_def Let_def inv_rules word_mod_8_less)

lemma poll_input_locals [simp]:
  "loop_window (snd (poll_input env r)) = loop_window r" "loop_window_pos (snd (poll_input env r)) = loop_window_pos r"
  "spin_count (snd (poll_input env r)) = spin_count r" "spin_armed (snd (poll_input env r)) = spin_armed r"
  "spin_detect_active (snd (poll_input env r)) = spin_detect_active r"
  "last_fetch_pc (snd (poll_input env r)) = last_fetch_pc r"
  by (simp_all add: poll_input_def case_prod_unfold Let_def)

lemma loop_exec_locals:
  assumes "loop_exec alloc_ok sf env r = Inr (b, r')"
  shows "loop_window r' = loop_window r" "loop_window_pos r' = loop_window_pos r"
    "spin_count r' = spin_count r" "spin_armed r' = spin_armed r" "spin_detect_active r' = spin_detect_active r"
  using assms by (auto simp: loop_exec_def Let_def case_prod_unfold split: if_splits sum.splits)

lemma loop_exec_inv:
  assumes "emu_inv (hart r)" "loop_exec True sf env r = Inr (b, r')"
  shows "emu_inv (hart r')"
proof -
  let ?q = "snd (poll_input env (r\<lparr>hart := check_and_handle_interrupts (hart r)\<rparr>))"
  have q: "emu_inv (hart ?q)" using assms(1) by (simp add: emu_inv_poll inv_rules)
  then have "keeps_inv (fetch_and_exec True sf a ((hart ?q)\<lparr>g_prev_ins_pc := x\<rparr>))" for a x by (simp add: inv_rules)
  then have "fetch_and_exec True sf a ((hart ?q)\<lparr>g_prev_ins_pc := x\<rparr>) = Inr s \<Longrightarrow> emu_inv (retire s)" for a x s
    by (metis keeps_inv_simps(2) emu_inv_retire)
  with q assms(2) show ?thesis
    by (auto simp: loop_exec_def Let_def case_prod_unfold split: if_splits sum.splits)
qed

lemma loop_body_cases:
  assumes "loop_body alloc_ok sf env r = Inr (b, r')"
  obtains "b" "loop_exec alloc_ok sf env r = Inr (True, r')"
  | q where "\<not> b" "loop_exec alloc_ok sf env r = Inr (False, q)" "r' = spin_detect (last_fetch_pc q) (spin_arm q)"
  using assms by (auto simp: loop_body_def split: sum.splits bool.splits)

lemma loop_inv_body:
  assumes "loop_inv r" "\<not> terminated (hart r)" "loop_body True sf env r = Inr (False, r')"
  shows "loop_inv r'"
  using assms(3)
proof (cases rule: loop_body_cases)
  case (2 q)
  then have "loop_inv q" using assms(1,2) loop_exec_locals [OF 2(2)] loop_exec_inv [OF _ 2(2)]
    by (simp add: loop_inv_def)
  with 2 show ?thesis by (simp add: loop_inv_detect loop_inv_arm)
qed simp

section \<open>Reachable states\<close>

text \<open>
  The states at the head of the loop. The signal handler may run between any two iterations.
\<close>

inductive loop_reaches :: "softfloat \<Rightarrow> run \<Rightarrow> run \<Rightarrow> bool" for sf r where
  start: "loop_reaches sf r r"
| iterate: "loop_reaches sf r r' \<Longrightarrow> \<not> terminated (hart r') \<Longrightarrow> loop_body True sf env r' = Inr (False, r'') \<Longrightarrow>
    loop_reaches sf r r''"
| signal: "loop_reaches sf r r' \<Longrightarrow> loop_reaches sf r (r'\<lparr>input := uart_input_signal (input r')\<rparr>)"

lemma loop_reaches_inv: "loop_reaches sf r r' \<Longrightarrow> loop_inv r \<Longrightarrow> loop_inv r'"
proof (induction rule: loop_reaches.induct)
  case (iterate r' env r'')
  then show ?case using loop_inv_body by blast
qed (simp_all add: loop_inv_def)

section \<open>The spin detector ends a loop\<close>

text \<open>
  A run of the loop through the states \<open>R 0, R 1, .., R n\<close> in which no instruction traps after
  \<open>R 0\<close>: iteration \<open>i\<close> starts in \<open>R i\<close> and fetches from \<open>last_fetch_pc (R (Suc i))\<close>.
\<close>

definition quiet_run :: "softfloat \<Rightarrow> (nat \<Rightarrow> host_env) \<Rightarrow> (nat \<Rightarrow> run) \<Rightarrow> nat \<Rightarrow> bool" where
  "quiet_run sf E R n \<longleftrightarrow>
     (\<forall>i<n. \<not> terminated (hart (R i)) \<and>
        (\<exists>q. loop_exec True sf (E i) (R i) = Inr (False, q) \<and> \<not> just_trapped (hart q)) \<and>
        loop_body True sf (E i) (R i) = Inr (False, R (Suc i)))"

text \<open>What one quiet iteration does to the detector's variables.\<close>

lemma unat_window_next: "p < 8 \<Longrightarrow> unat ((p + 1) mod 8 :: u32) = (unat p + 1) mod 8"
  by (simp add: unat_mod unat_word_ariths word_less_nat_alt)

lemma quiet_iteration:
  assumes "quiet_run sf E R n" "i < n" "loop_inv (R i)" "spin_armed (R i)"
  defines "a \<equiv> last_fetch_pc (R (Suc i))"
  shows "loop_inv (R (Suc i))" "spin_armed (R (Suc i))"
    "loop_window (R (Suc i)) = (loop_window (R i))[unat (loop_window_pos (R i)) := a]"
    "unat (loop_window_pos (R (Suc i))) = (unat (loop_window_pos (R i)) + 1) mod 8"
    "spin_count (R (Suc i)) = (if a \<in> set (loop_window (R i)) then spin_count (R i) + 1 else 0)"
    "spin_count (R (Suc i)) \<ge> 64 \<Longrightarrow> terminated (hart (R (Suc i))) \<and> gpr (hart (R (Suc i))) 17 = 93"
proof -
  obtain q where q: "loop_exec True sf (E i) (R i) = Inr (False, q)" "\<not> just_trapped (hart q)"
    and t: "\<not> terminated (hart (R i))" and b: "loop_body True sf (E i) (R i) = Inr (False, R (Suc i))"
    using assms(1,2) by (auto simp: quiet_run_def)
  have r: "R (Suc i) = spin_detect (last_fetch_pc q) q"
    using b q by (simp add: loop_body_def spin_arm_def)
  have on: "spin_armed q" "spin_detect_active q" "loop_window_pos q < 8"
    using loop_exec_locals [OF q(1)] assms(3,4) by (simp_all add: loop_inv_def)
  then have a: "a = last_fetch_pc q" by (simp add: a_def r spin_detect_def Let_def)
  show "loop_inv (R (Suc i))" using loop_inv_body [OF assms(3) t b] .
  show "spin_armed (R (Suc i))" "loop_window (R (Suc i)) = (loop_window (R i))[unat (loop_window_pos (R i)) := a]"
    "unat (loop_window_pos (R (Suc i))) = (unat (loop_window_pos (R i)) + 1) mod 8"
    "spin_count (R (Suc i)) = (if a \<in> set (loop_window (R i)) then spin_count (R i) + 1 else 0)"
    "spin_count (R (Suc i)) \<ge> 64 \<Longrightarrow> terminated (hart (R (Suc i))) \<and> gpr (hart (R (Suc i))) 17 = 93"
    using on loop_exec_locals [OF q(1)] by (auto simp: r a spin_detect_def Let_def unat_window_next)
qed

text \<open>The window holds the addresses of the last eight fetches.\<close>

lemma quiet_run_keeps:
  assumes "quiet_run sf E R n" "loop_inv (R 0)" "spin_armed (R 0)" "i \<le> n"
  shows "loop_inv (R i) \<and> spin_armed (R i) \<and> unat (loop_window_pos (R i)) = (unat (loop_window_pos (R 0)) + i) mod 8"
  using assms(4)
proof (induction i)
  case 0
  have "unat (loop_window_pos (R 0)) < 8" using assms(2) by (simp add: loop_inv_def word_less_nat_alt)
  then show ?case using assms(2,3) by simp
next
  case (Suc i)
  then show ?case using quiet_iteration(1,2,4) [OF assms(1), of i] by (simp add: mod_Suc_eq)
qed

lemma window_recent:
  assumes "quiet_run sf E R n" "loop_inv (R 0)" "spin_armed (R 0)" "i \<le> n" "m < i" "i \<le> m + 8"
  shows "loop_window (R i) ! ((unat (loop_window_pos (R 0)) + m) mod 8) = last_fetch_pc (R (Suc m))"
  using assms(4-6)
proof (induction i)
  case (Suc i)
  let ?p = "unat (loop_window_pos (R 0))"
  have r: "loop_inv (R i)" "spin_armed (R i)" "unat (loop_window_pos (R i)) = (?p + i) mod 8"
    using quiet_run_keeps [OF assms(1-3), of i] Suc.prems by simp_all
  have w: "loop_window (R (Suc i)) = (loop_window (R i))[(?p + i) mod 8 := last_fetch_pc (R (Suc i))]"
    "length (loop_window (R i)) = 8"
    using quiet_iteration(3) [OF assms(1) _ r(1,2)] r Suc.prems by (simp_all add: loop_inv_def)
  show ?case
  proof (cases "m = i")
    case True
    then show ?thesis by (simp add: w)
  next
    case False
    then have "(?p + m) mod 8 \<noteq> (?p + i) mod 8"
      using Suc.prems mod_eq_dvd_iff_nat [of "?p + m" "?p + i" 8] by (auto dest: dvd_imp_le)
    then show ?thesis using Suc False by (simp add: w)
  qed
qed simp

lemma seen_again:
  assumes "quiet_run sf E R n" "loop_inv (R 0)" "spin_armed (R 0)" "i \<le> n" "m < i" "i \<le> m + 8"
  shows "last_fetch_pc (R (Suc m)) \<in> set (loop_window (R i))"
proof -
  have "length (loop_window (R i)) = 8" using quiet_run_keeps [OF assms(1-4)] by (simp add: loop_inv_def)
  then show ?thesis using window_recent [OF assms] by (metis mod_less_divisor nth_mem zero_less_numeral)
qed

text \<open>
  C24. A program that, after a trap has armed the detector, goes round a cycle of at most eight
  instruction addresses without trapping again is stopped after at most one round and 64 further
  instructions, with the exit convention's a7 = 93. So the run loop cannot spin for ever in the
  tests' \<open>write_tohost\<close> loop.
\<close>

theorem spin_loop_terminates:
  assumes "quiet_run sf E R n" "loop_inv (R 0)" "spin_armed (R 0)"
    and "0 < k" "k \<le> 8" "\<And>i. i + k < n \<Longrightarrow> last_fetch_pc (R (Suc (i + k))) = last_fetch_pc (R (Suc i))"
  shows "n \<le> k + 64 \<and> (n = k + 64 \<longrightarrow> terminated (hart (R n)) \<and> gpr (hart (R n)) 17 = 93)"
proof -
  have count: "spin_count (R (k + j)) \<ge> int j" if "k + j \<le> n" for j
    using that
  proof (induction j)
    case 0
    then show ?case using quiet_run_keeps [OF assms(1-3), of k] by (simp add: loop_inv_def)
  next
    case (Suc j)
    have r: "loop_inv (R (k + j))" "spin_armed (R (k + j))"
      using quiet_run_keeps [OF assms(1-3), of "k + j"] Suc.prems by simp_all
    have "last_fetch_pc (R (Suc (k + j))) = last_fetch_pc (R (Suc j))"
      using assms(6) [of j] Suc.prems by (simp add: add.commute)
    then have "last_fetch_pc (R (Suc (k + j))) \<in> set (loop_window (R (k + j)))"
      using seen_again [OF assms(1-3), of "k + j" j] assms(4,5) Suc.prems by simp
    then show ?case using quiet_iteration(5) [OF assms(1) _ r] Suc by simp
  qed
  have stop: "terminated (hart (R (k + 64))) \<and> gpr (hart (R (k + 64))) 17 = 93" if "k + 64 \<le> n"
  proof -
    have eq: "Suc (k + 63) = k + 64" and "spin_count (R (k + 64)) \<ge> 64" "k + 63 < n" "k + 63 \<le> n"
      using count [of 64] that by simp_all
    then show ?thesis
      using quiet_iteration(6) [OF assms(1), of "k + 63"] quiet_run_keeps [OF assms(1-3), of "k + 63"]
      by (simp only: eq)
  qed
  have "n \<le> k + 64"
  proof (rule ccontr)
    assume "\<not> n \<le> k + 64"
    then show False using stop assms(1) unfolding quiet_run_def by (metis not_le_imp_less order_less_imp_le)
  qed
  with stop show ?thesis by (metis order_refl)
qed


section \<open>A program that spins\<close>

text \<open>
  The machine in machine mode at an instruction \<open>j .\<close> in RAM, with interrupts off and triggers disabled
  and the console closed: an iteration changes nothing the next one looks at.
\<close>

definition self_loop :: "u32 \<Rightarrow> run \<Rightarrow> bool" where
  "self_loop a r \<longleftrightarrow> pc (hart r) = a \<and> a AND 3 = 0 \<and> ram32 a \<and> load_le 4 a (main_memory (hart r)) = (0x6F :: u32) \<and>
     privilege (hart r) = PRV_MACHINE \<and> csr_wf (hart r) \<and> csr_val CSR_MSTATUS (hart r) AND MSTATUS_MIE = 0 \<and>
     s_tcontrol (hart r) AND SDTRIG_TCONTROL_MTE = 0 \<and> \<not> just_trapped (hart r) \<and>
     \<not> uart_input_active (input r) \<and> \<not> uart_quit_requested (input r)"

lemma and_1_of_and_3: "x AND 3 = 0 \<Longrightarrow> x AND 1 = (0 :: u32)"
  by (simp add: word32_bits bit_simps flag_simps)

lemma exec_self_jump:
  assumes "pc s AND 3 = 0"
  shows "exec alloc_ok sf 0x6F s = Inr (s\<lparr>pc := pc s - 4\<rparr>)"
proof -
  have "imm_j 0x6F = 0" "get_rd 0x6F = 0" "get_opcode 0x6F = 0x6F" "(0x6F :: u32) AND 3 = 3"
    by (simp_all add: imm_j_def get_rd_def get_opcode_def sign_extend_21_def)
  then show ?thesis using assms and_1_of_and_3 [OF assms]
    by (simp add: exec_def exec_switch_def insi_j_jal_def raise_if_misaligned_fetch_def reg_write_def)
qed

lemma quiet_fetch:
  assumes "privilege s = PRV_MACHINE" "s_tcontrol s AND SDTRIG_TCONTROL_MTE = 0" "ram32 a"
  shows "fetch_and_exec alloc_ok sf a s = exec alloc_ok sf (load_le 4 a (main_memory s)) s"
proof -
  have "\<not> trigger_matches i a SDTRIG_EXECUTE s" for i
    using assms(1,2) by (simp add: trigger_matches_def Let_def)
  then show ?thesis using assms(1,3)
    by (simp add: fetch_and_exec_def mmu_fetch_ok_def mmu_translate_def mmu_vm_active_def read32_ram
        sdtrig_check_fetch_trigger_def sdtrig_check_def)
qed

lemma loop_exec_self_loop:
  assumes "self_loop a r"
  shows "\<exists>q. loop_exec True sf env r = Inr (False, q) \<and> self_loop a q \<and> last_fetch_pc q = a \<and>
    terminated (hart q) = terminated (hart r)"
proof -
  let ?s = "(hart r)\<lparr>g_prev_ins_pc := last_fetch_pc r\<rparr>"
  have "check_and_handle_interrupts (hart r) = hart r"
    using assms by (simp add: check_and_handle_interrupts_def self_loop_def csr_reads Let_def)
  moreover have "poll_input env r = (False, r)"
    using assms by (simp add: poll_input_def uart_poll_input_def self_loop_def)
  moreover have "fetch_and_exec True sf a ?s = Inr (?s\<lparr>pc := a - 4\<rparr>)"
    using assms quiet_fetch [of ?s a True sf] exec_self_jump [of ?s True sf] by (simp add: self_loop_def)
  moreover have "\<not> MEM_SIZE \<le> a" using assms by (auto simp: self_loop_def ram32_def word_le_nat_alt word_less_nat_alt)
  ultimately show ?thesis using assms
    by (simp add: loop_exec_def self_loop_def retire_def csr_wf_def csr_val_def Let_def case_prod_unfold)
qed

text \<open>The states of a run under one host environment.\<close>

primrec run_states :: "softfloat \<Rightarrow> host_env \<Rightarrow> run \<Rightarrow> nat \<Rightarrow> run" where
  "run_states sf env r 0 = r"
| "run_states sf env r (Suc i) =
     (case loop_body True sf env (run_states sf env r i) of Inr (_, r') \<Rightarrow> r' | Inl _ \<Rightarrow> run_states sf env r i)"

lemma loop_body_self_loop:
  assumes "self_loop a r" "spin_armed r" "spin_detect_active r"
  obtains r' where "loop_body True sf env r = Inr (False, r')" "last_fetch_pc r' = a" "spin_armed r'" "spin_detect_active r'"
    "spin_count r' = (if a \<in> set (loop_window r) then spin_count r + 1 else 0)"
    "spin_count r' < 64 \<Longrightarrow> self_loop a r' \<and> terminated (hart r') = terminated (hart r)"
proof -
  obtain q where q: "loop_exec True sf env r = Inr (False, q)" "self_loop a q" "last_fetch_pc q = a"
    "terminated (hart q) = terminated (hart r)"
    using loop_exec_self_loop [OF assms(1)] by blast
  have "spin_arm q = q" using q(2) by (simp add: spin_arm_def self_loop_def)
  with q show thesis using loop_exec_locals [OF q(1)] assms(2,3)
    by (intro that [of "spin_detect a q"]) (auto simp: loop_body_def spin_detect_def Let_def self_loop_def)
qed

lemma self_loop_run:
  fixes sf :: softfloat and env :: host_env
  assumes "self_loop a r" "spin_armed r" "spin_detect_active r" "\<not> terminated (hart r)"
    "spin_count r = 0" "a \<notin> set (loop_window r)" "i \<le> 64"
  defines "R \<equiv> run_states sf env r"
  shows "self_loop a (R i) \<and> spin_armed (R i) \<and> spin_detect_active (R i) \<and> \<not> terminated (hart (R i)) \<and>
    spin_count (R i) \<le> int i - (if i = 0 then 0 else 1)"
  using assms(7)
proof (induction i)
  case (Suc i)
  then have IH: "self_loop a (R i)" "spin_armed (R i)" "spin_detect_active (R i)" "\<not> terminated (hart (R i))"
    "spin_count (R i) \<le> int i - (if i = 0 then 0 else 1)" by simp_all
  show ?case
    by (rule loop_body_self_loop [OF IH(1-3), of sf env]) (use IH Suc.prems assms(5,6) in \<open>cases i; auto simp: R_def split: if_splits\<close>)
qed (use assms in simp_all)

lemma self_loop_quiet:
  fixes sf :: softfloat and env :: host_env
  assumes "self_loop a r" "spin_armed r" "spin_detect_active r" "\<not> terminated (hart r)"
    "spin_count r = 0" "a \<notin> set (loop_window r)"
  defines "R \<equiv> run_states sf env r"
  shows "quiet_run sf (\<lambda>_. env) R 65" "i < 65 \<Longrightarrow> last_fetch_pc (R (Suc i)) = a"
proof -
  have *: "(\<exists>q. loop_exec True sf env (R i) = Inr (False, q) \<and> \<not> just_trapped (hart q)) \<and> \<not> terminated (hart (R i)) \<and>
      loop_body True sf env (R i) = Inr (False, R (Suc i)) \<and> last_fetch_pc (R (Suc i)) = a" if "i < 65" for i
  proof -
    have r: "self_loop a (R i)" "spin_armed (R i)" "spin_detect_active (R i)" "\<not> terminated (hart (R i))"
      using self_loop_run [OF assms(1-6), of i sf env] that by (simp_all add: R_def)
    obtain q where q: "loop_exec True sf env (R i) = Inr (False, q)" "self_loop a q"
      using loop_exec_self_loop [OF r(1)] by blast
    then have "\<not> just_trapped (hart q)" by (simp add: self_loop_def)
    with q r show ?thesis
      by (rule_tac loop_body_self_loop [OF r(1-3), of sf env]) (auto simp: R_def)
  qed
  then show "quiet_run sf (\<lambda>_. env) R 65" by (simp add: quiet_run_def)
  show "i < 65 \<Longrightarrow> last_fetch_pc (R (Suc i)) = a" using * by blast
qed

definition spin_demo :: run where
  "spin_demo =
     (run_start False \<lparr>uart_input_active = False, uart_esc_held = False, uart_terminal_raw = False,
        uart_quit_requested = False, epfd_open = False\<rparr>
        ((reset_state 0x1000)\<lparr>main_memory := store_le 4 0x1000 (0x6F :: u32) (\<lambda>_. 0)\<rparr>))\<lparr>spin_armed := True\<rparr>"

definition idle_host :: host_env where
  "idle_host = \<lparr>epoll_create_ok = True, epoll_ctl_ok = True, input_ready = False, host_reads = []\<rparr>"

lemma spin_demo_ok:
  "self_loop 0x1000 spin_demo" "loop_inv spin_demo" "spin_armed spin_demo" "spin_detect_active spin_demo"
  "\<not> terminated (hart spin_demo)" "spin_count spin_demo = 0" "0x1000 \<notin> set (loop_window spin_demo)"
proof -
  have "csr_wf (reset_state 0x1000)" using emu_inv_reset emu_inv_wf by blast
  then show "self_loop 0x1000 spin_demo"
    by (simp add: self_loop_def spin_demo_def run_start_def load_store_le ram32_def in_clint_def in_uart_def in_plic_def)
      (simp add: reset_state_eq init_csr_table_def zero_state_def csr_init_at)
  show "loop_inv spin_demo" by (simp add: loop_inv_def spin_demo_def run_start_def emu_inv_reset)
qed (simp_all add: spin_demo_def run_start_def reset_state_eq init_csr_table_def zero_state_def)

theorem spin_loop_terminates_witness:
  "terminated (hart (run_states order_softfloat idle_host spin_demo 65)) \<and>
   gpr (hart (run_states order_softfloat idle_host spin_demo 65)) 17 = 93"
proof -
  let ?R = "run_states order_softfloat idle_host spin_demo"
  note self_loop_quiet [OF spin_demo_ok(1,3-7), where sf = order_softfloat and env = idle_host]
  then have "quiet_run order_softfloat (\<lambda>_. idle_host) ?R 65"
    and "\<And>i. i + 1 < 65 \<Longrightarrow> last_fetch_pc (?R (Suc (i + 1))) = last_fetch_pc (?R (Suc i))" by (simp_all del: run_states.simps(2))
  from spin_loop_terminates [OF this(1) _ _ _ _ this(2)] show ?thesis
    using spin_demo_ok(2,3) by (simp del: run_states.simps(2))
qed

end
