(* ===== verification/Debugger.thy ===== *)
theory Debugger
  imports Main_Loop Disasm
begin

text \<open>
  The interactive debugger, src/src/debugger.c, of the build with CONFIG_ENABLE_DEBUGGER: every command of
  the prompt as a function on the machine, the debugger's own variables and the text printed. Standard input is the
  list of its characters. Memory is read as the commands read it, at physical addresses and with the side
  effects of device registers.

  A command may fail to return (a dump whose loop never ends) or have undefined behaviour (the
  disassembler's); the result type says so. The host's floating-point conversions, which only the display
  and input of decimal numbers use, are a parameter.
\<close>

section \<open>State\<close>

record host_fp =
  double_str :: double_text
  scan_double :: "string \<Rightarrow> u64 option"
  float_to_double :: "u32 \<Rightarrow> u64"
  double_to_float :: "u64 \<Rightarrow> u32"

record dbg =
  guest :: emu
  single_step :: bool
  breakpoint :: u32
  breakpoint_enabled :: bool
  break_requested :: bool
  last_cmd :: string
  show_disasm :: bool
  out :: string

datatype 'a result = Returns 'a | Hangs | Undefined

definition printf :: "host_fp \<Rightarrow> string \<Rightarrow> c_arg list \<Rightarrow> dbg \<Rightarrow> dbg" where
  "printf hp form args d = d\<lparr>out := out d @ sprintf (double_str hp) form args\<rparr>"

definition handle_sigint :: "dbg \<Rightarrow> dbg" where
  "handle_sigint d = d\<lparr>break_requested := True, single_step := True\<rparr>"

definition init_debugger :: "dbg \<Rightarrow> dbg" where
  "init_debugger d = d\<lparr>last_cmd := [], show_disasm := True, break_requested := False\<rparr>"

text \<open>Accesses of the debugger to the guest's memory.\<close>

definition peek32 :: "u32 \<Rightarrow> dbg \<Rightarrow> u32 \<times> dbg" where
  "peek32 addr d = (let (v, g) = mem_read32_unsigned addr (guest d) in (v, d\<lparr>guest := g\<rparr>))"

definition peek8 :: "u32 \<Rightarrow> dbg \<Rightarrow> u32 \<times> dbg" where
  "peek8 addr d = (let (v, g) = mem_read8_unsigned addr (guest d) in (v, d\<lparr>guest := g\<rparr>))"

definition peek64 :: "u32 \<Rightarrow> dbg \<Rightarrow> u64 \<times> dbg" where
  "peek64 addr d = (let (v, g) = mem_read64_unsigned addr (guest d) in (v, d\<lparr>guest := g\<rparr>))"

lemma length_strtok: "strtok s = Some (t, rest) \<Longrightarrow> length rest < length s"
proof -
  assume a: "strtok s = Some (t, rest)"
  let ?t = "dropWhile is_delim s" and ?r = "dropWhile (\<lambda>c. \<not> is_delim c) (dropWhile is_delim s)"
  have ne: "?t \<noteq> []" and rest: "rest = drop 1 ?r" using a by (auto simp: strtok_def Let_def split: if_splits)
  have "\<not> is_delim (hd ?t)" using ne hd_dropWhile by blast
  then have "length ?r < length ?t" using ne by (cases ?t) (auto simp: le_imp_less_Suc length_dropWhile_le)
  also have "\<dots> \<le> length s" by (rule length_dropWhile_le)
  finally show ?thesis using rest by simp
qed

text \<open>The tokens that successive calls of \<open>strtok\<close> return.\<close>

function tokens :: "string \<Rightarrow> string list" where
  "tokens s = (case strtok s of None \<Rightarrow> [] | Some (t, rest) \<Rightarrow> t # tokens rest)"
  by auto

termination by (relation "measure length") (auto dest: length_strtok)

declare tokens.simps [simp del]

section \<open>Running and quitting\<close>

definition cmd_single_step :: "dbg \<Rightarrow> dbg" where "cmd_single_step d = d\<lparr>single_step := True\<rparr>"

definition cmd_continue :: "dbg \<Rightarrow> dbg" where "cmd_continue d = d\<lparr>single_step := False\<rparr>"

definition cmd_quit :: "dbg \<Rightarrow> dbg" where "cmd_quit d = d\<lparr>guest := (guest d)\<lparr>terminated := True\<rparr>\<rparr>"

section \<open>Registers and memory\<close>

definition print_registers :: "host_fp \<Rightarrow> dbg \<Rightarrow> dbg" where
  "print_registers hp d =
     (let d = printf hp (''PC=0x%08x'' @ [NL]) [AInt (pc (guest d))] d;
          d = printf hp (''REGISTERS:'' @ [NL]) [] d
      in fold (\<lambda>i d.
           let d = printf hp ''%5s=0x%08x '' [AStr (reg_names ! i), AInt (gpr (guest d) (of_nat i))] d
           in if (i + 1) mod 4 = 0 then printf hp [NL] [] d else d) [0..<32] d)"

definition cmd_registers :: "host_fp \<Rightarrow> dbg \<Rightarrow> dbg" where "cmd_registers hp d = print_registers hp d"

definition show_word :: "host_fp \<Rightarrow> u32 \<Rightarrow> dbg \<Rightarrow> dbg" where
  "show_word hp addr d =
     (let (v, d) = peek32 addr d in printf hp (''0x%08x: 0x%08x'' @ [NL]) [AInt addr, AInt v] d)"

definition cmd_memory :: "host_fp \<Rightarrow> string \<Rightarrow> dbg \<Rightarrow> dbg" where
  "cmd_memory hp args d =
     (if tokens args = [] then printf hp (''usage: m <address> [address2] [address3] ...'' @ [NL]) [] d
      else fold (\<lambda>token d.
             case sscanf_x token of
               Some (addr, _) \<Rightarrow> show_word hp addr d
             | None \<Rightarrow> printf hp (''invalid address: %s'' @ [NL]) [AStr token] d) (tokens args) d)"

definition write_token :: "host_fp \<Rightarrow> string \<Rightarrow> u32 \<times> dbg \<Rightarrow> u32 \<times> dbg" where
  "write_token hp token = (\<lambda>(addr, d).
     case sscanf_x token of
       Some (val, _) \<Rightarrow>
         let d = d\<lparr>guest := mem_write32 addr val (guest d)\<rparr>;
             d = printf hp (''0x%08x <- 0x%08x'' @ [NL]) [AInt addr, AInt val] d
         in (addr + 4, d)
     | None \<Rightarrow> (addr, printf hp (''invalid value: %s'' @ [NL]) [AStr token] d))"

definition cmd_write :: "host_fp \<Rightarrow> string \<Rightarrow> dbg \<Rightarrow> dbg" where
  "cmd_write hp args d =
     (case tokens args of
        [] \<Rightarrow> printf hp (''usage: w <address> <value> [value2] ...'' @ [NL]) [] d
      | token # vals \<Rightarrow>
          (case sscanf_x token of
             None \<Rightarrow> printf hp (''invalid address: %s'' @ [NL]) [AStr token] d
           | Some (addr, _) \<Rightarrow> snd (fold (write_token hp) vals (addr, d))))"

definition dump_byte :: "host_fp \<Rightarrow> u32 \<Rightarrow> nat \<Rightarrow> dbg \<Rightarrow> dbg" where
  "dump_byte hp addr i d =
     (let d = (if i mod 8 = 0
               then let d = (if i > 0 then printf hp [NL] [] d else d)
                    in printf hp ''0x%08x: '' [AInt (addr + of_nat i)] d
               else d);
          (v, d) = peek8 (addr + of_nat i) d
      in printf hp ''%02x '' [AInt v] d)"

definition cmd_dump_bytes :: "host_fp \<Rightarrow> string \<Rightarrow> dbg \<Rightarrow> dbg" where
  "cmd_dump_bytes hp args d =
     (case sscanf_x args of
        None \<Rightarrow> printf hp (''usage: B <address> [count]'' @ [NL]) [] d
      | Some (addr, rest) \<Rightarrow>
          let count = (case sscanf_d rest of Some (n, _) \<Rightarrow> n | None \<Rightarrow> 16);
              count = (if 256 <s count then 256 else count);
              d = fold (dump_byte hp addr) [0..<nat (sint count)] d
          in printf hp [NL] [] d)"

lemma read8_beyond: "MEM_SIZE \<le> addr \<Longrightarrow> mem_read8_unsigned addr g = (0, g)"
proof -
  assume a: "MEM_SIZE \<le> addr"
  then have "\<not> in_clint addr" "\<not> in_uart addr" "\<not> in_plic8 addr"
    by (auto simp: in_clint_def in_uart_def in_plic8_def word_le_nat_alt word_less_nat_alt)
  with a show ?thesis by (simp add: mem_read8_unsigned_def)
qed

text \<open>
  The characters from an address on, up to one that is not printable. A byte at or above \<open>MEM_SIZE\<close> reads as zero,
  so the loop ends before the address wraps.
\<close>

function string_loop :: "u32 \<Rightarrow> emu \<Rightarrow> string \<times> emu" where
  "string_loop addr g =
     (let (v, g) = mem_read8_unsigned addr g; c = ucast v :: u8
      in if c \<noteq> 0 \<and> 32 \<le>s c then let (s, g) = string_loop (addr + 1) g in (char_of (unat c) # s, g) else ([], g))"
  by auto

termination
proof (relation "measure (\<lambda>(addr, _). unat MEM_SIZE - unat addr)")
  fix addr :: u32 and g x v g' and c :: u8
  assume a: "x = mem_read8_unsigned addr g" "(v, g') = x" "c = ucast v" "c \<noteq> 0 \<and> 32 \<le>s c"
  then have "addr < MEM_SIZE" using read8_beyond [of addr g] by (cases "MEM_SIZE \<le> addr") auto
  then have "unat addr < unat MEM_SIZE" "unat (addr + 1) = unat addr + 1"
    by (auto simp: word_less_nat_alt unat_word_ariths)
  then show "((addr + 1, g'), addr, g) \<in> measure (\<lambda>(addr, _). unat MEM_SIZE - unat addr)" by simp
qed simp

declare string_loop.simps [simp del]

definition cmd_string :: "host_fp \<Rightarrow> string \<Rightarrow> dbg \<Rightarrow> dbg" where
  "cmd_string hp args d =
     (case sscanf_x args of
        Some (addr, _) \<Rightarrow>
          let d = printf hp [CHR 0x22] [] d;
              (s, g) = string_loop addr (guest d);
              d = d\<lparr>guest := g, out := out d @ s\<rparr>
          in printf hp [CHR 0x22, NL] [] d
      | None \<Rightarrow> printf hp (''usage: S <address>'' @ [NL]) [] d)"

text \<open>The loop of a dump may never end: its counter can wrap past the end address.\<close>

partial_function (option) dump_loop :: "host_fp \<Rightarrow> u32 \<Rightarrow> u32 \<Rightarrow> dbg \<Rightarrow> dbg option" where
  "dump_loop hp addr until d =
     (if addr \<le> until then dump_loop hp (addr + 4) until (show_word hp addr d) else Some d)"

definition cmd_dump_range :: "host_fp \<Rightarrow> string \<Rightarrow> dbg \<Rightarrow> dbg result" where
  "cmd_dump_range hp args d =
     (case sscanf_x args of
        Some (start, rest) \<Rightarrow>
          (case sscanf_x rest of
             Some (until, _) \<Rightarrow> (case dump_loop hp start until d of Some d \<Rightarrow> Returns d | None \<Rightarrow> Hangs)
           | None \<Rightarrow> Returns (printf hp (''usage: d <start_address> <end_address>'' @ [NL]) [] d))
      | None \<Rightarrow> Returns (printf hp (''usage: d <start_address> <end_address>'' @ [NL]) [] d))"

section \<open>Disassembly and breakpoints\<close>

primrec list_insns :: "host_fp \<Rightarrow> nat \<Rightarrow> u32 \<Rightarrow> dbg \<Rightarrow> dbg option" where
  "list_insns hp 0 addr d = Some d"
| "list_insns hp (Suc n) addr d =
     (let (ins, d) = peek32 addr d
      in case disasm (pc (guest d)) ins of
           None \<Rightarrow> None
         | Some text \<Rightarrow>
             list_insns hp n (addr + 4)
               (printf hp (''0x%08x:  %08x  %s'' @ [NL]) [AInt addr, AInt ins, AStr text] d))"

definition disasm_count :: "string list \<Rightarrow> u32" where
  "disasm_count args =
     (case args of
        [] \<Rightarrow> 1
      | token # _ \<Rightarrow>
          let count = (case sscanf_d token of Some (n, _) \<Rightarrow> n | None \<Rightarrow> 1);
              count = (if count <s 1 then 1 else count)
          in if 32 <s count then 32 else count)"

definition cmd_disasm :: "host_fp \<Rightarrow> string \<Rightarrow> dbg \<Rightarrow> dbg result" where
  "cmd_disasm hp args d =
     (case (case tokens args of [] \<Rightarrow> Some (pc (guest d), []) | token # toks \<Rightarrow>
              map_option (\<lambda>(addr, _). (addr, toks)) (sscanf_x token)) of
        None \<Rightarrow> Returns (printf hp (''usage: u <address> [count]'' @ [NL]) [] d)
      | Some (addr, toks) \<Rightarrow>
          let count = disasm_count toks;
              d = printf hp (''Disassembly from 0x%08x (%d instruction%s):'' @ [NL])
                    [AInt addr, AInt count, AStr (if 1 <s count then ''s'' else [])] d
          in case list_insns hp (unat count) addr d of Some d \<Rightarrow> Returns d | None \<Rightarrow> Undefined)"

definition cmd_toggle_disasm :: "host_fp \<Rightarrow> dbg \<Rightarrow> dbg" where
  "cmd_toggle_disasm hp d =
     (let d = d\<lparr>show_disasm := \<not> show_disasm d\<rparr>
      in printf hp (''Disassembly display: %s'' @ [NL]) [AStr (if show_disasm d then ''ON'' else ''OFF (raw hex)'')] d)"

definition cmd_breakpoint_set :: "host_fp \<Rightarrow> string \<Rightarrow> dbg \<Rightarrow> dbg" where
  "cmd_breakpoint_set hp args d =
     (case sscanf_x args of
        Some (addr, _) \<Rightarrow>
          let d = d\<lparr>breakpoint := addr, breakpoint_enabled := True\<rparr>
          in printf hp (''Breakpoint set at 0x%08x'' @ [NL]) [AInt addr] d
      | None \<Rightarrow> printf hp (''usage: b <address>'' @ [NL]) [] d)"

definition cmd_breakpoint_clear :: "host_fp \<Rightarrow> dbg \<Rightarrow> dbg" where
  "cmd_breakpoint_clear hp d = printf hp (''Breakpoint cleared'' @ [NL]) [] (d\<lparr>breakpoint_enabled := False\<rparr>)"

definition help_lines :: "string list" where
  "help_lines =
     [''RV32IMAFDQ Debugger Commands:'',
      ''  s           - Single step'',
      ''  n           - Single step (alias)'',
      ''  c           - Continue execution'',
      ''  q           - Quit emulator'',
      ''  r           - Print integer registers'',
      ''  p <addr>    - Set Program Counter (PC)'',
      ''  R <reg> <v> - Set integer register value (reg: 0-31 or name)'',
      ''  m <addr>... - Display memory at address(es)'',
      ''  d <s> <e>   - Dump memory range'',
      ''  B <a> [c]   - Dump bytes from address (count default=16)'',
      ''  S <addr>    - Print string from address'',
      ''  w <a> <v>   - Write value(s) to memory'',
      ''  u <a> [c]   - Disassemble instructions (default: PC, count=1)'',
      ''  D           - Toggle disassembly/raw hex display'',
      ''  b <addr>    - Set breakpoint'',
      ''  C           - Clear breakpoint'',
      ''  f           - Show all FP registers'',
      ''  F <freg>    - Show specific FP register (F f0, F f1, etc.)'',
      ''  F <f> <v>   - Set FP register (F f0 0x3f800000 or F f0 1.0)'',
      ''  fc          - Show FCSR register'',
      ''  fc <v>      - Set FCSR register (hex)'',
      ''  frm         - Show current rounding mode'',
      ''  fd <a> [f]  - Dump memory as float (f/d/q, default=f)'',
      ''  h/?         - This help'',
      ''  <Enter>     - Repeat last command'']"

definition cmd_help :: "host_fp \<Rightarrow> dbg \<Rightarrow> dbg" where
  "cmd_help hp d = fold (\<lambda>l d. printf hp (l @ [NL]) [] d) help_lines d"

section \<open>Setting registers\<close>

definition cmd_set_pc :: "host_fp \<Rightarrow> string \<Rightarrow> dbg \<Rightarrow> dbg" where
  "cmd_set_pc hp args d =
     (case sscanf_x args of
        Some (addr, _) \<Rightarrow>
          let d = (if addr AND 0x3 \<noteq> 0
                   then printf hp (''Warning: PC 0x%08x is not 4-byte aligned'' @ [NL]) [AInt addr] d else d);
              d = d\<lparr>guest := (guest d)\<lparr>pc := addr\<rparr>\<rparr>
          in printf hp (''PC set to 0x%08x'' @ [NL]) [AInt (pc (guest d))] d
      | None \<Rightarrow> printf hp (''usage: p <address>'' @ [NL]) [] d)"

text \<open>A register by name, as the code searches the table.\<close>

definition find_name :: "string list \<Rightarrow> string \<Rightarrow> nat option" where
  "find_name names token = find (\<lambda>i. strcaseeq token (names ! i)) [0..<32]"

text \<open>The register number of a token, or the error message.\<close>

definition parse_register :: "string \<Rightarrow> (string \<times> c_arg list) + u32" where
  "parse_register token =
     (case sscanf_d token of
        Some (n, _) \<Rightarrow>
          if n <s 0 \<or> 31 <s n then Inl (''Error: register number must be 0-31'' @ [NL], []) else Inr n
      | None \<Rightarrow>
          (case find_name reg_names token of
             Some i \<Rightarrow> Inr (of_nat i)
           | None \<Rightarrow>
               Inl (''Error: unknown register '' @ [CHR 0x27] @ ''%s'' @ [CHR 0x27, NL], [AStr token])))"

definition set_register :: "host_fp \<Rightarrow> u32 \<Rightarrow> string list \<Rightarrow> dbg \<Rightarrow> dbg" where
  "set_register hp reg_num toks d =
     (case toks of
        [] \<Rightarrow> printf hp (''Error: value required'' @ [NL]) [] d
      | token # _ \<Rightarrow>
          (case sscanf_x token of
             None \<Rightarrow> printf hp (''Error: invalid value '' @ [CHR 0x27] @ ''%s'' @ [CHR 0x27, NL]) [AStr token] d
           | Some (val, _) \<Rightarrow>
               if reg_num = 0
               then printf hp (''Warning: x0 (zero) register is read-only, value remains 0'' @ [NL]) [] d
               else
                 let d = d\<lparr>guest := (guest d)\<lparr>gpr := (gpr (guest d))(reg_num := val)\<rparr>\<rparr>
                 in printf hp (''x%d (%s) = 0x%08x'' @ [NL]) [AInt reg_num, AStr (reg_names ! unat reg_num), AInt val] d))"

definition cmd_set_register :: "host_fp \<Rightarrow> string \<Rightarrow> dbg \<Rightarrow> dbg" where
  "cmd_set_register hp args d =
     (case tokens args of
        [] \<Rightarrow>
          let d = printf hp (''usage: R <register> <value>'' @ [NL]) [] d
          in printf hp (''  register: 0-31 or name (e.g., a0, sp, t0)'' @ [NL]) [] d
      | token # toks \<Rightarrow>
          (case parse_register token of
             Inl (form, fargs) \<Rightarrow> printf hp form fargs d
           | Inr reg_num \<Rightarrow> set_register hp reg_num toks d))"

section \<open>Floating point\<close>

definition show_single :: "host_fp \<Rightarrow> nat \<Rightarrow> dbg \<Rightarrow> dbg" where
  "show_single hp i d =
     (let val = fpr_read_s (of_nat i) (guest d);
          d = printf hp ''  %s=0x%08x (%-12.6g)''
                [AStr (freg_names ! i), AInt val, ADouble (float_to_double hp val)] d
      in if (i + 1) mod 2 = 0 then printf hp [NL] [] d else d)"

definition show_double :: "host_fp \<Rightarrow> nat \<Rightarrow> dbg \<Rightarrow> dbg" where
  "show_double hp i d =
     (let val = fpr_read_d (of_nat i) (guest d);
          d = printf hp ''  %s=0x%016llx (%-12.6g)'' [AStr (freg_names ! i), ALong val, ADouble val] d
      in if (i + 1) mod 2 = 0 then printf hp [NL] [] d else d)"

definition show_quad :: "host_fp \<Rightarrow> nat \<Rightarrow> dbg \<Rightarrow> dbg" where
  "show_quad hp i d =
     (let q = fpr_read_q (of_nat i) (guest d);
          d = printf hp ''  %s=0x%016llx_%016llx'' [AStr (freg_names ! i), ALong (snd q), ALong (fst q)] d
      in if (i + 1) mod 2 = 0 then printf hp [NL] [] d else d)"

definition cmd_fregisters :: "host_fp \<Rightarrow> dbg \<Rightarrow> dbg" where
  "cmd_fregisters hp d =
     (let d = printf hp (''FP REGISTERS (FPR):'' @ [NL]) [] d;
          d = printf hp (''  Single-precision (hex / float):'' @ [NL]) [] d;
          d = printf hp [NL] [] (fold (show_single hp) [0..<32] d);
          d = printf hp (''  Double-precision (hex / double):'' @ [NL]) [] d;
          d = printf hp [NL] [] (fold (show_double hp) [0..<32] d);
          d = printf hp (''  Quad-precision (hex, low/high):'' @ [NL]) [] d
      in printf hp [NL] [] (fold (show_quad hp) [0..<32] d))"

definition dump_as :: "host_fp \<Rightarrow> char \<Rightarrow> u32 \<Rightarrow> dbg \<Rightarrow> dbg" where
  "dump_as hp form addr d =
     (if form = CHR ''f'' then
        let (val, d) = peek32 addr d
        in printf hp (''0x%08x: 0x%08x = %f'' @ [NL]) [AInt addr, AInt val, ADouble (float_to_double hp val)] d
      else if form = CHR ''d'' then
        let (val, d) = peek64 addr d
        in printf hp (''0x%08x: 0x%016llx = %g'' @ [NL]) [AInt addr, ALong val, ADouble val] d
      else if form = CHR ''q'' then
        let (lo, d) = peek64 addr d; (hi, d) = peek64 (addr + 8) d
        in printf hp (''0x%08x: 0x%016llx_%016llx'' @ [NL]) [AInt addr, ALong hi, ALong lo] d
      else printf hp (''unknown format: %c (use f, d, or q)'' @ [NL]) [AChar form] d)"

definition cmd_fdump :: "host_fp \<Rightarrow> string \<Rightarrow> dbg \<Rightarrow> dbg" where
  "cmd_fdump hp args d =
     (case tokens args of
        [] \<Rightarrow> fold (\<lambda>l d. printf hp (l @ [NL]) [] d)
                [''usage: fd <address> [f|d|q]'', ''  f - dump as float (default)'', ''  d - dump as double'',
                 ''  q - dump as quad''] d
      | token # toks \<Rightarrow>
          (case sscanf_x token of
             None \<Rightarrow> printf hp (''invalid address: %s'' @ [NL]) [AStr token] d
           | Some (addr, _) \<Rightarrow>
               dump_as hp (case toks of [] \<Rightarrow> CHR ''f'' | t # _ \<Rightarrow> tolower (hd t)) addr d))"

definition parse_fregister :: "string \<Rightarrow> u32 option" where
  "parse_fregister token =
     (case (if hd token = CHR ''f'' \<or> hd token = CHR ''F'' then sscanf_d (tl token) else None) of
        Some (num, _) \<Rightarrow>
          if 0 \<le>s num \<and> num \<le>s 31 then Some num else map_option of_nat (find_name freg_names token)
      | None \<Rightarrow> map_option of_nat (find_name freg_names token))"

definition show_fregister :: "host_fp \<Rightarrow> u32 \<Rightarrow> dbg \<Rightarrow> dbg" where
  "show_fregister hp r d =
     (let val = fpr_read_s r (guest d);
          d = printf hp (''%s = 0x%08x (%f)'' @ [NL])
                [AStr (freg_names ! unat r), AInt val, ADouble (float_to_double hp val)] d;
          dval = fpr_read_d r (guest d)
      in printf hp (''  as double: 0x%016llx (%g)'' @ [NL]) [ALong dval, ADouble dval] d)"

definition set_fregister :: "host_fp \<Rightarrow> u32 \<Rightarrow> string \<Rightarrow> dbg \<Rightarrow> dbg" where
  "set_fregister hp r token d =
     (case sscanf_llx token of
        Some (val, _) \<Rightarrow>
          if val \<le> 0xFFFFFFFF then
            let d = d\<lparr>guest := fpr_write_s r (ucast val) (guest d)\<rparr>
            in printf hp (''%s set to 0x%08x (%f)'' @ [NL])
                 [AStr (freg_names ! unat r), AInt (ucast val), ADouble (float_to_double hp (ucast val))] d
          else
            let d = d\<lparr>guest := fpr_write_d r val (guest d)\<rparr>
            in printf hp (''%s set to 0x%016llx (%g)'' @ [NL]) [AStr (freg_names ! unat r), ALong val, ADouble val] d
      | None \<Rightarrow>
          (case scan_double hp token of
             Some dval \<Rightarrow>
               let single = double_to_float hp dval;
                   d = d\<lparr>guest := fpr_write_s r single (guest d)\<rparr>
               in printf hp (''%s set to %f (0x%08x)'' @ [NL])
                    [AStr (freg_names ! unat r), ADouble (float_to_double hp single), AInt single] d
           | None \<Rightarrow> printf hp (''invalid value: %s (use hex or decimal)'' @ [NL]) [AStr token] d))"

definition cmd_set_fregister :: "host_fp \<Rightarrow> string \<Rightarrow> dbg \<Rightarrow> dbg" where
  "cmd_set_fregister hp args d =
     (case tokens args of
        [] \<Rightarrow> fold (\<lambda>l d. printf hp (l @ [NL]) [] d)
                [''usage: F <freg> [value]'', ''  F f0         - show f0 value'',
                 ''  F f0 0x3f800000 - set f0 to 1.0 (single precision)'',
                 ''  F f0 0x3ff0000000000000 - set f0 to 1.0 (double precision)'',
                 ''  F f0 1.0     - set f0 to 1.0''] d
      | token # toks \<Rightarrow>
          (case parse_fregister token of
             None \<Rightarrow> printf hp (''invalid FP register: %s (use f0-f31)'' @ [NL]) [AStr token] d
           | Some r \<Rightarrow>
               (case toks of [] \<Rightarrow> show_fregister hp r d | value # _ \<Rightarrow> set_fregister hp r value d)))"

definition cmd_fcsr :: "host_fp \<Rightarrow> dbg \<Rightarrow> dbg" where
  "cmd_fcsr hp d =
     (let flags = get_fflags (guest d); frm = get_frm (guest d);
          d = printf hp (''FCSR = 0x%08x'' @ [NL]) [AInt (fcsr (guest d))] d;
          d = printf hp ''  fflags   = 0x%02x ('' [AInt flags] d;
          d = (if flags AND 0x10 \<noteq> 0 then printf hp ''NV '' [] d else d);
          d = (if flags AND 0x8 \<noteq> 0 then printf hp ''DZ '' [] d else d);
          d = (if flags AND 0x4 \<noteq> 0 then printf hp ''OF '' [] d else d);
          d = (if flags AND 0x2 \<noteq> 0 then printf hp ''UF '' [] d else d);
          d = (if flags AND 0x1 \<noteq> 0 then printf hp ''NX'' [] d else d);
          d = (if flags = 0 then printf hp ''none'' [] d else d);
          d = printf hp ('')'' @ [NL]) [] d;
          d = printf hp ''  frm      = 0x%02x ('' [AInt frm] d
      in printf hp ((if frm = 0 then ''RNE - Round to Nearest, ties to Even)''
                     else if frm = 1 then ''RTZ - Round towards Zero''
                     else if frm = 2 then ''RDN - Round Down (towards -inf)''
                     else if frm = 3 then ''RUP - Round Up (towards +inf)''
                     else if frm = 4 then ''RMM - Round to Nearest, ties to Max Magnitude''
                     else ''INVALID)'') @ [NL]) [] d)"

definition cmd_set_fcsr :: "host_fp \<Rightarrow> string \<Rightarrow> dbg \<Rightarrow> dbg" where
  "cmd_set_fcsr hp args d =
     (case sscanf_x args of
        None \<Rightarrow> printf hp (''usage: fc <value> (hex, e.g., fc 0x1f)'' @ [NL]) [] d
      | Some (val, _) \<Rightarrow>
          let d = d\<lparr>guest := set_fcsr val (guest d)\<rparr>
          in printf hp (''FCSR set to 0x%08x'' @ [NL]) [AInt (fcsr (guest d))] d)"

definition cmd_frm :: "host_fp \<Rightarrow> dbg \<Rightarrow> dbg" where
  "cmd_frm hp d =
     (let frm = get_frm (guest d);
          d = printf hp ''Current rounding mode: '' [] d
      in if frm = 0 then printf hp (''RNE (Round to Nearest, ties to Even)'' @ [NL]) [] d
         else if frm = 1 then printf hp (''RTZ (Round towards Zero)'' @ [NL]) [] d
         else if frm = 2 then printf hp (''RDN (Round Down, towards -inf)'' @ [NL]) [] d
         else if frm = 3 then printf hp (''RUP (Round Up, towards +inf)'' @ [NL]) [] d
         else if frm = 4 then printf hp (''RMM (Round to Nearest, ties to Max Magnitude)'' @ [NL]) [] d
         else printf hp (''INVALID (%u)'' @ [NL]) [AInt frm] d)"

section \<open>The prompt\<close>

text \<open>A command with its arguments; the Boolean says whether the debugger returns to the run loop.\<close>

definition command :: "host_fp \<Rightarrow> string \<Rightarrow> string \<Rightarrow> dbg \<Rightarrow> (bool \<times> dbg) result" where
  "command hp cmd args d =
     (let stay = (\<lambda>d. Returns (False, d));
          stay_result = (\<lambda>r. case r of Returns d \<Rightarrow> Returns (False, d) | Hangs \<Rightarrow> Hangs | Undefined \<Rightarrow> Undefined)
      in if cmd = ''s'' \<or> cmd = ''n'' then Returns (True, cmd_single_step d)
         else if cmd = ''c'' then Returns (True, cmd_continue d)
         else if cmd = ''q'' then Returns (True, cmd_quit d)
         else if cmd = ''r'' then stay (cmd_registers hp d)
         else if cmd = ''p'' then stay (cmd_set_pc hp args d)
         else if cmd = ''R'' then stay (cmd_set_register hp args d)
         else if cmd = ''m'' then stay (cmd_memory hp args d)
         else if cmd = ''w'' then stay (cmd_write hp args d)
         else if cmd = ''B'' then stay (cmd_dump_bytes hp args d)
         else if cmd = ''S'' then stay (cmd_string hp args d)
         else if cmd = ''d'' then stay_result (cmd_dump_range hp args d)
         else if cmd = ''u'' then stay_result (cmd_disasm hp args d)
         else if cmd = ''D'' then stay (cmd_toggle_disasm hp d)
         else if cmd = ''b'' then stay (cmd_breakpoint_set hp args d)
         else if cmd = ''C'' then stay (cmd_breakpoint_clear hp d)
         else if cmd = ''f'' then stay (cmd_fregisters hp d)
         else if cmd = ''F'' then stay (cmd_set_fregister hp args d)
         else if cmd = ''fc'' then stay (if args \<noteq> [] then cmd_set_fcsr hp args d else cmd_fcsr hp d)
         else if cmd = ''fd'' then stay (cmd_fdump hp args d)
         else if cmd = ''frm'' then stay (cmd_frm hp d)
         else if cmd = ''h'' \<or> cmd = ''?'' then stay (cmd_help hp d)
         else stay (printf hp (''unknown command: %s (type '' @ [CHR 0x27] @ ''h'' @ [CHR 0x27] @ '' for help)'' @ [NL])
                      [AStr cmd] d))"

text \<open>
  The line as read, with its newline cut off; the line to run, which for a blank one is the last command, if
  there was one; and its first word, of at most 15 characters, with what follows.
\<close>

definition trim_line :: "string \<Rightarrow> string" where
  "trim_line line = (let l = c_str line in if l \<noteq> [] \<and> last l = NL then butlast l else l)"

definition select_line :: "string \<Rightarrow> dbg \<Rightarrow> (string \<times> dbg) option" where
  "select_line line d =
     (let p = dropWhile isspace line
      in if p = [] then
           if last_cmd d \<noteq> [] then
             let p = dropWhile isspace (last_cmd d) in if p = [] then None else Some (p, d)
           else None
         else Some (p, d\<lparr>last_cmd := line\<rparr>))"

definition split_command :: "string \<Rightarrow> string \<times> string" where
  "split_command p =
     (let cmd = take 15 (takeWhile (\<lambda>c. \<not> isspace c) p) in (cmd, dropWhile isspace (drop (length cmd) p)))"

definition run_line :: "host_fp \<Rightarrow> string \<Rightarrow> dbg \<Rightarrow> (bool \<times> dbg) result" where
  "run_line hp line d =
     (case select_line (trim_line line) d of
        None \<Rightarrow> Returns (False, d)
      | Some (p, d) \<Rightarrow> let (cmd, args) = split_command p in command hp cmd args d)"

text \<open>The loop at the prompt; the first component of the result is what is left of the standard input.\<close>

lemma fgets_shorter: "fgets (Suc (Suc n)) s = Some (l, r) \<Longrightarrow> length r < length s"
proof -
  have le: "read_line m s = (l, r) \<Longrightarrow> length r \<le> length s" for m s l r
    by (induction m s arbitrary: l r rule: read_line.induct) (auto split: if_splits prod.splits intro: le_SucI)
  assume "fgets (Suc (Suc n)) s = Some (l, r)"
  then obtain c cs where s: "s = c # cs" "read_line (Suc n) (c # cs) = (l, r)"
    by (cases s) (auto simp: fgets_def)
  then show ?thesis using le [of n cs] by (auto split: if_splits prod.splits)
qed

function prompt :: "host_fp \<Rightarrow> string \<Rightarrow> dbg \<Rightarrow> (string \<times> dbg) result" where
  "prompt hp inp d =
     (let d = printf hp ''DEBUG> '' [] d
      in case fgets 256 inp of
           None \<Rightarrow> Returns (inp, d)
         | Some (line, inp) \<Rightarrow>
             (case run_line hp line d of
                Returns (True, d) \<Rightarrow> Returns (inp, d)
              | Returns (False, d) \<Rightarrow> prompt hp inp d
              | Hangs \<Rightarrow> Hangs
              | Undefined \<Rightarrow> Undefined))"
  by auto
termination
  by (relation "measure (\<lambda>(_, inp, _). length inp)") (auto dest: fgets_shorter [of 254, simplified])

declare prompt.simps [simp del]

definition tick_debugger :: "host_fp \<Rightarrow> string \<Rightarrow> dbg \<Rightarrow> (string \<times> dbg) result" where
  "tick_debugger hp inp d =
     (let (ins, d) = peek32 (pc (guest d)) d
      in if show_disasm d then
           (case disasm (pc (guest d)) ins of
              None \<Rightarrow> Undefined
            | Some text \<Rightarrow>
                prompt hp inp
                  (printf hp (''0x%08x:  %08x  %s'' @ [NL]) [AInt (pc (guest d)), AInt ins, AStr text] d))
         else prompt hp inp (printf hp (''0x%08x: %08x'' @ [NL]) [AInt (pc (guest d)), AInt ins] d))"

end
