(* ===== verification/Debug_Loop.thy ===== *)
theory Debug_Loop
  imports Debugger
begin

text \<open>
  The run loop of src/src/emu.c as it is built with CONFIG_ENABLE_DEBUGGER: the loop of \<open>Main_Loop\<close> with
  the breakpoint test, the reaction to SIGINT and the call of the debugger between the poll of the
  console and the fetch. Messages of the logger are not part of the debugger's output.
\<close>

section \<open>The loop\<close>

record debug_run =
  run_st :: run
  dbg_st :: dbg
  stdin :: string

text \<open>Breakpoints, SIGINT and single-stepping, before the fetch.\<close>

definition check_breakpoint :: "dbg \<Rightarrow> dbg" where
  "check_breakpoint d =
     (if breakpoint_enabled d \<and> pc (guest d) = breakpoint d
      then d\<lparr>single_step := True, breakpoint_enabled := False\<rparr> else d)"

definition check_sigint :: "host_fp \<Rightarrow> dbg \<Rightarrow> dbg" where
  "check_sigint hp d =
     (if break_requested d
      then printf hp (''Received SIGINT, entering debugger.'' @ [NL]) [] (d\<lparr>break_requested := False\<rparr>) else d)"

definition debug_tick :: "host_fp \<Rightarrow> debug_run \<Rightarrow> debug_run result" where
  "debug_tick hp x =
     (let d = check_sigint hp (check_breakpoint ((dbg_st x)\<lparr>guest := hart (run_st x)\<rparr>));
          back = (\<lambda>inp d. x\<lparr>run_st := (run_st x)\<lparr>hart := guest d\<rparr>, dbg_st := d, stdin := inp\<rparr>)
      in if single_step d then
           (case tick_debugger hp (stdin x) d of
              Returns (inp, d) \<Rightarrow> Returns (back inp d)
            | Hangs \<Rightarrow> Hangs
            | Undefined \<Rightarrow> Undefined)
         else Returns (back (stdin x) d))"

text \<open>The fetch and the instruction, as in the loop without the debugger.\<close>

definition fetch_stage :: "bool \<Rightarrow> softfloat \<Rightarrow> run \<Rightarrow> run res" where
  "fetch_stage alloc_ok sf r =
     (let fetch_pc = pc (hart r);
          r = r\<lparr>hart := (hart r)\<lparr>g_prev_ins_pc := last_fetch_pc r\<rparr>\<rparr>
      in case fetch_and_exec alloc_ok sf fetch_pc (hart r) of
           Inl msg \<Rightarrow> Inl msg
         | Inr s \<Rightarrow> Inr (r\<lparr>hart := retire s, last_fetch_pc := fetch_pc\<rparr>))"

text \<open>One iteration. As in \<open>Main_Loop\<close>, the Boolean says whether it left the loop by \<open>break\<close>.\<close>

definition debug_body :: "bool \<Rightarrow> softfloat \<Rightarrow> host_fp \<Rightarrow> host_env \<Rightarrow> debug_run \<Rightarrow> (bool \<times> debug_run) res result" where
  "debug_body alloc_ok sf hp env x =
     (let r = (run_st x)\<lparr>hart := check_and_handle_interrupts (hart (run_st x))\<rparr>;
          (quit, r) = poll_input env r
      in if quit then Returns (Inr (True, x\<lparr>run_st := r\<lparr>input := uart_input_cleanup (input r)\<rparr>\<rparr>))
         else if pc (hart r) \<ge> MEM_SIZE then Returns (Inl ''PC out of bounds'')
         else case debug_tick hp (x\<lparr>run_st := r\<rparr>) of
                Hangs \<Rightarrow> Hangs
              | Undefined \<Rightarrow> Undefined
              | Returns x \<Rightarrow>
                  if terminated (hart (run_st x)) then Returns (Inr (True, x))
                  else
                    (case fetch_stage alloc_ok sf (run_st x) of
                       Inl msg \<Rightarrow> Returns (Inl msg)
                     | Inr r \<Rightarrow> Returns (Inr (False, x\<lparr>run_st := spin_detect (last_fetch_pc r) (spin_arm r)\<rparr>))))"

datatype debug_result = D_Running debug_run | D_Stopped debug_run | D_Fatal string | D_Hangs | D_Undefined

definition stop_run :: "debug_run \<Rightarrow> debug_run" where
  "stop_run x = x\<lparr>run_st := (run_st x)\<lparr>input := uart_input_cleanup (input (run_st x))\<rparr>\<rparr>"

fun debug_loop :: "bool \<Rightarrow> softfloat \<Rightarrow> host_fp \<Rightarrow> host_env list \<Rightarrow> debug_run \<Rightarrow> debug_result" where
  "debug_loop alloc_ok sf hp envs x =
     (if terminated (hart (run_st x)) then D_Stopped (stop_run x)
      else case envs of
        [] \<Rightarrow> D_Running x
      | env # envs \<Rightarrow>
          (case debug_body alloc_ok sf hp env x of
             Hangs \<Rightarrow> D_Hangs
           | Undefined \<Rightarrow> D_Undefined
           | Returns (Inl msg) \<Rightarrow> D_Fatal msg
           | Returns (Inr (True, x)) \<Rightarrow> D_Stopped (stop_run x)
           | Returns (Inr (False, x)) \<Rightarrow> debug_loop alloc_ok sf hp envs x))"

declare debug_loop.simps [simp del]

section \<open>What a command leaves alone\<close>

text \<open>
  A relation between the states before and after a command that printing and reading the guest's memory
  stay in. The commands that only look at the machine stay in it too, which is proved once for every such relation.
\<close>

locale observation =
  fixes R :: "dbg \<Rightarrow> dbg \<Rightarrow> bool"
  assumes R_refl: "R d d"
    and R_trans: "R d e \<Longrightarrow> R e f \<Longrightarrow> R d f"
    and R_out: "R d (d\<lparr>out := t\<rparr>)"
    and R_read32: "R d (d\<lparr>guest := snd (mem_read32_unsigned a (guest d))\<rparr>)"
    and R_read8: "R d (d\<lparr>guest := snd (mem_read8_unsigned a (guest d))\<rparr>)"
    and R_read64: "R d (d\<lparr>guest := snd (mem_read64_unsigned a (guest d))\<rparr>)"
begin

lemma R_printf: "R d e \<Longrightarrow> R d (printf hp form args e)"
  unfolding printf_def by (rule R_trans [OF _ R_out])

lemma R_peek:
  "R d e \<Longrightarrow> R d (snd (peek32 a e))" "R d e \<Longrightarrow> R d (snd (peek8 a e))" "R d e \<Longrightarrow> R d (snd (peek64 a e))"
  by (simp_all add: peek32_def peek8_def peek64_def case_prod_unfold Let_def R_trans [OF _ R_read32]
      R_trans [OF _ R_read8] R_trans [OF _ R_read64])

lemma R_fold: "(\<And>x e. R d e \<Longrightarrow> R d (f x e)) \<Longrightarrow> R d e \<Longrightarrow> R d (fold f xs e)"
  by (induction xs arbitrary: e) simp_all

lemmas R_rules = R_refl R_printf R_peek

lemma R_print_registers: "R d (print_registers hp d)"
  unfolding print_registers_def Let_def by (intro R_fold) (simp_all add: R_rules)

lemma R_show_word: "R d e \<Longrightarrow> R d (show_word hp a e)"
  by (simp add: show_word_def case_prod_unfold Let_def R_rules)

lemma R_memory: "R d (cmd_memory hp args d)"
  unfolding cmd_memory_def by (auto intro!: R_fold R_rules R_show_word split: option.split)

lemma R_dump_bytes: "R d (cmd_dump_bytes hp args d)"
  unfolding cmd_dump_bytes_def Let_def
  by (auto simp: dump_byte_def Let_def case_prod_unfold intro!: R_fold R_rules split: option.split)

lemma R_string_loop: "R d (d\<lparr>guest := snd (string_loop a (guest d))\<rparr>)"
proof -
  have "R (d\<lparr>guest := g\<rparr>) (d\<lparr>guest := snd (string_loop a g)\<rparr>)" for g
  proof (induction a g rule: string_loop.induct)
    case (1 a g)
    let ?g = "snd (mem_read8_unsigned a g)" and ?c = "ucast (fst (mem_read8_unsigned a g)) :: u8"
    have r: "R (d\<lparr>guest := g\<rparr>) (d\<lparr>guest := ?g\<rparr>)" using R_read8 [of "d\<lparr>guest := g\<rparr>" a] by simp
    show ?case
    proof (cases "?c \<noteq> 0 \<and> 32 \<le>s ?c")
      case True
      then have "R (d\<lparr>guest := ?g\<rparr>) (d\<lparr>guest := snd (string_loop (a + 1) ?g)\<rparr>)"
        using 1 [of _ "fst (mem_read8_unsigned a g)" ?g ?c] by simp
      then show ?thesis using r True
        by (subst string_loop.simps) (auto simp: case_prod_unfold Let_def intro: R_trans)
    next
      case False
      then show ?thesis using r by (subst string_loop.simps) (auto simp: case_prod_unfold Let_def)
    qed
  qed
  from this [of "guest d"] show ?thesis by simp
qed

lemma R_string: "R d (cmd_string hp args d)"
proof -
  have "R d (e\<lparr>guest := snd (string_loop a (guest e)), out := t\<rparr>)" if "R d e" for e a t
    using R_trans [OF R_trans [OF that R_string_loop] R_out] by simp
  then show ?thesis
    by (auto simp: cmd_string_def case_prod_unfold Let_def intro!: R_printf R_refl split: option.split)
qed

lemma R_dump_loop:
  assumes "dump_loop hp a u e = Some e'" "R d e"
  shows "R d e'"
  using assms
proof (induction arbitrary: d rule: dump_loop.raw_induct [rotated, consumes 1])
  case (1 loop hp a u e e')
  show ?case
  proof (cases "a \<le> u")
    case True
    with 1 have "loop hp (a + 4) u (show_word hp a e) = Some e'" by simp
    then show ?thesis using 1 R_show_word by blast
  next
    case False
    with 1 show ?thesis by simp
  qed
qed

lemma R_dump_range: "cmd_dump_range hp args d = Returns d' \<Longrightarrow> R d d'"
  using R_dump_loop [OF _ R_refl]
  by (auto simp: cmd_dump_range_def intro!: R_printf R_refl split: option.splits)

lemma R_list_insns: "list_insns hp n a e = Some e' \<Longrightarrow> R d e \<Longrightarrow> R d e'"
  by (induction n arbitrary: a e) (auto simp: Let_def case_prod_unfold intro: R_rules split: option.splits)

lemma R_disasm: "cmd_disasm hp args d = Returns d' \<Longrightarrow> R d d'"
  by (auto simp: cmd_disasm_def Let_def intro!: R_printf R_refl intro: R_list_insns split: option.splits prod.splits)

lemma R_help: "R d (cmd_help hp d)"
  unfolding cmd_help_def by (intro R_fold R_rules)

lemma R_fregisters: "R d (cmd_fregisters hp d)"
  unfolding cmd_fregisters_def Let_def
  by (intro R_printf R_fold) (simp_all add: show_single_def show_double_def show_quad_def Let_def R_rules)

lemma R_fdump: "R d (cmd_fdump hp args d)"
  by (auto simp: cmd_fdump_def dump_as_def Let_def case_prod_unfold intro!: R_fold R_rules split: option.split list.split)

lemma R_fcsr: "R d (cmd_fcsr hp d)"
  unfolding cmd_fcsr_def Let_def by (simp add: R_rules)

lemma R_frm: "R d (cmd_frm hp d)"
  unfolding cmd_frm_def Let_def by (simp add: R_rules)

lemma R_show_fregister: "R d (show_fregister hp r d)"
  unfolding show_fregister_def Let_def by (simp add: R_rules)

lemmas R_commands = R_refl R_printf R_print_registers R_memory R_dump_bytes R_string R_help R_fregisters R_fdump R_fcsr R_frm
  R_show_fregister

end

text \<open>Only the devices with read side effects and the printed text change.\<close>

definition observes :: "dbg \<Rightarrow> dbg \<Rightarrow> bool" where
  "observes d d' \<longleftrightarrow> dev_frame (guest d) (guest d') \<and> single_step d' = single_step d \<and> breakpoint d' = breakpoint d \<and>
     breakpoint_enabled d' = breakpoint_enabled d \<and> break_requested d' = break_requested d \<and>
     last_cmd d' = last_cmd d \<and> show_disasm d' = show_disasm d"

interpretation obs: observation observes
  by unfold_locales (auto simp: observes_def dev_frame_reads intro: dev_frame_trans)

text \<open>The machine invariant, the last command and a pending SIGINT are kept.\<close>

definition keeps :: "dbg \<Rightarrow> dbg \<Rightarrow> bool" where
  "keeps d d' \<longleftrightarrow> (emu_inv (guest d) \<longrightarrow> emu_inv (guest d')) \<and> last_cmd d' = last_cmd d \<and>
     break_requested d' = break_requested d"

interpretation kept: observation keeps
  by unfold_locales (auto simp: keeps_def inv_rules)

text \<open>The commands that change the machine keep its invariant too.\<close>

lemma keeps_update:
  "keeps d (d\<lparr>single_step := b\<rparr>)" "keeps d (d\<lparr>breakpoint_enabled := b\<rparr>)" "keeps d (d\<lparr>show_disasm := b\<rparr>)"
  "keeps d (d\<lparr>breakpoint := a, breakpoint_enabled := b\<rparr>)"
  "(emu_inv (guest d) \<Longrightarrow> emu_inv g) \<Longrightarrow> keeps d (d\<lparr>guest := g\<rparr>)"
  by (simp_all add: keeps_def)

lemma emu_inv_gpr: "emu_inv s \<Longrightarrow> r \<noteq> 0 \<Longrightarrow> emu_inv (s\<lparr>gpr := (gpr s)(r := v)\<rparr>)"
  by (simp add: emu_inv_def csr_wf_def csr_val_def)

lemma emu_inv_stop: "emu_inv (s\<lparr>terminated := b\<rparr>) = emu_inv s"
  by (simp add: emu_inv_def csr_wf_def csr_val_def)

lemma keeps_write_token: "keeps d (snd p) \<Longrightarrow> keeps d (snd (write_token hp t p))"
  by (cases p) (auto simp: write_token_def Let_def intro!: kept.R_printf split: option.split
      intro: kept.R_trans keeps_update inv_rules)

lemma keeps_write: "keeps d (cmd_write hp args d)"
proof -
  have "keeps d (snd p) \<Longrightarrow> keeps d (snd (fold (write_token hp) ts p))" for ts p
    by (induction ts arbitrary: p) (simp_all add: keeps_write_token)
  then show ?thesis by (auto simp: cmd_write_def intro!: kept.R_printf simp: kept.R_refl split: list.split option.split)
qed

lemma keeps_setters:
  "keeps d (cmd_set_pc hp args d)" "keeps d (cmd_set_register hp args d)" "keeps d (cmd_set_fregister hp args d)"
  "keeps d (cmd_set_fcsr hp args d)" "keeps d (cmd_breakpoint_set hp args d)" "keeps d (cmd_breakpoint_clear hp d)"
  "keeps d (cmd_toggle_disasm hp d)" "keeps d (cmd_quit d)" "keeps d (cmd_single_step d)" "keeps d (cmd_continue d)"
proof -
  show "keeps d (cmd_set_pc hp args d)"
    by (auto simp: cmd_set_pc_def Let_def keeps_def printf_def split: option.split)
  show "keeps d (cmd_set_register hp args d)"
    by (auto simp: cmd_set_register_def set_register_def Let_def keeps_def printf_def emu_inv_gpr
        split: option.split list.split sum.split)
  show "keeps d (cmd_set_fcsr hp args d)"
    by (auto simp: cmd_set_fcsr_def Let_def keeps_def printf_def set_fcsr_def split: option.split)
  have "keeps d (set_fregister hp r t d)" for r t
    by (auto simp: set_fregister_def Let_def keeps_def printf_def fpr_write_s_def fpr_write_d_def split: option.split)
  then show "keeps d (cmd_set_fregister hp args d)"
    by (auto simp: cmd_set_fregister_def intro!: kept.R_fold kept.R_rules kept.R_show_fregister split: option.split list.split)
qed (simp_all add: cmd_breakpoint_set_def cmd_breakpoint_clear_def cmd_toggle_disasm_def cmd_quit_def cmd_single_step_def
    cmd_continue_def keeps_def printf_def emu_inv_stop Let_def split: option.split)

text \<open>What holds of the state a command returns, if it does.\<close>

definition ends_in :: "(dbg \<Rightarrow> bool) \<Rightarrow> (bool \<times> dbg) result \<Rightarrow> bool" where
  "ends_in P r \<longleftrightarrow> (\<forall>b d. r = Returns (b, d) \<longrightarrow> P d)"

lemma ends_in_simps [simp]:
  "ends_in P (Returns (b, d)) = P d"
  "ends_in P (if c then x else y) = (if c then ends_in P x else ends_in P y)"
  "ends_in P (case r of Returns d \<Rightarrow> Returns (False, d) | Hangs \<Rightarrow> Hangs | Undefined \<Rightarrow> Undefined) \<longleftrightarrow>
     (\<forall>d. r = Returns d \<longrightarrow> P d)"
  by (auto simp: ends_in_def split: result.split)

lemma ends_in_keeps: "ends_in (keeps d) (command hp cmd args d)"
  unfolding command_def Let_def
  by (simp add: cmd_registers_def kept.R_commands keeps_setters keeps_write kept.R_dump_range kept.R_disasm)

lemma keeps_command: "command hp cmd args d = Returns (b, d') \<Longrightarrow> keeps d d'"
  using ends_in_keeps [of d hp cmd args] by (simp add: ends_in_def)

text \<open>The commands that inspect the machine.\<close>

definition inspects :: "string \<Rightarrow> string \<Rightarrow> bool" where
  "inspects cmd args \<longleftrightarrow>
     cmd \<in> {''r'', ''m'', ''B'', ''S'', ''d'', ''u'', ''f'', ''fd'', ''frm'', ''h'', ''?''} \<or> cmd = ''fc'' \<and> args = []"

lemma ends_in_observes: "inspects cmd args \<Longrightarrow> ends_in (observes d) (command hp cmd args d)"
  unfolding inspects_def insert_iff empty_iff command_def Let_def
  by (elim disjE conjE FalseE; simp add: cmd_registers_def obs.R_commands obs.R_dump_range obs.R_disasm)

section \<open>The stages of an iteration\<close>

text \<open>What comes before the debugger, and both loops in terms of the stages.\<close>

definition before_fetch :: "host_env \<Rightarrow> run \<Rightarrow> bool \<times> run" where
  "before_fetch env r = poll_input env (r\<lparr>hart := check_and_handle_interrupts (hart r)\<rparr>)"

lemma loop_body_stages:
  "loop_body alloc_ok sf env r =
     (let (quit, q) = before_fetch env r
      in if quit then Inr (True, q\<lparr>input := uart_input_cleanup (input q)\<rparr>)
         else if pc (hart q) \<ge> MEM_SIZE then Inl ''PC out of bounds''
         else case fetch_stage alloc_ok sf q of
                Inl msg \<Rightarrow> Inl msg
              | Inr r \<Rightarrow> Inr (False, spin_detect (last_fetch_pc r) (spin_arm r)))"
  by (simp add: loop_body_def loop_exec_def before_fetch_def fetch_stage_def case_prod_unfold Let_def split: sum.split)

lemma terminated_interrupts:
  assumes "csr_wf s"
  shows "terminated (check_and_handle_interrupts s) = terminated s"
proof -
  have "terminated (take_first xs s) = terminated s" for xs
    using assms by (simp add: take_first_def raise_interrupt_def drop_reservations_def Let_def trap_eqs split: list.split)
  then show ?thesis by (metis check_and_handle_interrupts_cases [OF assms])
qed

lemma before_fetch_keeps:
  assumes "emu_inv (hart r)"
  shows "emu_inv (hart (snd (before_fetch env r)))" "terminated (hart (snd (before_fetch env r))) = terminated (hart r)"
proof -
  show "emu_inv (hart (snd (before_fetch env r)))" using assms by (simp add: before_fetch_def emu_inv_poll inv_rules)
  have "terminated (hart (snd (poll_input env q))) = terminated (hart q)" for q
    by (simp add: poll_input_def case_prod_unfold Let_def)
  then show "terminated (hart (snd (before_fetch env r))) = terminated (hart r)"
    using assms by (simp add: before_fetch_def terminated_interrupts emu_inv_wf)
qed

lemma before_fetch_inv:
  assumes "loop_inv r" "\<not> terminated (hart r)"
  shows "loop_inv (snd (before_fetch env r))" "spin_count (snd (before_fetch env r)) < 64"
  using assms before_fetch_keeps [of r env] by (simp_all add: loop_inv_def before_fetch_def)

lemma fetch_stage_inv:
  assumes "loop_inv r" "spin_count r < 64" "fetch_stage True sf r = Inr r'"
  shows "loop_inv (spin_detect (last_fetch_pc r') (spin_arm r'))"
proof -
  have "keeps_inv (fetch_and_exec True sf (pc (hart r)) ((hart r)\<lparr>g_prev_ins_pc := last_fetch_pc r\<rparr>))"
    using assms(1) by (simp add: inv_rules loop_inv_def)
  then have "loop_inv r'" using assms
    by (auto simp: fetch_stage_def Let_def loop_inv_def emu_inv_retire split: sum.splits)
  then show ?thesis by (simp add: loop_inv_detect loop_inv_arm)
qed

section \<open>The invariant\<close>

lemma keeps_run_line:
  assumes "run_line hp line d = Returns (b, d')" "emu_inv (guest d)"
  shows "emu_inv (guest d')"
proof -
  have sel: "guest e = guest d" if "select_line l d = Some (p, e)" for l p e
    using that by (auto simp: select_line_def Let_def split: if_splits)
  show ?thesis using assms sel
    by (auto simp: run_line_def keeps_def dest!: keeps_command split: option.splits prod.splits)
qed

lemma emu_inv_prompt: "prompt hp inp d = Returns (rest, d') \<Longrightarrow> emu_inv (guest d) \<Longrightarrow> emu_inv (guest d')"
proof (induction hp inp d rule: prompt.induct)
  case (1 hp inp d)
  have p: "emu_inv (guest (printf hp ''DEBUG> '' [] d))" using 1 by (simp add: printf_def)
  show ?case
  proof (cases "fgets 256 inp")
    case None
    then show ?thesis using 1 p by (simp add: prompt.simps [of hp inp])
  next
    case (Some lr)
    obtain line inp' where lr: "lr = (line, inp')" by (cases lr)
    have IH: "run_line hp line (printf hp ''DEBUG> '' [] d) = Returns (False, e) \<Longrightarrow>
        prompt hp inp' e = Returns (rest, d') \<Longrightarrow> emu_inv (guest e) \<Longrightarrow> emu_inv (guest d')" for e
      using 1(1) [OF refl Some lr [symmetric]] by blast
    show ?thesis using 1(2) p IH
      by (auto simp: prompt.simps [of hp inp] Some lr Let_def dest: keeps_run_line
          split: result.splits bool.splits)
  qed
qed

lemma emu_inv_tick_debugger:
  assumes "tick_debugger hp inp d = Returns (rest, d')" "emu_inv (guest d)"
  shows "emu_inv (guest d')"
proof -
  have "emu_inv (guest (snd (peek32 a d)))" for a
    using assms(2) by (simp add: peek32_def case_prod_unfold Let_def inv_rules)
  then have "emu_inv (guest (printf hp form args (snd (peek32 a d))))" for form args a
    by (simp add: printf_def)
  then show ?thesis using assms(1)
    by (auto simp: tick_debugger_def Let_def case_prod_unfold dest!: emu_inv_prompt split: if_splits option.splits)
qed

lemma debug_tick_keeps:
  assumes "debug_tick hp x = Returns y" "loop_inv (run_st x)" "spin_count (run_st x) < 64"
  shows "loop_inv (run_st y)" "spin_count (run_st y) < 64"
proof -
  define d where "d = check_sigint hp (check_breakpoint ((dbg_st x)\<lparr>guest := hart (run_st x)\<rparr>))"
  have g: "guest d = hart (run_st x)"
    by (simp add: d_def check_sigint_def check_breakpoint_def printf_def)
  have "\<exists>s. run_st y = (run_st x)\<lparr>hart := s\<rparr> \<and> emu_inv s"
  proof (cases "single_step d")
    case True
    then obtain rest e where e: "tick_debugger hp (stdin x) d = Returns (rest, e)" "run_st y = (run_st x)\<lparr>hart := guest e\<rparr>"
      using assms(1) by (auto simp: debug_tick_def Let_def d_def [symmetric] split: result.splits)
    then show ?thesis using emu_inv_tick_debugger [OF e(1)] g assms(2) by (auto simp: loop_inv_def)
  next
    case False
    then show ?thesis using assms(1,2) g
      by (intro exI [of _ "hart (run_st x)"]) (auto simp: debug_tick_def Let_def d_def [symmetric] loop_inv_def)
  qed
  then show "loop_inv (run_st y)" "spin_count (run_st y) < 64" using assms(2,3) by (auto simp: loop_inv_def)
qed

lemma debug_body_stages:
  "debug_body alloc_ok sf hp env x =
     (let (quit, r) = before_fetch env (run_st x)
      in if quit then Returns (Inr (True, x\<lparr>run_st := r\<lparr>input := uart_input_cleanup (input r)\<rparr>\<rparr>))
         else if pc (hart r) \<ge> MEM_SIZE then Returns (Inl ''PC out of bounds'')
         else case debug_tick hp (x\<lparr>run_st := r\<rparr>) of
                Hangs \<Rightarrow> Hangs
              | Undefined \<Rightarrow> Undefined
              | Returns x \<Rightarrow>
                  if terminated (hart (run_st x)) then Returns (Inr (True, x))
                  else
                    (case fetch_stage alloc_ok sf (run_st x) of
                       Inl msg \<Rightarrow> Returns (Inl msg)
                     | Inr r \<Rightarrow> Returns (Inr (False, x\<lparr>run_st := spin_detect (last_fetch_pc r) (spin_arm r)\<rparr>))))"
  by (simp add: debug_body_def before_fetch_def Let_def)

lemma debug_body_inv:
  assumes "debug_body True sf hp env x = Returns (Inr (False, y))" "loop_inv (run_st x)" "\<not> terminated (hart (run_st x))"
  shows "loop_inv (run_st y)"
proof -
  let ?q = "snd (before_fetch env (run_st x))"
  obtain z r where z: "debug_tick hp (x\<lparr>run_st := ?q\<rparr>) = Returns z" "fetch_stage True sf (run_st z) = Inr r"
      "run_st y = spin_detect (last_fetch_pc r) (spin_arm r)"
    using assms(1) by (auto simp: debug_body_stages case_prod_unfold Let_def split: if_splits result.splits sum.splits)
  show ?thesis unfolding z(3)
    using fetch_stage_inv [OF debug_tick_keeps [OF z(1)] z(2)] before_fetch_inv [OF assms(2,3)] by simp
qed

text \<open>
  The states at the head of the loop, whatever is typed; a signal may arrive between any two iterations.
\<close>

inductive debug_reaches :: "softfloat \<Rightarrow> host_fp \<Rightarrow> debug_run \<Rightarrow> debug_run \<Rightarrow> bool" for sf hp x where
  start: "debug_reaches sf hp x x"
| iterate: "debug_reaches sf hp x y \<Longrightarrow> \<not> terminated (hart (run_st y)) \<Longrightarrow>
    debug_body True sf hp env y = Returns (Inr (False, z)) \<Longrightarrow> debug_reaches sf hp x z"
| signal: "debug_reaches sf hp x y \<Longrightarrow>
    debug_reaches sf hp x (y\<lparr>run_st := (run_st y)\<lparr>input := uart_input_signal (input (run_st y))\<rparr>\<rparr>)"
| sigint: "debug_reaches sf hp x y \<Longrightarrow> debug_reaches sf hp x (y\<lparr>dbg_st := handle_sigint (dbg_st y)\<rparr>)"

lemma debug_reaches_inv: "debug_reaches sf hp x y \<Longrightarrow> loop_inv (run_st x) \<Longrightarrow> loop_inv (run_st y)"
proof (induction rule: debug_reaches.induct)
  case (iterate y env z)
  then show ?case using debug_body_inv by blast
qed (simp_all add: loop_inv_def)

section \<open>A debugger that is not asked for\<close>

text \<open>
  While the debugger is not asked for (no single-stepping, no SIGINT, no breakpoint at the address to be
  fetched) an iteration is that of the loop built without it.
\<close>

definition passes :: "u32 \<Rightarrow> dbg \<Rightarrow> bool" where
  "passes a d \<longleftrightarrow> \<not> single_step d \<and> \<not> break_requested d \<and> \<not> (breakpoint_enabled d \<and> a = breakpoint d)"

lemma debug_tick_passes:
  "passes (pc (hart (run_st x))) (dbg_st x) \<Longrightarrow>
     debug_tick hp x = Returns (x\<lparr>dbg_st := (dbg_st x)\<lparr>guest := hart (run_st x)\<rparr>\<rparr>)"
  by (auto simp: passes_def debug_tick_def check_breakpoint_def check_sigint_def Let_def)

lemma debug_body_passes:
  assumes "emu_inv (hart (run_st x))" "\<not> terminated (hart (run_st x))"
    and "passes (pc (hart (snd (before_fetch env (run_st x))))) (dbg_st x)"
  shows "\<exists>g. debug_body alloc_ok sf hp env x =
     Returns (case loop_body alloc_ok sf env (run_st x) of Inl msg \<Rightarrow> Inl msg
              | Inr (quit, r) \<Rightarrow> Inr (quit, x\<lparr>run_st := r, dbg_st := (dbg_st x)\<lparr>guest := g\<rparr>\<rparr>))"
proof -
  let ?q = "snd (before_fetch env (run_st x))"
  have t: "\<not> terminated (hart ?q)" using assms(1,2) before_fetch_keeps by simp
  show ?thesis
  proof (cases "fst (before_fetch env (run_st x))")
    case True
    then show ?thesis
      by (intro exI [of _ "guest (dbg_st x)"])
        (simp add: debug_body_stages loop_body_stages case_prod_unfold Let_def)
  next
    case False
    then show ?thesis using t debug_tick_passes [of "x\<lparr>run_st := ?q\<rparr>" hp] assms(3)
      by (intro exI [of _ "hart ?q"])
        (auto simp: debug_body_stages loop_body_stages case_prod_unfold Let_def split: sum.split)
  qed
qed

text \<open>A run in which no instruction is fetched from an address.\<close>

fun misses :: "u32 \<Rightarrow> bool \<Rightarrow> softfloat \<Rightarrow> host_env list \<Rightarrow> run \<Rightarrow> bool" where
  "misses a alloc_ok sf [] r = True"
| "misses a alloc_ok sf (env # envs) r \<longleftrightarrow>
     pc (hart (snd (before_fetch env r))) \<noteq> a \<and>
     (case loop_body alloc_ok sf env r of Inr (False, r') \<Rightarrow> terminated (hart r') \<or> misses a alloc_ok sf envs r' | _ \<Rightarrow> True)"

definition asleep :: "softfloat \<Rightarrow> host_env list \<Rightarrow> debug_run \<Rightarrow> bool" where
  "asleep sf envs x \<longleftrightarrow> loop_inv (run_st x) \<and> \<not> single_step (dbg_st x) \<and> \<not> break_requested (dbg_st x) \<and>
     (breakpoint_enabled (dbg_st x) \<longrightarrow> misses (breakpoint (dbg_st x)) True sf envs (run_st x))"

text \<open>The result of the loop without the debugger as one of the loop with it: \<open>g\<close> is the machine the prompt saw last.\<close>

definition with_debugger :: "debug_run \<Rightarrow> emu \<Rightarrow> loop_result \<Rightarrow> debug_result" where
  "with_debugger x g res =
     (let attach = (\<lambda>r. x\<lparr>run_st := r, dbg_st := (dbg_st x)\<lparr>guest := g\<rparr>\<rparr>)
      in case res of Running r \<Rightarrow> D_Running (attach r) | Stopped r \<Rightarrow> D_Stopped (attach r) | Fatal msg \<Rightarrow> D_Fatal msg)"

lemma with_debugger_simps [simp]:
  "with_debugger x g (Running r) = D_Running (x\<lparr>run_st := r, dbg_st := (dbg_st x)\<lparr>guest := g\<rparr>\<rparr>)"
  "with_debugger x g (Stopped r) = D_Stopped (x\<lparr>run_st := r, dbg_st := (dbg_st x)\<lparr>guest := g\<rparr>\<rparr>)"
  "with_debugger x g (Fatal msg) = D_Fatal msg"
  by (simp_all add: with_debugger_def)

lemma with_debugger_again: "with_debugger (x\<lparr>run_st := r, dbg_st := (dbg_st x)\<lparr>guest := g\<rparr>\<rparr>) h res = with_debugger x h res"
  by (cases res) simp_all

lemma loops_done:
  assumes "terminated (hart (run_st x))"
  shows "debug_loop alloc_ok sf hp envs x = with_debugger x (guest (dbg_st x)) (main_loop alloc_ok sf envs (run_st x))"
  using assms by (simp add: debug_loop.simps [of _ _ _ envs] main_loop.simps [of _ _ envs] stop_run_def)

lemma debug_loop_asleep:
  assumes "asleep sf envs x"
  shows "\<exists>g. debug_loop True sf hp envs x = with_debugger x g (main_loop True sf envs (run_st x))"
  using assms
proof (induction envs arbitrary: x)
  case Nil
  show ?case
    by (intro exI [of _ "guest (dbg_st x)"])
      (simp add: debug_loop.simps [of _ _ _ "[]"] main_loop.simps [of _ _ "[]"] stop_run_def)
next
  case (Cons env envs)
  let ?r = "run_st x"
  show ?case
  proof (cases "terminated (hart ?r)")
    case False
    have p: "passes (pc (hart (snd (before_fetch env ?r)))) (dbg_st x)" "loop_inv ?r" "emu_inv (hart ?r)"
      using Cons.prems by (auto simp: asleep_def passes_def loop_inv_def)
    obtain g where g: "debug_body True sf hp env x =
        Returns (case loop_body True sf env ?r of Inl msg \<Rightarrow> Inl msg
              | Inr (quit, r) \<Rightarrow> Inr (quit, x\<lparr>run_st := r, dbg_st := (dbg_st x)\<lparr>guest := g\<rparr>\<rparr>))"
      using debug_body_passes [OF p(3) False p(1), of True sf hp] by blast
    note loops = debug_loop.simps [of _ _ _ "_ # _"] main_loop.simps [of _ _ "_ # _"] g False
    show ?thesis
    proof (cases "\<exists>r. loop_body True sf env ?r = Inr (False, r)")
      case True
      then obtain r where r: "loop_body True sf env ?r = Inr (False, r)" by blast
      let ?y = "x\<lparr>run_st := r, dbg_st := (dbg_st x)\<lparr>guest := g\<rparr>\<rparr>"
      have "terminated (hart r) \<or> asleep sf envs ?y"
        using Cons.prems r loop_inv_body [OF p(2) False r] by (auto simp: asleep_def)
      then have "\<exists>h. debug_loop True sf hp envs ?y = with_debugger ?y h (main_loop True sf envs r)"
        using Cons.IH [of ?y] loops_done [of ?y] by auto
      then show ?thesis by (simp add: loops r with_debugger_again)
    next
      case stop: False
      then show ?thesis
        by (intro exI [of _ g]) (auto simp: loops stop_run_def split: sum.split bool.split)
    qed
  qed (use loops_done in blast)
qed

text \<open>
  C11. The debugger is transparent: while nothing asks for it, the loop of the debugging build does what the loop
  without it does, whatever follows on standard input, prints nothing and leaves its settings alone. A breakpoint that
  is not met does not disturb the program.
\<close>

theorem debugger_transparent:
  assumes "asleep sf envs x"
  shows "\<exists>g. debug_loop True sf hp envs x = with_debugger x g (main_loop True sf envs (run_st x))"
  using assms by (rule debug_loop_asleep)

section \<open>Lines at the prompt\<close>

lemma read_line_NL: "NL \<notin> set line \<Longrightarrow> length line < n \<Longrightarrow> read_line n (line @ NL # rest) = (line @ [NL], rest)"
proof (induction line arbitrary: n)
  case Nil
  then show ?case by (cases n) simp_all
next
  case (Cons c line)
  then show ?case by (cases n) auto
qed

text \<open>A line that fits the buffer is read whole.\<close>

lemma prompt_line:
  assumes "NL \<notin> set line" "length line < 255"
  shows "prompt hp (line @ NL # rest) d =
     (case run_line hp (line @ [NL]) (printf hp ''DEBUG> '' [] d) of
        Returns (True, d) \<Rightarrow> Returns (rest, d)
      | Returns (False, d) \<Rightarrow> prompt hp rest d
      | Hangs \<Rightarrow> Hangs
      | Undefined \<Rightarrow> Undefined)"
proof -
  have "fgets 256 (line @ NL # rest) = Some (line @ [NL], rest)"
    using assms by (cases line) (simp_all add: fgets_def read_line_NL [of "_ # _", simplified] read_line_NL [of "[]", simplified])
  then show ?thesis by (subst prompt.simps) (simp add: Let_def)
qed

lemma trim_line_NL: "CHR 0x00 \<notin> set line \<Longrightarrow> trim_line (line @ [NL]) = line"
proof -
  assume "CHR 0x00 \<notin> set line"
  then have "takeWhile (\<lambda>c. c \<noteq> CHR 0x00) (line @ [NL]) = line @ [NL]"
    by (subst takeWhile_eq_all_conv) auto
  then show ?thesis by (simp add: trim_line_def c_str_def)
qed

text \<open>A line that starts with its command, and the command's word cut off.\<close>

lemma run_line_text:
  assumes "CHR 0x00 \<notin> set line" "line \<noteq> []" "\<not> isspace (hd line)"
  shows "run_line hp (line @ [NL]) d =
     (let (cmd, args) = split_command line in command hp cmd args (d\<lparr>last_cmd := line\<rparr>))"
proof -
  have "dropWhile isspace line = line" using assms(2,3) by (cases line) simp_all
  then show ?thesis using assms by (simp add: run_line_def trim_line_NL select_line_def)
qed

lemma split_command_words:
  assumes "\<And>c. c \<in> set cmd \<Longrightarrow> \<not> isspace c" "length cmd \<le> 15"
  shows "split_command (cmd @ CHR '' '' # args) = (cmd, dropWhile isspace args)" "split_command cmd = (cmd, [])"
proof -
  have sp: "isspace (CHR '' '')" by (simp add: isspace_def)
  have t: "takeWhile (\<lambda>c. \<not> isspace c) cmd = cmd" using assms(1) by (subst takeWhile_eq_all_conv) auto
  then have u: "takeWhile (\<lambda>c. \<not> isspace c) (cmd @ CHR '' '' # args) = cmd"
    using sp assms(1) by (simp add: takeWhile_append)
  show "split_command (cmd @ CHR '' '' # args) = (cmd, dropWhile isspace args)" "split_command cmd = (cmd, [])"
    unfolding split_command_def t u using assms(2) sp by simp_all
qed

lemma run_line_blank:
  assumes "last_cmd d \<noteq> []" "\<not> isspace (hd (last_cmd d))"
  shows "run_line hp [NL] d = (let (cmd, args) = split_command (last_cmd d) in command hp cmd args d)"
proof -
  have "dropWhile isspace (last_cmd d) = last_cmd d" using assms by (cases "last_cmd d") simp_all
  then show ?thesis using assms trim_line_NL [of "[]"] by (simp add: run_line_def select_line_def)
qed

section \<open>Single-stepping\<close>

lemma run_line_step: "run_line hp ''s\<newline>'' d = Returns (True, cmd_single_step (d\<lparr>last_cmd := ''s''\<rparr>))"
  using run_line_text [of "''s''" hp d] split_command_words(2) [of "''s''"] by (simp add: isspace_def command_def)

text \<open>The prompt of a machine whose next instruction is in RAM and has a listing.\<close>

lemma tick_step:
  assumes "ram32 (pc (guest d))" "disasm (pc (guest d)) (load_le 4 (pc (guest d)) (main_memory (guest d))) \<noteq> None"
  shows "\<exists>t. tick_debugger hp (''s\<newline>'' @ rest) d = Returns (rest, d\<lparr>single_step := True, last_cmd := ''s'', out := t\<rparr>)"
proof -
  have p: "peek32 (pc (guest d)) d = (load_le 4 (pc (guest d)) (main_memory (guest d)), d)"
    using assms(1) by (simp add: peek32_def read32_ram)
  have step: "prompt hp (''s\<newline>'' @ rest) (d\<lparr>out := u\<rparr>) =
      Returns (rest, d\<lparr>single_step := True, last_cmd := ''s'', out := u @ ''DEBUG> ''\<rparr>)" for u
    using prompt_line [of "''s''" hp rest "d\<lparr>out := u\<rparr>"] run_line_step [of hp "printf hp ''DEBUG> '' [] (d\<lparr>out := u\<rparr>)"]
    by (simp add: printf_def cmd_single_step_def)
  obtain s where s: "disasm (pc (guest d)) (load_le 4 (pc (guest d)) (main_memory (guest d))) = Some s"
    using assms(2) by blast
  show ?thesis by (auto simp: tick_debugger_def p s printf_def step simp del: append_Cons)
qed

lemma debug_tick_step:
  assumes "single_step (dbg_st x)" "stdin x = ''s\<newline>'' @ rest" "ram32 (pc (hart (run_st x)))"
    and "disasm (pc (hart (run_st x))) (load_le 4 (pc (hart (run_st x))) (main_memory (hart (run_st x)))) \<noteq> None"
  shows "\<exists>d. debug_tick hp x = Returns (x\<lparr>dbg_st := d, stdin := rest\<rparr>) \<and> single_step d \<and> last_cmd d = ''s''"
proof -
  define d where "d = check_sigint hp (check_breakpoint ((dbg_st x)\<lparr>guest := hart (run_st x)\<rparr>))"
  have g: "guest d = hart (run_st x)" "single_step d"
    using assms(1) by (simp_all add: d_def check_sigint_def check_breakpoint_def printf_def)
  with tick_step [of d hp rest] obtain t where
    "tick_debugger hp (stdin x) d = Returns (rest, d\<lparr>single_step := True, last_cmd := ''s'', out := t\<rparr>)"
    using assms(2-4) by auto
  with g show ?thesis
    by (intro exI [of _ "d\<lparr>single_step := True, last_cmd := ''s'', out := t\<rparr>"])
      (simp add: debug_tick_def d_def [symmetric] Let_def)
qed

text \<open>
  C25. Single-stepping: when \<open>s\<close> is typed at the prompt the iteration does to the machine what an iteration of the
  loop without the debugger does, exactly one line is read, and the next iteration stops at the prompt again.
\<close>

theorem single_step_one_iteration:
  assumes "emu_inv (hart (run_st x))" "\<not> terminated (hart (run_st x))"
    and "before_fetch env (run_st x) = (False, q)" "ram32 (pc (hart q))"
    and "disasm (pc (hart q)) (load_le 4 (pc (hart q)) (main_memory (hart q))) \<noteq> None"
    and "single_step (dbg_st x)" "stdin x = ''s\<newline>'' @ rest"
  shows "\<exists>d. single_step d \<and> last_cmd d = ''s'' \<and> debug_body alloc_ok sf hp env x =
     Returns (case loop_body alloc_ok sf env (run_st x) of Inl msg \<Rightarrow> Inl msg
              | Inr (quit, r) \<Rightarrow> Inr (quit, x\<lparr>run_st := r, dbg_st := d, stdin := rest\<rparr>))"
proof -
  have t: "\<not> terminated (hart q)" using assms(1-3) before_fetch_keeps(2) [of "run_st x" env] by simp
  have "\<not> MEM_SIZE \<le> pc (hart q)" using assms(4) by (auto simp: ram32_def word_le_nat_alt word_less_nat_alt)
  moreover obtain d where "debug_tick hp (x\<lparr>run_st := q\<rparr>) = Returns (x\<lparr>run_st := q, dbg_st := d, stdin := rest\<rparr>)"
    "single_step d" "last_cmd d = ''s''"
    using debug_tick_step [of "x\<lparr>run_st := q\<rparr>" rest hp] assms(4-7) by auto
  ultimately show ?thesis using assms(3) t
    by (intro exI [of _ d]) (auto simp: debug_body_stages loop_body_stages Let_def split: sum.split)
qed

section \<open>A session\<close>

text \<open>The program of the run loop's example at the prompt, with a breakpoint it does not meet.\<close>

definition demo_fp :: host_fp where
  "demo_fp = \<lparr>double_str = (\<lambda>_ _. []), scan_double = (\<lambda>_. None), float_to_double = ucast, double_to_float = ucast\<rparr>"

definition demo_debug :: debug_run where
  "demo_debug =
     \<lparr>run_st = spin_demo,
      dbg_st = \<lparr>guest = hart spin_demo, single_step = False, breakpoint = 0x2000, breakpoint_enabled = True,
        break_requested = False, last_cmd = [], show_disasm = True, out = []\<rparr>,
      stdin = ''s\<newline>''\<rparr>"

lemma before_fetch_self_loop:
  assumes "self_loop a r"
  shows "before_fetch env r = (False, r)"
proof -
  have "check_and_handle_interrupts (hart r) = hart r"
    using assms by (simp add: check_and_handle_interrupts_def self_loop_def csr_reads Let_def)
  then show ?thesis using assms by (simp add: before_fetch_def poll_input_def uart_poll_input_def self_loop_def)
qed

lemma demo_jump: "disasm 0x1000 0x6F = Some ''jal zero, 0x1000''"
  by (simp add: disasm_def get_opcode_def get_rd_def get_funct3_def disasm_jal_def imm_j_def sign_extend_21_def fmt_def
      reg_name_def reg_names_def digits_eval)

theorem debugger_transparent_witness:
  "\<exists>g. debug_loop True order_softfloat demo_fp [idle_host] demo_debug =
     with_debugger demo_debug g (main_loop True order_softfloat [idle_host] spin_demo)"
proof -
  have "pc (hart spin_demo) = 0x1000" using spin_demo_ok(1) by (simp add: self_loop_def)
  then have "asleep order_softfloat [idle_host] demo_debug"
    using spin_demo_ok(2) before_fetch_self_loop [OF spin_demo_ok(1)]
    by (simp add: asleep_def demo_debug_def split: sum.split bool.split)
  from debugger_transparent [OF this, of demo_fp] show ?thesis by (simp add: demo_debug_def)
qed

definition demo_stepping :: debug_run where
  "demo_stepping = demo_debug\<lparr>dbg_st := (dbg_st demo_debug)\<lparr>single_step := True\<rparr>\<rparr>"

theorem single_step_one_iteration_witness:
  "\<exists>d. single_step d \<and> debug_body True order_softfloat demo_fp idle_host demo_stepping =
     Returns (case loop_body True order_softfloat idle_host spin_demo of Inl msg \<Rightarrow> Inl msg
              | Inr (quit, r) \<Rightarrow> Inr (quit, demo_stepping\<lparr>run_st := r, dbg_st := d, stdin := []\<rparr>))"
proof -
  have x: "run_st demo_stepping = spin_demo" "stdin demo_stepping = ''s\<newline>''" "single_step (dbg_st demo_stepping)"
    by (simp_all add: demo_stepping_def demo_debug_def)
  have q: "before_fetch idle_host (run_st demo_stepping) = (False, spin_demo)"
    using before_fetch_self_loop [OF spin_demo_ok(1)] by (simp add: x)
  have "pc (hart spin_demo) = 0x1000" "ram32 (pc (hart spin_demo))" "load_le 4 0x1000 (main_memory (hart spin_demo)) = (0x6F :: u32)"
    using spin_demo_ok(1) by (auto simp: self_loop_def)
  then show ?thesis
    using single_step_one_iteration [OF _ _ q, of "[]" True order_softfloat demo_fp] spin_demo_ok(2,5) x
    by (auto simp: demo_jump loop_inv_def)
qed

end
