(* ===== verification/Logger.thy ===== *)
theory Logger
  imports Libc
begin

text \<open>
  The logger, src/src/logger.c: the level and the two outputs as one record, and every message function with its
  test of the level. The time stamp is the text that \<open>strftime\<close> makes of the host's clock; an output stream is the
  text written to it. Writing to a closed file and closing it twice are undefined (\<open>None\<close>). \<open>char\<close> is signed.
\<close>

section \<open>State\<close>

datatype log_file = No_file | Open string | Closed string

record logger =
  level :: u8
  file_output :: log_file
  log_to_stdout :: bool
  stdout :: string
  stderr :: string

abbreviation DEBUG :: u8 where "DEBUG \<equiv> 0"
abbreviation INFO :: u8 where "INFO \<equiv> 1"
abbreviation WARN :: u8 where "WARN \<equiv> 2"
abbreviation ERROR :: u8 where "ERROR \<equiv> 3"

definition initial_logger :: logger where
  "initial_logger = \<lparr>level = 0, file_output = No_file, log_to_stdout = True, stdout = [], stderr = []\<rparr>"

section \<open>Operations\<close>

text \<open>A line of the log; its buffers hold 1024 and 2048 characters.\<close>

definition log_line :: "string \<Rightarrow> string \<Rightarrow> string \<Rightarrow> string" where
  "log_line clock tag text = take 2047 (clock @ '' ['' @ tag @ ''] '' @ take 1023 text @ [NL])"

definition fputs :: "string \<Rightarrow> log_file \<Rightarrow> log_file option" where
  "fputs s f = (case f of No_file \<Rightarrow> Some No_file | Open t \<Rightarrow> Some (Open (t @ s)) | Closed t \<Rightarrow> None)"

definition generic_logger :: "string \<Rightarrow> string \<Rightarrow> string \<Rightarrow> logger \<Rightarrow> logger option" where
  "generic_logger clock tag text l =
     (let output = log_line clock tag text;
          l = (if log_to_stdout l then l\<lparr>stdout := stdout l @ output\<rparr> else l)
      in map_option (\<lambda>f. l\<lparr>file_output := f\<rparr>) (fputs output (file_output l)))"

text \<open>The result of \<open>fopen\<close> is an argument.\<close>

definition init_logger :: "bool \<Rightarrow> u8 \<Rightarrow> string option \<Rightarrow> bool \<Rightarrow> logger \<Rightarrow> logger" where
  "init_logger fopen_ok default_level output_file log_to_stdout_p l =
     (let l = l\<lparr>level := if default_level = - 1 then INFO else default_level\<rparr>;
          l = l\<lparr>log_to_stdout := log_to_stdout_p\<rparr>
      in if output_file \<noteq> None then l\<lparr>file_output := if fopen_ok then Open [] else No_file\<rparr> else l)"

definition terminate_logger :: "logger \<Rightarrow> logger option" where
  "terminate_logger l =
     (case file_output l of
        No_file \<Rightarrow> Some l
      | Open t \<Rightarrow> Some (l\<lparr>file_output := Closed t\<rparr>)
      | Closed t \<Rightarrow> None)"

definition set_level :: "u8 \<Rightarrow> logger \<Rightarrow> logger" where
  "set_level level_p l = (if DEBUG \<le>s level_p \<and> level_p \<le>s ERROR then l\<lparr>level := level_p\<rparr> else l)"

definition debug :: "string \<Rightarrow> double_text \<Rightarrow> string \<Rightarrow> c_arg list \<Rightarrow> logger \<Rightarrow> logger option" where
  "debug clock dt form args l =
     (if DEBUG <s level l then Some l else generic_logger clock ''DEBUG'' (sprintf dt form args) l)"

definition info :: "string \<Rightarrow> double_text \<Rightarrow> string \<Rightarrow> c_arg list \<Rightarrow> logger \<Rightarrow> logger option" where
  "info clock dt form args l =
     (if INFO <s level l then Some l else generic_logger clock ''INFO'' (sprintf dt form args) l)"

definition warn :: "string \<Rightarrow> double_text \<Rightarrow> string \<Rightarrow> c_arg list \<Rightarrow> logger \<Rightarrow> logger option" where
  "warn clock dt form args l =
     (if WARN <s level l then Some l else generic_logger clock ''WARN'' (sprintf dt form args) l)"

definition error :: "string \<Rightarrow> double_text \<Rightarrow> string \<Rightarrow> c_arg list \<Rightarrow> logger \<Rightarrow> logger option" where
  "error clock dt form args l =
     (if ERROR <s level l then Some l else generic_logger clock ''ERROR'' (sprintf dt form args) l)"

text \<open>\<open>fatal\<close> ends the process; its result is the state it leaves.\<close>

definition fatal :: "string \<Rightarrow> double_text \<Rightarrow> string \<Rightarrow> c_arg list \<Rightarrow> logger \<Rightarrow> logger option" where
  "fatal clock dt form args l =
     (case generic_logger clock ''!!!FATAL!!!'' (sprintf dt form args) l of
        None \<Rightarrow> None
      | Some l \<Rightarrow>
          let l = (if \<not> log_to_stdout l
                   then l\<lparr>stderr := stderr l @ ''!!!FATAL!!! '' @ sprintf dt form args @ [NL]\<rparr> else l)
          in terminate_logger l)"

section \<open>A sequence of messages\<close>

datatype severity = Debug | Info | Warn | Error

primrec message :: "severity \<Rightarrow> string \<Rightarrow> double_text \<Rightarrow> string \<Rightarrow> c_arg list \<Rightarrow> logger \<Rightarrow> logger option" where
  "message Debug = debug"
| "message Info = info"
| "message Warn = warn"
| "message Error = error"

primrec rank :: "severity \<Rightarrow> int" where
  "rank Debug = 0" | "rank Info = 1" | "rank Warn = 2" | "rank Error = 3"

primrec tag :: "severity \<Rightarrow> string" where
  "tag Debug = ''DEBUG''" | "tag Info = ''INFO''" | "tag Warn = ''WARN''" | "tag Error = ''ERROR''"

lemma message_eq:
  "message v clock dt form args l =
     (if sint (level l) \<le> rank v then generic_logger clock (tag v) (sprintf dt form args) l else Some l)"
  by (cases v) (simp_all add: debug_def info_def warn_def error_def word_sless_alt)

text \<open>Messages, each with the time it is logged at.\<close>

type_synonym log_message = "severity \<times> string \<times> string \<times> c_arg list"

fun log_messages :: "double_text \<Rightarrow> log_message list \<Rightarrow> logger \<Rightarrow> logger option" where
  "log_messages dt [] l = Some l"
| "log_messages dt ((v, clock, form, args) # ms) l =
     (case message v clock dt form args l of None \<Rightarrow> None | Some l \<Rightarrow> log_messages dt ms l)"

definition shown :: "double_text \<Rightarrow> u8 \<Rightarrow> log_message list \<Rightarrow> string" where
  "shown dt lvl ms =
     concat (map (\<lambda>(v, clock, form, args). log_line clock (tag v) (sprintf dt form args))
       (filter (\<lambda>(v, _). sint lvl \<le> rank v) ms))"

definition is_open :: "logger \<Rightarrow> bool" where
  "is_open l \<longleftrightarrow> (\<forall>t. file_output l \<noteq> Closed t)"

lemma message_effect:
  assumes "is_open l"
  shows "message v clock dt form args l =
    (let s = shown dt (level l) [(v, clock, form, args)]
     in Some (l\<lparr>stdout := stdout l @ (if log_to_stdout l then s else []),
         file_output := (case file_output l of Open t \<Rightarrow> Open (t @ s) | f \<Rightarrow> f)\<rparr>))"
  using assms
  by (auto simp: message_eq generic_logger_def fputs_def shown_def is_open_def Let_def split: log_file.split)

lemma log_messages_effect:
  assumes "is_open l"
  shows "log_messages dt ms l =
    Some (l\<lparr>stdout := stdout l @ (if log_to_stdout l then shown dt (level l) ms else []),
        file_output := (case file_output l of Open t \<Rightarrow> Open (t @ shown dt (level l) ms) | f \<Rightarrow> f)\<rparr>)"
  using assms
proof (induction ms arbitrary: l)
  case Nil
  then show ?case by (auto simp: shown_def is_open_def split: log_file.split)
next
  case (Cons m ms)
  obtain v clock form args where m: "m = (v, clock, form, args)" by (cases m)
  let ?s = "shown dt (level l) [m]"
  let ?l = "l\<lparr>stdout := stdout l @ (if log_to_stdout l then ?s else []),
         file_output := (case file_output l of Open t \<Rightarrow> Open (t @ ?s) | f \<Rightarrow> f)\<rparr>"
  have "is_open ?l" using Cons.prems by (auto simp: is_open_def split: log_file.split)
  moreover have "shown dt (level l) (m # ms) = ?s @ shown dt (level l) ms" by (simp add: shown_def m)
  ultimately show ?case
    using message_effect [OF Cons.prems, of v clock dt form args] Cons.IH [of ?l]
    by (auto simp: m Let_def split: log_file.split)
qed

text \<open>
  What is logged: from a logger whose file has not been closed, any sequence of messages is defined, keeps the level, and
  adds the lines of the messages at or above the level, in order and truncated to the buffers, to the log file if there
  is one and to the standard output if it is used; in console mode the standard output is left to the guest.
\<close>

theorem log_messages_shown:
  assumes "is_open l"
  shows "log_messages dt ms l =
    Some (l\<lparr>stdout := stdout l @ (if log_to_stdout l then shown dt (level l) ms else []),
        file_output := (case file_output l of Open t \<Rightarrow> Open (t @ shown dt (level l) ms) | f \<Rightarrow> f)\<rparr>)"
  using assms by (rule log_messages_effect)

text \<open>
  A fatal error is always visible, whatever the level: it is on the standard output with its time, or, where that belongs
  to the guest, on the standard error; it is in the log file if there is one, which is closed.
\<close>

theorem fatal_visible:
  assumes "is_open l"
  shows "\<exists>l'. fatal clock dt form args l = Some l' \<and>
    (let s = log_line clock ''!!!FATAL!!!'' (sprintf dt form args)
     in (if log_to_stdout l then stdout l' = stdout l @ s \<and> stderr l' = stderr l
         else stdout l' = stdout l \<and> stderr l' = stderr l @ ''!!!FATAL!!! '' @ sprintf dt form args @ [NL]) \<and>
        (\<forall>t. file_output l = Open t \<longrightarrow> file_output l' = Closed (t @ s)))"
  using assms
  by (auto simp: fatal_def generic_logger_def fputs_def terminate_logger_def is_open_def Let_def split: log_file.split)

text \<open>The level stays one of the four.\<close>

lemma level_range:
  "sint (level l) \<in> {0..3} \<Longrightarrow> sint (level (set_level x l)) \<in> {0..3}"
  "default_level = - 1 \<or> sint default_level \<in> {0..3} \<Longrightarrow>
     sint (level (init_logger fopen_ok default_level file b l)) \<in> {0..3}"
  by (auto simp: set_level_def init_logger_def Let_def word_sle_eq)

theorem log_messages_shown_witness:
  "log_messages (\<lambda>_ _. []) [(Debug, ''12:00:00'', ''x'', []), (Warn, ''12:00:01'', ''y'', [])] (initial_logger\<lparr>level := INFO\<rparr>) =
     Some (initial_logger\<lparr>level := INFO, stdout := ''12:00:01 [WARN] y\<newline>''\<rparr>)"
  using log_messages_shown [of "initial_logger\<lparr>level := INFO\<rparr>" "\<lambda>_ _. []" "[(Debug, ''12:00:00'', ''x'', []), (Warn, ''12:00:01'', ''y'', [])]"]
  by (simp add: is_open_def initial_logger_def shown_def log_line_def)

theorem fatal_visible_witness:
  "\<exists>l'. fatal ''12:00:00'' (\<lambda>_ _. []) ''x'' [] (initial_logger\<lparr>log_to_stdout := False, file_output := Open []\<rparr>) = Some l' \<and>
     stdout l' = [] \<and> stderr l' = ''!!!FATAL!!! x\<newline>'' \<and> file_output l' = Closed ''12:00:00 [!!!FATAL!!!] x\<newline>''"
proof -
  let ?l = "initial_logger\<lparr>log_to_stdout := False, file_output := Open []\<rparr>"
  have "is_open ?l" by (simp add: is_open_def)
  from fatal_visible [OF this, of "''12:00:00''" "\<lambda>_ _. []" "''x''" "[]"] show ?thesis
    by (auto simp: initial_logger_def log_line_def)
qed

end
