(* ===== verification/Getopt.thy ===== *)
theory Getopt
  imports Libc
begin

text \<open>
  The C library's \<open>getopt_long\<close>, as the command line of src/src/emu.c uses it: the options of a whole argument
  vector in the order of the calls that return them, and the operands it leaves, moved behind the options. Long options
  may be abbreviated and take \<open>=value\<close>; short ones may be grouped. An option that is unknown, ambiguous or lacks its
  argument is returned as \<open>'?'\<close>. (\<open>POSIXLY_CORRECT\<close> is not set.)
\<close>

datatype arg_kind = no_argument | required_argument | optional_argument

type_synonym opt_event = "char \<times> string option"
type_synonym long_option = "string \<times> arg_kind \<times> char"

abbreviation bad_option :: opt_event where "bad_option \<equiv> (CHR ''?'', None)"

section \<open>Short options\<close>

fun short_kind :: "string \<Rightarrow> char \<Rightarrow> arg_kind option" where
  "short_kind [] c = None"
| "short_kind (x # xs) c =
     (if x = c \<and> c \<noteq> CHR '':''
      then Some (if xs \<noteq> [] \<and> hd xs = CHR '':'' then required_argument else no_argument)
      else short_kind xs c)"

text \<open>The characters of a group, with the arguments that follow it; the result is the options and the arguments left.\<close>

fun short_group :: "string \<Rightarrow> string \<Rightarrow> string list \<Rightarrow> opt_event list \<times> string list" where
  "short_group optstring [] args = ([], args)"
| "short_group optstring (c # cs) args =
     (if short_kind optstring c = Some required_argument then
        (if cs \<noteq> [] then ([(c, Some cs)], args)
         else case args of [] \<Rightarrow> ([bad_option], []) | arg # args \<Rightarrow> ([(c, Some arg)], args))
      else
        let ev = (if short_kind optstring c = None then bad_option else (c, None));
            (evs, args) = short_group optstring cs args
        in (ev # evs, args))"

section \<open>Long options\<close>

definition long_matches :: "long_option list \<Rightarrow> string \<Rightarrow> long_option list" where
  "long_matches longs name =
     (case find (\<lambda>(n, _). n = name) longs of
        Some opt \<Rightarrow> [opt]
      | None \<Rightarrow> filter (\<lambda>(n, _). take (length name) n = name) longs)"

definition long_option :: "long_option list \<Rightarrow> string \<Rightarrow> string list \<Rightarrow> opt_event \<times> string list" where
  "long_option longs body args =
     (let name = takeWhile (\<lambda>c. c \<noteq> CHR ''='') body;
          val = (if CHR ''='' \<in> set body then Some (drop (Suc (length name)) body) else None)
      in case long_matches longs name of
           [(_, kind, c)] \<Rightarrow>
             (case kind of
                no_argument \<Rightarrow> (if val = None then (c, None) else bad_option, args)
              | optional_argument \<Rightarrow> ((c, val), args)
              | required_argument \<Rightarrow>
                  (case val of
                     Some v \<Rightarrow> ((c, Some v), args)
                   | None \<Rightarrow> (case args of [] \<Rightarrow> (bad_option, []) | arg # args \<Rightarrow> ((c, Some arg), args))))
         | _ \<Rightarrow> (bad_option, args))"

section \<open>An argument vector\<close>

lemma short_group_shorter: "short_group os cs args = (evs, rest) \<Longrightarrow> length rest \<le> length args"
proof (induction os cs args arbitrary: evs rest rule: short_group.induct)
  case (2 os c cs args)
  then show ?case
    by (cases "short_group os cs args") (auto simp: Let_def split: if_splits list.splits)
qed simp

lemma long_option_shorter: "long_option longs body args = (ev, rest) \<Longrightarrow> length rest \<le> length args"
  by (auto simp: long_option_def Let_def split: list.splits arg_kind.splits option.splits prod.splits if_splits)

function getopt_long :: "string \<Rightarrow> long_option list \<Rightarrow> string list \<Rightarrow> opt_event list \<times> string list" where
  "getopt_long optstring longs args =
     (case args of
        [] \<Rightarrow> ([], [])
      | arg # args \<Rightarrow>
          if arg = ''--'' then ([], args)
          else if take 2 arg = ''--'' then
            let (ev, args) = long_option longs (drop 2 arg) args;
                (evs, operands) = getopt_long optstring longs args
            in (ev # evs, operands)
          else if take 1 arg = ''-'' \<and> arg \<noteq> ''-'' then
            let (evs, args) = short_group optstring (drop 1 arg) args;
                (evs', operands) = getopt_long optstring longs args
            in (evs @ evs', operands)
          else
            let (evs, operands) = getopt_long optstring longs args in (evs, arg # operands))"
  by auto
termination
  by (relation "measure (\<lambda>(_, _, args). length args)")
    (auto dest!: long_option_shorter [OF sym] short_group_shorter [OF sym] simp: le_imp_less_Suc)

declare getopt_long.simps [simp del]

lemma getopt_Nil: "getopt_long os longs [] = ([], [])"
  by (simp add: getopt_long.simps [of _ _ "[]"])

end
