(* ===== verification/Cmdline.thy ===== *)
theory Cmdline
  imports Boot Debug_Loop Logger Getopt
begin

text \<open>
  The command line of \<open>main\<close> in src/src/emu.c: the option tables, the loop over the options with the growing array of
  extra binaries, number parsing, the usage text, the settings of the logger and the debugger, and how they lead
  to the staging (\<open>Boot\<close>) and the run loop (\<open>Debug_Loop\<close>). Whether the debugger is compiled in is the
  argument \<open>debugger\<close>; device trees and UART input are. The results of allocations are parameters.

  The loop ends in one of three ways: the process exits with a status and a text on standard error (that of
  \<open>getopt_long\<close> itself apart), it goes on with the options, or it has dereferenced a null pointer.
\<close>

section \<open>Numbers and texts\<close>

definition parse_hex :: "string \<Rightarrow> u32 option" where
  "parse_hex str =
     (case strtoul str of
        Some (val, endptr) \<Rightarrow> if endptr \<noteq> [] then None else Some (ucast val)
      | None \<Rightarrow> None)"

definition usage_lines :: "bool \<Rightarrow> string list" where
  "usage_lines debugger =
     [''Usage: %s <program_file> <program_base> [options]'',
      ''Options:'',
      ''  -L, --load FILE@HEX   Load an extra binary into RAM at the'',
      ''                        given address (repeatable; e.g. the'',
      ''                        OpenSBI next-stage kernel).'',
      ''  -R, --initrd FILE[@HEX]'',
      ''                        Load a separate initrd cpio archive into'',
      ''                        RAM (default address 0x82000000) and pass'',
      ''                        it to Linux via /chosen/linux,initrd-*'',
      ''                        in the FDT (requires --fdt).  Use this'',
      ''                        instead of baking the initramfs into the'',
      ''                        kernel Image.'',
      ''  -C, --console         UART console mode: the guest console owns'',
      ''                        the host terminal (stdin/stdout), logger'',
      ''                        output is dumped to --log (default'',
      ''                        riscvemu.log), and the built-in debugger'',
      ''                        is disabled.  The host terminal switches'',
      ''                        to raw mode: keystrokes are sent to the'',
      ''                        guest immediately and are not echoed (the'',
      ''                        guest controls the screen).  Press Ctrl-]'',
      ''                        then x to quit console mode.'',
      ''  -l, --log FILE        Write logger output to FILE (truncated).''] @
     (if debugger then
       [''  -d, --debug         Enable single-step debug mode'',
        ''  -b, --breakpoint    Set breakpoint address (hex format, e.g., 0x1000)'']
      else []) @
     [''  -F, --fdt[=addr]    Build + hand a device tree to firmware in a1'',
      ''                      (a0=hartid 0); addr defaults to 0x87f00000'',
      ''  -h, --help          Show this help message'',
      '''',
      ''Example:'',
      ''  %s test.bin 0x1000 -d -b 0x1200'',
      ''  %s fw_jump.bin 0x80000000 --fdt --load kernel.bin@0x80400000'']"

definition eprintf :: "string \<Rightarrow> c_arg list \<Rightarrow> string" where
  "eprintf form args = sprintf (\<lambda>_ _. []) form args"

definition print_usage :: "bool \<Rightarrow> string \<Rightarrow> string" where
  "print_usage debugger prog_name =
     eprintf (concat (map (\<lambda>l. l @ [NL]) (usage_lines debugger))) [AStr prog_name, AStr prog_name, AStr prog_name]"

abbreviation QUOTE :: char where "QUOTE \<equiv> CHR 0x22"

section \<open>The array of extra binaries\<close>

record alloc =
  realloc_ok :: "u32 \<Rightarrow> bool"
  strdup_ok :: "string \<Rightarrow> bool"
  calloc_ok :: bool

text \<open>An element that has not been assigned is \<open>None\<close>; the length of the list is that of the allocation.\<close>

record extra_loads =
  slots :: "(string \<times> u32) option list"
  extra_count :: u32
  extra_cap :: u32

definition no_loads :: extra_loads where
  "no_loads = \<lparr>slots = [], extra_count = 0, extra_cap = 0\<rparr>"

definition grow_loads :: "alloc \<Rightarrow> extra_loads \<Rightarrow> extra_loads option" where
  "grow_loads alloc ls =
     (if extra_count ls = extra_cap ls then
        let new_cap = (if extra_cap ls \<noteq> 0 then extra_cap ls * 2 else 4)
        in if realloc_ok alloc new_cap
           then Some (ls\<lparr>slots := take (unat new_cap) (slots ls) @ replicate (unat new_cap - length (slots ls)) None,
                         extra_cap := new_cap\<rparr>)
           else None
      else Some ls)"

text \<open>The left side is the message of a failure. The argument is not null here.\<close>

definition push_extra_load :: "alloc \<Rightarrow> string \<Rightarrow> extra_loads \<Rightarrow> string + extra_loads" where
  "push_extra_load alloc arg ls =
     (case strrchr (CHR ''@'') arg of
        None \<Rightarrow> Inl (eprintf (''Error: --load expects FILE@HEX, got '' @ [QUOTE] @ ''%s'' @ [QUOTE, NL]) [AStr arg])
      | Some (file, hex) \<Rightarrow>
          if file = [] \<or> hex = []
          then Inl (eprintf (''Error: --load expects FILE@HEX, got '' @ [QUOTE] @ ''%s'' @ [QUOTE, NL]) [AStr arg])
          else
            (case parse_hex hex of
               None \<Rightarrow> Inl (eprintf (''Error: invalid address in --load '' @ [QUOTE] @ ''%s'' @ [QUOTE, NL]) [AStr arg])
             | Some base \<Rightarrow>
                 (case grow_loads alloc ls of
                    None \<Rightarrow> Inl (''realloc: Cannot allocate memory'' @ [NL])
                  | Some ls \<Rightarrow>
                      if strdup_ok alloc file
                      then Inr (ls\<lparr>slots := (slots ls)[unat (extra_count ls) := Some (file, base)],
                                   extra_count := extra_count ls + 1\<rparr>)
                      else Inl (''strndup: Cannot allocate memory'' @ [NL]))))"

section \<open>The options\<close>

record options =
  console_mode :: bool
  log_file :: "string option"
  debug_mode :: bool
  opt_breakpoint :: u32
  breakpoint_set :: bool
  fdt_enabled :: bool
  fdt_addr :: u32
  initrd_file :: "string option"
  initrd_addr :: u32
  loads :: extra_loads

definition default_options :: options where
  "default_options =
     \<lparr>console_mode = False, log_file = None, debug_mode = False, opt_breakpoint = 0, breakpoint_set = False,
      fdt_enabled = False, fdt_addr = 0x87F00000, initrd_file = None, initrd_addr = 0x82000000, loads = no_loads\<rparr>"

definition long_options :: "bool \<Rightarrow> long_option list" where
  "long_options debugger =
     [(''load'', required_argument, CHR ''L''), (''initrd'', required_argument, CHR ''R'')] @
     (if debugger then [(''debug'', no_argument, CHR ''d''), (''breakpoint'', required_argument, CHR ''b'')] else []) @
     [(''console'', no_argument, CHR ''C''), (''log'', required_argument, CHR ''l''),
      (''fdt'', optional_argument, CHR ''F''), (''help'', no_argument, CHR ''h'')]"

definition short_options :: "bool \<Rightarrow> string" where
  "short_options debugger = (if debugger then ''LCdb:hl:R:'' else ''LChl:R:'')"

datatype 'a parsed = Go 'a | Exit int string | Crash

definition initrd_option :: "alloc \<Rightarrow> string \<Rightarrow> options \<Rightarrow> options parsed" where
  "initrd_option alloc optarg opts =
     (case strrchr (CHR ''@'') optarg of
        Some (file, hex) \<Rightarrow>
          if file = [] \<or> hex = []
          then Exit 1 (eprintf (''Error: --initrd expects FILE[@HEX], got '' @ [QUOTE] @ ''%s'' @ [QUOTE, NL]) [AStr optarg])
          else
            (case parse_hex hex of
               None \<Rightarrow> Exit 1 (eprintf (''Error: invalid address in --initrd '' @ [QUOTE] @ ''%s'' @ [QUOTE, NL]) [AStr optarg])
             | Some a \<Rightarrow>
                 if strdup_ok alloc file then Go (opts\<lparr>initrd_addr := a, initrd_file := Some file\<rparr>)
                 else Exit 1 (''strdup: Cannot allocate memory'' @ [NL]))
      | None \<Rightarrow>
          if strdup_ok alloc optarg then Go (opts\<lparr>initrd_file := Some optarg\<rparr>)
          else Exit 1 (''strdup: Cannot allocate memory'' @ [NL]))"

text \<open>
  One option. \<open>L\<close>, \<open>R\<close>, \<open>l\<close> and \<open>b\<close> use \<open>optarg\<close> without a test: a null one crashes in \<open>strrchr\<close> or \<open>strtoul\<close>; \<open>l\<close>
  only stores it.
\<close>

definition option_step :: "alloc \<Rightarrow> bool \<Rightarrow> string \<Rightarrow> opt_event \<Rightarrow> options \<Rightarrow> options parsed" where
  "option_step alloc debugger prog ev opts =
     (let (opt, optarg) = ev
      in if opt = CHR ''L'' then
           (case optarg of
              None \<Rightarrow> Crash
            | Some arg \<Rightarrow>
                (case push_extra_load alloc arg (loads opts) of
                   Inl msg \<Rightarrow> Exit 1 msg
                 | Inr ls \<Rightarrow> Go (opts\<lparr>loads := ls\<rparr>)))
         else if opt = CHR ''R'' then
           (case optarg of None \<Rightarrow> Crash | Some arg \<Rightarrow> initrd_option alloc arg opts)
         else if opt = CHR ''C'' then Go (opts\<lparr>console_mode := True\<rparr>)
         else if opt = CHR ''l'' then Go (opts\<lparr>log_file := optarg\<rparr>)
         else if debugger \<and> opt = CHR ''d'' then Go (opts\<lparr>debug_mode := True\<rparr>)
         else if debugger \<and> opt = CHR ''b'' then
           (case optarg of
              None \<Rightarrow> Crash
            | Some arg \<Rightarrow>
                (case parse_hex arg of
                   None \<Rightarrow> Exit 1 (eprintf (''Error: Invalid breakpoint address: %s'' @ [NL]) [AStr arg])
                 | Some a \<Rightarrow> Go (opts\<lparr>opt_breakpoint := a, breakpoint_set := True\<rparr>)))
         else if opt = CHR ''F'' then
           (let opts = opts\<lparr>fdt_enabled := True\<rparr>
            in case optarg of
                 None \<Rightarrow> Go opts
               | Some arg \<Rightarrow>
                   (case parse_hex arg of
                      None \<Rightarrow> Exit 1 (eprintf (''Error: Invalid FDT address: %s'' @ [NL]) [AStr arg])
                    | Some a \<Rightarrow> Go (opts\<lparr>fdt_addr := a\<rparr>)))
         else if opt = CHR ''h'' then Exit 0 (print_usage debugger prog)
         else Exit 1 (print_usage debugger prog))"

fun option_loop :: "alloc \<Rightarrow> bool \<Rightarrow> string \<Rightarrow> opt_event list \<Rightarrow> options \<Rightarrow> options parsed" where
  "option_loop alloc debugger prog [] opts = Go opts"
| "option_loop alloc debugger prog (ev # evs) opts =
     (case option_step alloc debugger prog ev opts of
        Go opts \<Rightarrow> option_loop alloc debugger prog evs opts
      | Exit c msg \<Rightarrow> Exit c msg
      | Crash \<Rightarrow> Crash)"

text \<open>The options, the program's file name and its base address.\<close>

definition parse_args :: "alloc \<Rightarrow> bool \<Rightarrow> string \<Rightarrow> string list \<Rightarrow> (options \<times> string \<times> u32) parsed" where
  "parse_args alloc debugger prog args =
     (let (evs, operands) = getopt_long (short_options debugger) (long_options debugger) args
      in case option_loop alloc debugger prog evs default_options of
           Exit c msg \<Rightarrow> Exit c msg
         | Crash \<Rightarrow> Crash
         | Go opts \<Rightarrow>
             (case operands of
                program_name # base # _ \<Rightarrow>
                  (case parse_hex base of
                     None \<Rightarrow> Exit 1 (eprintf (''Error: Invalid program base address: %s'' @ [NL]) [AStr base])
                   | Some a \<Rightarrow> Go (opts, program_name, a))
              | _ \<Rightarrow> Exit 1 (''Error: Missing required arguments'' @ [NL] @ print_usage debugger prog)))"

section \<open>From the options to the run loop\<close>

text \<open>The log file and whether the log goes to standard output, and the first messages.\<close>

definition log_settings :: "options \<Rightarrow> string option \<times> bool" where
  "log_settings opts =
     (if console_mode opts then (Some (case log_file opts of Some f \<Rightarrow> f | None \<Rightarrow> ''riscvemu.log''), False)
      else (log_file opts, True))"

definition setup_logger :: "(string \<Rightarrow> bool) \<Rightarrow> bool \<Rightarrow> options \<Rightarrow> logger" where
  "setup_logger fopen_ok debugger opts =
     (let (log_file_path, log_to_stdout) = log_settings opts;
          lvl = (if \<not> debugger then INFO else if console_mode opts then INFO
                 else if debug_mode opts then DEBUG else INFO)
      in init_logger (case log_file_path of Some f \<Rightarrow> fopen_ok f | None \<Rightarrow> False) lvl log_file_path log_to_stdout initial_logger)"

definition banner :: "bool \<Rightarrow> options \<Rightarrow> string \<Rightarrow> u32 \<Rightarrow> (string \<times> c_arg list) list" where
  "banner debugger opts program_name base =
     [(''RISC-V Emulator starting...'', []), (''Program: %s'', [AStr program_name]),
      (''Base address: 0x%x'', [AInt base])] @
     (if debugger \<and> console_mode opts \<and> (debug_mode opts \<or> breakpoint_set opts)
      then [(''--console: built-in debugger disabled (-d/-b ignored)'', [])] else []) @
     (if debugger \<and> breakpoint_set opts \<and> \<not> console_mode opts
      then [(''Breakpoint: 0x%x'', [AInt (opt_breakpoint opts)])] else [])"

definition machine_config :: "(string \<Rightarrow> host_file) \<Rightarrow> options \<Rightarrow> string \<Rightarrow> u32 \<Rightarrow> boot_config" where
  "machine_config files opts program_name base =
     \<lparr>program = files program_name, program_base = base,
      initrd = map_option (\<lambda>f. (files f, initrd_addr opts)) (initrd_file opts),
      fdt_at = (if fdt_enabled opts then Some (fdt_addr opts) else None),
      extra_slots = map (\<lambda>x. (files (fst (the x)), snd (the x)))
        (take (unat (extra_count (loads opts))) (slots (loads opts)))\<rparr>"

text \<open>The debugger's variables: they are zero until \<open>init_debugger\<close>, which console mode skips.\<close>

definition start_debugger :: "options \<Rightarrow> emu \<Rightarrow> dbg" where
  "start_debugger opts s =
     (let d = \<lparr>guest = s, single_step = False, breakpoint = 0, breakpoint_enabled = False, break_requested = False,
               last_cmd = [], show_disasm = True, out = []\<rparr>;
          d = (if \<not> console_mode opts then init_debugger d else d);
          d = d\<lparr>single_step := \<not> console_mode opts \<and> debug_mode opts\<rparr>
      in if breakpoint_set opts \<and> \<not> console_mode opts
         then d\<lparr>breakpoint := opt_breakpoint opts, breakpoint_enabled := True\<rparr>
         else d\<lparr>breakpoint := 0xDEADBEEF, breakpoint_enabled := False\<rparr>)"

text \<open>The host's input: with the debugger compiled in, standard input is the guest's in console mode only.\<close>

record host_tty =
  fcntl_ok :: bool
  tty_ok :: bool
  tcset_ok :: bool

definition start_input :: "bool \<Rightarrow> host_tty \<Rightarrow> options \<Rightarrow> uart_input" where
  "start_input debugger tty opts =
     (let inp = \<lparr>uart_input_active = False, uart_esc_held = False, uart_terminal_raw = False,
                 uart_quit_requested = False, epfd_open = False\<rparr>
      in if debugger \<and> \<not> console_mode opts then inp
         else uart_input_setup (fcntl_ok tty) (tty_ok tty) (tcset_ok tty) (console_mode opts) inp)"

text \<open>\<open>main\<close> up to the loop. A fatal error in the staging exits with status 255.\<close>

definition launch ::
  "alloc \<Rightarrow> bool \<Rightarrow> (string \<Rightarrow> host_file) \<Rightarrow> host_tty \<Rightarrow> string \<Rightarrow> string list \<Rightarrow> string \<Rightarrow> debug_run parsed" where
  "launch alloc debugger files tty prog args inp =
     (case parse_args alloc debugger prog args of
        Exit c msg \<Rightarrow> Exit c msg
      | Crash \<Rightarrow> Crash
      | Go (opts, program_name, base) \<Rightarrow>
          (case boot (calloc_ok alloc) (machine_config files opts program_name base) of
             Inl msg \<Rightarrow> Exit 255 msg
           | Inr s \<Rightarrow>
               Go \<lparr>run_st = run_start (fdt_enabled opts) (start_input debugger tty opts) s,
                   dbg_st = start_debugger opts s, stdin = inp\<rparr>))"

end
