(* ===== verification/Debug_Commands.thy ===== *)
theory Debug_Commands
  imports Debug_Loop
begin

text \<open>
  What lines typed at the prompt of the debugger do: commands that set state set exactly what they name, those that
  inspect the machine change nothing but the devices they read, an empty line repeats the last command, and
  which dumps never end. The numbers in the lines are printed as the debugger prints them, so the theorems are
  round trips between its output and its input.
\<close>

section \<open>Words of a line\<close>

lemma strtok_word:
  assumes "w \<noteq> []" "\<And>c. c \<in> set w \<Longrightarrow> \<not> is_delim c"
  shows "strtok (w @ CHR '' '' # rest) = Some (w, rest)" "strtok w = Some (w, [])"
proof -
  have sp: "is_delim (CHR '' '')" by (simp add: is_delim_def)
  have t: "takeWhile (\<lambda>c. \<not> is_delim c) w = w" "dropWhile (\<lambda>c. \<not> is_delim c) w = []"
    using assms(2) by (simp_all add: takeWhile_eq_all_conv)
  have u: "takeWhile (\<lambda>c. \<not> is_delim c) (w @ CHR '' '' # rest) = w"
    "dropWhile (\<lambda>c. \<not> is_delim c) (w @ CHR '' '' # rest) = CHR '' '' # rest"
    using assms(2) sp by (simp_all add: takeWhile_append dropWhile_append)
  have h: "\<not> is_delim (hd w)" using assms by simp
  then have d: "dropWhile is_delim (w @ CHR '' '' # rest) = w @ CHR '' '' # rest" "dropWhile is_delim w = w"
    using assms(1) by (cases w; simp)+
  show "strtok (w @ CHR '' '' # rest) = Some (w, rest)" "strtok w = Some (w, [])"
    unfolding strtok_def d Let_def t u using assms(1) by simp_all
qed

lemma tokens_Nil: "tokens [] = []"
  by (simp add: tokens.simps [of "[]"] strtok_def)

lemma tokens_words:
  assumes "w \<noteq> []" "\<And>c. c \<in> set w \<Longrightarrow> \<not> is_delim c"
  shows "tokens (w @ CHR '' '' # rest) = w # tokens rest" "tokens w = [w]"
  using strtok_word [OF assms] by (simp_all add: tokens.simps [of "w @ _"] tokens.simps [of w] tokens_Nil)

text \<open>A printed address or value.\<close>

lemma number_chars: "c \<in> set (show_0x8 w) \<Longrightarrow> \<not> isspace c \<and> \<not> is_delim c \<and> c \<noteq> CHR 0x00"
proof -
  assume c: "c \<in> set (show_0x8 w)"
  have "\<not> isspace c" using hex0x8.show_no_space [OF c] .
  moreover have "c \<noteq> CHR 0x00"
  proof -
    have "CHR 0x00 \<notin> set (digits 16 n)" for n
      using digits_are_digits [of 16 "CHR 0x00" n] by (auto simp: is_digit_def digit_value_def)
    then show ?thesis using c by (auto simp: show_0x8_def pad_left_def)
  qed
  ultimately show ?thesis by (auto simp: is_delim_def isspace_def)
qed

lemma number_tokens: "tokens (show_0x8 w @ CHR '' '' # rest) = show_0x8 w # tokens rest" "tokens (show_0x8 w) = [show_0x8 w]"
  using tokens_words [OF hex0x8.show_nonempty] number_chars by blast+

lemma number_front: "dropWhile isspace (show_0x8 w @ rest) = show_0x8 w @ rest"
  by (simp add: show_0x8_def isspace_def)

lemma scan_number_arg: "sscanf_x (show_0x8 w) = Some (w, [])" "sscanf_x (show_0x8 w @ CHR '' '' # rest) = Some (w, CHR '' '' # rest)"
proof -
  have "hex_stop (CHR '' '')" by (simp add: hex_stop_def is_digit_def digit_value_def tolower_def)
  then show "sscanf_x (show_0x8 w @ CHR '' '' # rest) = Some (w, CHR '' '' # rest)"
    using hex0x8.scan_show [of "CHR '' '' # rest" w] by simp
qed (rule hex0x8.scan_show_all)

text \<open>A line of a command word and arguments.\<close>

lemma run_line_command:
  assumes "cmd \<noteq> []" "\<And>c. c \<in> set cmd \<Longrightarrow> \<not> isspace c" "length cmd \<le> 15" "CHR 0x00 \<notin> set cmd \<union> set args"
  shows "run_line hp (cmd @ '' '' @ args @ [NL]) d =
    command hp cmd (dropWhile isspace args) (d\<lparr>last_cmd := cmd @ '' '' @ args\<rparr>)"
  using run_line_text [of "cmd @ '' '' @ args" hp d] split_command_words(1) [of cmd args] assms by simp

section \<open>Commands that set\<close>

lemma sprintf_number: "sprintf dt (''0x%08x'' @ s) (AInt w # args) = show_0x8 w @ sprintf dt s args"
  by (simp add: sprintf_simps show_0x8_def)

lemma names_found:
  assumes "0 < i" "i < 32"
  shows "parse_register (reg_names ! i) = Inr (of_nat i)" "reg_names ! i \<noteq> []"
    "c \<in> set (reg_names ! i) \<Longrightarrow> \<not> is_delim c \<and> \<not> isspace c \<and> c \<noteq> CHR 0x00"
proof -
  have names: "list_all (\<lambda>w. w \<noteq> [] \<and> sscanf_d w = None \<and> map tolower w = w \<and>
      list_all (\<lambda>c. \<not> is_delim c \<and> \<not> isspace c \<and> c \<noteq> CHR 0x00) w) reg_names" "distinct reg_names" "length reg_names = 32"
    by (simp_all add: reg_names_def tolower_def is_delim_def isspace_def sscanf_d_def scan_number_def scan_sign_def
        starts_digit_def is_digit_def digit_value_def has_prefix_def)
  then have i: "reg_names ! i \<noteq> []" "sscanf_d (reg_names ! i) = None"
    "list_all (\<lambda>c. \<not> is_delim c \<and> \<not> isspace c \<and> c \<noteq> CHR 0x00) (reg_names ! i)"
    using assms by (simp_all add: list_all_length)
  have "strcaseeq (reg_names ! i) (reg_names ! j) \<longleftrightarrow> i = j" if "j < 32" for j
    using names assms that by (simp add: strcaseeq_def list_all_length nth_eq_iff_index_eq)
  then have "find_name reg_names (reg_names ! i) = Some i"
    using assms by (auto simp: find_name_def find_Some_iff)
  then show "parse_register (reg_names ! i) = Inr (of_nat i)" using i by (simp add: parse_register_def)
  show "reg_names ! i \<noteq> []" "c \<in> set (reg_names ! i) \<Longrightarrow> \<not> is_delim c \<and> \<not> isspace c \<and> c \<noteq> CHR 0x00"
    using i by (auto simp: list_all_iff)
qed

lemma number_not_null: "CHR 0x00 \<notin> set (show_0x8 w)"
  using number_chars by blast

lemmas number_args = number_front [of _ "[]", simplified] number_front scan_number_arg number_tokens tokens_Nil number_not_null

text \<open>What a line does apart from the text it prints and being the last command.\<close>

definition settings :: "dbg \<Rightarrow> dbg" where
  "settings d = d\<lparr>out := [], last_cmd := []\<rparr>"

definition outcome :: "(bool \<times> dbg) result \<Rightarrow> (bool \<times> dbg) result" where
  "outcome = map_result (\<lambda>(b, d). (b, settings d))"

lemma outcome_Returns [simp]: "outcome (Returns (b, d)) = Returns (b, settings d)"
  by (simp add: outcome_def)

lemma guest_printf [simp]: "guest (printf hp form args d) = guest d" "guest (settings d) = guest d"
  by (simp_all add: printf_def settings_def)

lemma settings_simps [simp]:
  "settings (printf hp form args d) = settings d" "settings (d\<lparr>last_cmd := l\<rparr>) = settings d"
  "settings (d\<lparr>guest := g\<rparr>) = (settings d)\<lparr>guest := g\<rparr>" "settings (d\<lparr>breakpoint := a\<rparr>) = (settings d)\<lparr>breakpoint := a\<rparr>"
  "settings (d\<lparr>breakpoint_enabled := e\<rparr>) = (settings d)\<lparr>breakpoint_enabled := e\<rparr>"
  by (simp_all add: settings_def printf_def)

lemma outcome_command:
  assumes "\<not> isspace c" "c \<noteq> CHR 0x00" "CHR 0x00 \<notin> set args"
  shows "run_line hp (c # CHR '' '' # args @ [NL]) d =
    command hp [c] (dropWhile isspace args) (d\<lparr>last_cmd := c # CHR '' '' # args\<rparr>)"
  using run_line_command [of "[c]" args hp d] assms by auto

lemma command_letters:
  "\<not> isspace (CHR ''p'')" "\<not> isspace (CHR ''b'')" "\<not> isspace (CHR ''w'')" "\<not> isspace (CHR ''R'')"
  "\<not> isspace (CHR ''d'')" "\<not> isspace (CHR ''F'')" "\<not> isspace (CHR ''m'')"
  by (simp_all add: isspace_def)

text \<open>
  C27. What the debugger prints it reads back: \<open>p\<close> and \<open>b\<close> with an address, \<open>w\<close> with an address and a value, and \<open>R\<close>
  with a register's ABI name and a value, all printed as the debugger prints them, set exactly the program counter, the
  breakpoint, the word of memory and the register they name.
\<close>

theorem typed_commands_set:
  assumes "0 < i" "i < 32"
  shows "outcome (run_line hp (''p '' @ show_0x8 a @ [NL]) d) =
           Returns (False, (settings d)\<lparr>guest := (guest d)\<lparr>pc := a\<rparr>\<rparr>) \<and>
         outcome (run_line hp (''b '' @ show_0x8 a @ [NL]) d) =
           Returns (False, (settings d)\<lparr>breakpoint := a, breakpoint_enabled := True\<rparr>) \<and>
         outcome (run_line hp (''w '' @ show_0x8 a @ '' '' @ show_0x8 v @ [NL]) d) =
           Returns (False, (settings d)\<lparr>guest := mem_write32 a v (guest d)\<rparr>) \<and>
         outcome (run_line hp (''R '' @ reg_names ! i @ '' '' @ show_0x8 v @ [NL]) d) =
           Returns (False, (settings d)\<lparr>guest := (guest d)\<lparr>gpr := (gpr (guest d))(of_nat i := v)\<rparr>\<rparr>)"
proof (intro conjI)
  note line = outcome_command command_def number_args command_letters
  show "outcome (run_line hp (''p '' @ show_0x8 a @ [NL]) d) =
      Returns (False, (settings d)\<lparr>guest := (guest d)\<lparr>pc := a\<rparr>\<rparr>)"
    by (simp add: line cmd_set_pc_def Let_def)
  show "outcome (run_line hp (''b '' @ show_0x8 a @ [NL]) d) =
      Returns (False, (settings d)\<lparr>breakpoint := a, breakpoint_enabled := True\<rparr>)"
    by (simp add: line cmd_breakpoint_set_def)
  show "outcome (run_line hp (''w '' @ show_0x8 a @ '' '' @ show_0x8 v @ [NL]) d) =
      Returns (False, (settings d)\<lparr>guest := mem_write32 a v (guest d)\<rparr>)"
    using outcome_command [of "CHR ''w''" "show_0x8 a @ '' '' @ show_0x8 v" hp d]
    by (simp add: command_def number_args command_letters cmd_write_def write_token_def Let_def)
  show "outcome (run_line hp (''R '' @ reg_names ! i @ '' '' @ show_0x8 v @ [NL]) d) =
      Returns (False, (settings d)\<lparr>guest := (guest d)\<lparr>gpr := (gpr (guest d))(of_nat i := v)\<rparr>\<rparr>)"
  proof -
    have "dropWhile isspace (reg_names ! i @ s) = reg_names ! i @ s" for s
      using names_found [OF assms] by (cases "reg_names ! i") auto
    moreover have "tokens (reg_names ! i @ CHR '' '' # show_0x8 v) = [reg_names ! i, show_0x8 v]"
      using tokens_words(1) [OF names_found(2) [OF assms]] names_found(3) [OF assms] by (simp add: number_args)
    moreover have "CHR 0x00 \<notin> set (reg_names ! i)" using names_found(3) [OF assms] by blast
    moreover have "(of_nat i :: u32) \<noteq> 0" using assms by (simp add: word_of_nat_eq_0_iff) (auto dest: dvd_imp_le)
    ultimately show ?thesis
      using outcome_command [of "CHR ''R''" "reg_names ! i @ '' '' @ show_0x8 v" hp d] names_found(1) [OF assms]
      by (simp add: command_def number_args command_letters cmd_set_register_def set_register_def Let_def)
  qed
qed

theorem typed_commands_set_witness:
  "outcome (run_line demo_fp (''R sp 0x12345678'' @ [NL]) (dbg_st demo_debug)) =
     Returns (False, (settings (dbg_st demo_debug))\<lparr>guest := (hart spin_demo)\<lparr>gpr := (gpr (hart spin_demo))(2 := 0x12345678)\<rparr>\<rparr>)"
proof -
  have "show_0x8 0x12345678 = ''0x12345678''" "reg_names ! 2 = ''sp''"
    by (simp_all add: show_0x8_def digits_eval pad_left_def reg_names_def)
  then show ?thesis using typed_commands_set [of 2 demo_fp 0 "dbg_st demo_debug" "0x12345678"] by (simp add: demo_debug_def)
qed

section \<open>Commands that look\<close>

text \<open>
  C26. Inspection is safe: the commands that show registers, memory, listings or help go on with the prompt and leave
  the hart, the RAM, the CSRs, the CLINT and the debugger's settings alone. Only the UART and the PLIC can change, whose
  registers have read side effects.
\<close>

theorem inspection_safe:
  assumes "inspects cmd args" and "command hp cmd args d = Returns (b, d')"
  shows "\<not> b \<and> dev_frame (guest d) (guest d') \<and> single_step d' = single_step d \<and>
    breakpoint d' = breakpoint d \<and> breakpoint_enabled d' = breakpoint_enabled d \<and>
    break_requested d' = break_requested d \<and> last_cmd d' = last_cmd d \<and> show_disasm d' = show_disasm d"
proof -
  have "observes d d'" using ends_in_observes [OF assms(1), of d hp] assms(2) by (simp add: ends_in_def)
  moreover have "\<not> b" using assms unfolding inspects_def insert_iff empty_iff
    by (elim disjE conjE FalseE; simp add: command_def split: result.splits)
  ultimately show ?thesis by (simp add: observes_def)
qed

theorem inspection_safe_witness:
  "\<exists>d. command demo_fp ''u'' [] (dbg_st demo_debug) = Returns (False, d) \<and> dev_frame (hart spin_demo) (guest d)"
proof -
  have "peek32 0x1000 d = (0x6F, d)" if "guest d = hart spin_demo" for d
    using spin_demo_ok(1) that by (simp add: peek32_def read32_ram self_loop_def)
  moreover have "pc (hart spin_demo) = 0x1000" using spin_demo_ok(1) by (simp add: self_loop_def)
  ultimately obtain d where d: "command demo_fp ''u'' [] (dbg_st demo_debug) = Returns (False, d)"
    by (simp add: command_def cmd_disasm_def tokens_Nil disasm_count_def demo_debug_def demo_jump printf_def Let_def)
  then show ?thesis using inspection_safe [OF _ d] by (simp add: inspects_def demo_debug_def)
qed

section \<open>An empty line\<close>

text \<open>
  An empty line repeats the last command: after a line that has a command, typing just Enter does what typing
  that line again does.
\<close>

theorem empty_line_repeats:
  assumes "CHR 0x00 \<notin> set line" "line \<noteq> []" "\<not> isspace (hd line)"
    and "run_line hp (line @ [NL]) d = Returns (b, d')"
  shows "run_line hp [NL] d' = run_line hp (line @ [NL]) d'"
proof -
  obtain cmd args where c: "split_command line = (cmd, args)" by force
  then have "command hp cmd args (d\<lparr>last_cmd := line\<rparr>) = Returns (b, d')"
    using assms(4) by (simp add: run_line_text [OF assms(1-3)])
  from keeps_command [OF this] have l: "last_cmd d' = line" by (simp add: keeps_def)
  then have eq: "d'\<lparr>last_cmd := line\<rparr> = d'" by (metis dbg.surjective dbg.update_convs(6))
  show ?thesis using run_line_blank [of d' hp] assms(2,3) l by (simp add: run_line_text [OF assms(1-3)] eq)
qed

theorem empty_line_repeats_witness:
  "run_line demo_fp [NL] (cmd_single_step ((dbg_st demo_debug)\<lparr>last_cmd := ''s''\<rparr>)) =
   run_line demo_fp (''s'' @ [NL]) (cmd_single_step ((dbg_st demo_debug)\<lparr>last_cmd := ''s''\<rparr>))"
proof (rule empty_line_repeats)
  show "run_line demo_fp (''s'' @ [NL]) (dbg_st demo_debug) =
      Returns (True, cmd_single_step ((dbg_st demo_debug)\<lparr>last_cmd := ''s''\<rparr>))"
    using run_line_step [of demo_fp "dbg_st demo_debug"] by simp
qed (simp_all add: isspace_def)

section \<open>Dumps that never end\<close>

lemma wrap_mask: "(a + 4) OR 0xFFFFFFFC = a OR (0xFFFFFFFC :: u32)"
proof -
  have m: "x AND 3 = x mod 4" for x :: int
    using take_bit_eq_mask [of 2 x] by (simp add: take_bit_eq_mod mask_eq_exp_minus_1)
  have "(a + 4) AND 3 = a AND (3 :: u32)" by transfer (simp add: m)
  then show ?thesis by (simp add: word32_bits bit_simps)
qed

lemma dump_loop_stops:
  assumes "dump_loop hp a u d = Some d'"
  shows "u < a OR 0xFFFFFFFC"
  using assms
proof (induction rule: dump_loop.raw_induct [rotated, consumes 1])
  case (1 loop hp a u d d')
  show ?case
  proof (cases "a \<le> u")
    case True
    with 1 have "loop hp (a + 4) u (show_word hp a d) = Some d'" by simp
    then have "u < (a + 4) OR 0xFFFFFFFC" using 1(1) by blast
    then show ?thesis by (simp only: wrap_mask)
  next
    case False
    then show ?thesis using le_word_or2 [of a "0xFFFFFFFC"] by (simp add: not_le)
  qed
qed

lemma no_wrap: "a \<le> u \<Longrightarrow> u < a OR 0xFFFFFFFC \<Longrightarrow> unat (a + 4) = unat a + (4 :: nat)" for a u :: u32
proof -
  assume a: "a \<le> u" "u < a OR 0xFFFFFFFC"
  have un: "unat a < 2 ^ LENGTH(32)" by (rule unsigned_less)
  have "\<not> 0xFFFFFFFC \<le> a"
  proof
    assume "0xFFFFFFFC \<le> a"
    then have "unat a = 0xFFFFFFFC \<or> unat a = 0xFFFFFFFD \<or> unat a = 0xFFFFFFFE \<or> unat a = 0xFFFFFFFF"
      using un by (simp add: word_le_nat_alt, linarith)
    then have "a = 0xFFFFFFFC \<or> a = 0xFFFFFFFD \<or> a = 0xFFFFFFFE \<or> a = 0xFFFFFFFF"
      by (simp add: word_unat_eq_iff)
    then have "a OR 0xFFFFFFFC = a" by auto
    with a show False by simp
  qed
  then show ?thesis by (simp add: word_le_nat_alt unat_word_ariths)
qed

lemma dump_loop_ends: "u < a OR 0xFFFFFFFC \<Longrightarrow> \<exists>d'. dump_loop hp a u d = Some d'"
proof (induction "2 ^ 32 - unat a" arbitrary: a d rule: less_induct)
  case less
  show ?case
  proof (cases "a \<le> u")
    case True
    then have "unat (a + 4) = unat a + 4" using no_wrap less(2) by blast
    moreover have "unat (a + 4) < 2 ^ 32" using unsigned_less [of "a + 4"] by simp
    moreover have "u < (a + 4) OR 0xFFFFFFFC" using less(2) by (simp only: wrap_mask)
    ultimately have "\<exists>d'. dump_loop hp (a + 4) u (show_word hp a d) = Some d'" using less(1) by simp
    then show ?thesis using True by (simp add: dump_loop.simps [of hp a])
  next
    case False
    then show ?thesis by (simp add: dump_loop.simps [of hp a])
  qed
qed

text \<open>
  C40. The dump command \<open>d\<close> fails to return exactly when its end address is in the last word that its counter, which goes
  up by four from the start, can reach: then the counter wraps to a value below the end and the loop never ends. For
  every other range it returns.
\<close>

theorem dump_hangs_iff:
  "run_line hp (''d '' @ show_0x8 a @ '' '' @ show_0x8 u @ [NL]) d = Hangs \<longleftrightarrow> a OR 0xFFFFFFFC \<le> u"
proof -
  let ?d = "d\<lparr>last_cmd := ''d '' @ show_0x8 a @ '' '' @ show_0x8 u\<rparr>"
  have scan: "sscanf_x (CHR '' '' # show_0x8 u) = Some (u, [])"
    using scan_number_arg(1) [of u] by (simp add: sscanf_x_def scan_number_def isspace_def [of "CHR '' ''"])
  have "run_line hp (''d '' @ show_0x8 a @ '' '' @ show_0x8 u @ [NL]) d =
      (case dump_loop hp a u ?d of Some d \<Rightarrow> Returns (False, d) | None \<Rightarrow> Hangs)"
    using outcome_command [of "CHR ''d''" "show_0x8 a @ '' '' @ show_0x8 u" hp d]
    by (simp add: command_def number_args command_letters cmd_dump_range_def scan split: option.split)
  moreover have "dump_loop hp a u ?d = None \<longleftrightarrow> \<not> u < a OR 0xFFFFFFFC"
    using dump_loop_stops [of hp a u ?d] dump_loop_ends [of u a hp ?d] by (cases "dump_loop hp a u ?d") auto
  ultimately show ?thesis by (cases "dump_loop hp a u ?d") (auto simp: not_less)
qed

section \<open>A value with a decimal point\<close>

text \<open>
  The help text offers \<open>F f0 1.0\<close> to set \<open>f0\<close> to 1.0; the value is scanned as hexadecimal first, which succeeds with
  the digit before the point: the line writes the bit pattern 1, the least positive number, instead.
\<close>

theorem set_decimal_writes_one:
  "outcome (run_line hp (''F f0 1.0'' @ [NL]) d) = Returns (False, (settings d)\<lparr>guest := fpr_write_s 0 1 (guest d)\<rparr>)"
proof -
  have "tokens ''f0 1.0'' = [''f0'', ''1.0'']"
  proof -
    have "\<not> is_delim c" if "c \<in> set ''f0'' \<union> set ''1.0''" for c using that by (auto simp: is_delim_def)
    then show ?thesis using tokens_words(1) [of "''f0''" "''1.0''"] tokens_words(2) [of "''1.0''"] by auto
  qed
  moreover have "parse_fregister ''f0'' = Some 0"
    by (simp add: parse_fregister_def sscanf_d_def scan_number_def scan_sign_def isspace_def starts_digit_def
        is_digit_def digit_value_def to_long_def word_sle_eq)
  moreover have "sscanf_llx ''1.0'' = Some (1, ''.0'')"
    by (simp add: sscanf_llx_def scan_number_def scan_sign_def isspace_def starts_digit_def has_prefix_def
        is_digit_def digit_value_def to_ulong_def)
  ultimately show ?thesis
    using outcome_command [of "CHR ''F''" "''f0 1.0''" hp d]
    by (simp add: command_letters command_def isspace_def [of "CHR ''f''"] cmd_set_fregister_def set_fregister_def Let_def)
qed

end
