(* ===== verification/Startup.thy ===== *)
theory Startup
  imports Cmdline Debug_Commands
begin

text \<open>
  What the command line of src/src/emu.c means: the numbers and extra binaries it names reach the
  staging unchanged, which options crash, and how console mode switches the debugger off.
\<close>

section \<open>Numbers\<close>

lemma digits_hd:
  assumes "2 \<le> b" "b \<le> 36" "0 < n"
  shows "hd (digits b n) \<noteq> CHR ''0''"
  using assms
proof (induction b n rule: digits.induct)
  case (1 b n)
  have z: "digit_char 0 = CHR ''0''" by (simp add: digit_char_eval)
  show ?case
  proof (cases "n < b")
    case True
    then have "digits b n = [digit_char n]" by (subst digits.simps) simp
    moreover have "digit_char n \<noteq> digit_char 0" using digit_char_inj [of n 0] 1 True by simp
    ultimately show ?thesis using z by simp
  next
    case False
    then show ?thesis using 1 by (subst digits.simps) (auto simp: div_greater_zero_iff)
  qed
qed

lemma number_scanned:
  "2 \<le> b \<Longrightarrow> b \<le> 36 \<Longrightarrow> starts_digit b (digits b n)" "2 \<le> b \<Longrightarrow> b \<le> 36 \<Longrightarrow> scan_digits b 0 (digits b n) = (n, [])"
  using padded_digits(2,4) [of b "digits b n" 0 n "[]"] by (simp_all add: starts_digit_def)

lemma strtoul_hex: "strtoul (''0x'' @ digits 16 n) = Some (to_ulong False n, [])"
proof -
  have "has_prefix (CHR ''x'') (CHR ''0'' # CHR ''x'' # digits 16 n)" by (simp add: has_prefix_def tolower_def)
  then show ?thesis using number_scanned [of 16 n]
    by (simp add: strtoul_def strtoul_base_def scan_sign_def isspace_def [of "CHR ''0''"])
qed

lemma strtoul_dec: "strtoul (digits 10 n) = Some (to_ulong False n, [])"
proof (cases "n = 0")
  case True
  then show ?thesis
    by (simp add: digits_eval strtoul_def strtoul_base_def scan_sign_def isspace_def has_prefix_def starts_digit_def
        is_digit_def digit_value_def)
next
  case False
  then have "hd (digits 10 n) \<noteq> CHR ''0''" by (simp add: digits_hd)
  then have "\<not> has_prefix x (digits 10 n)" "strtoul_base (digits 10 n) = (10, digits 10 n)" for x
    by (auto simp: has_prefix_def strtoul_base_def hd_conv_nth)
  then show ?thesis using number_scanned [of 10 n] scan_sign_digit [of 10 "digits 10 n"] by (simp add: strtoul_def)
qed

text \<open>
  Addresses on the command line: a number of at most 64 bits is accepted both in hexadecimal with its prefix and in
  decimal, and reduced to 32 bits without a message. A 32-bit address is read back exactly; but one without the prefix
  is decimal, whatever the help text's HEX says, and an address beyond 4 GiB becomes a different one.
\<close>

theorem parse_hex_numbers:
  assumes "n < 2 ^ 64"
  shows "parse_hex (''0x'' @ digits 16 n) = Some (of_nat n) \<and> parse_hex (digits 10 n) = Some (of_nat n)"
proof -
  have "ucast (of_nat n :: u64) = (of_nat n :: u32)" by (rule bit_word_eqI) (simp add: bit_simps)
  then have "ucast (to_ulong False n) = (of_nat n :: u32)" using assms by (simp add: to_ulong_def)
  then show ?thesis by (simp add: parse_hex_def strtoul_hex [simplified] strtoul_dec)
qed

theorem parse_hex_numbers_witness:
  "parse_hex ''0x180000000'' = Some 0x80000000 \<and> parse_hex ''80000000'' = Some 0x4C4B400"
  using parse_hex_numbers [of 6442450944] parse_hex_numbers [of 80000000] by (simp add: digits_eval)

lemma parse_hex_address: "parse_hex (show_0x w) = Some w"
proof -
  have "unat w < 2 ^ LENGTH(32)" by (rule unsigned_less)
  then show ?thesis by (simp add: parse_hex_def show_0x_def strtoul_hex [simplified] to_ulong_unat)
qed

section \<open>Extra binaries\<close>

lemma strrchr_at: "x \<notin> set t \<Longrightarrow> strrchr x (s @ x # t) = Some (s, t)"
  by (simp add: strrchr_def takeWhile_append dropWhile_append) 

text \<open>The array: what is stored in it is inside the allocation, and the entries counted are assigned.\<close>

definition loads_inv :: "extra_loads \<Rightarrow> bool" where
  "loads_inv ls \<longleftrightarrow> extra_count ls \<le> extra_cap ls \<and> length (slots ls) = unat (extra_cap ls) \<and>
     (\<forall>i<unat (extra_count ls). slots ls ! i \<noteq> None)"

definition loaded :: "extra_loads \<Rightarrow> (string \<times> u32) list" where
  "loaded ls = map the (take (unat (extra_count ls)) (slots ls))"

definition enough_memory :: "alloc \<Rightarrow> bool" where
  "enough_memory alloc \<longleftrightarrow> (\<forall>n. realloc_ok alloc n) \<and> (\<forall>s. strdup_ok alloc s) \<and> calloc_ok alloc"

lemma no_loads_inv: "loads_inv no_loads" "loaded no_loads = []" "extra_count no_loads = 0"
  by (simp_all add: loads_inv_def loaded_def no_loads_def)

lemma grow_loads_room:
  assumes "loads_inv ls" "extra_count ls < 2 ^ 31" "grow_loads alloc ls = Some ls'"
  shows "loads_inv ls' \<and> extra_count ls' = extra_count ls \<and> extra_count ls' < extra_cap ls' \<and> loaded ls' = loaded ls"
proof (cases "extra_count ls = extra_cap ls")
  case True
  let ?n = "if extra_cap ls \<noteq> 0 then extra_cap ls * 2 else 4"
  have ls': "ls' = ls\<lparr>slots := take (unat ?n) (slots ls) @ replicate (unat ?n - length (slots ls)) None, extra_cap := ?n\<rparr>"
    using assms(3) True by (simp add: grow_loads_def Let_def split: if_splits)
  have "unat (extra_cap ls * 2) = unat (extra_cap ls) * 2"
    using assms(2) True by (simp add: unat_word_ariths word_less_nat_alt)
  then have "unat (extra_cap ls) < unat ?n" by (auto simp: word_neq_0_conv word_less_nat_alt)
  then show ?thesis using assms(1) True
    by (auto simp: ls' loads_inv_def loaded_def nth_append word_less_nat_alt word_le_nat_alt)
next
  case False
  then show ?thesis using assms by (auto simp: grow_loads_def loads_inv_def)
qed

lemma store_load:
  fixes x :: "string \<times> u32"
  assumes "loads_inv ls" "extra_count ls < extra_cap ls"
  defines "ls' \<equiv> ls\<lparr>slots := (slots ls)[unat (extra_count ls) := Some x], extra_count := extra_count ls + 1\<rparr>"
  shows "loads_inv ls' \<and> loaded ls' = loaded ls @ [x] \<and> unat (extra_count ls') = unat (extra_count ls) + 1"
proof -
  have "unat (extra_cap ls) < 2 ^ LENGTH(32)" by (rule unsigned_less)
  then have n: "unat (extra_count ls + 1) = unat (extra_count ls) + 1" and l: "unat (extra_count ls) < length (slots ls)"
    using assms(1,2) by (auto simp: unat_word_ariths word_less_nat_alt loads_inv_def)
  then show ?thesis using assms(1)
    by (auto simp: ls'_def loads_inv_def loaded_def word_le_nat_alt nth_list_update take_Suc_conv_app_nth less_Suc_eq)
qed

text \<open>A successful push adds exactly the entry; it never writes outside the array.\<close>

lemma push_extra_load_ok:
  assumes "enough_memory alloc" "loads_inv ls" "extra_count ls < 2 ^ 31" "file \<noteq> []"
  shows "\<exists>ls'. push_extra_load alloc (file @ ''@'' @ show_0x base) ls = Inr ls' \<and> loads_inv ls' \<and>
    loaded ls' = loaded ls @ [(file, base)] \<and> unat (extra_count ls') = unat (extra_count ls) + 1"
proof -
  have "CHR ''@'' \<notin> set (show_0x base)"
    using digits_are_digits [of 16 "CHR ''@''" "unat base"] by (auto simp: show_0x_def is_digit_def digit_value_def)
  then have s: "strrchr (CHR ''@'') (file @ ''@'' @ show_0x base) = Some (file, show_0x base)" by (simp add: strrchr_at)
  obtain ls1 where ls1: "grow_loads alloc ls = Some ls1"
    using assms(1) by (cases "grow_loads alloc ls") (auto simp: grow_loads_def enough_memory_def Let_def split: if_splits)
  then show ?thesis
    using grow_loads_room [OF assms(2,3) ls1] store_load [of ls1 "(file, base)"] assms(1,4) hex0x.show_nonempty [of base]
    by (auto simp: push_extra_load_def s [simplified] parse_hex_address enough_memory_def)
qed

lemma load_options:
  assumes "enough_memory alloc" "loads_inv (loads opts)" "\<forall>(f, b)\<in>set l. f \<noteq> []"
    and "unat (extra_count (loads opts)) + length l < 2 ^ 31"
  shows "\<exists>ls. option_loop alloc debugger prog (map (\<lambda>(f, b). (CHR ''L'', Some (f @ ''@'' @ show_0x b))) l) opts =
           Go (opts\<lparr>loads := ls\<rparr>) \<and> loads_inv ls \<and> loaded ls = loaded (loads opts) @ l"
  using assms(2-4)
proof (induction l arbitrary: opts)
  case Nil
  then show ?case by (intro exI [of _ "loads opts"]) simp
next
  case (Cons x l)
  obtain f b where x: "x = (f, b)" by (cases x)
  have "extra_count (loads opts) < 2 ^ 31" "f \<noteq> []" using Cons.prems x by (auto simp: word_less_nat_alt)
  then obtain ls where ls: "push_extra_load alloc (f @ ''@'' @ show_0x b) (loads opts) = Inr ls" "loads_inv ls"
      "loaded ls = loaded (loads opts) @ [(f, b)]" "unat (extra_count ls) = unat (extra_count (loads opts)) + 1"
    using push_extra_load_ok [OF assms(1) Cons.prems(1)] by blast
  then have "\<exists>ls'. option_loop alloc debugger prog (map (\<lambda>(f, b). (CHR ''L'', Some (f @ ''@'' @ show_0x b))) l)
      (opts\<lparr>loads := ls\<rparr>) = Go (opts\<lparr>loads := ls'\<rparr>) \<and> loads_inv ls' \<and> loaded ls' = loaded ls @ l"
    using Cons.IH [of "opts\<lparr>loads := ls\<rparr>"] Cons.prems by auto
  then show ?case using ls by (auto simp: x option_step_def)
qed

text \<open>The options of an argument vector that names the binaries with \<open>--load\<close>.\<close>

lemma long_load: "long_option (long_options debugger) ''load'' (arg # args) = ((CHR ''L'', Some arg), args)"
  by (simp add: long_option_def long_matches_def long_options_def)

lemma getopt_load:
  "getopt_long os (long_options debugger) (''--load'' # arg # args) =
     (let (evs, operands) = getopt_long os (long_options debugger) args in ((CHR ''L'', Some arg) # evs, operands))"
  by (subst getopt_long.simps) (simp add: long_load)

lemma getopt_operand:
  "take 1 a \<noteq> ''-'' \<Longrightarrow> getopt_long os longs (a # args) = (let (evs, operands) = getopt_long os longs args in (evs, a # operands))"
  by (subst getopt_long.simps) (cases a; auto simp: Let_def take_Cons')

lemma getopt_loads:
  assumes "take 1 prog_file \<noteq> ''-''"
  shows "getopt_long os (long_options debugger)
      (concat (map (\<lambda>(f, b). [''--load'', f @ ''@'' @ show_0x b]) l) @ [prog_file, show_0x base]) =
    (map (\<lambda>(f, b). (CHR ''L'', Some (f @ ''@'' @ show_0x b))) l, [prog_file, show_0x base])"
proof (induction l)
  case Nil
  have "take 1 (show_0x base) \<noteq> ''-''" by (simp add: show_0x_def)
  then show ?case using assms by (simp add: getopt_operand getopt_Nil)
next
  case (Cons x l)
  then show ?case by (cases x) (simp add: getopt_load [simplified])
qed

text \<open>
  C21. The command line round trip: after any number of \<open>--load FILE@ADDRESS\<close>, the program and its base, printed in
  hexadecimal, the staging is given exactly those files and addresses, in order, whatever characters (\<open>@\<close> included) the
  file names have, and the growing array is never written outside its allocation.
\<close>

theorem command_line_loads:
  assumes "enough_memory alloc" "take 1 prog_file \<noteq> ''-''" "\<forall>(f, b)\<in>set l. f \<noteq> []" "length l < 2 ^ 31"
  shows "\<exists>opts. parse_args alloc debugger prog
       (concat (map (\<lambda>(f, b). [''--load'', f @ ''@'' @ show_0x b]) l) @ [prog_file, show_0x base]) = Go (opts, prog_file, base) \<and>
     machine_config files opts prog_file base =
       \<lparr>program = files prog_file, program_base = base, initrd = None, fdt_at = None,
        extra_slots = map (\<lambda>(f, b). (files f, b)) l\<rparr> \<and>
     length (slots (loads opts)) = unat (extra_cap (loads opts)) \<and> extra_count (loads opts) \<le> extra_cap (loads opts)"
proof -
  obtain ls where ls: "option_loop alloc debugger prog (map (\<lambda>(f, b). (CHR ''L'', Some (f @ ''@'' @ show_0x b))) l)
       default_options = Go (default_options\<lparr>loads := ls\<rparr>)" "loads_inv ls" "loaded ls = l"
    using load_options [OF assms(1), of default_options l debugger prog] assms(3,4) no_loads_inv
    by (auto simp: default_options_def)
  have "map (\<lambda>x. (files (fst (the x)), snd (the x))) (take (unat (extra_count ls)) (slots ls)) =
      map (\<lambda>(f, b). (files f, b)) l"
    unfolding ls(3) [symmetric] loaded_def by (simp add: case_prod_unfold)
  then show ?thesis using ls(1,2) getopt_loads [OF assms(2), of "short_options debugger" debugger l base]
    by (intro exI [of _ "default_options\<lparr>loads := ls\<rparr>"])
      (simp add: parse_args_def parse_hex_address machine_config_def default_options_def loads_inv_def)
qed

text \<open>A memory that never runs out, a command line with a loaded binary.\<close>

definition demo_alloc :: alloc where
  "demo_alloc = \<lparr>realloc_ok = (\<lambda>_. True), strdup_ok = (\<lambda>_. True), calloc_ok = True\<rparr>"

theorem command_line_loads_witness:
  "\<exists>opts. parse_args demo_alloc False ''emu'' [''--load'', ''k@1@0x80400000'', ''fw.bin'', ''0x80000000''] =
     Go (opts, ''fw.bin'', 0x80000000)"
  using command_line_loads [of demo_alloc "''fw.bin''" "[(''k@1'', 0x80400000)]" False "''emu''" "0x80000000"]
  by (auto simp: demo_alloc_def enough_memory_def show_0x_def digits_eval)

section \<open>Options that crash\<close>

lemma short_event:
  assumes "(c, None) \<in> set (fst (short_group os cs args))"
  shows "c = CHR ''?'' \<or> c \<in> set cs \<and> short_kind os c = Some no_argument"
  using assms
proof (induction os cs args rule: short_group.induct)
  case (2 os c' cs args)
  have k: "k = no_argument" if "short_kind os x = Some k" "k \<noteq> required_argument" for k x
    using that by (induction os x rule: short_kind.induct) (auto split: if_splits)
  show ?case
  proof (cases "short_kind os c' = Some required_argument")
    case True
    with 2 show ?thesis by (auto split: if_splits list.splits)
  next
    case False
    with 2 show ?thesis using k by (cases "short_kind os c'") (auto simp: Let_def case_prod_unfold)
  qed
qed simp

lemma long_matches_subset: "set (long_matches longs name) \<subseteq> set longs"
proof -
  have "x \<in> set longs" if "find P longs = Some x" for P x
    using that nth_mem by (fastforce simp: find_Some_iff)
  then show ?thesis by (auto simp: long_matches_def split: option.split)
qed

lemma long_event:
  assumes "long_option longs body args = ((c, None), rest)" "c \<noteq> CHR ''?''"
  shows "\<exists>n k. (n, k, c) \<in> set longs \<and> k \<noteq> required_argument"
proof -
  let ?m = "long_matches longs (takeWhile (\<lambda>c. c \<noteq> CHR ''='') body)"
  show ?thesis
  proof (cases "\<exists>n k c. ?m = [(n, k, c)]")
    case True
    then obtain n k c' where m: "?m = [(n, k, c')]" by blast
    then have "(n, k, c') \<in> set longs" using long_matches_subset [of longs "takeWhile (\<lambda>c. c \<noteq> CHR ''='') body"] by simp
    moreover have "c' = c \<and> k \<noteq> required_argument"
      using assms m by (cases k; cases args) (auto simp: long_option_def Let_def split: option.splits if_splits)
    ultimately show ?thesis by blast
  next
    case False
    then have "(c, None) = bad_option"
      using assms(1) by (cases ?m rule: remdups_adj.cases) (auto simp: long_option_def Let_def)
    then show ?thesis using assms(2) by simp
  qed
qed

lemma short_group_rest: "set (snd (short_group os cs args)) \<subseteq> set args"
  by (induction os cs args rule: short_group.induct) (auto simp: Let_def case_prod_unfold split: list.split)

lemma long_option_rest: "set (snd (long_option longs body args)) \<subseteq> set args"
  by (auto simp: long_option_def Let_def split: list.splits arg_kind.splits option.splits)

lemma getopt_group:
  assumes "take 1 a = ''-''" "a \<noteq> ''-''" "take 2 a \<noteq> ''--''" "short_group os (drop 1 a) rest = (evs, r)"
  shows "fst (getopt_long os longs (a # rest)) = evs @ fst (getopt_long os longs r)"
proof -
  have "a \<noteq> ''--''" using assms(3) by auto
  then show ?thesis
    unfolding getopt_long.simps [of os longs "a # rest"] list.case
    using assms by (simp only: if_False if_True conj_absorb simp_thms Let_def prod.case) (simp add: case_prod_unfold)
qed

text \<open>Where an option without an argument can come from.\<close>

lemma getopt_event:
  assumes "(c, None) \<in> set (fst (getopt_long os longs args))" "c \<noteq> CHR ''?''" "\<nexists>n k. (n, k, c) \<in> set longs \<and> k \<noteq> required_argument"
  shows "short_kind os c = Some no_argument \<and> (\<exists>a\<in>set args. take 1 a = ''-'' \<and> take 2 a \<noteq> ''--'' \<and> c \<in> set a)"
  using assms
proof (induction os longs args rule: getopt_long.induct)
  case (1 os longs args)
  show ?case
  proof (cases args)
    case Nil
    then show ?thesis using 1 by (simp add: getopt_Nil)
  next
    case (Cons a rest)
    consider "a = ''--''" | "a \<noteq> ''--''" "take 2 a = ''--''" | "take 2 a \<noteq> ''--''" "take 1 a = ''-''" "a \<noteq> ''-''"
      | "a \<noteq> ''--''" "take 2 a \<noteq> ''--''" "\<not> (take 1 a = ''-'' \<and> a \<noteq> ''-'')" by auto
    then show ?thesis
    proof cases
      case 1
      then show ?thesis using "1.prems" Cons by (simp add: getopt_long.simps [of os longs "_ # _"])
    next
      case 2
      obtain ev r where lo: "long_option longs (drop 2 a) rest = (ev, r)" by (cases "long_option longs (drop 2 a) rest")
      have "(c, None) \<noteq> ev" using long_event [of longs "drop 2 a" rest c r] "1.prems"(2,3) lo by auto
      then have "(c, None) \<in> set (fst (getopt_long os longs r))"
        using "1.prems"(1) Cons 2 lo by (simp add: getopt_long.simps [of os longs "_ # _"] case_prod_unfold Let_def)
      then show ?thesis using "1.IH"(1) [OF Cons 2 lo [symmetric] refl] "1.prems"(2,3) long_option_rest [of longs "drop 2 a" rest] lo Cons
        by auto
    next
      case 3
      obtain evs r where sg: "short_group os (drop 1 a) rest = (evs, r)" by (cases "short_group os (drop 1 a) rest")
      have "(c, None) \<in> set evs \<or> (c, None) \<in> set (fst (getopt_long os longs r))"
        using "1.prems"(1) Cons getopt_group [OF 3(2,3,1) sg, of longs] by simp
      then show ?thesis
      proof
        assume "(c, None) \<in> set evs"
        then have "c \<in> set (drop 1 a)" "short_kind os c = Some no_argument"
          using short_event [of c os "drop 1 a" rest] sg "1.prems"(2) by auto
        then show ?thesis using 3 Cons by (auto dest: in_set_dropD)
      next
        have ne: "a \<noteq> ''--''" and t: "take 1 a = ''-'' \<and> a \<noteq> ''-''" using 3 by auto
        assume "(c, None) \<in> set (fst (getopt_long os longs r))"
        then show ?thesis
          using "1.IH"(2) [OF Cons ne 3(1) t sg [symmetric] refl] "1.prems"(2,3) short_group_rest [of os "drop 1 a" rest] sg Cons
          by auto
      qed
    next
      case 4
      then have "(c, None) \<in> set (fst (getopt_long os longs rest))"
        using "1.prems"(1) Cons by (auto simp: getopt_long.simps [of os longs "_ # _"] case_prod_unfold Let_def split: if_splits)
      then show ?thesis using "1.IH"(3) [OF Cons 4] "1.prems"(2,3) Cons by auto
    qed
  qed
qed

lemma option_loop_crash:
  "option_loop alloc debugger prog evs opts = Crash \<Longrightarrow>
     (CHR ''L'', None) \<in> set evs \<or> (CHR ''R'', None) \<in> set evs \<or> debugger \<and> (CHR ''b'', None) \<in> set evs"
proof (induction evs arbitrary: opts)
  case (Cons ev evs)
  obtain opt optarg where ev: "ev = (opt, optarg)" by (cases ev)
  have "optarg = None \<and> (opt = CHR ''L'' \<or> opt = CHR ''R'' \<or> debugger \<and> opt = CHR ''b'')"
    if "option_step alloc debugger prog ev opts = Crash"
    using that by (auto simp: ev option_step_def initrd_option_def Let_def split: if_splits option.splits sum.splits prod.splits)
  then show ?case using Cons ev by (auto split: parsed.splits)
qed simp

text \<open>
  The short form \<open>-L\<close> of \<open>--load\<close>, which the usage text offers, crashes: \<open>L\<close> has no colon in the option string, so its
  argument is a null pointer, which \<open>strrchr\<close> is given. No other command line dereferences a null pointer.
\<close>

theorem short_load_crashes:
  "parse_args alloc debugger prog (''-L'' # args) = Crash \<and>
   (parse_args alloc debugger prog args = Crash \<longrightarrow>
      (\<exists>a\<in>set args. take 1 a = ''-'' \<and> take 2 a \<noteq> ''--'' \<and> CHR ''L'' \<in> set a))"
proof (intro conjI impI)
  have "short_group (short_options debugger) (drop 1 ''-L'') args = ([(CHR ''L'', None)], args)"
    by (simp add: short_options_def)
  from getopt_group [OF _ _ _ this, of "long_options debugger"] have "fst (getopt_long (short_options debugger) (long_options debugger) (''-L'' # args)) =
      (CHR ''L'', None) # fst (getopt_long (short_options debugger) (long_options debugger) args)"
    by simp
  then show "parse_args alloc debugger prog (''-L'' # args) = Crash"
    by (simp add: parse_args_def case_prod_unfold Let_def option_step_def)
next
  let ?evs = "fst (getopt_long (short_options debugger) (long_options debugger) args)"
  note event = getopt_event [of _ "short_options debugger" "long_options debugger" args]
  have "(CHR ''R'', None) \<notin> set ?evs" "debugger \<Longrightarrow> (CHR ''b'', None) \<notin> set ?evs"
    using event [of "CHR ''R''"] event [of "CHR ''b''"] by (auto simp: short_options_def long_options_def)
  moreover have "\<nexists>n k. (n, k, CHR ''L'') \<in> set (long_options debugger) \<and> k \<noteq> required_argument"
    by (auto simp: long_options_def)
  moreover assume "parse_args alloc debugger prog args = Crash"
  then have "option_loop alloc debugger prog ?evs default_options = Crash"
    by (auto simp: parse_args_def case_prod_unfold Let_def split: parsed.splits list.splits option.splits)
  ultimately show "\<exists>a\<in>set args. take 1 a = ''-'' \<and> take 2 a \<noteq> ''--'' \<and> CHR ''L'' \<in> set a"
    using option_loop_crash event [of "CHR ''L''"] by fastforce
qed

theorem short_load_crashes_witness:
  "parse_args demo_alloc True ''emu'' [''-L'', ''k.bin@0x80400000'', ''fw.bin'', ''0x80000000''] = Crash \<and>
   (\<exists>a\<in>set [''-L'', ''k.bin@0x80400000'', ''fw.bin'', ''0x80000000'']. CHR ''L'' \<in> set a)"
  using short_load_crashes [of demo_alloc True "''emu''" "[''k.bin@0x80400000'', ''fw.bin'', ''0x80000000'']"]
    short_load_crashes [of demo_alloc True "''emu''" "[''-L'', ''k.bin@0x80400000'', ''fw.bin'', ''0x80000000'']"] by blast

text \<open>The short form of \<open>--fdt\<close> is refused: the option string has no \<open>F\<close>.\<close>

lemma short_fdt_refused: "parse_args alloc debugger prog (''-F'' # args) = Exit 1 (print_usage debugger prog)"
proof -
  have "short_group (short_options debugger) (drop 1 ''-F'') args = ([bad_option], args)"
    by (simp add: short_options_def)
  from getopt_group [OF _ _ _ this, of "long_options debugger"] show ?thesis
    by (simp add: parse_args_def case_prod_unfold Let_def option_step_def)
qed

section \<open>Start of the run loop\<close>

lemma launch_cases:
  assumes "launch alloc debugger files tty prog args inp = Go x"
  obtains opts name base s where "parse_args alloc debugger prog args = Go (opts, name, base)"
    "boot True (machine_config files opts name base) = Inr s"
    "run_st x = run_start (fdt_enabled opts) (start_input debugger tty opts) s" "dbg_st x = start_debugger opts s"
proof -
  have "calloc_ok alloc = True" if "boot (calloc_ok alloc) cfg = Inr s" for cfg s
    using that by (cases "calloc_ok alloc") (simp_all add: boot_def init_mem_def)
  then show thesis using assms that
    by (fastforce simp: launch_def split: parsed.splits sum.splits prod.splits)
qed

lemma launch_inv: "launch alloc debugger files tty prog args inp = Go x \<Longrightarrow> loop_inv (run_st x)"
  using launch_cases loop_inv_start [OF boot_inv] by metis

text \<open>
  Console mode is free of the debugger: whatever \<open>--debug\<close> and \<open>--breakpoint\<close> options come with \<open>--console\<close>, the
  build with the debugger runs exactly as the loop without it, and the standard input is left to the guest.
\<close>

theorem console_disables_debugger:
  assumes "parse_args alloc True prog args = Go (opts, name, base)" "console_mode opts"
    and "launch alloc True files tty prog args inp = Go x"
  shows "\<exists>g. debug_loop True sf hp envs x = with_debugger x g (main_loop True sf envs (run_st x))"
proof -
  obtain s where "dbg_st x = start_debugger opts s"
    using launch_cases [OF assms(3)] assms(1) by (metis parsed.inject(1) prod.inject)
  then have "asleep sf envs x"
    using assms(2) launch_inv [OF assms(3)] by (simp add: asleep_def start_debugger_def)
  then show ?thesis by (rule debug_loop_asleep)
qed


text \<open>
  In console mode nothing the emulator logs reaches the terminal, which is the guest's: the lines, those of the level INFO and
  above even with \<open>--debug\<close>, go to the file of \<open>--log\<close>, or to riscvemu.log, and are lost if it cannot be opened.
\<close>

theorem console_log_to_file:
  assumes "console_mode opts"
  shows "\<exists>l. log_messages dt ms (setup_logger fopen_ok debugger opts) = Some l \<and> stdout l = [] \<and> stderr l = [] \<and>
    file_output l = (if fopen_ok (case log_file opts of Some f \<Rightarrow> f | None \<Rightarrow> ''riscvemu.log'')
                     then Open (shown dt INFO ms) else No_file)"
proof -
  let ?ok = "fopen_ok (case log_file opts of Some f \<Rightarrow> f | None \<Rightarrow> ''riscvemu.log'')"
  have "setup_logger fopen_ok debugger opts =
      initial_logger\<lparr>level := INFO, log_to_stdout := False, file_output := if ?ok then Open [] else No_file\<rparr>"
    using assms by (simp add: setup_logger_def log_settings_def init_logger_def)
  then show ?thesis
    using log_messages_effect [of "setup_logger fopen_ok debugger opts" dt ms]
    by (auto simp: is_open_def initial_logger_def)
qed

theorem console_log_to_file_witness:
  "\<exists>l. log_messages (\<lambda>_ _. []) [(Info, ''12:00:00'', ''Program: %s'', [AStr ''p''])]
       (setup_logger (\<lambda>_. True) True (default_options\<lparr>console_mode := True\<rparr>)) = Some l \<and> stdout l = [] \<and>
     file_output l = Open ''12:00:00 [INFO] Program: p\<newline>''"
  using console_log_to_file [of "default_options\<lparr>console_mode := True\<rparr>" "\<lambda>_ _. []"
      "[(Info, ''12:00:00'', ''Program: %s'', [AStr ''p''])]" "\<lambda>_. True" True]
  by (auto simp: shown_def log_line_def sprintf_simps default_options_def simp del: log_messages.simps)

text \<open>A program of one instruction, started in console mode.\<close>

definition demo_args :: "string list" where
  "demo_args = [''--console'', ''-d'', ''p'', ''0x1000'']"

definition demo_tty :: host_tty where
  "demo_tty = \<lparr>fcntl_ok = True, tty_ok = True, tcset_ok = True\<rparr>"

lemma demo_parse:
  "parse_args demo_alloc True ''emu'' demo_args =
     Go (default_options\<lparr>console_mode := True, debug_mode := True\<rparr>, ''p'', 0x1000)"
proof -
  have a: "show_0x 0x1000 = ''0x1000''" by (simp add: show_0x_def digits_eval)
  have "getopt_long (short_options True) (long_options True) demo_args =
      ([(CHR ''C'', None), (CHR ''d'', None)], [''p'', ''0x1000''])"
    by (simp add: demo_args_def getopt_long.simps [of _ _ "_ # _"] getopt_Nil long_option_def long_matches_def
        long_options_def short_options_def)
  then show ?thesis using parse_hex_address [of "0x1000"] by (simp add: parse_args_def option_step_def a)
qed

lemma demo_launches: "\<exists>x. launch demo_alloc True (\<lambda>_. demo_file [0x6F, 0, 0, 0]) demo_tty ''emu'' demo_args [] = Go x"
proof -
  let ?cfg = "machine_config (\<lambda>_. demo_file [0x6F, 0, 0, 0]) (default_options\<lparr>console_mode := True, debug_mode := True\<rparr>) ''p'' 0x1000"
  have "\<exists>s. boot True ?cfg = Inr s"
    unfolding boot_def init_mem_zero
    by (simp add: load_program_def map_initrd_def place_fdt_def place_initrd_def machine_config_def default_options_def
        no_loads_def demo_file_def map_file_def)
  moreover have "calloc_ok demo_alloc" by (simp add: demo_alloc_def)
  ultimately show ?thesis by (auto simp: launch_def demo_parse)
qed

theorem console_disables_debugger_witness:
  "\<exists>x. launch demo_alloc True (\<lambda>_. demo_file [0x6F, 0, 0, 0]) demo_tty ''emu'' demo_args [] = Go x \<and>
     (\<exists>g. debug_loop True order_softfloat demo_fp [idle_host] x =
       with_debugger x g (main_loop True order_softfloat [idle_host] (run_st x)))"
  using demo_launches console_disables_debugger [OF demo_parse] by fastforce

end
