(* ===== verification/Misaligned.thy ===== *)
theory Misaligned
  imports Exec Debugger
begin

text \<open>
  The build with \<open>CONFIG_SUPPORT_MISALIGN\<close>: half-word, word and floating-point accesses at misaligned
  addresses go byte by byte instead of raising an exception. The definitions with the suffix \<open>_m\<close> are the
  functions of src/include/mmu.h, src/include/basic_instructions.h, src/src/extension/f_extension.c,
  src/src/extension/c_extension.c and src/src/exec.c as this build compiles them; all others are the same in
  both builds.
\<close>

section \<open>Byte-wise accesses\<close>

text \<open>The loops over the bytes of a value, of the loads and of the stores; \<open>rd\<close> and \<open>wr\<close> access one byte.\<close>

definition gather_bytes :: "(u32 \<Rightarrow> emu \<Rightarrow> u32 \<times> emu) \<Rightarrow> nat \<Rightarrow> u32 \<Rightarrow> emu \<Rightarrow> 'a::len word \<times> emu" where
  "gather_bytes rd n addr s =
     fold (\<lambda>i (val, s). let (b, s) = rd (addr + of_nat i) s in (val OR shl (ucast b) (8 * i), s)) [0..<n] (0, s)"

definition scatter_bytes :: "(u32 \<Rightarrow> u8 \<Rightarrow> emu \<Rightarrow> emu) \<Rightarrow> nat \<Rightarrow> u32 \<Rightarrow> 'a::len word \<Rightarrow> emu \<Rightarrow> emu" where
  "scatter_bytes wr n addr val s =
     fold (\<lambda>i s. wr (addr + of_nat i) (ucast (shr val (8 * i) AND 0xFF)) s) [0..<n] s"

definition mmu_misaligned_load16 :: "u32 \<Rightarrow> emu \<Rightarrow> u16 \<times> emu" where
  "mmu_misaligned_load16 = gather_bytes mmu_read8_unsigned 2"

definition mmu_misaligned_load16_signed :: "u32 \<Rightarrow> emu \<Rightarrow> u16 \<times> emu" where
  "mmu_misaligned_load16_signed = mmu_misaligned_load16"

definition mmu_misaligned_load32 :: "u32 \<Rightarrow> emu \<Rightarrow> u32 \<times> emu" where
  "mmu_misaligned_load32 = gather_bytes mmu_read8_unsigned 4"

definition mmu_misaligned_load32_signed :: "u32 \<Rightarrow> emu \<Rightarrow> u32 \<times> emu" where
  "mmu_misaligned_load32_signed = mmu_misaligned_load32"

definition mmu_misaligned_load64 :: "u32 \<Rightarrow> emu \<Rightarrow> u64 \<times> emu" where
  "mmu_misaligned_load64 = gather_bytes mmu_read8_unsigned 8"

definition mmu_misaligned_store16 :: "u32 \<Rightarrow> u16 \<Rightarrow> emu \<Rightarrow> emu" where
  "mmu_misaligned_store16 = scatter_bytes mmu_write8 2"

definition mmu_misaligned_store32 :: "u32 \<Rightarrow> u32 \<Rightarrow> emu \<Rightarrow> emu" where
  "mmu_misaligned_store32 = scatter_bytes mmu_write8 4"

definition mmu_misaligned_store64 :: "u32 \<Rightarrow> u64 \<Rightarrow> emu \<Rightarrow> emu" where
  "mmu_misaligned_store64 = scatter_bytes mmu_write8 8"

section \<open>Base loads and stores\<close>

definition insi_i_lh_m :: "u32 \<Rightarrow> u32 \<Rightarrow> u32 \<Rightarrow> emu \<Rightarrow> emu" where
  "insi_i_lh_m imm rs1 rd s =
     (let addr = reg_read rs1 s + imm;
          (fired, s) = sdtrig_check_load_trigger addr s
      in if fired then s
         else if addr AND 1 \<noteq> 0 then
           let (val, s) = mmu_misaligned_load16_signed addr s in reg_write rd (scast val) s
         else let (val, s) = mmu_read16_signed addr s in reg_write rd val s)"

definition insi_i_lw_m :: "u32 \<Rightarrow> u32 \<Rightarrow> u32 \<Rightarrow> emu \<Rightarrow> emu" where
  "insi_i_lw_m imm rs1 rd s =
     (let addr = reg_read rs1 s + imm;
          (fired, s) = sdtrig_check_load_trigger addr s
      in if fired then s
         else if addr AND 3 \<noteq> 0 then
           let (val, s) = mmu_misaligned_load32_signed addr s in reg_write rd val s
         else let (val, s) = mmu_read32_signed addr s in reg_write rd val s)"

definition insi_i_lhu_m :: "u32 \<Rightarrow> u32 \<Rightarrow> u32 \<Rightarrow> emu \<Rightarrow> emu" where
  "insi_i_lhu_m imm rs1 rd s =
     (let addr = reg_read rs1 s + imm;
          (fired, s) = sdtrig_check_load_trigger addr s
      in if fired then s
         else if addr AND 1 \<noteq> 0 then
           let (val, s) = mmu_misaligned_load16 addr s in reg_write rd (ucast val) s
         else let (val, s) = mmu_read16_unsigned addr s in reg_write rd val s)"

definition insi_s_sh_m :: "u32 \<Rightarrow> u32 \<Rightarrow> u32 \<Rightarrow> emu \<Rightarrow> emu" where
  "insi_s_sh_m imm rs2 rs1 s =
     (let addr = reg_read rs1 s + imm;
          (fired, s) = sdtrig_check_store_trigger addr s
      in if fired then s
         else if addr AND 1 \<noteq> 0 then
           let val = reg_read rs2 s in mmu_misaligned_store16 addr (ucast (val AND 0xFFFF)) s
         else let val = reg_read rs2 s in mmu_write16 addr (ucast (val AND 0xFFFF)) s)"

definition insi_s_sw_m :: "u32 \<Rightarrow> u32 \<Rightarrow> u32 \<Rightarrow> emu \<Rightarrow> emu" where
  "insi_s_sw_m imm rs2 rs1 s =
     (let addr = reg_read rs1 s + imm;
          (fired, s) = sdtrig_check_store_trigger addr s
      in if fired then s
         else if addr AND 3 \<noteq> 0 then let val = reg_read rs2 s in mmu_misaligned_store32 addr val s
         else let val = reg_read rs2 s in mmu_write32 addr val s)"

section \<open>Floating-point loads and stores\<close>

definition load64 :: "u32 \<Rightarrow> emu \<Rightarrow> u64 \<times> emu" where
  "load64 addr s = (if \<not> is_aligned addr 8 then mmu_misaligned_load64 addr s else mmu_read64_unsigned addr s)"

definition store64 :: "u32 \<Rightarrow> u64 \<Rightarrow> emu \<Rightarrow> emu" where
  "store64 addr val s = (if \<not> is_aligned addr 8 then mmu_misaligned_store64 addr val s else mmu_write64 addr val s)"

definition insf_flw_m :: "u32 \<Rightarrow> u32 \<Rightarrow> u32 \<Rightarrow> emu \<Rightarrow> emu" where
  "insf_flw_m imm rs1 rd s =
     (let addr = reg_read rs1 s + imm;
          (val, s) = (if \<not> is_aligned addr 4 then mmu_misaligned_load32 addr s else mmu_read32_unsigned addr s)
      in fpr_write_s rd val s)"

definition insf_fsw_m :: "u32 \<Rightarrow> u32 \<Rightarrow> u32 \<Rightarrow> emu \<Rightarrow> emu" where
  "insf_fsw_m imm rs1 rs2 s =
     (let addr = reg_read rs1 s + imm; val = fpr_read_s rs2 s
      in if \<not> is_aligned addr 4 then mmu_misaligned_store32 addr val s else mmu_write32 addr val s)"

definition insf_fld_m :: "u32 \<Rightarrow> u32 \<Rightarrow> u32 \<Rightarrow> emu \<Rightarrow> emu" where
  "insf_fld_m imm rs1 rd s =
     (let addr = reg_read rs1 s + imm; (val, s) = load64 addr s in fpr_write_d rd val s)"

definition insf_fsd_m :: "u32 \<Rightarrow> u32 \<Rightarrow> u32 \<Rightarrow> emu \<Rightarrow> emu" where
  "insf_fsd_m imm rs1 rs2 s =
     (let addr = reg_read rs1 s + imm; val = fpr_read_d rs2 s in store64 addr val s)"

definition insf_flh_m :: "u32 \<Rightarrow> u32 \<Rightarrow> u32 \<Rightarrow> emu \<Rightarrow> emu" where
  "insf_flh_m imm rs1 rd s =
     (let addr = reg_read rs1 s + imm
      in if \<not> is_aligned addr 2
         then let (val, s) = mmu_misaligned_load16 addr s in fpr_write_h rd val s
         else let (val, s) = mmu_read16_unsigned addr s in fpr_write_h rd (ucast val) s)"

definition insf_fsh_m :: "u32 \<Rightarrow> u32 \<Rightarrow> u32 \<Rightarrow> emu \<Rightarrow> emu" where
  "insf_fsh_m imm rs1 rs2 s =
     (let addr = reg_read rs1 s + imm; val = fpr_read_h rs2 s
      in if \<not> is_aligned addr 2 then mmu_misaligned_store16 addr val s else mmu_write16 addr val s)"

text \<open>The quad accesses use the physical byte accessors when misaligned.\<close>

definition insf_flq_m :: "u32 \<Rightarrow> u32 \<Rightarrow> u32 \<Rightarrow> emu \<Rightarrow> emu" where
  "insf_flq_m imm rs1 rd s =
     (let addr = reg_read rs1 s + imm
      in if \<not> is_aligned addr 16
         then let (lo, s) = gather_bytes mem_read8_unsigned 8 addr s;
                  (hi, s) = gather_bytes mem_read8_unsigned 8 (addr + 8) s
              in fpr_write_q rd (lo, hi) s
         else let (lo, s) = mmu_read64_unsigned addr s;
                  (hi, s) = mmu_read64_unsigned (addr + 8) s
              in fpr_write_q rd (lo, hi) s)"

definition insf_fsq_m :: "u32 \<Rightarrow> u32 \<Rightarrow> u32 \<Rightarrow> emu \<Rightarrow> emu" where
  "insf_fsq_m imm rs1 rs2 s =
     (let addr = reg_read rs1 s + imm; v = fpr_read_q rs2 s
      in if \<not> is_aligned addr 16
         then scatter_bytes mem_write8 8 (addr + 8) (snd v) (scatter_bytes mem_write8 8 addr (fst v) s)
         else mmu_write64 (addr + 8) (snd v) (mmu_write64 addr (fst v) s))"

section \<open>Dispatch\<close>

definition exec_load_m :: "u32 \<Rightarrow> emu \<Rightarrow> emu res" where
  "exec_load_m ins s =
     (let funct3 = get_funct3 ins; rs1 = get_rs1 ins; rd = get_rd ins; imm = imm_i ins
      in if funct3 = 0 then Inr (insi_i_lb imm rs1 rd s)
         else if funct3 = 1 then Inr (insi_i_lh_m imm rs1 rd s)
         else if funct3 = 2 then Inr (insi_i_lw_m imm rs1 rd s)
         else if funct3 = 4 then Inr (insi_i_lbu imm rs1 rd s)
         else if funct3 = 5 then Inr (insi_i_lhu_m imm rs1 rd s)
         else Inl ''invalid load instruction'')"

definition exec_store_m :: "u32 \<Rightarrow> emu \<Rightarrow> emu res" where
  "exec_store_m ins s =
     (let funct3 = get_funct3 ins; rs1 = get_rs1 ins; rs2 = get_rs2 ins; imm = imm_s ins
      in if funct3 = 0 then Inr (insi_s_sb imm rs2 rs1 s)
         else if funct3 = 1 then Inr (insi_s_sh_m imm rs2 rs1 s)
         else if funct3 = 2 then Inr (insi_s_sw_m imm rs2 rs1 s)
         else Inl ''invalid store instruction'')"

definition exec_load_fp_m :: "u32 \<Rightarrow> emu \<Rightarrow> emu res" where
  "exec_load_fp_m ins s =
     (let funct3 = get_funct3 ins; rs1 = get_rs1 ins; rd = get_rd ins; imm = imm_i ins
      in if fpu_fs_off s then Inr (raise_exception CAUSE_ILLEGAL_INSTRUCTION ins s)
         else if funct3 = 1 then Inr (insf_flh_m imm rs1 rd s)
         else if funct3 = 2 then Inr (insf_flw_m imm rs1 rd s)
         else if funct3 = 3 then Inr (insf_fld_m imm rs1 rd s)
         else if funct3 = 4 then Inr (insf_flq_m imm rs1 rd s)
         else Inl ''invalid FP load instruction'')"

definition exec_store_fp_m :: "u32 \<Rightarrow> emu \<Rightarrow> emu res" where
  "exec_store_fp_m ins s =
     (let funct3 = get_funct3 ins; rs1 = get_rs1 ins; rs2 = get_rs2 ins; imm = imm_s ins
      in if fpu_fs_off s then Inr (raise_exception CAUSE_ILLEGAL_INSTRUCTION ins s)
         else if funct3 = 1 then Inr (insf_fsh_m imm rs1 rs2 s)
         else if funct3 = 2 then Inr (insf_fsw_m imm rs1 rs2 s)
         else if funct3 = 3 then Inr (insf_fsd_m imm rs1 rs2 s)
         else if funct3 = 4 then Inr (insf_fsq_m imm rs1 rs2 s)
         else Inl ''invalid FP store instruction'')"

definition exec_c_q0_m :: "u16 \<Rightarrow> u32 \<Rightarrow> emu \<Rightarrow> bool \<times> emu" where
  "exec_c_q0_m c f3 s =
     (let rs1p = 8 + cfield c 7 0x7;
          rdp = 8 + cfield c 2 0x7;
          rs2p = 8 + cfield c 2 0x7
      in if f3 = 1 then c_access (insf_fld_m (c_ls_uimm c) rs1p rdp) s
         else if f3 = 3 then c_access (insf_flw_m (c_ls_uimm c) rs1p rdp) s
         else if f3 = 2 then c_access (insi_i_lw_m (c_ls_uimm c) rs1p rdp) s
         else if f3 = 6 then c_access (insi_s_sw_m (c_ls_uimm c) rs2p rs1p) s
         else if f3 = 5 then c_access (insf_fsd_m (c_ls_uimm c) rs1p rs2p) s
         else if f3 = 7 then c_access (insf_fsw_m (c_ls_uimm c) rs1p rs2p) s
         else exec_c_q0 c f3 s)"

definition exec_c_q2_m :: "u16 \<Rightarrow> u32 \<Rightarrow> emu \<Rightarrow> bool \<times> emu" where
  "exec_c_q2_m c f3 s =
     (let rd = cfield c 7 0x1F
      in if f3 = 2 then
           if rd = 0 then c_illegal c s else c_access (insi_i_lw_m (c_lwsp_uimm c) 2 rd) s
         else if f3 = 6 then c_access (insi_s_sw_m (c_swsp_uimm c) (cfield c 2 0x1F) 2) s
         else exec_c_q2 c f3 s)"

definition exec_c_insn_m :: "u16 \<Rightarrow> emu \<Rightarrow> bool \<times> emu" where
  "exec_c_insn_m c s =
     (let q = cfield c 0 0x3; f3 = cfield c 13 0x7
      in if q = 0 then exec_c_q0_m c f3 s
         else if q = 1 then exec_c_q1 c f3 s
         else exec_c_q2_m c f3 s)"

definition exec_switch_m :: "bool \<Rightarrow> softfloat \<Rightarrow> u32 \<Rightarrow> emu \<Rightarrow> emu res" where
  "exec_switch_m alloc_ok sf ins s =
     (let opcode = get_opcode ins
      in if opcode = 0x03 then exec_load_m ins s
         else if opcode = 0x23 then exec_store_m ins s
         else if opcode = 0x07 then exec_load_fp_m ins s
         else if opcode = 0x27 then exec_store_fp_m ins s
         else exec_switch alloc_ok sf ins s)"

definition exec_m :: "bool \<Rightarrow> softfloat \<Rightarrow> u32 \<Rightarrow> emu \<Rightarrow> emu res" where
  "exec_m alloc_ok sf ins s =
     (if pc s AND (if misa_c_enabled s then 1 else 3) \<noteq> 0
      then Inr (raise_exception_pc CAUSE_MISALIGNED_FETCH (pc s) (g_prev_ins_pc s) s)
      else if misa_c_enabled s \<and> get_opcode ins AND 3 \<noteq> 3
      then Inr (snd (exec_c_insn_m (ucast (ins AND 0xFFFF)) s))
      else exec_switch_m alloc_ok sf ins s)"

text \<open>The debugger's floating-point dump in this build.\<close>

definition peek_bytes :: "u32 \<Rightarrow> dbg \<Rightarrow> u64 \<times> dbg" where
  "peek_bytes addr d = (let (v, g) = gather_bytes mem_read8_unsigned 8 addr (guest d) in (v, d\<lparr>guest := g\<rparr>))"

definition dump_as_m :: "host_fp \<Rightarrow> char \<Rightarrow> u32 \<Rightarrow> dbg \<Rightarrow> dbg" where
  "dump_as_m hp form addr d =
     (if form = CHR ''d'' then
        let (val, d) = (if \<not> is_aligned addr 8 then peek_bytes addr d else peek64 addr d)
        in printf hp (''0x%08x: 0x%016llx = %g'' @ [NL]) [AInt addr, ALong val, ADouble val] d
      else if form = CHR ''q'' then
        if \<not> is_aligned addr 16
        then let (lo, d) = peek_bytes addr d; (hi, d) = peek_bytes (addr + 8) d
             in printf hp (''0x%08x: 0x%016llx_%016llx'' @ [NL]) [AInt addr, ALong hi, ALong lo] d
        else let (lo, d) = peek64 addr d; (hi, d) = peek64 (addr + 8) d
             in printf hp (''0x%08x: 0x%016llx_%016llx'' @ [NL]) [AInt addr, ALong hi, ALong lo] d
      else dump_as hp form addr d)"

section \<open>The machine invariant\<close>

lemma emu_inv_gather:
  assumes "\<And>a s. emu_inv s \<Longrightarrow> emu_inv (snd (rd a s))" "emu_inv s"
  shows "emu_inv (snd (gather_bytes rd n a s))"
proof -
  have "emu_inv (snd (fold (\<lambda>i (val, s). let (b, s) = rd (a + of_nat i) s in (val OR shl (ucast b) (8 * i), s)) is q))"
    if "emu_inv (snd q)" for "is" and q :: "'a word \<times> emu"
    using that by (induction "is" arbitrary: q) (simp_all add: case_prod_unfold Let_def assms(1))
  from this [of "(0, s)"] show ?thesis using assms(2) by (simp add: gather_bytes_def)
qed

lemma emu_inv_scatter:
  assumes "\<And>a v s. emu_inv s \<Longrightarrow> emu_inv (wr a v s)" "emu_inv s"
  shows "emu_inv (scatter_bytes wr n a v s)"
  unfolding scatter_bytes_def by (rule fold_invariant [where Q = "\<lambda>_. True"]) (simp_all add: assms)

lemma emu_inv_bytes [inv_rules]:
  assumes "emu_inv s"
  shows "emu_inv (snd (mmu_misaligned_load16 a s))" "emu_inv (snd (mmu_misaligned_load16_signed a s))"
    "emu_inv (snd (mmu_misaligned_load32 a s))" "emu_inv (snd (mmu_misaligned_load32_signed a s))"
    "emu_inv (snd (mmu_misaligned_load64 a s))"
    "emu_inv (mmu_misaligned_store16 a v16 s)" "emu_inv (mmu_misaligned_store32 a v32 s)"
    "emu_inv (mmu_misaligned_store64 a v64 s)"
    "emu_inv (snd (gather_bytes mem_read8_unsigned n a s))" "emu_inv (scatter_bytes mem_write8 n a v s)"
  using assms by (simp_all add: mmu_misaligned_load16_def mmu_misaligned_load16_signed_def mmu_misaligned_load32_def
      mmu_misaligned_load32_signed_def mmu_misaligned_load64_def mmu_misaligned_store16_def mmu_misaligned_store32_def
      mmu_misaligned_store64_def emu_inv_gather emu_inv_scatter inv_rules)

lemma emu_inv_accesses_m [inv_rules]:
  assumes "emu_inv s"
  shows "emu_inv (insi_i_lh_m a b c s)" "emu_inv (insi_i_lw_m a b c s)" "emu_inv (insi_i_lhu_m a b c s)"
    "emu_inv (insi_s_sh_m a b c s)" "emu_inv (insi_s_sw_m a b c s)"
    "emu_inv (insf_flh_m a b c s)" "emu_inv (insf_flw_m a b c s)" "emu_inv (insf_fld_m a b c s)" "emu_inv (insf_flq_m a b c s)"
    "emu_inv (insf_fsh_m a b c s)" "emu_inv (insf_fsw_m a b c s)" "emu_inv (insf_fsd_m a b c s)" "emu_inv (insf_fsq_m a b c s)"
  using assms by (simp_all add: insi_i_lh_m_def insi_i_lw_m_def insi_i_lhu_m_def insi_s_sh_m_def insi_s_sw_m_def
      insf_flh_m_def insf_flw_m_def insf_fld_m_def insf_flq_m_def insf_fsh_m_def insf_fsw_m_def insf_fsd_m_def insf_fsq_m_def
      load64_def store64_def case_prod_unfold Let_def inv_rules)

lemma keeps_inv_groups_m [inv_rules]:
  assumes "emu_inv s"
  shows "keeps_inv (exec_load_m ins s)" "keeps_inv (exec_store_m ins s)" "keeps_inv (exec_load_fp_m ins s)"
    "keeps_inv (exec_store_fp_m ins s)"
  using assms by (simp_all add: exec_load_m_def exec_store_m_def exec_load_fp_m_def exec_store_fp_m_def Let_def inv_rules)

lemma emu_inv_exec_c_m [inv_rules]:
  assumes "emu_inv s"
  shows "emu_inv (snd (exec_c_insn_m c s))"
proof -
  have "emu_inv (snd (exec_c_q0 c f3 s))" "emu_inv (snd (exec_c_q1 c f3 s))" "emu_inv (snd (exec_c_q2 c f3 s))" for f3
    using assms by (simp_all add: exec_c_q0_def exec_c_q1_def exec_c_q2_def exec_c_alu_def exec_c_jump_def
        Let_def case_prod_unfold inv_rules)
  then show ?thesis
    using assms by (simp add: exec_c_insn_m_def exec_c_q0_m_def exec_c_q2_m_def Let_def inv_rules)
qed

lemma keeps_inv_exec_m [inv_rules]: "emu_inv s \<Longrightarrow> keeps_inv (exec_m True sf ins s)"
  by (simp add: exec_m_def exec_switch_m_def exec_switch_def Let_def inv_rules)

section \<open>Untranslated data accesses\<close>

text \<open>
  Data accesses are untranslated with paging off, and in machine mode unless MPRV (bit 17 of mstatus) is
  set. In RAM, the byte loops are then plain little-endian accesses, at any alignment.
\<close>

definition direct :: "emu \<Rightarrow> bool" where
  "direct s \<longleftrightarrow> csr_wf s \<and>
     (\<not> bit (csr_val CSR_SATP s) 31 \<or> privilege s = PRV_MACHINE \<and> \<not> bit (csr_val CSR_MSTATUS s) 17)"

definition ram_bytes :: "nat \<Rightarrow> u32 \<Rightarrow> bool" where
  "ram_bytes n a \<longleftrightarrow> (\<forall>i<n. ram32 (a + of_nat i))"

lemma translate_direct: "direct s \<Longrightarrow> acc \<noteq> MMU_FETCH \<Longrightarrow> mmu_translate a acc s = (Some a, s)"
  by (auto simp: direct_def mmu_translate_def Let_def mmu_vm_active_def mmu_satp_mode_def mmu_effective_dpriv_def
      csr_reads flag_simps)

lemma direct_updates [simp]:
  "direct (reg_write i d s) = direct s" "direct (s\<lparr>main_memory := f\<rparr>) = direct s"
  "direct (mem_clear_reservation a s) = direct s" "fpr (mem_clear_reservation a s) = fpr s"
  by (simp_all add: direct_def mem_clear_reservation_def)

lemma read8_ram: "ram32 a \<Longrightarrow> mem_read8_unsigned a s = (ucast (main_memory s a), s)"
  using ram32_limits [of a] by (simp add: mem_read8_unsigned_def ram32_def)

lemma write8_ram:
  "ram32 a \<Longrightarrow> mem_write8 a v s = (mem_clear_reservation a s)\<lparr>main_memory := (main_memory s)(a := v)\<rparr>"
  using ram32_limits [of a] by (simp add: mem_write8_def ram32_def Let_def)

lemma gather_ram:
  assumes "\<And>i. i < n \<Longrightarrow> rd (a + of_nat i) s = (ucast (main_memory s (a + of_nat i)), s)"
  shows "gather_bytes rd n a s = (load_le n a (main_memory s) :: 'a::len word, s)"
  using assms
proof (induction n)
  case (Suc n)
  have "ucast (ucast (b :: u8) :: u32) = (ucast b :: 'a word)" for b
    by (rule bit_word_eqI) (auto simp: bit_simps dest: bit_imp_le_length)
  with Suc show ?case by (simp add: gather_bytes_def load_le_def)
qed (simp add: gather_bytes_def load_le_def)

definition clear_reservations :: "nat \<Rightarrow> u32 \<Rightarrow> emu \<Rightarrow> emu" where
  "clear_reservations n a s = fold (\<lambda>i. mem_clear_reservation (a + of_nat i)) [0..<n] s"

lemma clear_reservations_simps [simp]:
  "clear_reservations 0 a s = s"
  "clear_reservations (Suc n) a s = mem_clear_reservation (a + of_nat n) (clear_reservations n a s)"
  by (simp_all add: clear_reservations_def)

lemma clear_reservations_fields [simp]:
  "gpr (clear_reservations n a s) = gpr s" "pc (clear_reservations n a s) = pc s" "fpr (clear_reservations n a s) = fpr s"
  "csr_table (clear_reservations n a s) = csr_table s" "direct (clear_reservations n a s) = direct s"
  "main_memory (clear_reservations n a s) = main_memory s"
  by (induction n) simp_all

lemma clear_reservation_memory:
  "mem_clear_reservation a (s\<lparr>main_memory := m\<rparr>) = (mem_clear_reservation a s)\<lparr>main_memory := m\<rparr>"
  by (simp add: mem_clear_reservation_def)

lemma scatter_ram:
  assumes "\<And>i v m. i < n \<Longrightarrow> wr (a + of_nat i) v ((clear_reservations i a s)\<lparr>main_memory := m\<rparr>) =
      (clear_reservations (Suc i) a s)\<lparr>main_memory := m(a + of_nat i := v)\<rparr>"
  shows "scatter_bytes wr n a (v :: 'b::len word) s =
    (clear_reservations n a s)\<lparr>main_memory := store_le n a v (main_memory s)\<rparr>"
  using assms
proof (induction n)
  case (Suc n)
  have "shr v k AND 0xFF = take_bit 8 (shr v k)" for k
    by (simp add: take_bit_eq_mask mask_eq_exp_minus_1)
  then have "ucast (shr v k AND 0xFF) = (ucast (shr v k) :: u8)" for k
    by (intro bit_word_eqI) (auto simp: bit_simps simp del: take_bit_eq_mask dest: bit_imp_le_length)
  then have "scatter_bytes wr (Suc n) a v s = wr (a + of_nat n) (ucast (shr v (8 * n))) (scatter_bytes wr n a v s)"
    and "store_le (Suc n) a v m = (store_le n a v m)(a + of_nat n := ucast (shr v (8 * n)))" for m
    by (simp_all add: scatter_bytes_def store_le_def)
  moreover have "scatter_bytes wr n a v s = (clear_reservations n a s)\<lparr>main_memory := store_le n a v (main_memory s)\<rparr>"
    using Suc by simp
  ultimately show ?case by (simp only: Suc.prems [OF lessI])
qed (simp add: scatter_bytes_def store_le_def)

lemma ram_bytesD: "ram_bytes n a \<Longrightarrow> i < n \<Longrightarrow> ram32 (a + of_nat i)"
  by (simp add: ram_bytes_def)

lemma misaligned_ram:
  assumes "direct s" "ram_bytes n a"
  shows "gather_bytes mmu_read8_unsigned n a s = (load_le n a (main_memory s) :: 'a::len word, s)"
    and "scatter_bytes mmu_write8 n a (v :: 'a word) s =
      (clear_reservations n a s)\<lparr>main_memory := store_le n a v (main_memory s)\<rparr>"
proof -
  show "gather_bytes mmu_read8_unsigned n a s = (load_le n a (main_memory s) :: 'a word, s)"
    by (rule gather_ram) (simp add: mmu_read8_unsigned_def mmu_load_def translate_direct assms(1) read8_ram ram_bytesD [OF assms(2)])
  show "scatter_bytes mmu_write8 n a v s = (clear_reservations n a s)\<lparr>main_memory := store_le n a v (main_memory s)\<rparr>"
    by (rule scatter_ram) (simp add: mmu_write8_def mmu_store_def translate_direct assms(1) write8_ram
        ram_bytesD [OF assms(2)] clear_reservation_memory)
qed

lemma physical_ram:
  assumes "ram_bytes n a"
  shows "gather_bytes mem_read8_unsigned n a s = (load_le n a (main_memory s) :: 'a::len word, s)"
    and "scatter_bytes mem_write8 n a (v :: 'a word) s =
      (clear_reservations n a s)\<lparr>main_memory := store_le n a v (main_memory s)\<rparr>"
  by (rule gather_ram, simp add: read8_ram ram_bytesD [OF assms],
      rule scatter_ram, simp add: write8_ram ram_bytesD [OF assms] clear_reservation_memory)

section \<open>What a misaligned store writes is read back\<close>

lemma untriggered_updates [simp]:
  "untriggered (s\<lparr>main_memory := f\<rparr>) = untriggered s" "untriggered (mem_clear_reservation a s) = untriggered s"
  "untriggered (clear_reservations n a s) = untriggered s"
  by (simp add: untriggered_def) (simp add: untriggered_def mem_clear_reservation_def,
      induction n, simp_all add: untriggered_def mem_clear_reservation_def)

lemma double_limits:
  assumes "ram_bytes 8 a"
  shows "\<not> MEM_SIZE - 7 \<le> a" "\<not> in_clint a"
proof -
  have "ram32 (a + 7)" "ram32 a" using ram_bytesD [OF assms, of 7] ram_bytesD [OF assms, of 0] by simp_all
  then have "unat (a + 7) < 4294963197" "unat a < 4294963197" and c: "\<not> in_clint a"
    by (simp_all add: ram32_def word_less_nat_alt)
  then have "unat a < 4294963193" by (simp add: unat_word_ariths mod_if split: if_splits)
  then show "\<not> MEM_SIZE - 7 \<le> a" by (simp add: word_le_nat_alt)
  show "\<not> in_clint a" by (rule c)
qed

text \<open>The accesses at aligned addresses are those of the default build.\<close>

lemma aligned_ram:
  assumes "direct s" "ram32 a"
  shows "mmu_read16_unsigned a s = (ucast (load_le 2 a (main_memory s) :: u16), s)"
    "mmu_read16_signed a s = (scast (load_le 2 a (main_memory s) :: u16), s)"
    "mmu_read32_signed a s = (load_le 4 a (main_memory s), s)"
    "mmu_write32 a v s = (mem_clear_reservation a s)\<lparr>main_memory := store_le 4 a v (main_memory s)\<rparr>"
    "ram_bytes 8 a \<Longrightarrow> mmu_read64_unsigned a s = (load_le 8 a (main_memory s), s)"
    "ram_bytes 8 a \<Longrightarrow> mmu_write64 a w s =
      (mem_clear_reservation a s)\<lparr>main_memory := store_le 8 a w (main_memory s)\<rparr>"
proof -
  have narrow: "(ucast (ucast h :: u32) :: u16) = h" for h :: u16
    by (rule bit_word_eqI) (simp add: bit_simps)
  note l = ram32_limits [OF assms(2)] assms(2) [unfolded ram32_def] translate_direct [OF assms(1)]
  show "mmu_read16_unsigned a s = (ucast (load_le 2 a (main_memory s) :: u16), s)"
    "mmu_read16_signed a s = (scast (load_le 2 a (main_memory s) :: u16), s)"
    "mmu_read32_signed a s = (load_le 4 a (main_memory s), s)"
    "mmu_write32 a v s = (mem_clear_reservation a s)\<lparr>main_memory := store_le 4 a v (main_memory s)\<rparr>"
    using l by (simp_all add: mmu_read16_unsigned_def mmu_read16_signed_def mmu_read32_signed_def mmu_write32_def mmu_load_def
        mmu_store_def mem_read16_unsigned_def mem_read16_signed_def mem_read32_signed_def read32_ram [OF assms(2)]
        write32_ram [OF assms(2)] narrow)
  assume r: "ram_bytes 8 a"
  show "mmu_read64_unsigned a s = (load_le 8 a (main_memory s), s)"
    "mmu_write64 a w s = (mem_clear_reservation a s)\<lparr>main_memory := store_le 8 a w (main_memory s)\<rparr>"
    using l double_limits [OF r] by (simp_all add: mmu_read64_unsigned_def mmu_write64_def mmu_load_def mmu_store_def
        mem_read64_unsigned_def mem_write64_def Let_def)
qed

text \<open>So the loads and stores of this build are the little-endian accesses of memory, aligned or not.\<close>

lemma loads_m:
  assumes "direct s" "untriggered s" "ram_bytes 4 a" "a = reg_read rs1 s + imm"
  shows "insi_i_lw_m imm rs1 rd s = reg_write rd (load_le 4 a (main_memory s)) s"
    "insi_i_lh_m imm rs1 rd s = reg_write rd (scast (load_le 2 a (main_memory s) :: u16)) s"
    "insi_i_lhu_m imm rs1 rd s = reg_write rd (ucast (load_le 2 a (main_memory s) :: u16)) s"
proof -
  have r: "ram32 a" "ram_bytes 2 a" using assms(3) ram_bytesD [OF assms(3), of 0] by (simp_all add: ram_bytes_def)
  show "insi_i_lw_m imm rs1 rd s = reg_write rd (load_le 4 a (main_memory s)) s"
    "insi_i_lh_m imm rs1 rd s = reg_write rd (scast (load_le 2 a (main_memory s) :: u16)) s"
    "insi_i_lhu_m imm rs1 rd s = reg_write rd (ucast (load_le 2 a (main_memory s) :: u16)) s"
    by (simp_all add: assms(4) [symmetric] insi_i_lw_m_def insi_i_lh_m_def insi_i_lhu_m_def untriggered_checks [OF assms(2)]
        mmu_misaligned_load32_signed_def mmu_misaligned_load32_def mmu_misaligned_load16_signed_def mmu_misaligned_load16_def
        misaligned_ram(1) [OF assms(1)] assms(3) r aligned_ram [OF assms(1) r(1)] Let_def)
qed

lemma store_word_m:
  assumes "direct s" "untriggered s" "ram_bytes 4 a" "a = reg_read rs1 s + imm"
  shows "insi_s_sw_m imm rs2 rs1 s = (if a AND 3 \<noteq> 0 then clear_reservations 4 a s else mem_clear_reservation a s)
    \<lparr>main_memory := store_le 4 a (reg_read rs2 s) (main_memory s)\<rparr>"
  using ram_bytesD [OF assms(3), of 0]
  by (simp add: assms(4) [symmetric] insi_s_sw_m_def untriggered_checks [OF assms(2)] mmu_misaligned_store32_def
      misaligned_ram(2) [OF assms(1,3)] aligned_ram [OF assms(1)] Let_def)

lemma double_m:
  assumes "direct s" "ram_bytes 8 a" "a = reg_read rs1 s + imm"
  shows "insf_fld_m imm rs1 rd s = fpr_write_d rd (load_le 8 a (main_memory s)) s"
    and "insf_fsd_m imm rs1 rs2 s = (if is_aligned a 8 then mem_clear_reservation a s else clear_reservations 8 a s)
      \<lparr>main_memory := store_le 8 a (fpr_read_d rs2 s) (main_memory s)\<rparr>"
  using ram_bytesD [OF assms(2), of 0] assms(2)
  by (simp_all add: assms(3) [symmetric] insf_fld_m_def insf_fsd_m_def load64_def store64_def mmu_misaligned_load64_def
      mmu_misaligned_store64_def misaligned_ram [OF assms(1,2)] aligned_ram [OF assms(1)] Let_def)

text \<open>
  C23. In the build with misaligned accesses, at any address in RAM, aligned or not, with paging off or bypassed: \<open>lw\<close> reads
  back the word \<open>sw\<close> stored, \<open>lhu\<close> and \<open>lh\<close> its low half, and \<open>fld\<close> the double \<open>fsd\<close> stored; the stores change
  the four or eight bytes at the address, no other byte and no register.
\<close>

theorem misaligned_roundtrip:
  assumes "direct s" "untriggered s" "ram_bytes 8 a" "a = reg_read rs1 s + imm" and "rd \<noteq> 0"
    and "v = reg_read rs2 s" "t = insi_s_sw_m imm rs2 rs1 s" "u = insf_fsd_m imm rs1 fs s"
  shows "reg_read rd (insi_i_lw_m imm rs1 rd t) = v \<and>
    uint (reg_read rd (insi_i_lhu_m imm rs1 rd t)) = uint v mod 2 ^ 16 \<and>
    sint (reg_read rd (insi_i_lh_m imm rs1 rd t)) = sint (ucast v :: u16) \<and>
    fpr_read_d fd (insf_fld_m imm rs1 fd u) = fpr_read_d fs s \<and>
    gpr t = gpr s \<and> gpr u = gpr s \<and> fpr u = fpr s \<and>
    (\<forall>b. 4 \<le> unat (b - a) \<longrightarrow> main_memory t b = main_memory s b) \<and>
    (\<forall>b. 8 \<le> unat (b - a) \<longrightarrow> main_memory u b = main_memory s b)"
proof -
  have r: "ram_bytes 4 a" using assms(3) by (simp add: ram_bytes_def)
  have t: "direct t" "untriggered t" "a = reg_read rs1 t + imm" "gpr t = gpr s" "main_memory t = store_le 4 a v (main_memory s)"
    and u: "direct u" "a = reg_read rs1 u + imm" "gpr u = gpr s" "fpr u = fpr s"
      "main_memory u = store_le 8 a (fpr_read_d fs s) (main_memory s)"
    using assms(1,2) by (simp_all add: assms(4,6,7,8) store_word_m [OF assms(1,2) r assms(4)] double_m [OF assms(1,3,4)] reg_read_def)
  have "load_le 2 a (store_le 4 a v (main_memory s)) = (ucast v :: u16)"
  proof (rule bit_word_eqI)
    fix k assume k: "k < LENGTH(16)"
    then have "unat (of_nat (k div 8) :: u32) = k div 8" "8 * (k div 8) + k mod 8 = k" "k div 8 < 2" by (simp_all add: unat_of_nat)
    then show "bit (load_le 2 a (store_le 4 a v (main_memory s)) :: u16) k = bit (ucast v :: u16) k"
      using k by (simp add: bit_load_le store_le_apply bit_simps)
  qed
  moreover have "uint (ucast v :: u16) = uint v mod 2 ^ 16" by (simp add: unsigned_ucast_eq take_bit_eq_mod)
  ultimately show ?thesis using assms(5)
    by (simp add: loads_m [OF t(1,2) r t(3)] double_m(1) [OF u(1) assms(3) u(2)] t(4,5) u(3-) load_store_le store_le_apply
        reg_read_write unsigned_ucast_eq unsigned_take_bit_eq sint_up_scast is_up fpr_read_d_def fpr_write_d_def)
qed

text \<open>A hart whose x6 points to an odd address in RAM.\<close>

definition odd_demo :: emu where
  "odd_demo = reg_write 7 0x12345680 (reg_write 6 0x80001001 (reset_state 0x80000000))"

lemma odd_demo_simps:
  "direct odd_demo" "untriggered odd_demo" "ram_bytes 8 0x80001001" "reg_read 6 odd_demo = 0x80001001"
  "reg_read 7 odd_demo = 0x12345680"
proof -
  show "direct odd_demo" using emu_inv_reset [of "0x80000000"]
    by (simp add: odd_demo_def direct_def emu_inv_def csr_init_at)
  show "untriggered odd_demo"
    by (simp add: odd_demo_def untriggered_def reg_write_def reset_state_eq init_csr_table_def zero_state_def)
  show "ram_bytes 8 0x80001001" by (simp add: ram_bytes_def all_less_8 ram32_def in_clint_def in_uart_def in_plic_def)
qed (simp_all add: odd_demo_def reg_read_write)

theorem misaligned_roundtrip_witness:
  "reg_read 5 (insi_i_lw_m 0 6 5 (insi_s_sw_m 0 7 6 odd_demo)) = 0x12345680"
  using misaligned_roundtrip [OF odd_demo_simps(1-3), of 6 0 5 "0x12345680" 7 _ _ 3, OF _ _ _ refl refl]
  by (simp add: odd_demo_simps)

section \<open>Page faults\<close>

text \<open>
  C38. A misaligned store goes on after its first byte page-faults: with the trap taken in machine mode and
  MPRV clear, the remaining bytes are stored untranslated, at the physical addresses that equal the virtual
  ones, although the exception is reported for the instruction.
\<close>

theorem misaligned_store_past_fault:
  assumes "emu_inv s" "untriggered s" "a = reg_read rs1 s + imm" "a AND 3 \<noteq> 0"
    and "mmu_translate a MMU_STORE s = (None, raise_exception CAUSE_STORE_PAGE_FAULT a s)"
    and "\<not> delegated (csr_val CSR_MEDELEG s) CAUSE_STORE_PAGE_FAULT s" "\<not> bit (csr_val CSR_MSTATUS s) 17"
    and "ram_bytes 3 (a + 1)" and "v = reg_read rs2 s" "t = insi_s_sw_m imm rs2 rs1 s"
  shows "csr_val CSR_MCAUSE t = CAUSE_STORE_PAGE_FAULT \<and> csr_val CSR_MEPC t = pc s \<and>
    main_memory t a = main_memory s a \<and>
    main_memory t (a + 1) = ucast (shr v 8) \<and> main_memory t (a + 2) = ucast (shr v 16) \<and> main_memory t (a + 3) = ucast (shr v 24)"
proof -
  define u where "u = raise_exception CAUSE_STORE_PAGE_FAULT a s"
  have inv: "csr_wf s" "privilege s \<le> PRV_MACHINE" using assms(1) by (simp_all add: emu_inv_def)
  have "\<not> bit (m_entry (privilege s) (csr_val CSR_MSTATUS s) AND mstatus_writable) 17"
    using assms(7) m_entry_bits(4) [OF inv(2), of "csr_val CSR_MSTATUS s"]
    by (auto simp: word32_bits bit_simps)
  then have u: "direct u" "csr_val CSR_MCAUSE u = CAUSE_STORE_PAGE_FAULT" "csr_val CSR_MEPC u = pc s" "main_memory u = main_memory s"
    using inv unfolding u_def raise_exception_machine [OF assms(1,6)]
    by (simp_all add: raise_machine_exception_eq csr_val_set direct_def)
  have "[0..<4] = [0, 1, 2, 3]" "[0..<3] = [0, 1, 2 :: nat]" by (simp_all add: upt_rec)
  then have "scatter_bytes mmu_write8 4 a v s = scatter_bytes mmu_write8 3 (a + 1) (shr v 8) (mmu_write8 a (ucast (v AND 0xFF)) s)"
    by (simp add: scatter_bytes_def add.assoc)
  then have "t = scatter_bytes mmu_write8 3 (a + 1) (shr v 8) u"
    using assms(4,5) by (simp add: assms(10) insi_s_sw_m_def untriggered_checks [OF assms(2)] assms(3) [symmetric]
        assms(9) [symmetric] mmu_misaligned_store32_def Let_def mmu_write8_def mmu_store_def u_def)
  moreover have "\<not> unat (- 1 :: u32) < 3" by (simp add: unsigned_minus_1_eq_mask mask_eq_exp_minus_1)
  moreover have "csr_val c (clear_reservations n b u) = csr_val c u" for c n b by (simp add: csr_val_def)
  ultimately show ?thesis using u by (simp add: misaligned_ram(2) [OF u(1) assms(8)] store_le_apply)
qed

text \<open>The hart of \<open>paging_demo\<close> with x6 at an address that the page tables do not map.\<close>

definition fault_demo :: emu where
  "fault_demo = reg_write 7 0x12345680 (reg_write 6 0x90001001 paging_demo)"

lemma fault_demo_simps:
  "emu_inv fault_demo" "untriggered fault_demo" "ram_bytes 3 (0x90001001 + 1)" "reg_read 6 fault_demo = 0x90001001"
  "reg_read 7 fault_demo = 0x12345680" "csr_val CSR_MEDELEG fault_demo = 0" "csr_val CSR_MSTATUS fault_demo = 0"
  "main_memory fault_demo = main_memory paging_demo" "csr_val CSR_SATP fault_demo = 0x80080000"
  "privilege fault_demo = PRV_SUPERVISOR"
proof -
  show "untriggered fault_demo"
    by (simp add: fault_demo_def paging_demo_def untriggered_def reg_write_def set_csr_val_def reset_state_eq init_csr_table_def zero_state_def)
  show "ram_bytes 3 (0x90001001 + 1)"
    by (simp add: ram_bytes_def less_Suc_eq numeral_3_eq_3 ram32_def in_clint_def in_uart_def in_plic_def)
  have "emu_inv (s\<lparr>main_memory := f\<rparr>) = emu_inv s" for s f by (simp add: emu_inv_def)
  then show "emu_inv fault_demo"
    unfolding fault_demo_def paging_demo_def by (intro inv_rules) (simp add: inv_rules emu_inv_reset)
  show "csr_val CSR_MEDELEG fault_demo = 0"
    by (simp add: fault_demo_def paging_demo_def csr_val_set csr_init_at)
qed (simp_all add: fault_demo_def reg_read_write paging_demo_walk)

lemma fault_demo_faults:
  "mmu_translate 0x90001001 MMU_STORE fault_demo = (None, raise_exception CAUSE_STORE_PAGE_FAULT 0x90001001 fault_demo)"
proof -
  have "csr_wf fault_demo" using fault_demo_simps(1) by (simp add: emu_inv_def)
  moreover have "load_le 4 0x80000900 (main_memory paging_demo) = (load_le 4 0x80000900 (\<lambda>_. 0) :: u32)"
  proof (rule load_le_cong)
    fix i :: nat
    assume "i < 4"
    then have "unat (0x900 + of_nat i :: u32) = 0x900 + i" by (simp add: unat_word_ariths unat_of_nat)
    then show "main_memory paging_demo (0x80000900 + of_nat i) = 0"
      by (simp add: paging_demo_def store_le_apply)
  qed
  moreover have "load_le 4 0x80000900 (\<lambda>_. 0) = (0 :: u32)"
    by (rule bit_word_eqI) (simp add: bit_load_le)
  moreover have "ram32 0x80000900" by (simp add: ram32_def in_clint_def in_uart_def in_plic_def)
  ultimately show ?thesis
    by (simp add: mmu_translate_def mmu_effective_dpriv_def mmu_vm_active_def mmu_satp_mode_def mmu_satp_root_ppn_def
        csr_reads fault_demo_simps read32_ram mmu_fault_def Let_def)
qed

theorem misaligned_store_past_fault_witness:
  "main_memory (insi_s_sw_m 0 7 6 fault_demo) 0x90001002 = 0x56"
proof -
  have "\<not> delegated (csr_val CSR_MEDELEG fault_demo) CAUSE_STORE_PAGE_FAULT fault_demo"
    by (simp add: delegated_def fault_demo_simps)
  from misaligned_store_past_fault [OF fault_demo_simps(1,2) _ _ fault_demo_faults this _ fault_demo_simps(3), of 6 0 _ 7, OF _ _ _ refl refl]
  show ?thesis by (simp add: fault_demo_simps)
qed


section \<open>What the option changes\<close>

text \<open>The address and the size in bytes of the data access an instruction makes: the architecture's, for the loads and stores.\<close>

definition c_data_access :: "u16 \<Rightarrow> emu \<Rightarrow> (u32 \<times> u32) option" where
  "c_data_access c s =
     (let q = cfield c 0 0x3; f3 = cfield c 13 0x7; a = reg_read (8 + cfield c 7 0x7) s + c_ls_uimm c
      in if q = 0 \<and> (f3 = 1 \<or> f3 = 5) then Some (a, 8)
         else if q = 0 \<and> (f3 = 2 \<or> f3 = 3 \<or> f3 = 6 \<or> f3 = 7) then Some (a, 4)
         else if q \<noteq> 0 \<and> q \<noteq> 1 \<and> f3 = 2 then Some (reg_read 2 s + c_lwsp_uimm c, 4)
         else if q \<noteq> 0 \<and> q \<noteq> 1 \<and> f3 = 6 then Some (reg_read 2 s + c_swsp_uimm c, 4)
         else None)"

definition data_access :: "u32 \<Rightarrow> emu \<Rightarrow> (u32 \<times> u32) option" where
  "data_access ins s =
     (let opcode = get_opcode ins; f3 = get_funct3 ins; base = reg_read (get_rs1 ins) s
      in if misa_c_enabled s \<and> opcode AND 3 \<noteq> 3 then c_data_access (ucast (ins AND 0xFFFF)) s
         else if opcode = 0x03 then Some (base + imm_i ins, if f3 = 1 \<or> f3 = 5 then 2 else if f3 = 2 then 4 else 1)
         else if opcode = 0x23 then Some (base + imm_s ins, if f3 = 1 then 2 else if f3 = 2 then 4 else 1)
         else if opcode = 0x07 then Some (base + imm_i ins, if f3 = 1 then 2 else if f3 = 2 then 4 else if f3 = 3 then 8 else 16)
         else if opcode = 0x27 then Some (base + imm_s ins, if f3 = 1 then 2 else if f3 = 2 then 4 else if f3 = 3 then 8 else 16)
         else None)"

lemma aligned_access:
  assumes "a = reg_read rs1 s + imm"
  shows "is_aligned a 2 \<Longrightarrow> insi_i_lh_m imm rs1 rd s = insi_i_lh imm rs1 rd s"
    "is_aligned a 2 \<Longrightarrow> insi_i_lhu_m imm rs1 rd s = insi_i_lhu imm rs1 rd s"
    "is_aligned a 4 \<Longrightarrow> insi_i_lw_m imm rs1 rd s = insi_i_lw imm rs1 rd s"
    "is_aligned a 2 \<Longrightarrow> insi_s_sh_m imm rd rs1 s = insi_s_sh imm rd rs1 s"
    "is_aligned a 4 \<Longrightarrow> insi_s_sw_m imm rd rs1 s = insi_s_sw imm rd rs1 s"
    "is_aligned a 2 \<Longrightarrow> insf_flh_m imm rs1 rd s = insf_flh imm rs1 rd s"
    "is_aligned a 2 \<Longrightarrow> insf_fsh_m imm rs1 rd s = insf_fsh imm rs1 rd s"
    "is_aligned a 4 \<Longrightarrow> insf_flw_m imm rs1 rd s = insf_flw imm rs1 rd s"
    "is_aligned a 4 \<Longrightarrow> insf_fsw_m imm rs1 rd s = insf_fsw imm rs1 rd s"
    "is_aligned a 8 \<Longrightarrow> insf_fld_m imm rs1 rd s = insf_fld imm rs1 rd s"
    "is_aligned a 8 \<Longrightarrow> insf_fsd_m imm rs1 rd s = insf_fsd imm rs1 rd s"
    "is_aligned a 16 \<Longrightarrow> insf_flq_m imm rs1 rd s = insf_flq imm rs1 rd s"
    "is_aligned a 16 \<Longrightarrow> insf_fsq_m imm rs1 rd s = insf_fsq imm rs1 rd s"
  by (simp_all add: assms is_aligned_def Let_def case_prod_unfold load64_def store64_def
      insi_i_lh_m_def insi_i_lh_def insi_i_lhu_m_def insi_i_lhu_def insi_i_lw_m_def insi_i_lw_def insi_s_sh_m_def insi_s_sh_def
      insi_s_sw_m_def insi_s_sw_def insf_flh_m_def insf_flh_def insf_fsh_m_def insf_fsh_def insf_flw_m_def insf_flw_def
      insf_fsw_m_def insf_fsw_def insf_fld_m_def insf_fld_def insf_fsd_m_def insf_fsd_def insf_flq_m_def insf_flq_def
      insf_fsq_m_def insf_fsq_def)

lemma c_access_cong: "f s = g s \<Longrightarrow> c_access f s = c_access g s"
  by (simp add: c_access_def)

lemma exec_c_insn_m_eq:
  assumes "\<And>a n. c_data_access c s = Some (a, n) \<Longrightarrow> is_aligned a n"
  shows "exec_c_insn_m c s = exec_c_insn c s"
proof -
  let ?q = "cfield c 0 0x3" and ?f3 = "cfield c 13 0x7"
  have "?q = 0 \<Longrightarrow> exec_c_q0_m c ?f3 s = exec_c_q0 c ?f3 s"
    using assms by (auto simp: exec_c_q0_m_def exec_c_q0_def c_data_access_def Let_def aligned_access [OF refl] intro!: c_access_cong)
  moreover have "?q \<noteq> 0 \<Longrightarrow> ?q \<noteq> 1 \<Longrightarrow> exec_c_q2_m c ?f3 s = exec_c_q2 c ?f3 s"
    using assms by (auto simp: exec_c_q2_m_def exec_c_q2_def c_data_access_def Let_def aligned_access [OF refl] intro!: c_access_cong)
  ultimately show ?thesis by (simp add: exec_c_insn_m_def exec_c_insn_def Let_def)
qed

lemma exec_switch_m_eq:
  assumes "\<not> (misa_c_enabled s \<and> get_opcode ins AND 3 \<noteq> 3)" "\<And>a n. data_access ins s = Some (a, n) \<Longrightarrow> is_aligned a n"
  shows "exec_switch_m alloc_ok sf ins s = exec_switch alloc_ok sf ins s"
proof -
  have "get_opcode ins = 0x03 \<Longrightarrow> exec_load_m ins s = exec_load ins s"
    using assms by (auto simp: exec_load_m_def exec_load_def data_access_def Let_def aligned_access [OF refl] split: if_splits)
  moreover have "get_opcode ins = 0x23 \<Longrightarrow> exec_store_m ins s = exec_store ins s"
    using assms by (auto simp: exec_store_m_def exec_store_def data_access_def Let_def aligned_access [OF refl] split: if_splits)
  moreover have "get_opcode ins = 0x07 \<Longrightarrow> exec_load_fp_m ins s = exec_load_fp ins s"
    using assms by (auto simp: exec_load_fp_m_def exec_load_fp_def data_access_def Let_def aligned_access [OF refl] split: if_splits)
  moreover have "get_opcode ins = 0x27 \<Longrightarrow> exec_store_fp_m ins s = exec_store_fp ins s"
    using assms by (auto simp: exec_store_fp_m_def exec_store_fp_def data_access_def Let_def aligned_access [OF refl] split: if_splits)
  ultimately show ?thesis by (simp add: exec_switch_m_def exec_switch_def Let_def)
qed

text \<open>
  C22. The option changes nothing but misaligned accesses: an instruction, compressed or not, whose data access
  (if it makes one) is aligned to its size executes alike in both builds.
\<close>

theorem option_only_misaligned:
  assumes "\<And>a n. data_access ins s = Some (a, n) \<Longrightarrow> is_aligned a n"
  shows "exec_m alloc_ok sf ins s = exec alloc_ok sf ins s"
proof (cases "misa_c_enabled s \<and> get_opcode ins AND 3 \<noteq> 3")
  case True
  then have "exec_c_insn_m (ucast (ins AND 0xFFFF)) s = exec_c_insn (ucast (ins AND 0xFFFF)) s"
    using assms by (intro exec_c_insn_m_eq) (simp add: data_access_def)
  then show ?thesis using True by (simp add: exec_m_def exec_def)
next
  case False
  show ?thesis using False exec_switch_m_eq [OF False assms] by (auto simp: exec_m_def exec_def)
qed

theorem option_only_misaligned_witness:
  "exec_m True order_softfloat 0x00332283 odd_demo = exec True order_softfloat 0x00332283 odd_demo"
  by (rule option_only_misaligned)
    (simp add: data_access_def get_opcode_def get_funct3_def get_rs1_def imm_i_def sign_extend_12_def odd_demo_simps
      is_aligned_def Let_def split: if_splits)

text \<open>
  C39. The misaligned quad accesses bypass the MMU: whatever the page tables, the privilege and the permissions, \<open>flq\<close>
  and \<open>fsq\<close> at an address that is not a multiple of 16 read and write the sixteen bytes of physical memory at the
  virtual address, and never fault.
\<close>

theorem misaligned_quad_physical:
  assumes "a = reg_read rs1 s + imm" "\<not> is_aligned a 16" "ram_bytes 8 a" "ram_bytes 8 (a + 8)"
  shows "insf_flq_m imm rs1 rd s = fpr_write_q rd (load_le 8 a (main_memory s), load_le 8 (a + 8) (main_memory s)) s \<and>
    main_memory (insf_fsq_m imm rs1 rs2 s) =
      store_le 8 (a + 8) (snd (fpr_read_q rs2 s)) (store_le 8 a (fst (fpr_read_q rs2 s)) (main_memory s)) \<and>
    csr_table (insf_fsq_m imm rs1 rs2 s) = csr_table s \<and> pc (insf_fsq_m imm rs1 rs2 s) = pc s"
  using assms(2)
  by (simp add: insf_flq_m_def insf_fsq_m_def Let_def assms(1) [symmetric] physical_ram [OF assms(3)] physical_ram [OF assms(4)])

theorem misaligned_quad_physical_witness:
  "csr_table (insf_fsq_m 0 6 3 fault_demo) = csr_table fault_demo"
proof -
  have "ram_bytes 8 0x90001001" "ram_bytes 8 0x90001009"
    by (simp_all add: ram_bytes_def all_less_8 ram32_def in_clint_def in_uart_def in_plic_def)
  then show ?thesis
    using misaligned_quad_physical [of "0x90001001" 6 fault_demo 0] by (simp add: fault_demo_simps is_aligned_def)
qed

text \<open>
  In both builds a load goes on after its page fault too: it writes 0 to its destination, although an
  instruction that traps must not change registers.
\<close>

theorem faulting_load_writes_zero:
  assumes "untriggered s" "a = reg_read rs1 s + imm" "a AND 3 = 0" "mmu_translate a MMU_LOAD s = (None, t)" "rd \<noteq> 0"
  shows "reg_read rd (insi_i_lw imm rs1 rd s) = 0 \<and> pc (insi_i_lw imm rs1 rd s) = pc t"
  using assms by (simp add: insi_i_lw_def untriggered_checks mmu_read32_signed_def mmu_load_def reg_read_write)

end
