(* ===== verification/Isa.thy ===== *)
theory Isa
  imports Asm Misaligned
begin

text \<open>
  The unprivileged architecture of RV32IMC with Zicond, written down on integers, memory bytes and registers, independently of
  the code; and that each instruction function of the emulator, and each compressed instruction, is the
  architecture's step on an undisturbed hart.
\<close>

section \<open>The architecture\<close>

record arch =
  ar_regs :: "u32 \<Rightarrow> u32"
  ar_pc :: u32
  ar_mem :: "u32 \<Rightarrow> u8"

definition put :: "u32 \<Rightarrow> u32 \<Rightarrow> arch \<Rightarrow> arch" where
  "put r v a = (if r = 0 then a else a\<lparr>ar_regs := (ar_regs a)(r := v)\<rparr>)"

definition advance :: "u32 \<Rightarrow> arch \<Rightarrow> arch" where "advance len a = a\<lparr>ar_pc := ar_pc a + len\<rparr>"

fun alu :: "reg_op \<Rightarrow> u32 \<Rightarrow> u32 \<Rightarrow> u32" where
  "alu R_add x y = word_of_int (sint x + sint y)"
| "alu R_sub x y = word_of_int (sint x - sint y)"
| "alu R_sll x y = word_of_int (uint x * 2 ^ (unat y mod 32))"
| "alu R_slt x y = of_bool (sint x < sint y)"
| "alu R_sltu x y = of_bool (uint x < uint y)"
| "alu R_xor x y = x XOR y"
| "alu R_srl x y = word_of_int (uint x div 2 ^ (unat y mod 32))"
| "alu R_sra x y = word_of_int (sint x div 2 ^ (unat y mod 32))"
| "alu R_or x y = x OR y"
| "alu R_and x y = x AND y"
| "alu R_mul x y = word_of_int (sint x * sint y)"
| "alu R_mulh x y = word_of_int (sint x * sint y div 2 ^ 32)"
| "alu R_mulhsu x y = word_of_int (sint x * uint y div 2 ^ 32)"
| "alu R_mulhu x y = word_of_int (uint x * uint y div 2 ^ 32)"
| "alu R_div x y = (if y = 0 then - 1 else word_of_int (sint x sdiv sint y))"
| "alu R_divu x y = (if y = 0 then - 1 else word_of_int (uint x div uint y))"
| "alu R_rem x y = (if y = 0 then x else word_of_int (sint x smod sint y))"
| "alu R_remu x y = (if y = 0 then x else word_of_int (uint x mod uint y))"
| "alu R_czero_eqz x y = (if y = 0 then 0 else x)"
| "alu R_czero_nez x y = (if y \<noteq> 0 then 0 else x)"

fun imm_alu :: "imm_op \<Rightarrow> reg_op" where
  "imm_alu I_addi = R_add" | "imm_alu I_slti = R_slt" | "imm_alu I_sltiu = R_sltu" | "imm_alu I_xori = R_xor"
| "imm_alu I_ori = R_or" | "imm_alu I_andi = R_and"

fun shift_alu :: "shift_op \<Rightarrow> reg_op" where
  "shift_alu I_slli = R_sll" | "shift_alu I_srli = R_srl" | "shift_alu I_srai = R_sra"

fun taken :: "branch_op \<Rightarrow> u32 \<Rightarrow> u32 \<Rightarrow> bool" where
  "taken B_beq x y \<longleftrightarrow> x = y" | "taken B_bne x y \<longleftrightarrow> x \<noteq> y" | "taken B_blt x y \<longleftrightarrow> sint x < sint y"
| "taken B_bge x y \<longleftrightarrow> sint x \<ge> sint y" | "taken B_bltu x y \<longleftrightarrow> uint x < uint y" | "taken B_bgeu x y \<longleftrightarrow> uint x \<ge> uint y"

fun load_value :: "load_op \<Rightarrow> u32 \<Rightarrow> (u32 \<Rightarrow> u8) \<Rightarrow> u32" where
  "load_value L_lb a m = scast (m a)" | "load_value L_lbu a m = ucast (m a)"
| "load_value L_lh a m = scast (load_le 2 a m :: u16)" | "load_value L_lhu a m = ucast (load_le 2 a m :: u16)"
| "load_value L_lw a m = load_le 4 a m"

fun store_value :: "store_op \<Rightarrow> u32 \<Rightarrow> u32 \<Rightarrow> (u32 \<Rightarrow> u8) \<Rightarrow> u32 \<Rightarrow> u8" where
  "store_value S_sb a v m = m(a := ucast v)" | "store_value S_sh a v m = store_le 2 a v m"
| "store_value S_sw a v m = store_le 4 a v m"

text \<open>One instruction, of \<open>len\<close> bytes.\<close>

fun isa_step :: "u32 \<Rightarrow> insn \<Rightarrow> arch \<Rightarrow> arch" where
  "isa_step len (Reg op rd rs1 rs2) a = advance len (put rd (alu op (ar_regs a rs1) (ar_regs a rs2)) a)"
| "isa_step len (Imm op rd rs1 imm) a = advance len (put rd (alu (imm_alu op) (ar_regs a rs1) imm) a)"
| "isa_step len (Shift op rd rs1 shamt) a = advance len (put rd (alu (shift_alu op) (ar_regs a rs1) shamt) a)"
| "isa_step len (Load op rd rs1 imm) a = advance len (put rd (load_value op (ar_regs a rs1 + imm) (ar_mem a)) a)"
| "isa_step len (Store op rs2 rs1 imm) a =
     advance len (a\<lparr>ar_mem := store_value op (ar_regs a rs1 + imm) (ar_regs a rs2) (ar_mem a)\<rparr>)"
| "isa_step len (Branch op rs1 rs2 off) a =
     (if taken op (ar_regs a rs1) (ar_regs a rs2) then a\<lparr>ar_pc := ar_pc a + off\<rparr> else advance len a)"
| "isa_step len (Jal rd off) a = (put rd (ar_pc a + len) a)\<lparr>ar_pc := ar_pc a + off\<rparr>"
| "isa_step len (Jalr rd rs1 imm) a = (put rd (ar_pc a + len) a)\<lparr>ar_pc := (ar_regs a rs1 + imm) AND NOT 1\<rparr>"
| "isa_step len (Lui rd imm) a = advance len (put rd imm a)"
| "isa_step len (Auipc rd imm) a = advance len (put rd (ar_pc a + imm) a)"
| "isa_step len (Fence fm pred succ rd rs1) a = advance len a"
| "isa_step len _ a = a"

text \<open>The immediates of the compressed formats, by the encoding tables of the C extension.\<close>

definition ciw_imm :: "u16 \<Rightarrow> u32" where
  "ciw_imm = gather [(5, 12), (4, 11), (9, 10), (8, 9), (7, 8), (6, 7), (2, 6), (3, 5)]"

definition cl_imm :: "u16 \<Rightarrow> u32" where
  "cl_imm = gather [(5, 12), (4, 11), (3, 10), (2, 6), (6, 5)]"

definition lwsp_imm :: "u16 \<Rightarrow> u32" where
  "lwsp_imm = gather [(5, 12), (4, 6), (3, 5), (2, 4), (7, 3), (6, 2)]"

definition swsp_imm :: "u16 \<Rightarrow> u32" where
  "swsp_imm = gather [(5, 12), (4, 11), (3, 10), (2, 9), (7, 8), (6, 7)]"

definition ci_shamt :: "u16 \<Rightarrow> u32" where
  "ci_shamt = gather [(5, 12), (4, 6), (3, 5), (2, 4), (1, 3), (0, 2)]"

definition ci_imm :: "u16 \<Rightarrow> u32" where
  "ci_imm = gather_signed [(5, 12), (4, 6), (3, 5), (2, 4), (1, 3), (0, 2)]"

definition lui_imm :: "u16 \<Rightarrow> u32" where
  "lui_imm = gather_signed [(17, 12), (16, 6), (15, 5), (14, 4), (13, 3), (12, 2)]"

definition addi16sp_imm :: "u16 \<Rightarrow> u32" where
  "addi16sp_imm = gather_signed [(9, 12), (4, 6), (6, 5), (8, 4), (7, 3), (5, 2)]"

definition cj_imm :: "u16 \<Rightarrow> u32" where
  "cj_imm = gather_signed [(11, 12), (4, 11), (9, 10), (8, 9), (10, 8), (6, 7), (7, 6), (3, 5), (2, 4), (1, 3), (5, 2)]"

definition cb_imm :: "u16 \<Rightarrow> u32" where
  "cb_imm = gather_signed [(8, 12), (4, 11), (3, 10), (7, 6), (6, 5), (2, 4), (1, 3), (5, 2)]"

text \<open>The integer instructions of the C extension for RV32, without the reserved encodings.\<close>

definition decompress_q0 :: "u16 \<Rightarrow> u32 \<Rightarrow> insn option" where
  "decompress_q0 c f3 =
     (let rs1p = 8 + cfield c 7 0x7; rdp = 8 + cfield c 2 0x7
      in if f3 = 0 then (if ciw_imm c \<noteq> 0 then Some (Imm I_addi rdp 2 (ciw_imm c)) else None)
         else if f3 = 2 then Some (Load L_lw rdp rs1p (cl_imm c))
         else if f3 = 6 then Some (Store S_sw rdp rs1p (cl_imm c))
         else None)"

definition decompress_alu :: "u16 \<Rightarrow> insn option" where
  "decompress_alu c =
     (let f2 = cfield c 10 0x3; op = cfield c 5 0x3; rd = 8 + cfield c 7 0x7; rs2 = 8 + cfield c 2 0x7; k = ci_shamt c
      in if f2 = 0 then (if k \<noteq> 0 \<and> k < 32 then Some (Shift I_srli rd rd k) else None)
         else if f2 = 1 then (if k \<noteq> 0 \<and> k < 32 then Some (Shift I_srai rd rd k) else None)
         else if f2 = 2 then Some (Imm I_andi rd rd (ci_imm c))
         else if cfield c 12 0x1 \<noteq> 0 then None
         else if op = 0 then Some (Reg R_sub rd rd rs2)
         else if op = 1 then Some (Reg R_xor rd rd rs2)
         else if op = 2 then Some (Reg R_or rd rd rs2)
         else Some (Reg R_and rd rd rs2))"

definition decompress_q1 :: "u16 \<Rightarrow> u32 \<Rightarrow> insn option" where
  "decompress_q1 c f3 =
     (let rd = cfield c 7 0x1F; rs1p = 8 + cfield c 7 0x7
      in if f3 = 0 then Some (Imm I_addi rd rd (ci_imm c))
         else if f3 = 1 then Some (Jal 1 (cj_imm c))
         else if f3 = 2 then Some (Imm I_addi rd 0 (ci_imm c))
         else if f3 = 3 then
           (if rd = 2 then (if addi16sp_imm c \<noteq> 0 then Some (Imm I_addi 2 2 (addi16sp_imm c)) else None)
            else if rd \<noteq> 0 \<and> lui_imm c \<noteq> 0 then Some (Lui rd (lui_imm c)) else None)
         else if f3 = 4 then decompress_alu c
         else if f3 = 5 then Some (Jal 0 (cj_imm c))
         else if f3 = 6 then Some (Branch B_beq rs1p 0 (cb_imm c))
         else if f3 = 7 then Some (Branch B_bne rs1p 0 (cb_imm c))
         else None)"

definition decompress_q2 :: "u16 \<Rightarrow> u32 \<Rightarrow> insn option" where
  "decompress_q2 c f3 =
     (let rd = cfield c 7 0x1F; rs2 = cfield c 2 0x1F; k = ci_shamt c
      in if f3 = 0 then (if k \<noteq> 0 \<and> k < 32 then Some (Shift I_slli rd rd k) else None)
         else if f3 = 2 then (if rd \<noteq> 0 then Some (Load L_lw rd 2 (lwsp_imm c)) else None)
         else if f3 = 4 \<and> cfield c 12 0x1 = 0 then
           (if rd = 0 then None else if rs2 = 0 then Some (Jalr 0 rd 0) else Some (Reg R_add rd 0 rs2))
         else if f3 = 4 then
           (if rd = 0 then None else if rs2 = 0 then Some (Jalr 1 rd 0) else Some (Reg R_add rd rd rs2))
         else if f3 = 6 then Some (Store S_sw rs2 2 (swsp_imm c))
         else None)"

definition decompress :: "u16 \<Rightarrow> insn option" where
  "decompress c =
     (let q = cfield c 0 0x3; f3 = cfield c 13 0x7
      in if q = 0 then decompress_q0 c f3 else if q = 1 then decompress_q1 c f3 else if q = 2 then decompress_q2 c f3 else None)"

text \<open>
  The instructions of the fragment, with data accesses that are aligned and in RAM; a compressed jump
  through a register has an even target and does not link through x1, where the code departs from the architecture.
\<close>

fun load_size :: "load_op \<Rightarrow> u32" where
  "load_size L_lb = 1" | "load_size L_lbu = 1" | "load_size L_lh = 2" | "load_size L_lhu = 2" | "load_size L_lw = 4"

fun store_size :: "store_op \<Rightarrow> u32" where "store_size S_sb = 1" | "store_size S_sh = 2" | "store_size S_sw = 4"

fun safe :: "u32 \<Rightarrow> insn \<Rightarrow> arch \<Rightarrow> bool" where
  "safe len (Load op rd rs1 imm) a \<longleftrightarrow> ram32 (ar_regs a rs1 + imm) \<and> is_aligned (ar_regs a rs1 + imm) (load_size op)"
| "safe len (Store op rs2 rs1 imm) a \<longleftrightarrow> ram32 (ar_regs a rs1 + imm) \<and> is_aligned (ar_regs a rs1 + imm) (store_size op)"
| "safe len (Jalr rd rs1 imm) a \<longleftrightarrow> (len = 2 \<longrightarrow> even (ar_regs a rs1) \<and> (rd = 1 \<longrightarrow> rs1 \<noteq> 1))"
| "safe len (Amo _ _ _ _ _) a \<longleftrightarrow> False" | "safe len (Csr _ _ _ _) a \<longleftrightarrow> False" | "safe len (Plain _) a \<longleftrightarrow> False"
| "safe len (Sfence _ _) a \<longleftrightarrow> False"
| "safe len _ a \<longleftrightarrow> True"

text \<open>The instruction at \<open>pc\<close> and its length.\<close>

definition fetches :: "arch \<Rightarrow> u32 \<Rightarrow> insn \<Rightarrow> bool" where
  "fetches a len i \<longleftrightarrow> ram32 (ar_pc a) \<and>
     (let w = load_le 4 (ar_pc a) (ar_mem a) :: u32
      in if w AND 3 = 3 then len = 4 \<and> wf_insn i \<and> w = encode i
         else len = 2 \<and> decompress (ucast w) = Some i)"

text \<open>Executions of the architecture, with the number of instructions.\<close>

inductive isa_run :: "nat \<Rightarrow> arch \<Rightarrow> arch \<Rightarrow> bool" where
  start: "isa_run 0 a a"
| step: "isa_run n a b \<Longrightarrow> fetches b len i \<Longrightarrow> safe len i b \<Longrightarrow> isa_run (Suc n) a (isa_step len i b)"

section \<open>Instructions of the emulator as architectural steps\<close>

definition arch_of :: "emu \<Rightarrow> arch" where
  "arch_of s = \<lparr>ar_regs = (\<lambda>r. reg_read r s), ar_pc = pc s, ar_mem = main_memory s\<rparr>"

lemma arch_of_fields [simp]:
  "ar_regs (arch_of s) r = reg_read r s" "ar_pc (arch_of s) = pc s" "ar_mem (arch_of s) = main_memory s"
  by (simp_all add: arch_of_def)

lemma arch_of_reg_write [simp]: "arch_of (reg_write r v s) = put r v (arch_of s)"
  by (auto simp: arch_of_def put_def reg_write_def reg_read_def)

lemma arch_of_updates [simp]:
  "arch_of (s\<lparr>pc := p\<rparr>) = (arch_of s)\<lparr>ar_pc := p\<rparr>"
  "arch_of (s\<lparr>main_memory := m\<rparr>) = (arch_of s)\<lparr>ar_mem := m\<rparr>"
  "arch_of (mem_clear_reservation b s) = arch_of s"
  by (simp_all add: arch_of_def reg_read_def cong: if_cong)

lemma shift_amount: "unat (y AND 0x1F :: u32) = unat y mod 32"
  using low_unat [of y 5] by (simp add: mask_eq_exp_minus_1)

lemma word_arith:
  "word_of_int (sint x + sint y) = x + y" "word_of_int (sint x - sint y) = x - y" "word_of_int (sint x * sint y) = x * y"
  for x y :: u32
  by (simp_all only: wi_hom_add [symmetric] wi_hom_sub [symmetric] wi_hom_mult [symmetric] word_of_sint)

lemma word_shifts:
  "word_of_int (uint x * 2 ^ k) = shl x k" "word_of_int (uint x div 2 ^ k) = shr x k" "word_of_int (sint x div 2 ^ k) = sar x k"
  for x :: u32
proof -
  have "uint (shr x k) = uint x div 2 ^ k"     using unsigned_drop_bit_eq [of k x, where ?'a = int] drop_bit_eq_div [of k "uint x"] uint32_bounds [of x]
    by (simp del: drop_bit_eq_div add: take_bit_int_eq_self)
  then show "word_of_int (uint x div 2 ^ k) = shr x k" by (metis word_of_int_uint)
  have "sint (sar x k) = sint x div 2 ^ k" by (simp add: sint_signed_drop_bit_eq drop_bit_eq_div)
  then show "word_of_int (sint x div 2 ^ k) = sar x k" by (metis word_of_sint)
qed (simp add: push_bit_eq_mult flip: wi_hom_mult)

lemma high_words:
  "word_of_int (sint x * sint y div 2 ^ 32) = (ucast (sar (scast x * scast y :: u64) 32) :: u32)"
  "word_of_int (sint x * uint y div 2 ^ 32) = (ucast (sar (scast x * ucast y :: u64) 32) :: u32)"
  "word_of_int (uint x * uint y div 2 ^ 32) = (ucast (shr (ucast x * ucast y :: u64) 32) :: u32)"
  for x y :: u32
  by (simp_all only: mulh_exact [symmetric] mulsu_exact [symmetric] mulu_exact [symmetric] word_of_sint word_of_int_uint)

lemma signed_overflow:
  "word_of_int (sint INT32_MIN sdiv sint (- 1 :: u32)) = INT32_MIN" "word_of_int (sint INT32_MIN smod sint (- 1 :: u32)) = (0 :: u32)"
  "(0xFFFFFFFF :: u32) = - 1" "2147483648 smod 1 = (0 :: int)"
  by (simp_all add: signed_divide_int_def signed_modulo_int_def)

lemma unsigned_div: "word_of_int (uint x div uint y) = x div y" "word_of_int (uint x mod uint y) = x mod y" for x y :: u32
  by (simp_all flip: uint_div_distrib uint_mod_distrib)

lemma perform_reg_alu: "perform_reg op rs2 rs1 rd s = reg_write rd (alu op (reg_read rs1 s) (reg_read rs2 s)) s"
  by (cases op) (simp_all only: perform_reg.simps alu.simps insi_r_add_def insi_r_sub_def insi_r_xor_def insi_r_or_def insi_r_and_def
      insi_r_sll_def insi_r_srl_def insi_r_sra_def insi_r_slt_def insi_r_sltu_def insm_r_mul_def insm_r_mulh_def
      insm_r_mulsu_def insm_r_mulu_def insm_r_div_def insm_r_divu_def insm_r_rem_def insm_r_remu_def
      ins_zicond_czero_eqz_def ins_zicond_czero_nez_def Let_def word_arith
      word_shifts shift_amount high_words unsigned_div word_sless_alt word_less_def of_bool_def, auto simp: signed_overflow)

lemma perform_imm_alu: "perform_imm op imm rs1 rd s = reg_write rd (alu (imm_alu op) (reg_read rs1 s) imm) s"
  by (cases op) (simp_all only: perform_imm.simps imm_alu.simps alu.simps insi_i_addi_def insi_i_slti_def insi_i_sltiu_def
      insi_i_xori_def insi_i_ori_def insi_i_andi_def Let_def word_arith word_sless_alt word_less_def of_bool_def)

lemma perform_shift_alu: "perform_shift op k rs1 rd s = reg_write rd (alu (shift_alu op) (reg_read rs1 s) k) s"
  by (cases op) (simp_all only: perform_shift.simps shift_alu.simps alu.simps insi_i_slli_def insi_i_srli_def insi_i_srai_def
      Let_def word_shifts shift_amount)

section \<open>The undisturbed hart\<close>

text \<open>
  Machine mode with interrupts masked, MPRV and the triggers' enable clear, and an even \<open>pc\<close>. The
  instructions of the fragment change only the registers, \<open>pc\<close>, memory and the reservations.
\<close>

definition undisturbed :: "emu \<Rightarrow> bool" where
  "undisturbed s \<longleftrightarrow> csr_wf s \<and> privilege s = PRV_MACHINE \<and> \<not> bit (csr_val CSR_MSTATUS s) 3 \<and>
     \<not> bit (csr_val CSR_MSTATUS s) 17 \<and> \<not> bit (s_tcontrol s) 3 \<and> \<not> just_trapped s \<and> \<not> terminated s \<and> even (pc s)"

lemma undisturbed_direct: "undisturbed s \<Longrightarrow> direct s"
  by (simp add: undisturbed_def direct_def)

lemma undisturbed_checks:
  assumes "undisturbed s"
  shows "sdtrig_check_load_trigger a s = (False, s)" "sdtrig_check_store_trigger a s = (False, s)"
    "sdtrig_check_fetch_trigger a s = (False, s)" "misa_c_enabled s"
proof -
  have "\<not> trigger_matches i a k s" for i k
    using assms by (simp add: undisturbed_def trigger_matches_def Let_def flag_simps)
  then show "sdtrig_check_load_trigger a s = (False, s)" "sdtrig_check_store_trigger a s = (False, s)"
    "sdtrig_check_fetch_trigger a s = (False, s)"
    by (simp_all add: sdtrig_check_load_trigger_def sdtrig_check_store_trigger_def sdtrig_check_fetch_trigger_def sdtrig_check_def)
  show "misa_c_enabled s" using assms by (simp add: undisturbed_def misa_c_enabled_def csr_wf_def)
qed

lemma undisturbed_updates [simp]:
  "undisturbed (reg_write r v s) = undisturbed s" "undisturbed (s\<lparr>main_memory := m\<rparr>) = undisturbed s"
  "undisturbed (mem_clear_reservation b s) = undisturbed s" "undisturbed s \<Longrightarrow> undisturbed (s\<lparr>pc := p\<rparr>) = even p"
  by (simp_all add: undisturbed_def mem_clear_reservation_def)

lemma byte_access:
  assumes "direct s" "ram32 a"
  shows "mmu_read8_unsigned a s = (ucast (main_memory s a), s)" "mmu_read8_signed a s = (scast (main_memory s a), s)"
    "mmu_write8 a v s = (mem_clear_reservation a s)\<lparr>main_memory := (main_memory s)(a := v)\<rparr>"
    "mmu_write16 a w s = (mem_clear_reservation a s)\<lparr>main_memory := store_le 2 a w (main_memory s)\<rparr>"
  using ram32_limits [OF assms(2)] assms(2)
  by (simp_all add: mmu_read8_unsigned_def mmu_read8_signed_def mmu_write8_def mmu_write16_def mmu_load_def mmu_store_def
      translate_direct [OF assms(1)] read8_ram write8_ram mem_read8_signed_def mem_write16_def ram32_def Let_def)

lemma perform_load_value:
  assumes "undisturbed s" "ram32 (reg_read rs1 s + imm)" "is_aligned (reg_read rs1 s + imm) (load_size op)"
  shows "perform_load op imm rs1 rd s = reg_write rd (load_value op (reg_read rs1 s + imm) (main_memory s)) s"
  using assms(3) byte_access [OF undisturbed_direct [OF assms(1)] assms(2)] aligned_ram [OF undisturbed_direct [OF assms(1)] assms(2)]
  by (cases op) (simp_all add: insi_i_lb_def insi_i_lbu_def insi_i_lh_def insi_i_lhu_def insi_i_lw_def
      undisturbed_checks [OF assms(1)] is_aligned_def Let_def)

lemma perform_store_value:
  assumes "undisturbed s" "ram32 (reg_read rs1 s + imm)" "is_aligned (reg_read rs1 s + imm) (store_size op)"
  shows "perform_store op imm rs2 rs1 s = (mem_clear_reservation (reg_read rs1 s + imm) s)
    \<lparr>main_memory := store_value op (reg_read rs1 s + imm) (reg_read rs2 s) (main_memory s)\<rparr>"
proof -
  have "ucast (v AND 0xFF) = (ucast v :: u8)" "ucast (v AND 0xFFFF) = (ucast v :: u16)" for v :: u32
    by (simp_all add: word8_eq_iff word16_eq_iff all_less_8 all_less_16 bit_simps)
  moreover have "store_le 2 a (ucast v :: u16) m = store_le 2 a v m" for a m and v :: u32
    by (rule ext) (auto simp: store_le_apply word8_eq_iff all_less_8 bit_simps less_2_cases_iff)
  ultimately show ?thesis
    using assms(3) byte_access [OF undisturbed_direct [OF assms(1)] assms(2)] aligned_ram [OF undisturbed_direct [OF assms(1)] assms(2)]
    by (cases op) (simp_all add: insi_s_sb_def insi_s_sh_def insi_s_sw_def undisturbed_checks [OF assms(1)] is_aligned_def Let_def)
qed

lemma advance_put: "advance len (put r v a) = put r v (advance len a)" "(put r v a)\<lparr>ar_pc := p\<rparr> = put r v (a\<lparr>ar_pc := p\<rparr>)"
  by (simp_all add: advance_def put_def)

lemma put_0 [simp]: "put 0 v a = a"
  by (simp add: put_def)

lemma put_pc: "ar_pc (put r v a) = ar_pc a"
  by (simp add: put_def)

text \<open>An instruction, and the loop's step of \<open>pc\<close> after it.\<close>

definition stepped :: "emu \<Rightarrow> emu" where "stepped s = s\<lparr>pc := pc s + 4\<rparr>"

lemma branch_step:
  assumes "undisturbed s" "even off"
  shows "perform_branch op off rs2 rs1 s = (if taken op (reg_read rs1 s) (reg_read rs2 s) then s\<lparr>pc := pc s + off - 4\<rparr> else s)"
proof -
  have "even (pc s + off)" using assms by (simp add: undisturbed_def)
  then have "take_branch off s = s\<lparr>pc := pc s + off - 4\<rparr>"
    using aligned_target [OF undisturbed_checks(4) [OF assms(1)]] by (simp add: take_branch_def)
  then show ?thesis
    by (cases op) (auto simp: insi_b_beq_def insi_b_bne_def insi_b_blt_def insi_b_bge_def insi_b_bltu_def insi_b_bgeu_def
        Let_def word_sless_alt word_less_def word_le_def)
qed

lemma even_masked: "even (x AND NOT 1 :: u32)"
  by (simp add: even_iff_mod_2_eq_zero and_one_eq [symmetric] and.assoc)

lemma perform_step:
  assumes "undisturbed s" "wf_insn i" "safe 4 i (arch_of s)"
  shows "\<exists>t. perform ok i s = Inr t \<and> arch_of (stepped t) = isa_step 4 i (arch_of s) \<and> undisturbed (stepped t)"
proof -
  note u = assms(1)
  have e: "even (pc s)" using u by (simp add: undisturbed_def)
  have plain: "arch_of (stepped (reg_write r v s)) = advance 4 (put r v (arch_of s)) \<and> undisturbed (stepped (reg_write r v s))" for r v
    using u e by (simp add: stepped_def advance_put advance_def put_pc)
  have jump: "arch_of (stepped ((reg_write r v s)\<lparr>pc := p - 4\<rparr>)) = (put r v (arch_of s))\<lparr>ar_pc := p\<rparr> \<and>
      undisturbed (stepped ((reg_write r v s)\<lparr>pc := p - 4\<rparr>))" if "even p" for r v p
    using u that by (simp add: stepped_def advance_put)
  show ?thesis
  proof (cases i)
    case (Branch op rs1 rs2 off)
    then show ?thesis using assms(2) u e branch_step [OF u, of off op rs2 rs1]
      by (simp add: stepped_def advance_def)
  next
    case (Jal rd off)
    moreover from this assms(2) e have "even (pc s + off)" by simp
    ultimately show ?thesis using jump [of "pc s + off" rd "pc s + 4"] aligned_target [OF undisturbed_checks(4) [OF u], of "pc s + off"]
      by (simp add: insi_j_jal_def)
  next
    case (Jalr rd rs1 imm)
    then show ?thesis using even_masked [of "reg_read rs1 s + imm"] jump [of "(reg_read rs1 s + imm) AND NOT 1" rd "pc s + 4"]
        aligned_target [OF undisturbed_checks(4) [OF u], of "(reg_read rs1 s + imm) AND NOT 1"]
      by (simp add: insi_i_jalr_def Let_def)
  next
    case (Store op rs2 rs1 imm)
    then show ?thesis using assms(3) u e perform_store_value [OF u, of rs1 imm op rs2]
      by (simp add: stepped_def advance_def)
  next
    case (Fence fm pred succ rd rs1)
    then show ?thesis using u e by (simp add: ins_fence_def stepped_def advance_def)
  qed (use assms(3) plain in \<open>simp_all add: perform_reg_alu perform_imm_alu perform_shift_alu perform_load_value [OF u]
      insi_u_lui_def insi_u_auipc_def\<close>)
qed

section \<open>Compressed instructions as architectural steps\<close>

lemma next_step:
  assumes "undisturbed s"
  shows "arch_of (stepped (snd (c_next (reg_write r v s)))) = put r v (advance 2 (arch_of s)) \<and>
      undisturbed (stepped (snd (c_next (reg_write r v s))))"
    and "arch_of (stepped (snd (c_next s))) = advance 2 (arch_of s) \<and> undisturbed (stepped (snd (c_next s)))"
proof -
  have e: "even (pc s)" "pc s - 2 + 4 = pc s + 2" using assms by (simp_all add: undisturbed_def)
  then show "arch_of (stepped (snd (c_next (reg_write r v s)))) = put r v (advance 2 (arch_of s)) \<and>
      undisturbed (stepped (snd (c_next (reg_write r v s))))"
    and "arch_of (stepped (snd (c_next s))) = advance 2 (arch_of s) \<and> undisturbed (stepped (snd (c_next s)))"
    using assms by (simp_all add: c_next_def stepped_def advance_put advance_def add.commute)
qed

lemma jump_step:
  assumes "undisturbed s" "even p"
  shows "arch_of (stepped (snd (c_jump p (reg_write r v s)))) = put r v ((arch_of s)\<lparr>ar_pc := p\<rparr>) \<and>
    undisturbed (stepped (snd (c_jump p (reg_write r v s))))"
    "arch_of (stepped (snd (c_jump p s))) = (arch_of s)\<lparr>ar_pc := p\<rparr> \<and> undisturbed (stepped (snd (c_jump p s)))"
  using assms by (simp_all add: c_jump_def stepped_def advance_put)

lemma access_step:
  assumes "undisturbed s" "f s = t" "pc t = pc s" "undisturbed t"
  shows "arch_of (stepped (snd (c_access f s))) = (arch_of t)\<lparr>ar_pc := pc s + 2\<rparr> \<and> undisturbed (stepped (snd (c_access f s)))"
proof -
  have "even (pc s)" using assms(1) by (simp add: undisturbed_def)
  then show ?thesis using assms by (simp add: c_access_def Let_def stepped_def add.commute)
qed

lemma lw_sw_step:
  fixes rd rs2 :: u32
  assumes "undisturbed s" "ram32 (reg_read rs1 s + imm)" "is_aligned (reg_read rs1 s + imm) 4"
  defines "t \<equiv> snd (c_access (insi_i_lw imm rs1 rd) s)" and "u \<equiv> snd (c_access (insi_s_sw imm rs2 rs1) s)"
  shows "arch_of (stepped t) = isa_step 2 (Load L_lw rd rs1 imm) (arch_of s) \<and> undisturbed (stepped t)"
    and "arch_of (stepped u) = isa_step 2 (Store S_sw rs2 rs1 imm) (arch_of s) \<and> undisturbed (stepped u)"
proof -
  have lw: "insi_i_lw imm rs1 rd s = reg_write rd (load_le 4 (reg_read rs1 s + imm) (main_memory s)) s"
    using perform_load_value [of s rs1 imm L_lw rd] assms(1-3) by simp
  have sw: "insi_s_sw imm rs2 rs1 s = (mem_clear_reservation (reg_read rs1 s + imm) s)
      \<lparr>main_memory := store_le 4 (reg_read rs1 s + imm) (reg_read rs2 s) (main_memory s)\<rparr>"
    using perform_store_value [of s rs1 imm S_sw rs2] assms(1-3) by simp
  show "arch_of (stepped t) = isa_step 2 (Load L_lw rd rs1 imm) (arch_of s) \<and> undisturbed (stepped t)"
    using access_step [OF assms(1), of "insi_i_lw imm rs1 rd", OF lw] assms(1)
    by (simp add: t_def advance_def advance_put put_pc)
  show "arch_of (stepped u) = isa_step 2 (Store S_sw rs2 rs1 imm) (arch_of s) \<and> undisturbed (stepped u)"
    using access_step [OF assms(1), of "insi_s_sw imm rs2 rs1", OF sw] assms(1)
    by (simp add: u_def advance_def)
qed

lemma alu_word:
  "alu R_add x y = x + y" "alu R_sub x y = x - y" "alu R_xor x y = x XOR y" "alu R_or x y = x OR y" "alu R_and x y = x AND y"
  "alu R_sll x y = shl x (unat (y AND 0x1F))" "alu R_srl x y = shr x (unat (y AND 0x1F))" "alu R_sra x y = sar x (unat (y AND 0x1F))"
  by (simp_all only: alu.simps word_arith word_shifts shift_amount)

lemma compressed_immediates:
  "ciw_imm = c_addi4spn_imm"
  "cl_imm = c_ls_uimm"
  "lwsp_imm = c_lwsp_uimm"
  "swsp_imm = c_swsp_uimm"
  "ci_shamt = c_shamt"
  "ci_imm = c_imm6"
  "lui_imm = c_lui_imm"
  "addi16sp_imm = c_addi16sp_imm"
  "cj_imm = c_jal_offset"
  "cb_imm = c_branch_offset"
  by (simp_all add: fun_eq_iff ciw_imm_def cl_imm_def lwsp_imm_def swsp_imm_def ci_shamt_def ci_imm_def lui_imm_def addi16sp_imm_def cj_imm_def cb_imm_def
      plain_tables signed_tables offset_tables)

lemma compressed_q0:
  assumes "undisturbed s" "decompress_q0 c f3 = Some i" "safe 2 i (arch_of s)"
  defines "t \<equiv> snd (exec_c_q0 c f3 s)"
  shows "arch_of (stepped t) = isa_step 2 i (arch_of s) \<and> undisturbed (stepped t)"
  using assms(2,3) next_step [OF assms(1)] lw_sw_step [OF assms(1)]
  by (auto simp del: alu.simps simp add: t_def decompress_q0_def compressed_immediates exec_c_q0_def Let_def alu_word advance_put split: if_splits)

lemma compressed_alu:
  assumes "undisturbed s" "decompress_alu c = Some i"
  defines "t \<equiv> snd (exec_c_alu c s)"
  shows "arch_of (stepped t) = isa_step 2 i (arch_of s) \<and> undisturbed (stepped t)"
proof -
  have "\<not> (2 :: u32) \<le> 1" "\<not> (3 :: u32) \<le> 1" by (simp_all add: word_le_nat_alt)
  then show ?thesis
    using assms(2) next_step [OF assms(1)] cfield_cases [of c 10] cfield_cases [of c 5]
    by (auto simp del: alu.simps simp add: t_def decompress_alu_def compressed_immediates exec_c_alu_def Let_def alu_word advance_put split: if_splits)
qed

lemma compressed_q1:
  assumes "undisturbed s" "decompress_q1 c f3 = Some i"
  defines "t \<equiv> snd (exec_c_q1 c f3 s)"
  shows "arch_of (stepped t) = isa_step 2 i (arch_of s) \<and> undisturbed (stepped t)"
proof -
  have e: "even (pc s + c_jal_offset c)" "even (pc s + c_branch_offset c)"
    using assms(1) offsets_even [of c] by (simp_all add: undisturbed_def)
  show ?thesis
    using assms(2) next_step [OF assms(1)] jump_step [OF assms(1) e(1)] jump_step [OF assms(1) e(2)] compressed_alu [OF assms(1)]
    by (auto simp del: alu.simps simp add: t_def decompress_q1_def compressed_immediates exec_c_q1_def Let_def alu_word advance_put put_pc
        split: if_splits)
qed

lemma compressed_q2:
  assumes "undisturbed s" "decompress_q2 c f3 = Some i" "safe 2 i (arch_of s)"
  defines "t \<equiv> snd (exec_c_q2 c f3 s)"
  shows "arch_of (stepped t) = isa_step 2 i (arch_of s) \<and> undisturbed (stepped t)"
proof (cases "f3 = 4")
  case True
  then show ?thesis
    using assms(2,3) next_step [OF assms(1)] jump_step [OF assms(1)] aligned_target [OF undisturbed_checks(4) [OF assms(1)]]
    by (auto simp del: alu.simps simp add: t_def decompress_q2_def compressed_immediates exec_c_q2_def exec_c_jump_def Let_def alu_word advance_put put_pc
        reg_read_write even_clear_bit_0 split: if_splits)
next
  case False
  then show ?thesis
    using assms(2,3) next_step [OF assms(1)] lw_sw_step [OF assms(1)]
    by (auto simp del: alu.simps simp add: t_def decompress_q2_def compressed_immediates exec_c_q2_def Let_def alu_word advance_put split: if_splits)
qed

lemma compressed_step:
  assumes "undisturbed s" "decompress c = Some i" "safe 2 i (arch_of s)"
  defines "t \<equiv> snd (exec_c_insn c s)"
  shows "arch_of (stepped t) = isa_step 2 i (arch_of s) \<and> undisturbed (stepped t)"
  using assms(2,3) compressed_q0 [OF assms(1)] compressed_q1 [OF assms(1)] compressed_q2 [OF assms(1)]
  by (auto simp: t_def decompress_def exec_c_insn_def Let_def split: if_splits)

end
