(* ===== verification/Isa_Run.thy ===== *)
theory Isa_Run
  imports Isa Startup
begin

text \<open>
  The refinement of the architecture of \<open>Isa\<close> by the run loop: while nothing disturbs the hart, each iteration is one
  step of the architecture; and the path of a program from its file to its exit.
\<close>

section \<open>The run loop\<close>

text \<open>
  The console may deliver any bytes but Ctrl-], which could ask the emulator to quit. What arrives reaches
  the UART and the PLIC only.
\<close>

definition no_escape :: "host_env \<Rightarrow> bool" where
  "no_escape env \<longleftrightarrow> (\<forall>buf. Read_Bytes buf \<in> set (host_reads env) \<longrightarrow> UART_ESC_CHAR \<notin> set buf)"

definition going_on :: "uart_input \<Rightarrow> bool" where
  "going_on inp \<longleftrightarrow> \<not> uart_quit_requested inp \<and> \<not> uart_esc_held inp"

lemma feed_bytes_plain: "UART_ESC_CHAR \<notin> set cs \<Longrightarrow> fst (feed_bytes cs inp u p) = inp"
  by (induction cs arbitrary: u p) (simp_all add: case_prod_unfold Let_def)

lemma drain_plain:
  assumes "\<And>buf. Read_Bytes buf \<in> set rs \<Longrightarrow> UART_ESC_CHAR \<notin> set buf" "going_on inp"
  shows "going_on (fst (drain_input rs inp u p))"
  using assms
proof (induction rs arbitrary: inp u p)
  case (Cons x rs)
  show ?case
  proof (cases x)
    case (Read_Bytes buf)
    with Cons.prems have "fst (feed_batch buf inp u p) = inp"
      by (simp add: feed_batch_def going_on_def feed_bytes_plain)
    with Cons Read_Bytes show ?thesis by (simp add: case_prod_unfold Let_def)
  qed (use Cons.prems in \<open>simp_all add: going_on_def\<close>)
qed simp

lemma poll_plain:
  assumes "no_escape env" "going_on (input r)"
  shows "\<exists>inp u p. poll_input env r = (False, r\<lparr>input := inp, hart := (hart r)\<lparr>uart_dev := u, plic_dev := p\<rparr>\<rparr>) \<and> going_on inp"
proof -
  have d: "going_on (fst (drain_input (host_reads env) (input r\<lparr>epfd_open := True\<rparr>) u p))" for u p
    by (rule drain_plain) (use assms in \<open>auto simp: no_escape_def going_on_def\<close>)
  obtain q inp u p where polled: "uart_poll_input env (input r) (uart_dev (hart r)) (plic_dev (hart r)) = (q, inp, u, p)"
    by (metis prod_cases4)
  then have "going_on inp" "\<not> q"
    using d [of "uart_dev (hart r)" "plic_dev (hart r)"] assms(2)
    by (auto simp: uart_poll_input_def going_on_def split: if_splits prod.splits)
  then show ?thesis using polled
    by (intro exI [of _ inp] exI [of _ u] exI [of _ p] conjI) (simp_all add: poll_input_def)
qed

definition calm :: "run \<Rightarrow> bool" where
  "calm r \<longleftrightarrow> undisturbed (hart r) \<and> going_on (input r) \<and> \<not> spin_armed r"

lemma opcode_low: "get_opcode w AND 3 = w AND 3"
  by (simp add: get_opcode_def and.assoc)

lemma encode_low:
  assumes "wf_insn i"
  shows "encode i AND 3 = 3"
proof -
  have "get_opcode (plain_code op) AND 3 = 3" for op by (cases op) (simp_all add: get_opcode_def)
  then show ?thesis
    unfolding opcode_low [of "encode i", symmetric] opcode_encode [OF assms] by (cases i) simp_all
qed

lemma exec_fetched:
  assumes "undisturbed s" "wf_insn i"
  shows "exec ok sf (encode i) s = perform ok i s"
proof -
  have "pc s AND 1 = 0" using assms(1) by (simp add: undisturbed_def and_1_even)
  then show ?thesis
    by (simp add: exec_def undisturbed_checks [OF assms(1)] opcode_low encode_low [OF assms(2)] exec_switch_encode [OF assms(2)])
qed

lemma retire_step:
  "arch_of (retire s) = arch_of (stepped s)" "undisturbed (retire s) = undisturbed (stepped s)"
  by (simp_all add: retire_def stepped_def Let_def case_prod_unfold arch_of_def reg_read_def undisturbed_def csr_wf_def csr_val_def
      cong: if_cong)

text \<open>Either decoder, on the word at \<open>pc\<close>.\<close>

lemma exec_fetches:
  assumes "undisturbed s" "fetches (arch_of s) len i"
  shows "exec ok sf (load_le 4 (pc s) (main_memory s)) s =
    (if len = 4 then perform ok i s
     else Inr (snd (exec_c_insn (ucast (load_le 4 (pc s) (main_memory s) :: u32)) s)))"
proof (cases "load_le 4 (pc s) (main_memory s) AND (3 :: u32) = 3")
  case True
  then show ?thesis using assms exec_fetched [OF assms(1), of i ok sf] by (simp add: fetches_def)
next
  case False
  define w where "w = (load_le 4 (pc s) (main_memory s) :: u32)"
  have "w AND 0xFFFF = take_bit 16 w" by (simp add: take_bit_eq_mask mask_eq_exp_minus_1)
  then have "ucast (w AND 0xFFFF) = (ucast w :: u16)" by (intro bit_word_eqI) (simp add: bit_simps)
  moreover have "pc s AND 1 = 0" using assms(1) by (simp add: undisturbed_def and_1_even)
  ultimately show ?thesis using False assms undisturbed_checks(4) [OF assms(1)]
    by (simp add: fetches_def exec_def opcode_low flip: w_def)
qed

lemma exec_step:
  assumes "undisturbed s" "fetches (arch_of s) len i" "safe len i (arch_of s)"
  shows "\<exists>t. exec ok sf (load_le 4 (pc s) (main_memory s)) s = Inr t \<and>
    arch_of (stepped t) = isa_step len i (arch_of s) \<and> undisturbed (stepped t)"
proof (cases "len = 4")
  case True
  with assms(2) have "wf_insn i" by (auto simp: fetches_def Let_def split: if_splits)
  with True show ?thesis using perform_step [OF assms(1), of i ok] assms(3) exec_fetches [OF assms(1,2)] by simp
next
  case False
  with assms(2) have "len = 2" "decompress (ucast (load_le 4 (pc s) (main_memory s) :: u32)) = Some i"
    by (auto simp: fetches_def Let_def split: if_splits)
  then show ?thesis using compressed_step [OF assms(1)] assms(3) exec_fetches [OF assms(1,2)] by simp
qed

lemma loop_perform:
  assumes "calm r" "no_escape env" "fetches (arch_of (hart r)) len i"
    and "\<And>s. arch_of s = arch_of (hart r) \<Longrightarrow> undisturbed s \<Longrightarrow>
      \<exists>t. exec ok sf (load_le 4 (pc s) (main_memory s)) s = Inr t \<and> P t"
  shows "\<exists>t inp. P t \<and> going_on inp \<and>
    loop_exec ok sf env r = Inr (False, r\<lparr>hart := retire t, input := inp, last_fetch_pc := pc (hart r)\<rparr>)"
proof -
  have u: "undisturbed (hart r)" using assms(1) by (simp add: calm_def)
  obtain inp ud pd where poll: "poll_input env r = (False, r\<lparr>input := inp, hart := (hart r)\<lparr>uart_dev := ud, plic_dev := pd\<rparr>\<rparr>)"
    "going_on inp"
    using poll_plain [OF assms(2), of r] assms(1) by (auto simp: calm_def)
  define s where "s = (hart r)\<lparr>uart_dev := ud, plic_dev := pd, g_prev_ins_pc := last_fetch_pc r\<rparr>"
  have s: "undisturbed s" "arch_of s = arch_of (hart r)" "pc s = pc (hart r)" "main_memory s = main_memory (hart r)"
    using u by (simp_all add: s_def undisturbed_def csr_wf_def csr_val_def arch_of_def reg_read_def cong: if_cong)
  obtain t where t: "exec ok sf (load_le 4 (pc s) (main_memory s)) s = Inr t" "P t"
    using assms(4) [OF s(2,1)] by auto
  have "check_and_handle_interrupts (hart r) = hart r"
    using u by (simp add: check_and_handle_interrupts_def undisturbed_def csr_reads Let_def flag_simps)
  moreover have "fetch_and_exec ok sf (pc (hart r)) s = Inr t"
    using assms(3) s t(1) quiet_fetch [of s "pc (hart r)" ok sf]
    by (simp add: fetches_def undisturbed_def flag_simps)
  moreover have "\<not> MEM_SIZE \<le> pc (hart r)"
    using assms(3) by (auto simp: fetches_def ram32_def word_le_nat_alt word_less_nat_alt)
  ultimately show ?thesis using t(2) poll
    by (intro exI [of _ t] exI [of _ inp]) (simp add: loop_exec_def Let_def s_def)
qed

text \<open>One iteration is one step of the architecture.\<close>

lemma loop_step:
  assumes "calm r" "no_escape env" "fetches (arch_of (hart r)) len i" "safe len i (arch_of (hart r))"
  shows "\<exists>r'. loop_body ok sf env r = Inr (False, r') \<and> calm r' \<and> arch_of (hart r') = isa_step len i (arch_of (hart r))"
proof -
  have "\<exists>t. exec ok sf (load_le 4 (pc s) (main_memory s)) s = Inr t \<and>
      (arch_of (stepped t) = isa_step len i (arch_of (hart r)) \<and> undisturbed (stepped t))"
    if "arch_of s = arch_of (hart r)" "undisturbed s" for s
    using exec_step [OF that(2), of len i ok sf] assms(3,4) unfolding that(1) by blast
  from loop_perform [OF assms(1-3) this]
  obtain t inp where t: "arch_of (retire t) = isa_step len i (arch_of (hart r))" "undisturbed (retire t)"
    "going_on inp" "loop_exec ok sf env r = Inr (False, r\<lparr>hart := retire t, input := inp, last_fetch_pc := pc (hart r)\<rparr>)"
    by (auto simp: retire_step)
  then show ?thesis using assms(1)
    by (simp add: loop_body_def spin_arm_def spin_detect_def calm_def) (simp add: undisturbed_def)
qed

lemma main_loop_append:
  "main_loop ok sf (es @ es') r = (case main_loop ok sf es r of Running r' \<Rightarrow> main_loop ok sf es' r' | x \<Rightarrow> x)"
proof (induction es arbitrary: r)
  case Nil
  then show ?case by (subst main_loop.simps, subst (2) main_loop.simps) (auto simp: main_loop.simps)
next
  case (Cons e es)
  then show ?case
    by (subst main_loop.simps, subst (2) main_loop.simps) (auto split: sum.split bool.split)
qed

lemma loop_simulates:
  assumes "isa_run n a b" "arch_of (hart r) = a" "calm r" "length envs = n" "\<forall>env\<in>set envs. no_escape env"
  shows "\<exists>r'. main_loop ok sf envs r = Running r' \<and> calm r' \<and> arch_of (hart r') = b"
  using assms
proof (induction arbitrary: envs rule: isa_run.induct)
  case (start a)
  then show ?case by (simp add: main_loop.simps calm_def undisturbed_def)
next
  case (step n a b len i)
  obtain es e where envs: "envs = es @ [e]" "length es = n"
    using step.prems(3) by (cases envs rule: rev_cases) auto
  obtain q where q: "main_loop ok sf es r = Running q" "calm q" "arch_of (hart q) = b"
    using step.IH [OF step.prems(1,2) envs(2)] step.prems(4) envs(1) by auto
  obtain r' where r': "loop_body ok sf e q = Inr (False, r')" "calm r'" "arch_of (hart r') = isa_step len i b"
    using loop_step [OF q(2), of e len i ok sf] step.hyps(2,3) step.prems(4) q(3) envs(1) by auto
  have "\<not> terminated (hart q)" "\<not> terminated (hart r')" using q(2) r'(2) by (simp_all add: calm_def undisturbed_def)
  then have "main_loop ok sf [e] q = Running r'" using r'(1) by (simp add: main_loop.simps)
  with q(1) r' show ?case by (simp add: envs(1) main_loop_append)
qed

text \<open>
  C3. The emulator implements the architecture: from an undisturbed machine-mode hart, every execution of n
  instructions of RV32IMC (with Zicond and FENCE) that the architecture allows (the instructions decoded from memory itself, with
  aligned data accesses in RAM) is what n iterations of the run loop do to the registers, the program counter and memory, whatever bytes but Ctrl-]
  the console delivers meanwhile and whatever the floating-point library and the allocator answer.
\<close>

theorem loop_refines_isa:
  assumes "isa_run n (arch_of (hart r)) b" "calm r" "length envs = n" "\<forall>env\<in>set envs. no_escape env"
  shows "\<exists>r'. main_loop ok sf envs r = Running r' \<and> arch_of (hart r') = b \<and> calm r'"
  using loop_simulates [OF assms(1) refl assms(2-4)] by blast

text \<open>A program ends with an \<open>ecall\<close> when a7 is 93.\<close>

definition exits :: "arch \<Rightarrow> bool" where
  "exits a \<longleftrightarrow> fetches a 4 (Plain P_ecall) \<and> ar_regs a 17 = 93"

lemma retire_exit:
  "terminated (retire (s\<lparr>terminated := b\<rparr>)) = b" "main_memory (retire (s\<lparr>terminated := b\<rparr>)) = main_memory s"
  "reg_read r (retire (s\<lparr>terminated := b\<rparr>)) = reg_read r s" "just_trapped (retire (s\<lparr>terminated := b\<rparr>)) = just_trapped s"
  by (simp_all add: retire_def Let_def case_prod_unfold reg_read_def)

lemma exit_step:
  assumes "calm r" "no_escape env" "exits (arch_of (hart r))"
  shows "\<exists>r'. loop_body ok sf env r = Inr (False, r') \<and> terminated (hart r') \<and>
    ar_regs (arch_of (hart r')) = ar_regs (arch_of (hart r)) \<and> main_memory (hart r') = main_memory (hart r)"
proof -
  have f: "fetches (arch_of (hart r)) 4 (Plain P_ecall)" "gpr (hart r) 17 = 93"
    using assms(3) by (simp_all add: exits_def reg_read_def)
  have "perform ok (Plain P_ecall) s = Inr (s\<lparr>terminated := True\<rparr>)" if "arch_of s = arch_of (hart r)" for s
  proof -
    have "reg_read 17 s = ar_regs (arch_of s) 17" by simp
    also have "\<dots> = 93" unfolding that using f(2) by (simp add: reg_read_def)
    finally show ?thesis by (simp add: insi_i_ecall_def reg_read_def)
  qed
  then have "\<exists>u. exec ok sf (load_le 4 (pc s) (main_memory s)) s = Inr u \<and> (\<exists>t. u = t\<lparr>terminated := True\<rparr> \<and> arch_of t = arch_of (hart r) \<and> undisturbed t)"
    if "arch_of s = arch_of (hart r)" "undisturbed s" for s
    using exec_fetches [OF that(2), of 4 "Plain P_ecall" ok sf] f(1) that
    by (intro exI [of _ "s\<lparr>terminated := True\<rparr>"] exI [of _ s] conjI) simp_all
  from loop_perform [OF assms(1,2) f(1) this]
  obtain t inp where t: "arch_of t = arch_of (hart r)" "undisturbed t"
    and l: "loop_exec ok sf env r = Inr (False, r\<lparr>hart := retire (t\<lparr>terminated := True\<rparr>), input := inp, last_fetch_pc := pc (hart r)\<rparr>)"
    by auto
  have "reg_read x t = reg_read x (hart r)" "main_memory t = main_memory (hart r)" for x
    by (simp_all only: arch_of_fields [symmetric] t(1))
  moreover have "\<not> just_trapped t" using t(2) by (simp add: undisturbed_def)
  ultimately show ?thesis using assms(1)
    by (simp add: loop_body_def l spin_arm_def spin_detect_def calm_def retire_exit fun_eq_iff)
qed

lemma program_runs_to_exit:
  assumes "isa_run n (arch_of (hart r)) b" "exits b" "calm r" "n < length envs" "\<forall>env\<in>set envs. no_escape env"
  shows "\<exists>r'. main_loop ok sf envs r = Stopped r' \<and> ar_regs (arch_of (hart r')) = ar_regs b \<and> main_memory (hart r') = ar_mem b"
proof -
  obtain es e es' where envs: "envs = es @ e # es'" "length es = n"
    by (rule that [OF id_take_nth_drop [OF assms(4)]]) (use assms(4) in simp)
  obtain q where q: "main_loop ok sf es r = Running q" "calm q" "arch_of (hart q) = b"
    using loop_simulates [OF assms(1) refl assms(3) envs(2)] assms(5) envs(1) by auto
  then obtain r' where r': "loop_body ok sf e q = Inr (False, r')" "terminated (hart r')"
    "ar_regs (arch_of (hart r')) = ar_regs b" "main_memory (hart r') = ar_mem b"
    using exit_step [OF q(2), of e ok sf] assms(2,5) envs(1) arch_of_fields(3) [of "hart q"] by auto
  have "\<not> terminated (hart q)" using q(2) by (simp add: calm_def undisturbed_def)
  then have "main_loop ok sf (e # es') q = Stopped (r'\<lparr>input := uart_input_cleanup (input r')\<rparr>)"
    using r'(1,2) by (subst main_loop.simps, simp, subst main_loop.simps, simp)
  then show ?thesis using q(1) r'(3,4) by (simp add: envs(1) main_loop_append)
qed

text \<open>A hart at the instruction \<open>addi x5, x0, 1\<close>.\<close>

definition quiet_input :: uart_input where
  "quiet_input = \<lparr>uart_input_active = False, uart_esc_held = False, uart_terminal_raw = False,
     uart_quit_requested = False, epfd_open = False\<rparr>"

definition addi_demo :: run where
  "addi_demo = run_start True quiet_input
     ((reset_state 0x80000000)\<lparr>main_memory := store_le 4 0x80000000 (encode (Imm I_addi 5 0 1)) (\<lambda>_. 0)\<rparr>)"

theorem loop_refines_isa_witness:
  "\<exists>r. main_loop True order_softfloat [idle_host] addi_demo = Running r \<and> reg_read 5 (hart r) = 1 \<and> pc (hart r) = 0x80000004"
proof -
  let ?a = "arch_of (hart addi_demo)" and ?i = "Imm I_addi 5 0 1"
  have "fetches ?a 4 ?i"
    by (simp add: fetches_def addi_demo_def run_start_def imm12_def encode_low load_store_le ram32_def in_clint_def in_uart_def in_plic_def
        del: encode.simps)
  then have "isa_run (Suc 0) ?a (isa_step 4 ?i ?a)" by (rule isa_run.step [OF isa_run.start]) simp
  moreover have "csr_wf (reset_state 0x80000000)" using emu_inv_reset emu_inv_wf by blast
  then have "calm addi_demo"
    by (simp add: calm_def undisturbed_def addi_demo_def run_start_def quiet_input_def csr_init_at going_on_def)
      (simp add: reset_state_eq init_csr_table_def zero_state_def)
  moreover have "\<forall>env\<in>set [idle_host]. no_escape env" by (simp add: no_escape_def idle_host_def)
  ultimately obtain r where r: "main_loop True order_softfloat [idle_host] addi_demo = Running r"
    "arch_of (hart r) = isa_step 4 ?i ?a"
    using loop_refines_isa [of "Suc 0" addi_demo _ "[idle_host]" True order_softfloat] by auto
  have "reg_read 5 (hart r) = ar_regs (arch_of (hart r)) 5" "pc (hart r) = ar_pc (arch_of (hart r))" by simp_all
  with r(1) show ?thesis unfolding r(2)
    by (intro exI [of _ r]) (simp add: advance_def put_def addi_demo_def run_start_def)
qed

section \<open>From a file to its exit\<close>

lemma boot_calm:
  assumes "boot True cfg = Inr s" "even (program_base cfg)" "going_on inp"
  shows "calm (run_start f inp s)"
proof (rule boot_stages [OF assms(1)])
  fix m g
  assume s: "s = start_at (program_base cfg) (zero_state\<lparr>main_memory := m, gpr := g\<rparr>)"
  have "csr_wf s" using boot_inv [OF assms(1)] by (simp add: emu_inv_def)
  moreover have "csr_val CSR_MSTATUS s = 0" "privilege s = PRV_MACHINE" "s_tcontrol s = 0" "\<not> just_trapped s" "\<not> terminated s"
    "pc s = program_base cfg"
    unfolding s start_at_staged
    by (simp_all add: csr_val_def reset_state_eq init_csr_table_def zero_state_def csr_init_at)
  ultimately show ?thesis using assms(2,3) by (simp add: calm_def run_start_def undisturbed_def)
qed

lemma start_input_going_on: "going_on (start_input debugger tty opts)"
  by (simp add: going_on_def start_input_def uart_input_setup_def Let_def)

text \<open>
  When the emulator stages the files it is given, and the architecture, started at the program's base in the staged memory,
  reaches an \<open>ecall\<close> with a7 = 93 after n instructions, the run loop stops with the architecture's registers and memory.
\<close>

lemma booted_program_runs:
  assumes "boot True cfg = Inr s" "even (program_base cfg)" "going_on inp" "\<forall>env\<in>set envs. no_escape env"
    and "isa_run n (arch_of s) b" "exits b" "n < length envs"
  shows "\<exists>r. main_loop ok sf envs (run_start f inp s) = Stopped r \<and>
    ar_regs (arch_of (hart r)) = ar_regs b \<and> main_memory (hart r) = ar_mem b"
proof -
  have "isa_run n (arch_of (hart (run_start f inp s))) b" using assms(5) by (simp add: run_start_def)
  then show ?thesis by (rule program_runs_to_exit [OF _ assms(6) boot_calm [OF assms(1-3)] assms(7,4)])
qed

text \<open>A file with the program \<open>c.li a0, 6; addi a7, x0, 93; mul a0, a0, a7; ecall\<close>.\<close>

definition mul_file :: host_file where
  "mul_file = demo_file [0x19, 0x45, 0x93, 0x08, 0xD0, 0x05, 0x33, 0x05, 0x15, 0x03, 0x73, 0, 0, 0]"

definition mul_config :: boot_config where
  "mul_config = \<lparr>program = mul_file, program_base = 0x1000, initrd = None, fdt_at = None, extra_slots = []\<rparr>"

lemma mul_boots:
  obtains s where "boot True mul_config = Inr s" "pc s = 0x1000"
    "fetches (arch_of s) 2 (Imm I_addi 10 0 6)"
    "load_le 4 0x1002 (main_memory s) = encode (Imm I_addi 17 0 93)"
    "load_le 4 0x1006 (main_memory s) = encode (Reg R_mul 10 10 17)"
    "load_le 4 0x100A (main_memory s) = encode (Plain P_ecall)"
proof -
  let ?staged = "stage 0x1000 (contents mul_file) zero_state"
  let ?s = "start_at 0x1000 ?staged"
  have b: "boot True mul_config = Inr ?s"
    by (simp add: boot_def init_mem_zero load_program_def map_initrd_def place_fdt_def place_initrd_def mul_config_def
        mul_file_def demo_file_def map_file_def)
  have m: "main_memory ?s = main_memory ?staged" "pc ?s = 0x1000"
    using start_at_staged [where a = "0x1000" and g = "gpr zero_state" and m = "main_memory ?staged"]
    by (simp_all add: stage_def reset_state_eq init_csr_table_def zero_state_def)
  show thesis
    by (rule that [OF b m(2)]; simp only: fetches_def arch_of_fields m; simp add: load_le_def upt_rec stage_def mul_file_def
        demo_file_def enc_i_def enc_r_def ram32_def in_clint_def in_uart_def in_plic_def imm12_def
        decompress_def decompress_q1_def compressed_immediates cfield_def c_imm6_def sext6_def)
qed

lemma mul_runs:
  obtains s b where "boot True mul_config = Inr s" "isa_run 3 (arch_of s) b" "exits b" "ar_regs b 10 = 558"
proof (rule mul_boots)
  fix s
  assume s: "boot True mul_config = Inr s" "pc s = 0x1000" "fetches (arch_of s) 2 (Imm I_addi 10 0 6)"
    and w: "load_le 4 0x1002 (main_memory s) = encode (Imm I_addi 17 0 93)"
    "load_le 4 0x1006 (main_memory s) = encode (Reg R_mul 10 10 17)"
    "load_le 4 0x100A (main_memory s) = encode (Plain P_ecall)"
  define a1 where "a1 = isa_step 2 (Imm I_addi 10 0 6) (arch_of s)"
  define a2 where "a2 = isa_step 4 (Imm I_addi 17 0 93) a1"
  define a3 where "a3 = isa_step 4 (Reg R_mul 10 10 17) a2"
  note steps = a1_def a2_def a3_def advance_def put_def
  have ram: "ram32 0x1002" "ram32 0x1006" "ram32 0x100A"
    by (simp_all add: ram32_def in_clint_def in_uart_def in_plic_def)
  have pcs: "ar_pc a1 = 0x1002" "ar_pc a2 = 0x1006" "ar_pc a3 = 0x100A"
    and mem: "ar_mem a1 = main_memory s" "ar_mem a2 = main_memory s" "ar_mem a3 = main_memory s"
    and regs: "ar_regs a3 10 = 558" "ar_regs a3 17 = 93"
    using s(2) by (simp_all add: steps)
  have f: "fetches a1 4 (Imm I_addi 17 0 93)" "fetches a2 4 (Reg R_mul 10 10 17)" "fetches a3 4 (Plain P_ecall)"
    by (simp_all add: fetches_def ram pcs mem w imm12_def enc_i_def enc_r_def)
  have "isa_run (Suc 0) (arch_of s) a1"
    unfolding a1_def by (rule isa_run.step [OF isa_run.start s(3)]) simp
  then have "isa_run (Suc (Suc 0)) (arch_of s) a2"
    unfolding a2_def by (rule isa_run.step [OF _ f(1)]) simp
  then have "isa_run (Suc (Suc (Suc 0))) (arch_of s) a3"
    unfolding a3_def by (rule isa_run.step [OF _ f(2)]) simp
  then have "isa_run 3 (arch_of s) a3" by (simp add: numeral_3_eq_3)
  moreover have "exits a3" using f(3) by (simp add: exits_def regs)
  ultimately show thesis using that [OF s(1)] regs(1) by blast
qed

end
