(* ===== verification/Spec2Isabelle.thy ===== *)
theory Spec2Isabelle
  imports Listing Startup Isa_Run
begin

text \<open>
  A verification library for RISCVemu, an emulator of a single RV32 hart (IMAFDQC with Zicsr, Zifencei,
  Zicntr, Zicond, Sdtrig and SV32 paging) with a CLINT, a PLIC and a 16550 UART, written in C.

  \<^bold>\<open>The program.\<close> \<open>main\<close> (src/src/emu.c) reads the command line, maps the program, an optional initrd and extra binaries
  into the emulated RAM, optionally builds a device tree, resets the CSR file and runs a loop: take a
  pending interrupt, poll the host's input for the UART, fetch through the page tables and the
  execution triggers, decode and execute one instruction, advance the devices and the counters. The hart,
  the CSR table, the devices and the other file-level variables of the sources are one record,
  \<open>emu\<close>; an operation of the code is a function on it. \<open>fatal\<close>, which ends the process, is the left side of
  a sum (\<open>'a res\<close>).

  \<^bold>\<open>The theories\<close>, in the order in which they depend on each other, with the sources they model.
  \<^item> \<open>Prelude\<close>: C integer types, shifts, the result type, bit-level simplification sets.
  \<^item> \<open>Hashmap\<close>: src/include/hashmap_u32.h, the open-addressing table of reservations. It refines a finite
    map, allocation failures included; the interface is the locale \<open>key_store\<close>.
  \<^item> \<open>Clint\<close>, \<open>Plic\<close>, \<open>Uart\<close>: src/src/device and src/include/device. Byte-wise registers, interrupt
    arbitration and claim/complete, the receive FIFO, interrupt levels and the host input with its quit escape.
  \<^item> \<open>Machine\<close>: the state (src/include/emu.h) and the field and register accessors (src/include/exec.h).
  \<^item> \<open>Csr\<close>: src/src/extension/zicsr_extension.c and the callbacks of the other extensions. CSR accesses nest
    through callbacks; the fuel of two levels is proved to be enough on every well-formed table.
  \<^item> \<open>Trap\<close>: src/src/extension/system.c: exceptions, interrupts, \<open>mret\<close>, \<open>sret\<close>, the CSR instructions,
    reset; the machine invariant \<open>emu_inv\<close>, which every operation of every theory keeps. The interrupt taken is compared with
    the one the privileged architecture selects.
  \<^item> \<open>Memory\<close>: src/include/mem.h, src/src/mem.c: the address map, little-endian RAM, reservations.
  \<^item> \<open>Sdtrig\<close>, \<open>Mmu\<close>: debug triggers (src/src/extension/sdtrig_extension.c) and SV32 translation
    (src/include/mmu.h) against a relational specification with the 34-bit physical addresses and the reserved
    encodings of the architecture.
  \<^item> \<open>Fdt\<close>: src/src/device/fdt.c, the device tree writer, against a reader of the format; the machine's tree is the intended one
    (\<open>intended_tree\<close>) with the two empty strings the code adds.
  \<^item> \<open>Boot\<close>: the staging of images in \<open>main\<close>, and src/src/fmap.c.
  \<^item> \<open>Base_Insn\<close>, \<open>M_Ext\<close>, \<open>A_Ext\<close>, \<open>C_Ext\<close>: the instructions of src/include/basic_instructions.h and
    src/include/extension, src/src/extension/c_extension.c.
  \<^item> \<open>Fpu\<close>, \<open>Fpu_Correct\<close>: src/src/extension/f_extension.c for the four precisions.
  \<^item> \<open>Exec\<close>: src/src/exec.c, immediates and dispatch.
  \<^item> \<open>Asm\<close>: a datatype of instructions with their encoding, against which decoder and disassembler are stated.
  \<^item> \<open>Libc\<close>, \<open>Getopt\<close>: the conversions of \<open>printf\<close> and \<open>scanf\<close>, the string functions and \<open>getopt_long\<close> as the
    sources use them. The locale \<open>numeral\<close> is the contract between printing a number and reading it back.
  \<^item> \<open>Misaligned\<close>: the functions that the build option \<open>CONFIG_SUPPORT_MISALIGN\<close> changes, up to the decoder of that
    build (suffix \<open>_m\<close>), and what the option changes.
  \<^item> \<open>Isa\<close>, \<open>Isa_Run\<close>: the unprivileged RV32IMC architecture (with Zicond and FENCE) as a specification of its own (registers, \<open>pc\<close>, memory;
    arithmetic on integers; compressed formats by their tables), and the refinement of it by the run loop.
  \<^item> \<open>Disasm\<close>, \<open>Listing\<close>: src/src/disasm.c, against the assembly language of \<open>Asm\<close>'s instructions, and which of them it misprints.
  \<^item> \<open>Main_Loop\<close>: the run loop of src/src/emu.c and its spin detector.
  \<^item> \<open>Debugger\<close>, \<open>Debug_Loop\<close>, \<open>Debug_Commands\<close>: every command of src/src/debugger.c, the run loop of the build with
    the debugger, and what typed lines do. The locale \<open>observation\<close> is what a command that only looks at the machine keeps.
  \<^item> \<open>Logger\<close>: src/src/logger.c.
  \<^item> \<open>Cmdline\<close>, \<open>Startup\<close>: the command line of \<open>main\<close> up to the run loop, and what it means.

  \<^bold>\<open>What is proved.\<close> Functional correctness of the components against specifications stated on bits,
  integers, finite maps, trees or relations; round trips (trap entry and return, store and load, assemble and
  decode, print and type a number, write and parse a device tree, the command line); that the debugger, while it is not
  asked for, single-steps or inspects, leaves the program's run alone; that the run loop executes a program as the
  architecture does, from the file to its exit; and one invariant of the whole machine, below, that
  holds in every state the run loop reaches from a successful boot, with or without the debugger. Where the code departs from the architecture
  or from its own comments the departure is modelled as it is, and the theorem says where it is and what the code does there.

  \<^bold>\<open>Parameters.\<close> Code outside the repository is an argument: the Berkeley SoftFloat library is the record
  \<open>softfloat\<close> of its operations, the host's system calls are \<open>host_env\<close>, \<open>host_tty\<close> and \<open>host_file\<close>, its clock
  the texts of the time stamps, its conversions between floating-point numbers and text \<open>host_fp\<close>, the success of
  an allocation a Boolean (\<open>alloc_ok\<close>, \<open>calloc_ok\<close>, the record \<open>alloc\<close>). The theorems hold for every value of them,
  except that the invariant of the run loop assumes that the table of reservations can grow.

  \<^bold>\<open>Loops.\<close> The probe sequence of the hash table is bounded by its capacity; the padding loop of the
  device tree writer has a termination proof; the run loop is a step relation (\<open>loop_reaches\<close>) and a
  function of the list of the host's answers (\<open>main_loop\<close>), so it may run for ever, and that it does not in the
  tests' final spin is a theorem. The debugger's prompt and string dump have termination proofs; its range dump is a
  partial function, and when it returns is a theorem.

  \<^bold>\<open>Not modelled\<close>: freeing memory; the messages of \<open>getopt_long\<close> itself and
  the text of the messages that \<open>fatal\<close> is called with during staging, of which the model keeps the fixed part; the test
  programs under src/run. The order of C's undefined signed overflow in \<open>insm_r_mul\<close> is taken as wrap-around, as
  compilers produce it.
\<close>

section \<open>The whole emulator\<close>

text \<open>
  C1. From a successful boot, whatever the program, the host's input and the floating-point library do, every state
  the run loop reaches satisfies the machine invariant: the CSR table keeps its layout and misa, the
  reservation table is a well-formed hash table, x0 is zero, the privilege is one of the modes, the
  selected trigger exists, and the UART and the PLIC are consistent with each other; the spin detector's window
  has eight entries and its position is inside it, and its count is below 64 while the hart runs.
\<close>

theorem emulator_invariant:
  assumes "boot True cfg = Inr s" and "loop_reaches sf (run_start (fdt_at cfg \<noteq> None) inp s) r"
  shows "loop_inv r"
  using loop_reaches_inv [OF assms(2)] loop_inv_start [OF boot_inv [OF assms(1)]] by blast

theorem emulator_invariant_witness:
  "\<exists>s. boot True demo_config = Inr s \<and>
     loop_inv ((run_start True (input spin_demo) s)\<lparr>input := uart_input_signal (input spin_demo)\<rparr>)"
proof -
  obtain s where s: "boot True demo_config = Inr s" using demo_boots by blast
  have "loop_reaches order_softfloat (run_start True (input spin_demo) s)
      ((run_start True (input spin_demo) s)\<lparr>input := uart_input_signal (input spin_demo)\<rparr>)"
    using loop_reaches.signal [OF loop_reaches.start, of order_softfloat "run_start True (input spin_demo) s"]
    by (simp add: run_start_def)
  moreover have "fdt_at demo_config \<noteq> None" by (simp add: demo_config_def)
  ultimately show ?thesis using emulator_invariant [OF s, of order_softfloat "input spin_demo"] s by auto
qed

text \<open>
  C2. The debugger cannot break the machine: whatever the command line, the lines typed at the prompt, the host's input
  and SIGINTs at any time, every state the loop of the debugging build reaches satisfies the machine invariant.
\<close>

theorem debugger_keeps_invariant:
  assumes "launch alloc debugger files tty prog args inp = Go x" and "debug_reaches sf hp x y"
  shows "loop_inv (run_st y)"
  using debug_reaches_inv [OF assms(2) launch_inv [OF assms(1)]] .

theorem debugger_keeps_invariant_witness:
  "\<exists>x. launch demo_alloc True (\<lambda>_. demo_file [0x6F, 0, 0, 0]) demo_tty ''emu'' demo_args [] = Go x \<and>
     loop_inv (run_st (x\<lparr>dbg_st := handle_sigint (dbg_st x)\<rparr>))"
proof -
  obtain x where x: "launch demo_alloc True (\<lambda>_. demo_file [0x6F, 0, 0, 0]) demo_tty ''emu'' demo_args [] = Go x"
    using demo_launches by blast
  have "debug_reaches order_softfloat demo_fp x (x\<lparr>dbg_st := handle_sigint (dbg_st x)\<rparr>)"
    by (intro debug_reaches.sigint debug_reaches.start)
  from debugger_keeps_invariant [OF x this] x show ?thesis by blast
qed

text \<open>
  C4. The whole path of a program: when the command line is accepted and the files are staged, and the architecture,
  started at the program's base in the staged memory, reaches an \<open>ecall\<close> with a7 = 93 after n instructions of RV32IMC,
  then the emulator stops, and its registers and memory are the architecture's, whatever bytes but Ctrl-] the console
  delivers meanwhile. With \<open>--console\<close> the same holds of the build with the debugger, whatever \<open>--debug\<close> and
  \<open>--breakpoint\<close> options are given.
\<close>

theorem launched_program_runs:
  assumes "launch alloc debugger files tty prog args inp = Go x" "parse_args alloc debugger prog args = Go (opts, name, base)"
    and "even base" "isa_run n (arch_of (hart (run_st x))) b" "exits b" "n < length envs" "\<forall>env\<in>set envs. no_escape env"
  shows "\<exists>r. main_loop True sf envs (run_st x) = Stopped r \<and>
    ar_regs (arch_of (hart r)) = ar_regs b \<and> main_memory (hart r) = ar_mem b \<and>
    (debugger \<and> console_mode opts \<longrightarrow> (\<exists>g. debug_loop True sf hp envs x = with_debugger x g (Stopped r)))"
proof (rule launch_cases [OF assms(1)])
  fix opts' name' base' s
  let ?cfg = "machine_config files opts' name' base'"
  assume parsed: "parse_args alloc debugger prog args = Go (opts', name', base')"
    and boot: "boot True ?cfg = Inr s" and x: "run_st x = run_start (fdt_enabled opts') (start_input debugger tty opts') s"
  have "even (program_base ?cfg)" "isa_run n (arch_of s) b"
    using assms(2-4) parsed x by (simp_all add: machine_config_def run_start_def)
  from booted_program_runs [OF boot this(1) start_input_going_on assms(7) this(2) assms(5,6)]
  obtain r where r: "main_loop True sf envs (run_st x) = Stopped r"
    "ar_regs (arch_of (hart r)) = ar_regs b" "main_memory (hart r) = ar_mem b"
    unfolding x by blast
  then show ?thesis using console_disables_debugger [of alloc prog args opts name base files tty inp x sf hp envs] assms(1,2)
    by auto
qed

theorem launched_program_runs_witness:
  "\<exists>x r g. launch demo_alloc True (\<lambda>_. mul_file) demo_tty ''emu'' demo_args [] = Go x \<and>
     debug_loop True order_softfloat demo_fp (replicate 4 idle_host) x = with_debugger x g (Stopped r) \<and> reg_read 10 (hart r) = 558"
proof (rule mul_runs)
  fix s b
  assume s: "boot True mul_config = Inr s" "isa_run 3 (arch_of s) b" "exits b" "ar_regs b 10 = 558"
  let ?opts = "default_options\<lparr>console_mode := True, debug_mode := True\<rparr>"
  have "machine_config (\<lambda>_. mul_file) ?opts ''p'' 0x1000 = mul_config"
    by (simp add: machine_config_def mul_config_def default_options_def no_loads_def)
  moreover have "calloc_ok demo_alloc" by (simp add: demo_alloc_def)
  ultimately obtain x where x: "launch demo_alloc True (\<lambda>_. mul_file) demo_tty ''emu'' demo_args [] = Go x"
    "hart (run_st x) = s"
    using s(1) by (simp add: launch_def demo_parse run_start_def)
  have "\<forall>env\<in>set (replicate 4 idle_host). no_escape env" by (simp add: no_escape_def idle_host_def)
  then obtain r g where r: "debug_loop True order_softfloat demo_fp (replicate 4 idle_host) x = with_debugger x g (Stopped r)"
    "ar_regs (arch_of (hart r)) = ar_regs b"
    using launched_program_runs [OF x(1) demo_parse, of 3 b "replicate 4 idle_host" order_softfloat demo_fp] s(2,3) x(2)
    by auto
  have "reg_read 10 (hart r) = ar_regs (arch_of (hart r)) 10" by simp
  with x(1) r s(4) show ?thesis by (intro exI [of _ x] exI [of _ r] exI [of _ g]) simp
qed

end
